(* ===== verification/Prelude.thy ===== *)
theory Prelude
  imports Main "HOL-Library.Monad_Syntax"
begin

section \<open>Prelude: faults, loops, casts and list lemmas\<close>

text \<open>
  What every component of the development shares: the result type in which the C++ code's
  exceptions, failed assertions, undefined behaviour and non-termination are values; the
  combinators that thread it through a statement sequence or a loop; the predicate
  \<open>ensures\<close> (the computation does not fault and its value satisfies a predicate) with the
  rules that make it compositional; the integer conversions of the source; and generic list
  lemmas.
\<close>

subsection \<open>Faults and results\<close>

text \<open>
  \<open>OutOfRange\<close> and \<open>InvalidArgument\<close> are the exceptions the source throws
  (\<^verbatim>\<open>std::out_of_range\<close>, \<^verbatim>\<open>std::invalid_argument\<close>), \<open>RuntimeError\<close> is
  \<^verbatim>\<open>std::runtime_error\<close>; \<open>AssertFailure\<close> is a failed \<^verbatim>\<open>assert\<close>;
  \<open>UndefinedBehaviour\<close> is an unchecked access outside a vector, a dereference of an empty
  optional or of a null pointer, or a signed overflow; \<open>Diverges\<close> is a loop that does not reach its
  exit; \<open>NotFinite\<close> marks a \<^verbatim>\<open>float\<close> that is infinite or not a number, which the rationals of the
  model do not have.
\<close>

datatype fault =
    OutOfRange | InvalidArgument | RuntimeError | AssertFailure | UndefinedBehaviour | Diverges | NotFinite

type_synonym 'a result = "fault + 'a"

definition bindR :: "'a result \<Rightarrow> ('a \<Rightarrow> 'b result) \<Rightarrow> 'b result" where
  "bindR m f = (case m of Inl e \<Rightarrow> Inl e | Inr x \<Rightarrow> f x)"

fun foldR :: "('x \<Rightarrow> 's \<Rightarrow> 's result) \<Rightarrow> 'x list \<Rightarrow> 's \<Rightarrow> 's result" where
  "foldR f [] s = Inr s"
| "foldR f (x # xs) s = bindR (f x s) (foldR f xs)"

definition of_option :: "fault \<Rightarrow> 'a option \<Rightarrow> 'a result" where
  "of_option e x = (case x of None \<Rightarrow> Inl e | Some v \<Rightarrow> Inr v)"

definition nth_or_fault :: "'a list \<Rightarrow> nat \<Rightarrow> 'a result" where
  "nth_or_fault xs i = (if i < length xs then Inr (xs ! i) else Inl UndefinedBehaviour)"

lemma bindR_simps [simp]:
  "bindR (Inl e) f = Inl e"
  "bindR (Inr x) f = f x"
  by (simp_all add: bindR_def)

lemma bindR_Inr_iff: "bindR m f = Inr y \<longleftrightarrow> (\<exists>x. m = Inr x \<and> f x = Inr y)"
  by (cases m) auto

lemma bindR_assoc: "bindR (bindR m f) g = bindR m (\<lambda>x. bindR (f x) g)"
  by (cases m) auto

lemma bindR_cong [fundef_cong]:
  "m = m' \<Longrightarrow> (\<And>x. m' = Inr x \<Longrightarrow> f x = f' x) \<Longrightarrow> bindR m f = bindR m' f'"
  by (cases m') auto

lemma of_option_simps [simp]:
  "of_option e None = Inl e"
  "of_option e (Some v) = Inr v"
  by (simp_all add: of_option_def)

lemma nth_or_fault_in [simp]: "i < length xs \<Longrightarrow> nth_or_fault xs i = Inr (xs ! i)"
  by (simp add: nth_or_fault_def)

lemma foldR_append: "foldR f (xs @ ys) s = bindR (foldR f xs s) (foldR f ys)"
  by (induction xs arbitrary: s) (auto simp: bindR_assoc cong: bindR_cong)

subsection \<open>Fault-free computations\<close>

text \<open>
  \<open>ensures m Q\<close> says that \<open>m\<close> returns a value and that value satisfies \<open>Q\<close>: total
  correctness, so a proof of it is also a proof that no exception is thrown and no
  undefined behaviour is reached. The equations of the collection \<open>ensures_simps\<close> push it through the
  combinators.
\<close>

definition ensures :: "'a result \<Rightarrow> ('a \<Rightarrow> bool) \<Rightarrow> bool" where
  "ensures m Q = (case m of Inl _ \<Rightarrow> False | Inr x \<Rightarrow> Q x)"

named_theorems ensures_simps

lemma ensures_Inl [simp, ensures_simps]: "ensures (Inl e) Q \<longleftrightarrow> False"
  by (simp add: ensures_def)

lemma ensures_Inr [simp, ensures_simps]: "ensures (Inr x) Q \<longleftrightarrow> Q x"
  by (simp add: ensures_def)

lemma ensures_bindR [simp, ensures_simps]:
  "ensures (bindR m f) Q \<longleftrightarrow> ensures m (\<lambda>x. ensures (f x) Q)"
  by (cases m) auto

lemma ensures_iff: "ensures m Q \<longleftrightarrow> (\<exists>x. m = Inr x \<and> Q x)"
  by (cases m) auto

lemma ensures_mono: "ensures m P \<Longrightarrow> (\<And>x. P x \<Longrightarrow> Q x) \<Longrightarrow> ensures m Q"
  by (cases m) auto

lemma ensures_bindR_I: "ensures m P \<Longrightarrow> (\<And>x. P x \<Longrightarrow> ensures (f x) Q) \<Longrightarrow> ensures (bindR m f) Q"
  by (cases m) auto

lemma ensuresE:
  assumes "ensures m Q"
  obtains x where "m = Inr x" and "Q x"
  using assms by (auto simp: ensures_iff)

lemma ensures_conj: "ensures m P \<Longrightarrow> ensures m Q \<Longrightarrow> ensures m (\<lambda>x. P x \<and> Q x)"
  by (cases m) auto

text \<open>The loop rule: an invariant indexed by the elements still to be visited.\<close>

lemma ensures_foldR:
  assumes "I xs s"
    and "\<And>x ys t. I (x # ys) t \<Longrightarrow> set (x # ys) \<subseteq> set xs \<Longrightarrow> ensures (f x t) (I ys)"
  shows "ensures (foldR f xs s) (I [])"
  using assms
proof (induction xs arbitrary: s)
  case Nil
  then show ?case by simp
next
  case (Cons x xs)
  have "ensures (f x s) (I xs)"
    using Cons.prems(1) by (rule Cons.prems(2)) simp
  moreover have "ensures (foldR f xs t) (I [])" if "I xs t" for t
  proof (rule Cons.IH [OF that])
    fix y ys t
    assume "I (y # ys) t" and "set (y # ys) \<subseteq> set xs"
    then show "ensures (f y t) (I ys)"
      using Cons.prems(2) by auto
  qed
  ultimately show ?case
    by (auto intro: ensures_mono)
qed

lemma ensures_foldR_inv:
  assumes "I s" and "\<And>x t. x \<in> set xs \<Longrightarrow> I t \<Longrightarrow> ensures (f x t) I"
  shows "ensures (foldR f xs s) I"
  using assms by (intro ensures_foldR [where I = "\<lambda>_. I"]) auto

subsection \<open>Integer conversions\<close>

text \<open>
  \<open>to_size\<close> is \<^verbatim>\<open>static_cast<std::size_t>\<close> of an \<^verbatim>\<open>int\<close>: a negative value becomes
  the huge unsigned one. \<open>to_int32\<close> is \<^verbatim>\<open>static_cast<int>\<close> of a 64-bit integer: it keeps
  the low 32 bits, read as two's complement. Board coordinates (\<^verbatim>\<open>size_t\<close>, in range of a
  board held in memory) convert to \<^verbatim>\<open>int\<close> without loss and are written \<open>int r\<close>.
\<close>

definition to_size :: "int \<Rightarrow> nat" where
  "to_size i = (if i < 0 then nat (i + 2 ^ 64) else nat i)"

definition to_int32 :: "int \<Rightarrow> int" where
  "to_int32 i = (i + 2 ^ 31) mod 2 ^ 32 - 2 ^ 31"

lemma to_size_int [simp]: "to_size (int n) = n"
  by (simp add: to_size_def)

lemma to_size_nonneg: "0 \<le> i \<Longrightarrow> to_size i = nat i"
  by (simp add: to_size_def)

lemma to_int32_id: "- (2 ^ 31) \<le> i \<Longrightarrow> i < 2 ^ 31 \<Longrightarrow> to_int32 i = i"
  by (simp add: to_int32_def mod_pos_pos_trivial)

lemma to_int32_bounds: "- (2 ^ 31) \<le> to_int32 i \<and> to_int32 i < 2 ^ 31"
proof -
  have "0 \<le> (i + 2 ^ 31) mod 2 ^ 32" and "(i + 2 ^ 31) mod 2 ^ 32 < 2 ^ 32"
    by simp_all
  then show ?thesis
    by (simp add: to_int32_def)
qed

text \<open>The values of an \<^verbatim>\<open>int\<close>.\<close>

definition int32 :: "int \<Rightarrow> bool" where
  "int32 i \<longleftrightarrow> - (2 ^ 31) \<le> i \<and> i < 2 ^ 31"

lemma int32_1000: "int32 1000"
  by (simp add: int32_def)

lemma int32_fits: "int32 i \<Longrightarrow> to_int32 i = i"
  by (simp add: int32_def to_int32_id)

lemma int32_to_int32: "int32 (to_int32 i)"
  using to_int32_bounds by (simp add: int32_def)

subsection \<open>Lists\<close>

lemma find_Some_in: "find P xs = Some x \<Longrightarrow> x \<in> set xs \<and> P x"
  by (induction xs) (auto split: if_splits)

lemma list_update_nth_eq: "i < length xs \<Longrightarrow> (xs[i := v]) ! j = (if j = i then v else xs ! j)"
  by (simp add: nth_list_update)

text \<open>Removing the first element that satisfies a predicate (\<^verbatim>\<open>find_if\<close> and
  \<^verbatim>\<open>erase\<close>).\<close>

fun remove_first :: "('a \<Rightarrow> bool) \<Rightarrow> 'a list \<Rightarrow> 'a list" where
  "remove_first P [] = []"
| "remove_first P (x # xs) = (if P x then xs else x # remove_first P xs)"

lemma set_remove_first_subset: "set (remove_first P xs) \<subseteq> set xs"
  by (induction xs) auto

lemma remove_first_none: "(\<And>x. x \<in> set xs \<Longrightarrow> \<not> P x) \<Longrightarrow> remove_first P xs = xs"
  by (induction xs) auto

lemma distinct_map_remove_first: "distinct (map f xs) \<Longrightarrow> distinct (map f (remove_first P xs))"
proof (induction xs)
  case Nil
  then show ?case by simp
next
  case (Cons x xs)
  then show ?case
    using set_remove_first_subset [of P xs] by auto
qed

lemma set_remove_first_key:
  "distinct (map f xs) \<Longrightarrow> set (remove_first (\<lambda>y. f y = k) xs) = {y \<in> set xs. f y \<noteq> k}"
  by (induction xs) (auto simp: rev_image_eqI)

lemma set_map_remove_first_key:
  "distinct (map f xs) \<Longrightarrow> f ` set (remove_first (\<lambda>y. f y = k) xs) = f ` set xs - {k}"
  by (auto simp: set_remove_first_key)

lemma remove_first_filter:
  "distinct (map f xs) \<Longrightarrow> remove_first (\<lambda>y. f y = k) xs = filter (\<lambda>y. f y \<noteq> k) xs"
  by (induction xs) (auto simp: rev_image_eqI intro!: filter_True [symmetric])

text \<open>A loop that collects what satisfies a test.\<close>

lemma foldR_collect:
  assumes "\<And>x. x \<in> set xs \<Longrightarrow> test x = Inr (P x)"
  shows "foldR (\<lambda>x acc. bindR (test x) (\<lambda>ok. Inr (if \<not> ok then acc @ [x] else acc))) xs acc =
           Inr (acc @ filter (\<lambda>x. \<not> P x) xs)"
  using assms by (induction xs arbitrary: acc) auto

end
