(* ===== verification/Piece_Token.thy ===== *)
theory Piece_Token
  imports Prelude
begin

section \<open>Pieces, positions and their text tokens\<close>

text \<open>
  The value types of \<^verbatim>\<open>src/src/model\<close>: \<^verbatim>\<open>Position\<close>, \<^verbatim>\<open>Piece\<close> and the two-character
  tokens (\<^verbatim>\<open>piece_token.cpp\<close>) by which boards are read, printed and sent to clients. The
  properties are the round trip between tokens and descriptors and the exact set of
  valid tokens.
\<close>

subsection \<open>Position and piece\<close>

record position =
  pos_row :: int
  pos_col :: int

datatype piece_color = White | Black

datatype piece_kind = King | Queen | Rook | Bishop | Knight | Pawn | Count

datatype piece_state = Idle | Moving | Captured

type_synonym cell = "nat \<times> nat"

type_synonym piece_id = nat

definition kInvalidId :: piece_id where
  "kInvalidId = 0"

record piece =
  pc_id :: piece_id
  pc_color :: piece_color
  pc_kind :: piece_kind
  pc_cell :: position
  pc_state :: piece_state

definition is_white :: "piece \<Rightarrow> bool" where
  "is_white p \<longleftrightarrow> pc_color p = White"

definition is_black :: "piece \<Rightarrow> bool" where
  "is_black p \<longleftrightarrow> pc_color p = Black"

definition is_same_color_as :: "piece \<Rightarrow> piece \<Rightarrow> bool" where
  "is_same_color_as p other \<longleftrightarrow>
     pc_id p \<noteq> kInvalidId \<and> pc_id other \<noteq> kInvalidId \<and> pc_color p = pc_color other"

definition is_opponent_of :: "piece \<Rightarrow> piece \<Rightarrow> bool" where
  "is_opponent_of p other \<longleftrightarrow>
     pc_id p \<noteq> kInvalidId \<and> pc_id other \<noteq> kInvalidId \<and> pc_color p \<noteq> pc_color other"

definition piece_eq :: "piece \<Rightarrow> piece \<Rightarrow> bool" where
  "piece_eq lhs rhs \<longleftrightarrow> pc_id lhs = pc_id rhs"

definition opposite :: "piece_color \<Rightarrow> piece_color" where
  "opposite c = (if c = White then Black else White)"

lemma opposite_simps [simp]:
  "opposite White = Black" "opposite Black = White" "opposite (opposite c) = c" "opposite c \<noteq> c"
  by (cases c; simp add: opposite_def)+

lemma color_cases: "(c :: piece_color) \<noteq> d \<longleftrightarrow> c = opposite d"
  by (cases c; cases d) (simp_all add: opposite_def)

subsection \<open>Tokens\<close>

definition kWhiteColor :: char where "kWhiteColor = CHR ''w''"
definition kBlackColor :: char where "kBlackColor = CHR ''b''"
definition kEmptyToken :: char where "kEmptyToken = CHR ''.''"

definition kPieceKindMappings :: "(piece_kind \<times> char) list" where
  "kPieceKindMappings =
     [(King, CHR ''K''), (Queen, CHR ''Q''), (Rook, CHR ''R''), (Bishop, CHR ''B''),
      (Knight, CHR ''N''), (Pawn, CHR ''P'')]"

definition color_to_char :: "piece_color \<Rightarrow> char" where
  "color_to_char c = (case c of White \<Rightarrow> kWhiteColor | Black \<Rightarrow> kBlackColor)"

definition kind_to_char :: "piece_kind \<Rightarrow> char" where
  "kind_to_char k =
     (case find (\<lambda>entry. fst entry = k) kPieceKindMappings of
        None \<Rightarrow> CHR ''P''
      | Some entry \<Rightarrow> snd entry)"

definition color_from_char :: "char \<Rightarrow> piece_color option" where
  "color_from_char c =
     (if c = kWhiteColor then Some White else if c = kBlackColor then Some Black else None)"

definition kind_from_char :: "char \<Rightarrow> piece_kind option" where
  "kind_from_char c = map_option fst (find (\<lambda>entry. snd entry = c) kPieceKindMappings)"

record piece_descriptor =
  pd_color :: piece_color
  pd_kind :: piece_kind

definition is_empty_token :: "string \<Rightarrow> bool" where
  "is_empty_token token \<longleftrightarrow> length token = 1 \<and> token ! 0 = kEmptyToken"

definition is_valid_token :: "string \<Rightarrow> bool" where
  "is_valid_token token =
     (if is_empty_token token then True
      else if length token \<noteq> 2 then False
      else if color_from_char (token ! 0) = None then False
      else kind_from_char (token ! 1) \<noteq> None)"

definition descriptor_from_token :: "string \<Rightarrow> piece_descriptor option" where
  "descriptor_from_token token =
     (if is_empty_token token then None
      else if \<not> is_valid_token token then None
      else (case (color_from_char (token ! 0), kind_from_char (token ! 1)) of
              (Some c, Some k) \<Rightarrow> Some \<lparr>pd_color = c, pd_kind = k\<rparr>
            | _ \<Rightarrow> None))"

definition to_token :: "piece_color \<Rightarrow> piece_kind \<Rightarrow> string" where
  "to_token c k = [color_to_char c, kind_to_char k]"

named_theorems token_defs

lemmas [token_defs] = kWhiteColor_def kBlackColor_def kEmptyToken_def kPieceKindMappings_def
  color_to_char_def kind_to_char_def color_from_char_def kind_from_char_def is_empty_token_def
  is_valid_token_def descriptor_from_token_def to_token_def

lemma kind_to_char_cases:
  "kind_to_char k = (case k of King \<Rightarrow> CHR ''K'' | Queen \<Rightarrow> CHR ''Q'' | Rook \<Rightarrow> CHR ''R''
     | Bishop \<Rightarrow> CHR ''B'' | Knight \<Rightarrow> CHR ''N'' | Pawn \<Rightarrow> CHR ''P'' | Count \<Rightarrow> CHR ''P'')"
  by (cases k) (simp_all add: token_defs)

lemma kind_from_char_iff:
  "kind_from_char c = Some k \<longleftrightarrow> k \<noteq> Count \<and> c = kind_to_char k"
  by (cases k) (auto simp: token_defs split: if_splits)

lemma color_from_char_iff: "color_from_char ch = Some c \<longleftrightarrow> ch = color_to_char c"
  by (cases c) (auto simp: token_defs split: if_splits)

lemma to_token_not_empty [simp]: "\<not> is_empty_token (to_token c k)"
  by (simp add: is_empty_token_def to_token_def)

lemma to_token_valid: "k \<noteq> Count \<Longrightarrow> is_valid_token (to_token c k)"
  using color_from_char_iff [of "color_to_char c" c] kind_from_char_iff [of "kind_to_char k" k]
  by (simp add: is_valid_token_def) (simp add: to_token_def)

lemma descriptor_to_token:
  "k \<noteq> Count \<Longrightarrow> descriptor_from_token (to_token c k) = Some \<lparr>pd_color = c, pd_kind = k\<rparr>"
  using color_from_char_iff [of "color_to_char c" c] kind_from_char_iff [of "kind_to_char k" k]
    to_token_valid [of k c]
  by (simp add: descriptor_from_token_def) (simp add: to_token_def)

lemma descriptor_from_token_SomeD:
  assumes "descriptor_from_token t = Some d"
  shows "pd_kind d \<noteq> Count \<and> t = to_token (pd_color d) (pd_kind d)"
proof -
  from assms have len: "length t = 2"
    by (auto simp: descriptor_from_token_def is_valid_token_def split: if_splits)
  then obtain x y where t: "t = [x, y]"
    by (auto simp: numeral_2_eq_2 length_Suc_conv)
  with assms have "color_from_char x = Some (pd_color d)" "kind_from_char y = Some (pd_kind d)"
    by (auto simp: descriptor_from_token_def split: if_splits option.splits prod.splits)
  then show ?thesis
    by (simp add: color_from_char_iff kind_from_char_iff to_token_def t)
qed

lemma valid_token_descriptor:
  "is_valid_token t \<Longrightarrow> \<not> is_empty_token t \<Longrightarrow> \<exists>d. descriptor_from_token t = Some d"
  by (cases "color_from_char (t ! 0)"; cases "kind_from_char (t ! 1)")
    (simp_all add: descriptor_from_token_def is_valid_token_def split: if_splits)

lemma to_token_inj:
  "k \<noteq> Count \<Longrightarrow> k' \<noteq> Count \<Longrightarrow> to_token c k = to_token c' k' \<longleftrightarrow> c = c' \<and> k = k'"
  by (metis descriptor_to_token option.inject piece_descriptor.ext_inject)

end
