(* ===== verification/Board_Model.thy ===== *)
theory Board_Model
  imports Piece_Token
begin

section \<open>The board: a grid of piece ids over a stable piece store\<close>

text \<open>
  \<^verbatim>\<open>BoardModel\<close> and \<^verbatim>\<open>PieceFactory\<close> of \<^verbatim>\<open>src/src/model\<close>. The grid \<open>cells\<close> holds
  piece ids and the store \<open>pieces\<close> is indexed by id minus one. Unchecked vector accesses
  of the source fault with \<open>UndefinedBehaviour\<close>, its exceptions are \<open>OutOfRange\<close> and
  \<open>InvalidArgument\<close>. The well-formedness invariant \<open>wf_board\<close> is the one the class comment
  states (grid and store agree on occupancy); the lemmas give each operation's effect on a
  well-formed board, show that it does not fault there, and that boards built from token rows
  are well formed.
\<close>

subsection \<open>State and queries\<close>

record board_model =
  cells :: "piece_id option list list"
  pieces :: "piece list"

definition empty_board :: board_model where
  "empty_board = \<lparr>cells = [], pieces = []\<rparr>"

definition rows :: "board_model \<Rightarrow> nat" where
  "rows b = length (cells b)"

definition cols :: "board_model \<Rightarrow> nat" where
  "cols b = (case cells b of [] \<Rightarrow> 0 | r # _ \<Rightarrow> length r)"

definition is_in_bounds :: "board_model \<Rightarrow> nat \<Rightarrow> nat \<Rightarrow> bool" where
  "is_in_bounds b row col =
     (if cells b = [] then False else row < length (cells b) \<and> col < length (hd (cells b)))"

definition contains :: "board_model \<Rightarrow> int \<Rightarrow> int \<Rightarrow> bool" where
  "contains b row col =
     (if row < 0 \<or> col < 0 then False else is_in_bounds b (to_size row) (to_size col))"

definition is_valid :: "board_model \<Rightarrow> bool" where
  "is_valid b =
     (if cells b = [] then False
      else let width = length (hd (cells b))
           in if width = 0 then False else list_all (\<lambda>r. length r = width) (cells b))"

text \<open>\<^verbatim>\<open>cells_[row][col]\<close>, the unchecked read and the unchecked write.\<close>

definition cell_ref :: "board_model \<Rightarrow> nat \<Rightarrow> nat \<Rightarrow> piece_id option result" where
  "cell_ref b row col = bindR (nth_or_fault (cells b) row) (\<lambda>r. nth_or_fault r col)"

definition set_cell ::
  "board_model \<Rightarrow> nat \<Rightarrow> nat \<Rightarrow> piece_id option \<Rightarrow> board_model result" where
  "set_cell b row col v =
     bindR (cell_ref b row col)
       (\<lambda>_. Inr (b\<lparr>cells := (cells b)[row := (cells b ! row)[col := v]]\<rparr>))"

definition is_empty :: "board_model \<Rightarrow> nat \<Rightarrow> nat \<Rightarrow> bool result" where
  "is_empty b row col = bindR (cell_ref b row col) (\<lambda>v. Inr (v = None))"

definition find_piece_by_id :: "board_model \<Rightarrow> piece_id \<Rightarrow> piece option" where
  "find_piece_by_id b i =
     (if i = kInvalidId \<or> i > length (pieces b) then None else Some (pieces b ! (i - 1)))"

definition piece_at :: "board_model \<Rightarrow> nat \<Rightarrow> nat \<Rightarrow> piece option result" where
  "piece_at b row col =
     (if \<not> is_in_bounds b row col then Inr None
      else bindR (cell_ref b row col)
        (\<lambda>v. case v of None \<Rightarrow> Inr None | Some i \<Rightarrow> Inr (find_piece_by_id b i)))"

definition get_piece :: "board_model \<Rightarrow> piece_id \<Rightarrow> piece result" where
  "get_piece b i =
     (if i = kInvalidId \<or> i > length (pieces b) then Inl OutOfRange else Inr (pieces b ! (i - 1)))"

definition token_at :: "board_model \<Rightarrow> nat \<Rightarrow> nat \<Rightarrow> string result" where
  "token_at b row col =
     bindR (piece_at b row col)
       (\<lambda>p. case p of None \<Rightarrow> Inr [kEmptyToken]
             | Some piece \<Rightarrow> Inr (to_token (pc_color piece) (pc_kind piece)))"

definition next_piece_id :: "board_model \<Rightarrow> piece_id" where
  "next_piece_id b = length (pieces b) + 1"

subsection \<open>Mutations\<close>

definition store_piece :: "board_model \<Rightarrow> piece \<Rightarrow> board_model result" where
  "store_piece b p =
     (if pc_id p = kInvalidId \<or> pc_id p > length (pieces b) + 1 then Inl InvalidArgument
      else if pc_id p = length (pieces b) + 1 then Inr (b\<lparr>pieces := pieces b @ [p]\<rparr>)
      else Inr (b\<lparr>pieces := (pieces b)[pc_id p - 1 := p]\<rparr>))"

definition place_piece_at :: "board_model \<Rightarrow> nat \<Rightarrow> nat \<Rightarrow> piece \<Rightarrow> board_model result" where
  "place_piece_at b row col p =
     bindR (store_piece b (p\<lparr>pc_cell := \<lparr>pos_row = int row, pos_col = int col\<rparr>\<rparr>))
       (\<lambda>b'. set_cell b' row col (Some (pc_id p)))"

definition place_piece :: "board_model \<Rightarrow> piece \<Rightarrow> board_model result" where
  "place_piece b p =
     place_piece_at b (to_size (pos_row (pc_cell p))) (to_size (pos_col (pc_cell p))) p"

text \<open>\<^verbatim>\<open>get_piece(id).state = s\<close>, the one field other components write through the reference.\<close>

definition set_piece_state :: "board_model \<Rightarrow> piece_id \<Rightarrow> piece_state \<Rightarrow> board_model result" where
  "set_piece_state b i s =
     bindR (get_piece b i) (\<lambda>p. Inr (b\<lparr>pieces := (pieces b)[i - 1 := p\<lparr>pc_state := s\<rparr>]\<rparr>))"

definition clear_cell :: "board_model \<Rightarrow> nat \<Rightarrow> nat \<Rightarrow> board_model result" where
  "clear_cell b row col = set_cell b row col None"

definition remove_piece_at :: "board_model \<Rightarrow> nat \<Rightarrow> nat \<Rightarrow> board_model result" where
  "remove_piece_at b row col =
     bindR (cell_ref b row col)
       (\<lambda>v. bindR (case v of None \<Rightarrow> Inr b | Some i \<Rightarrow> set_piece_state b i Captured)
              (\<lambda>b'. set_cell b' row col None))"

subsection \<open>Boards from token rows\<close>

text \<open>\<^verbatim>\<open>PieceFactory\<close>: its state is the next id.\<close>

type_synonym piece_factory = piece_id

definition factory_create ::
  "piece_factory \<Rightarrow> piece_color \<Rightarrow> piece_kind \<Rightarrow> position \<Rightarrow> piece_state \<Rightarrow>
   piece \<times> piece_factory" where
  "factory_create next_id c k pos s =
     (\<lparr>pc_id = next_id, pc_color = c, pc_kind = k, pc_cell = pos, pc_state = s\<rparr>, next_id + 1)"

text \<open>The loop of \<^verbatim>\<open>append_token_row\<close>: the row built so far, the board, the factory.\<close>

fun append_tokens ::
  "nat \<Rightarrow> string list \<Rightarrow> nat \<Rightarrow> piece_id option list \<times> board_model \<times> piece_factory \<Rightarrow>
   (piece_id option list \<times> board_model \<times> piece_factory) result" where
  "append_tokens row_index [] col_index s = Inr s"
| "append_tokens row_index (token # tokens) col_index (cell_row, b, factory) =
     (if is_empty_token token
      then append_tokens row_index tokens (col_index + 1) (cell_row @ [None], b, factory)
      else case descriptor_from_token token of
             None \<Rightarrow> Inl AssertFailure
           | Some d \<Rightarrow>
               (let (p, factory') =
                      factory_create factory (pd_color d) (pd_kind d)
                        \<lparr>pos_row = int row_index, pos_col = int col_index\<rparr> Idle
                in bindR (store_piece b p)
                     (\<lambda>b'. append_tokens row_index tokens (col_index + 1)
                             (cell_row @ [Some (pc_id (last (pieces b')))], b', factory'))))"

definition append_token_row ::
  "board_model \<Rightarrow> string list \<Rightarrow> nat \<Rightarrow> piece_factory \<Rightarrow> (board_model \<times> piece_factory) result" where
  "append_token_row b tokens row_index factory =
     bindR (append_tokens row_index tokens 0 ([], b, factory))
       (\<lambda>(cell_row, b', factory'). Inr (b'\<lparr>cells := cells b' @ [cell_row]\<rparr>, factory'))"

fun append_token_rows ::
  "string list list \<Rightarrow> nat \<Rightarrow> board_model \<times> piece_factory \<Rightarrow>
   (board_model \<times> piece_factory) result" where
  "append_token_rows [] row_index s = Inr s"
| "append_token_rows (tokens # rs) row_index (b, factory) =
     bindR (append_token_row b tokens row_index factory) (append_token_rows rs (row_index + 1))"

definition from_token_grid :: "string list list \<Rightarrow> board_model result" where
  "from_token_grid rs = bindR (append_token_rows rs 0 (empty_board, 1)) (\<lambda>(b, _). Inr b)"

subsection \<open>Board equality\<close>

text \<open>Both loops return at the first difference, so later cells are not read.\<close>

fun board_eq_cells :: "board_model \<Rightarrow> board_model \<Rightarrow> (nat \<times> nat) list \<Rightarrow> bool result" where
  "board_eq_cells lhs rhs [] = Inr True"
| "board_eq_cells lhs rhs ((row, col) # rest) =
     bindR (token_at lhs row col)
       (\<lambda>t. bindR (token_at rhs row col)
          (\<lambda>t'. if t \<noteq> t' then Inr False else board_eq_cells lhs rhs rest))"

definition board_cells :: "nat \<Rightarrow> nat \<Rightarrow> (nat \<times> nat) list" where
  "board_cells n m = List.product [0..<n] [0..<m]"

definition board_eq :: "board_model \<Rightarrow> board_model \<Rightarrow> bool result" where
  "board_eq lhs rhs =
     (if rows lhs \<noteq> rows rhs \<or> cols lhs \<noteq> cols rhs then Inr False
      else board_eq_cells lhs rhs (board_cells (rows lhs) (cols lhs)))"


subsection \<open>Well-formed boards\<close>

text \<open>
  \<open>rect\<close>: every row has the width of the first. \<open>wf_board\<close>: the store numbers its pieces
  from one and every id on the grid names a stored piece whose recorded cell is that cell.
\<close>

definition rect :: "board_model \<Rightarrow> bool" where
  "rect b \<longleftrightarrow> list_all (\<lambda>r. length r = cols b) (cells b)"

definition valid_id :: "board_model \<Rightarrow> piece_id \<Rightarrow> bool" where
  "valid_id b i \<longleftrightarrow> 0 < i \<and> i \<le> length (pieces b)"

definition piece_of :: "board_model \<Rightarrow> piece_id \<Rightarrow> piece" where
  "piece_of b i = pieces b ! (i - 1)"

definition cell_at :: "board_model \<Rightarrow> nat \<Rightarrow> nat \<Rightarrow> piece_id option" where
  "cell_at b r c = cells b ! r ! c"

definition on_grid :: "board_model \<Rightarrow> piece_id \<Rightarrow> bool" where
  "on_grid b i \<longleftrightarrow> (\<exists>r < rows b. \<exists>c < cols b. cell_at b r c = Some i)"

definition wf_board :: "board_model \<Rightarrow> bool" where
  "wf_board b \<longleftrightarrow>
     rect b \<and>
     (\<forall>i. valid_id b i \<longrightarrow> pc_id (piece_of b i) = i) \<and>
     (\<forall>r < rows b. \<forall>c < cols b. \<forall>i. cell_at b r c = Some i \<longrightarrow>
        valid_id b i \<and> pc_cell (piece_of b i) = \<lparr>pos_row = int r, pos_col = int c\<rparr>)"

definition upd_cell :: "board_model \<Rightarrow> nat \<Rightarrow> nat \<Rightarrow> piece_id option \<Rightarrow> board_model" where
  "upd_cell b r c v = b\<lparr>cells := (cells b)[r := (cells b ! r)[c := v]]\<rparr>"

definition upd_piece :: "board_model \<Rightarrow> piece_id \<Rightarrow> piece \<Rightarrow> board_model" where
  "upd_piece b i p = b\<lparr>pieces := (pieces b)[i - 1 := p]\<rparr>"

lemma is_in_bounds_iff: "is_in_bounds b r c \<longleftrightarrow> r < rows b \<and> c < cols b"
  by (cases "cells b") (auto simp: is_in_bounds_def rows_def cols_def)

lemma contains_iff: "contains b r c \<longleftrightarrow> 0 \<le> r \<and> 0 \<le> c \<and> is_in_bounds b (nat r) (nat c)"
  by (auto simp: contains_def to_size_nonneg)

lemma contains_int [simp]: "contains b (int r) (int c) \<longleftrightarrow> is_in_bounds b r c"
  by (simp add: contains_iff)

lemma is_valid_iff: "is_valid b \<longleftrightarrow> rect b \<and> 0 < rows b \<and> 0 < cols b"
  by (cases "cells b") (auto simp: is_valid_def rect_def rows_def cols_def Let_def)

lemma rect_width: "rect b \<Longrightarrow> r < rows b \<Longrightarrow> length (cells b ! r) = cols b"
  by (auto simp: rect_def rows_def list_all_length)

lemma valid_id_Suc: "valid_id b i \<Longrightarrow> i - 1 < length (pieces b) \<and> i = Suc (i - 1)"
  by (auto simp: valid_id_def)

subsubsection \<open>Frame rules for the two elementary updates\<close>

lemma upd_cell_frame [simp]:
  "pieces (upd_cell b r c v) = pieces b"
  "rows (upd_cell b r c v) = rows b"
  "cols (upd_cell b r c v) = cols b"
  "valid_id (upd_cell b r c v) i = valid_id b i"
  "piece_of (upd_cell b r c v) i = piece_of b i"
  "is_in_bounds (upd_cell b r c v) r' c' = is_in_bounds b r' c'"
  by (auto simp: upd_cell_def rows_def cols_def valid_id_def piece_of_def is_in_bounds_iff
      nth_list_update split: list.splits nat.splits)

lemma upd_piece_frame [simp]:
  "cells (upd_piece b i p) = cells b"
  "rows (upd_piece b i p) = rows b"
  "cols (upd_piece b i p) = cols b"
  "valid_id (upd_piece b i p) j = valid_id b j"
  "cell_at (upd_piece b i p) r c = cell_at b r c"
  "rect (upd_piece b i p) = rect b"
  "on_grid (upd_piece b i p) j = on_grid b j"
  "is_in_bounds (upd_piece b i p) r c = is_in_bounds b r c"
  "length (pieces (upd_piece b i p)) = length (pieces b)"
  by (simp_all add: upd_piece_def rows_def cols_def valid_id_def cell_at_def rect_def on_grid_def
      is_in_bounds_def)

lemma rect_upd_cell [simp]: "rect b \<Longrightarrow> rect (upd_cell b r c v)"
  unfolding rect_def upd_cell_frame
  by (cases "r < length (cells b)")
    (auto simp: list_all_length upd_cell_def nth_list_update list_update_beyond)

lemma cell_at_upd_cell:
  "rect b \<Longrightarrow> is_in_bounds b r c \<Longrightarrow>
   cell_at (upd_cell b r c v) r' c' = (if r' = r \<and> c' = c then v else cell_at b r' c')"
  by (auto simp: cell_at_def upd_cell_def nth_list_update is_in_bounds_iff rows_def
      dest: rect_width [of b r])

lemma piece_of_upd_piece:
  "valid_id b i \<Longrightarrow> valid_id b j \<Longrightarrow>
   piece_of (upd_piece b i p) j = (if j = i then p else piece_of b j)"
  by (auto simp: piece_of_def upd_piece_def nth_list_update valid_id_def)

subsubsection \<open>The source's operations on well-formed boards\<close>

lemma cell_ref_ok [simp]: "rect b \<Longrightarrow> is_in_bounds b r c \<Longrightarrow> cell_ref b r c = Inr (cell_at b r c)"
  using rect_width [of b r] by (simp add: cell_ref_def is_in_bounds_iff cell_at_def rows_def)

lemma set_cell_ok [simp]: "rect b \<Longrightarrow> is_in_bounds b r c \<Longrightarrow> set_cell b r c v = Inr (upd_cell b r c v)"
  by (simp add: set_cell_def upd_cell_def)

lemma is_empty_ok [simp]:
  "rect b \<Longrightarrow> is_in_bounds b r c \<Longrightarrow> is_empty b r c = Inr (cell_at b r c = None)"
  by (simp add: is_empty_def)

lemma clear_cell_ok [simp]:
  "rect b \<Longrightarrow> is_in_bounds b r c \<Longrightarrow> clear_cell b r c = Inr (upd_cell b r c None)"
  by (simp add: clear_cell_def)

lemma get_piece_ok [simp]: "valid_id b i \<Longrightarrow> get_piece b i = Inr (piece_of b i)"
  by (simp add: get_piece_def valid_id_def piece_of_def kInvalidId_def)

lemma set_piece_state_ok [simp]:
  "valid_id b i \<Longrightarrow>
   set_piece_state b i s = Inr (upd_piece b i ((piece_of b i)\<lparr>pc_state := s\<rparr>))"
  by (simp add: set_piece_state_def upd_piece_def)

lemma store_piece_ok: "valid_id b (pc_id p) \<Longrightarrow> store_piece b p = Inr (upd_piece b (pc_id p) p)"
  by (auto simp: store_piece_def valid_id_def upd_piece_def kInvalidId_def)

definition placed :: "board_model \<Rightarrow> nat \<Rightarrow> nat \<Rightarrow> piece \<Rightarrow> board_model" where
  "placed b r c p =
     upd_cell (upd_piece b (pc_id p) (p\<lparr>pc_cell := \<lparr>pos_row = int r, pos_col = int c\<rparr>\<rparr>))
       r c (Some (pc_id p))"

lemma place_piece_at_ok [simp]:
  "rect b \<Longrightarrow> is_in_bounds b r c \<Longrightarrow> valid_id b (pc_id p) \<Longrightarrow>
   place_piece_at b r c p = Inr (placed b r c p)"
  by (simp add: place_piece_at_def placed_def store_piece_ok)

lemma place_piece_ok [simp]:
  "rect b \<Longrightarrow> is_in_bounds b r c \<Longrightarrow> valid_id b (pc_id p) \<Longrightarrow>
   pc_cell p = \<lparr>pos_row = int r, pos_col = int c\<rparr> \<Longrightarrow> place_piece b p = Inr (placed b r c p)"
  by (simp add: place_piece_def)

lemma wf_rect [simp]: "wf_board b \<Longrightarrow> rect b"
  by (simp add: wf_board_def)

lemma wf_cell_valid:
  "wf_board b \<Longrightarrow> is_in_bounds b r c \<Longrightarrow> cell_at b r c = Some i \<Longrightarrow> valid_id b i"
  by (auto simp: wf_board_def is_in_bounds_iff)

lemma wf_cell_pos:
  "wf_board b \<Longrightarrow> is_in_bounds b r c \<Longrightarrow> cell_at b r c = Some i \<Longrightarrow>
   pc_cell (piece_of b i) = \<lparr>pos_row = int r, pos_col = int c\<rparr>"
  by (auto simp: wf_board_def is_in_bounds_iff)

lemma wf_id [simp]: "wf_board b \<Longrightarrow> valid_id b i \<Longrightarrow> pc_id (piece_of b i) = i"
  by (simp add: wf_board_def)

text \<open>No id stands on two cells: both would be its recorded cell.\<close>

lemma wf_cell_unique:
  "wf_board b \<Longrightarrow> is_in_bounds b r c \<Longrightarrow> is_in_bounds b r' c' \<Longrightarrow>
   cell_at b r c = Some i \<Longrightarrow> cell_at b r' c' = Some i \<Longrightarrow> r' = r \<and> c' = c"
  using wf_cell_pos [of b r c i] wf_cell_pos [of b r' c' i] by simp

lemma piece_at_ok:
  "wf_board b \<Longrightarrow>
   piece_at b r c =
     Inr (if is_in_bounds b r c then map_option (piece_of b) (cell_at b r c) else None)"
  by (auto simp: piece_at_def find_piece_by_id_def piece_of_def valid_id_def kInvalidId_def
      dest: wf_cell_valid split: option.splits)

lemma piece_at_in [simp]:
  "wf_board b \<Longrightarrow> is_in_bounds b r c \<Longrightarrow>
   piece_at b r c = Inr (map_option (piece_of b) (cell_at b r c))"
  by (simp add: piece_at_ok)

lemma piece_at_out [simp]: "\<not> is_in_bounds b r c \<Longrightarrow> piece_at b r c = Inr None"
  by (simp add: piece_at_def)

definition token_of :: "board_model \<Rightarrow> nat \<Rightarrow> nat \<Rightarrow> string" where
  "token_of b r c =
     (case cell_at b r c of None \<Rightarrow> [kEmptyToken]
      | Some i \<Rightarrow> to_token (pc_color (piece_of b i)) (pc_kind (piece_of b i)))"

lemma token_at_ok [simp]:
  "wf_board b \<Longrightarrow> is_in_bounds b r c \<Longrightarrow> token_at b r c = Inr (token_of b r c)"
  by (simp add: token_at_def token_of_def split: option.splits)

definition removed :: "board_model \<Rightarrow> nat \<Rightarrow> nat \<Rightarrow> board_model" where
  "removed b r c =
     upd_cell (case cell_at b r c of None \<Rightarrow> b
               | Some i \<Rightarrow> upd_piece b i ((piece_of b i)\<lparr>pc_state := Captured\<rparr>)) r c None"

lemma remove_piece_at_ok [simp]:
  "wf_board b \<Longrightarrow> is_in_bounds b r c \<Longrightarrow> remove_piece_at b r c = Inr (removed b r c)"
  by (auto simp: remove_piece_at_def removed_def wf_cell_valid split: option.splits)


subsection \<open>Pieces in flight\<close>

text \<open>
  \<open>flight_inv b F\<close> is the invariant of a board some of whose pieces (the ids in \<open>F\<close>) have
  left the grid for a move or a jump: every stored piece is idle and on the grid, or moving
  and in flight, or captured and neither. No piece is lost and none is in two places.
\<close>

definition placement_ok :: "board_model \<Rightarrow> piece_id list \<Rightarrow> piece_id \<Rightarrow> bool" where
  "placement_ok b F i \<longleftrightarrow>
     (on_grid b i \<longleftrightarrow> pc_state (piece_of b i) = Idle) \<and>
     (i \<in> set F \<longleftrightarrow> pc_state (piece_of b i) = Moving)"

definition flight_inv :: "board_model \<Rightarrow> piece_id list \<Rightarrow> bool" where
  "flight_inv b F \<longleftrightarrow>
     wf_board b \<and> distinct F \<and> (\<forall>i \<in> set F. valid_id b i) \<and>
     (\<forall>i. valid_id b i \<longrightarrow> placement_ok b F i)"

lemma flight_wf [simp]: "flight_inv b F \<Longrightarrow> wf_board b"
  by (simp add: flight_inv_def)

lemma flight_perm: "flight_inv b F \<Longrightarrow> set G = set F \<Longrightarrow> distinct G \<Longrightarrow> flight_inv b G"
  by (simp add: flight_inv_def placement_ok_def)

lemma flight_valid: "flight_inv b F \<Longrightarrow> i \<in> set F \<Longrightarrow> valid_id b i"
  by (simp add: flight_inv_def)

lemma flight_state:
  "flight_inv b F \<Longrightarrow> i \<in> set F \<Longrightarrow> pc_state (piece_of b i) = Moving \<and> \<not> on_grid b i"
  by (auto simp: flight_inv_def placement_ok_def)

lemma on_gridI: "is_in_bounds b r c \<Longrightarrow> cell_at b r c = Some i \<Longrightarrow> on_grid b i"
  by (auto simp: on_grid_def is_in_bounds_iff)

lemma flight_cell:
  assumes "flight_inv b F" "is_in_bounds b r c" "cell_at b r c = Some i"
  shows "valid_id b i" and "pc_state (piece_of b i) = Idle" and "i \<notin> set F"
proof -
  show v: "valid_id b i"
    using assms wf_cell_valid by (blast intro: flight_wf)
  from assms v show "pc_state (piece_of b i) = Idle"
    by (auto simp: flight_inv_def placement_ok_def on_gridI)
  with assms v show "i \<notin> set F"
    by (auto simp: flight_inv_def placement_ok_def)
qed

lemma flight_not_here:
  "flight_inv b F \<Longrightarrow> is_in_bounds b r c \<Longrightarrow> i \<in> set F \<Longrightarrow> cell_at b r c \<noteq> Some i"
  by (auto dest: flight_cell(3))

lemma on_grid_iff: "on_grid b i \<longleftrightarrow> (\<exists>r c. is_in_bounds b r c \<and> cell_at b r c = Some i)"
  by (auto simp: on_grid_def is_in_bounds_iff)

lemma on_grid_upd_cell_gen:
  "rect b \<Longrightarrow> is_in_bounds b r c \<Longrightarrow>
   on_grid (upd_cell b r c v) i \<longleftrightarrow>
     v = Some i \<or>
     (\<exists>r' c'. is_in_bounds b r' c' \<and> (r', c') \<noteq> (r, c) \<and> cell_at b r' c' = Some i)"
  unfolding on_grid_iff by (auto simp: cell_at_upd_cell split: if_splits)

lemma on_grid_upd_other_cell:
  assumes "rect b" "is_in_bounds b r c" "cell_at b r c \<noteq> Some i"
  shows "on_grid (upd_cell b r c v) i \<longleftrightarrow> v = Some i \<or> on_grid b i"
proof -
  have "(\<exists>r' c'. is_in_bounds b r' c' \<and> (r', c') \<noteq> (r, c) \<and> cell_at b r' c' = Some i) \<longleftrightarrow>
      on_grid b i"
    using assms(3) by (auto simp: on_grid_iff)
  then show ?thesis
    using assms by (simp only: on_grid_upd_cell_gen)
qed

lemma on_grid_upd_cell:
  assumes "wf_board b" "is_in_bounds b r c"
  shows "on_grid (upd_cell b r c v) i \<longleftrightarrow> v = Some i \<or> on_grid b i \<and> cell_at b r c \<noteq> Some i"
proof (cases "cell_at b r c = Some i")
  case True
  then have "\<not> (\<exists>r' c'. is_in_bounds b r' c' \<and> (r', c') \<noteq> (r, c) \<and> cell_at b r' c' = Some i)"
    using wf_cell_unique [OF assms] by blast
  with True assms show ?thesis
    by (simp only: on_grid_upd_cell_gen wf_rect) simp
next
  case False
  with assms show ?thesis
    by (simp add: on_grid_upd_other_cell)
qed

lemma on_grid_upd_free_cell:
  assumes "rect b" "is_in_bounds b r c" "cell_at b r c = None"
  shows "on_grid (upd_cell b r c (Some k)) i \<longleftrightarrow> i = k \<or> on_grid b i"
  using assms by (auto simp: on_grid_upd_other_cell)

text \<open>The four elementary transitions of a piece: lift off, land, be lost in flight, be captured
  on the grid.\<close>

definition lifted :: "board_model \<Rightarrow> nat \<Rightarrow> nat \<Rightarrow> piece_id \<Rightarrow> board_model" where
  "lifted b r c i = upd_cell (upd_piece b i ((piece_of b i)\<lparr>pc_state := Moving\<rparr>)) r c None"

definition lost :: "board_model \<Rightarrow> piece_id \<Rightarrow> board_model" where
  "lost b i = upd_piece b i ((piece_of b i)\<lparr>pc_state := Captured\<rparr>)"

lemma wf_upd_state: "wf_board b \<Longrightarrow> valid_id b i \<Longrightarrow>
   wf_board (upd_piece b i ((piece_of b i)\<lparr>pc_state := s\<rparr>))"
  unfolding wf_board_def by (auto simp: piece_of_upd_piece)

lemma wf_upd_cell_None: "wf_board b \<Longrightarrow> is_in_bounds b r c \<Longrightarrow> wf_board (upd_cell b r c None)"
  unfolding wf_board_def by (auto simp: cell_at_upd_cell split: if_splits)

lemma wf_placed:
  "wf_board b \<Longrightarrow> is_in_bounds b r c \<Longrightarrow> valid_id b (pc_id p) \<Longrightarrow> \<not> on_grid b (pc_id p) \<Longrightarrow>
   wf_board (placed b r c p)"
  unfolding wf_board_def placed_def
  by (auto simp: cell_at_upd_cell piece_of_upd_piece is_in_bounds_iff on_grid_def split: if_splits)

lemma flight_lifted:
  assumes "flight_inv b F" "is_in_bounds b r c" "cell_at b r c = Some i"
  shows "flight_inv (lifted b r c i) (i # F)"
proof -
  note c = flight_cell [OF assms]
  let ?b = "upd_piece b i ((piece_of b i)\<lparr>pc_state := Moving\<rparr>)"
  have wf: "wf_board ?b"
    using assms c by (simp add: wf_upd_state)
  have "placement_ok (lifted b r c i) (i # F) j" if "valid_id b j" for j
    using assms c that
    by (auto simp: placement_ok_def lifted_def on_grid_upd_cell [OF wf] piece_of_upd_piece
        flight_inv_def)
  then show ?thesis
    using assms c wf
    by (simp add: flight_inv_def) (simp add: lifted_def wf_upd_cell_None)
qed

lemma flight_placed:
  assumes "flight_inv b (i # F)" "is_in_bounds b r c" "cell_at b r c = None"
    and p: "pc_id p = i" "pc_state p = Idle"
  shows "flight_inv (placed b r c p) F"
proof -
  have i: "valid_id b i" "\<not> on_grid b i" "i \<notin> set F"
    using assms(1) flight_state [OF assms(1), of i] by (auto simp: flight_inv_def)
  have "wf_board (placed b r c p)"
    using wf_placed [of b r c p] assms i by simp
  moreover have "placement_ok (placed b r c p) F j" if "valid_id b j" for j
  proof -
    have "on_grid (placed b r c p) j \<longleftrightarrow> j = i \<or> on_grid b j"
      using assms by (simp add: placed_def on_grid_upd_free_cell)
    moreover have "placement_ok b (i # F) j"
      using assms that by (simp add: flight_inv_def)
    ultimately show ?thesis
      using i p that by (auto simp: placement_ok_def placed_def piece_of_upd_piece)
  qed
  ultimately show ?thesis
    using assms(1) by (simp add: flight_inv_def) (simp add: placed_def)
qed

lemma flight_lost:
  assumes "flight_inv b (i # F)"
  shows "flight_inv (lost b i) F"
proof -
  have i: "valid_id b i" "\<not> on_grid b i" "i \<notin> set F"
    using assms flight_state [OF assms, of i] by (auto simp: flight_inv_def)
  have "placement_ok (lost b i) F j" if "valid_id b j" for j
    using assms i that
    by (auto simp: placement_ok_def lost_def piece_of_upd_piece flight_inv_def)
  then show ?thesis
    using assms i by (simp add: flight_inv_def) (simp add: lost_def wf_upd_state)
qed

lemma flight_removed:
  assumes "flight_inv b F" "is_in_bounds b r c"
  shows "flight_inv (removed b r c) F"
proof (cases "cell_at b r c")
  case None
  have "on_grid (removed b r c) i \<longleftrightarrow> on_grid b i" for i
    using assms None by (simp add: removed_def on_grid_upd_cell)
  moreover have "wf_board (removed b r c)"
    using assms None by (simp add: removed_def wf_upd_cell_None)
  ultimately show ?thesis
    using assms None by (simp add: flight_inv_def placement_ok_def) (simp add: removed_def)
next
  case (Some j)
  note c = flight_cell [OF assms Some]
  have wf: "wf_board (upd_piece b j ((piece_of b j)\<lparr>pc_state := Captured\<rparr>))"
    using assms c by (simp add: wf_upd_state)
  have "placement_ok (removed b r c) F i" if "valid_id b i" for i
    using assms c that Some
    by (auto simp: placement_ok_def removed_def on_grid_upd_cell [OF wf] piece_of_upd_piece
        flight_inv_def)
  then show ?thesis
    using assms c wf Some
    by (simp add: flight_inv_def) (simp add: removed_def wf_upd_cell_None)
qed


subsection \<open>Boards built from token rows\<close>

text \<open>What \<^verbatim>\<open>append_token_row\<close> adds, as two lists: the ids of the new row and the new
  pieces.\<close>

fun row_ids :: "piece_id \<Rightarrow> string list \<Rightarrow> piece_id option list" where
  "row_ids n [] = []"
| "row_ids n (t # ts) =
     (if is_empty_token t then None # row_ids n ts else Some n # row_ids (n + 1) ts)"

fun row_pieces :: "nat \<Rightarrow> nat \<Rightarrow> piece_id \<Rightarrow> string list \<Rightarrow> piece list" where
  "row_pieces r c n [] = []"
| "row_pieces r c n (t # ts) =
     (if is_empty_token t then row_pieces r (c + 1) n ts
      else \<lparr>pc_id = n, pc_color = pd_color (the (descriptor_from_token t)),
            pc_kind = pd_kind (the (descriptor_from_token t)),
            pc_cell = \<lparr>pos_row = int r, pos_col = int c\<rparr>, pc_state = Idle\<rparr>
           # row_pieces r (c + 1) (n + 1) ts)"

lemma length_row_ids [simp]: "length (row_ids n ts) = length ts"
  by (induction ts arbitrary: n) auto

lemma store_piece_new:
  "pc_id p = length (pieces b) + 1 \<Longrightarrow> store_piece b p = Inr (b\<lparr>pieces := pieces b @ [p]\<rparr>)"
  by (simp add: store_piece_def kInvalidId_def)

lemma append_tokens_eq:
  "list_all is_valid_token ts \<Longrightarrow> n = Suc (length (pieces b)) \<Longrightarrow>
   append_tokens r ts c (cr, b, n) =
     Inr (cr @ row_ids n ts, b\<lparr>pieces := pieces b @ row_pieces r c n ts\<rparr>,
          n + length (row_pieces r c n ts))"
proof (induction ts arbitrary: cr b n c)
  case Nil
  then show ?case by simp
next
  case (Cons t ts)
  then obtain d where "\<not> is_empty_token t \<longrightarrow> descriptor_from_token t = Some d"
    using valid_token_descriptor [of t] by (cases "is_empty_token t") auto
  with Cons.prems
    Cons.IH [of n b "c + 1" "cr @ [None]"]
    Cons.IH [of "n + 1" "b\<lparr>pieces := pieces b @ [\<lparr>pc_id = n, pc_color = pd_color d,
      pc_kind = pd_kind d, pc_cell = \<lparr>pos_row = int r, pos_col = int c\<rparr>, pc_state = Idle\<rparr>]\<rparr>"
      "c + 1" "cr @ [Some n]"]
  show ?case
    by (simp add: factory_create_def store_piece_new)
qed

lemma append_token_row_eq:
  "list_all is_valid_token ts \<Longrightarrow> n = Suc (length (pieces b)) \<Longrightarrow>
   append_token_row b ts r n =
     Inr (b\<lparr>cells := cells b @ [row_ids n ts], pieces := pieces b @ row_pieces r 0 n ts\<rparr>,
          n + length (row_pieces r 0 n ts))"
  by (simp add: append_token_row_def append_tokens_eq)

lemma row_pieces_nth:
  "j < length (row_pieces r c n ts) \<Longrightarrow>
   pc_id (row_pieces r c n ts ! j) = n + j \<and> pc_state (row_pieces r c n ts ! j) = Idle"
  by (induction ts arbitrary: n c j) (auto simp: nth_Cons split: nat.splits)

lemma row_ids_nth:
  assumes "list_all is_valid_token ts" "k < length ts"
  shows "if is_empty_token (ts ! k) then row_ids n ts ! k = None
         else \<exists>j < length (row_pieces r c n ts).
                row_ids n ts ! k = Some (n + j) \<and>
                pc_cell (row_pieces r c n ts ! j) = \<lparr>pos_row = int r, pos_col = int (c + k)\<rparr> \<and>
                to_token (pc_color (row_pieces r c n ts ! j)) (pc_kind (row_pieces r c n ts ! j))
                  = ts ! k"
  using assms
proof (induction ts arbitrary: n c k)
  case Nil
  then show ?case by simp
next
  case (Cons t ts)
  show ?case
  proof (cases k)
    case 0
    with Cons.prems show ?thesis
      by (auto dest!: valid_token_descriptor dest: descriptor_from_token_SomeD intro!: exI [of _ 0])
  next
    case (Suc m)
    with Cons.prems have m: "m < length ts" "list_all is_valid_token ts"
      by auto
    show ?thesis
    proof (cases "is_empty_token t")
      case True
      with Suc Cons.IH [OF m(2,1), of n "c + 1"] show ?thesis by auto
    next
      case False
      with Suc Cons.IH [OF m(2,1), of "n + 1" "c + 1"] show ?thesis
        by (auto split: if_splits)
    qed
  qed
qed

lemma row_pieces_onto:
  "list_all is_valid_token ts \<Longrightarrow> j < length (row_pieces r c n ts) \<Longrightarrow>
   \<exists>k < length ts. row_ids n ts ! k = Some (n + j)"
proof (induction ts arbitrary: n c j)
  case Nil
  then show ?case by simp
next
  case (Cons t ts)
  show ?case
  proof (cases "is_empty_token t")
    case True
    with Cons.prems Cons.IH [of j "c + 1" n]
    obtain k where "k < length ts" "row_ids n ts ! k = Some (n + j)"
      by auto
    with True show ?thesis by (intro exI [of _ "Suc k"]) simp
  next
    case False
    show ?thesis
    proof (cases j)
      case 0
      with False show ?thesis by (intro exI [of _ 0]) simp
    next
      case (Suc m)
      with False Cons.prems have "m < length (row_pieces r (c + 1) (n + 1) ts)"
        by simp
      with Cons obtain k where "k < length ts" "row_ids (n + 1) ts ! k = Some (n + 1 + m)"
        by fastforce
      with False Suc show ?thesis by (intro exI [of _ "Suc k"]) simp
    qed
  qed
qed

text \<open>The tokens of a board's grid, row by row.\<close>

definition grid_tokens :: "board_model \<Rightarrow> string list list" where
  "grid_tokens b = map (\<lambda>r. map (token_of b r) [0..<cols b]) [0..<rows b]"


definition with_row :: "board_model \<Rightarrow> string list \<Rightarrow> board_model" where
  "with_row b ts =
     b\<lparr>cells := cells b @ [row_ids (Suc (length (pieces b))) ts],
       pieces := pieces b @ row_pieces (rows b) 0 (Suc (length (pieces b))) ts\<rparr>"

lemma with_row_dims:
  "rows b = 0 \<or> cols b = length ts \<Longrightarrow>
   rows (with_row b ts) = rows b + 1 \<and> cols (with_row b ts) = length ts"
  by (cases "cells b") (auto simp: with_row_def rows_def cols_def)

lemma with_row_cell_old: "r < rows b \<Longrightarrow> cell_at (with_row b ts) r c = cell_at b r c"
  by (simp add: cell_at_def with_row_def nth_append rows_def)

lemma with_row_cell_new:
  "cell_at (with_row b ts) (rows b) c = row_ids (Suc (length (pieces b))) ts ! c"
  by (simp add: cell_at_def with_row_def nth_append rows_def)

lemma with_row_piece_old: "valid_id b i \<Longrightarrow> piece_of (with_row b ts) i = piece_of b i"
  by (auto simp: piece_of_def with_row_def nth_append valid_id_def)

lemma with_row_piece_new:
  "piece_of (with_row b ts) (Suc (length (pieces b) + j)) =
     row_pieces (rows b) 0 (Suc (length (pieces b))) ts ! j"
  by (simp add: piece_of_def with_row_def nth_append)

lemma with_row_valid_id:
  "valid_id (with_row b ts) i \<longleftrightarrow>
     valid_id b i \<or>
     (\<exists>j < length (row_pieces (rows b) 0 (Suc (length (pieces b))) ts). i = Suc (length (pieces b) + j))"
proof -
  have "i = Suc (length (pieces b)) + (i - Suc (length (pieces b)))" if "i > length (pieces b)"
    using that by simp
  then show ?thesis
    by (auto simp: valid_id_def with_row_def not_le intro!: exI [of _ "i - (Suc (length (pieces b)))"])
qed

lemma row_ids_new:
  assumes "list_all is_valid_token ts" "c < length ts" "row_ids n ts ! c = Some i"
  shows "\<exists>j < length (row_pieces r 0 n ts). i = n + j \<and>
           pc_cell (row_pieces r 0 n ts ! j) = \<lparr>pos_row = int r, pos_col = int c\<rparr>"
  using row_ids_nth [OF assms(1,2), of n r 0] assms(3) by (auto split: if_splits)

lemma with_row_wf:
  assumes "wf_board b" and v: "list_all is_valid_token ts" and w: "rows b = 0 \<or> cols b = length ts"
  shows "wf_board (with_row b ts)"
proof -
  let ?n = "Suc (length (pieces b))"
  note d = with_row_dims [OF w]
  have "rect (with_row b ts)"
    using assms(1) d w wf_rect [OF assms(1)]
    by (auto simp: rect_def with_row_def rows_def list_all_iff)
  moreover have "pc_id (piece_of (with_row b ts) i) = i" if "valid_id (with_row b ts) i" for i
    using that assms(1) row_pieces_nth [of _ "rows b" 0 ?n ts]
    by (auto simp: with_row_valid_id with_row_piece_old with_row_piece_new)
  moreover have "valid_id (with_row b ts) i \<and>
      pc_cell (piece_of (with_row b ts) i) = \<lparr>pos_row = int r, pos_col = int c\<rparr>"
    if rc: "r < rows b + 1" "c < length ts" "cell_at (with_row b ts) r c = Some i" for r c i
  proof (cases "r = rows b")
    case True
    then show ?thesis
      using rc row_ids_new [OF v, of c ?n i "rows b"]
      by (auto simp: with_row_cell_new with_row_valid_id with_row_piece_new)
  next
    case False
    then have "is_in_bounds b r c"
      using rc w by (auto simp: is_in_bounds_iff)
    moreover have "cell_at b r c = Some i"
      using rc False by (simp add: with_row_cell_old)
    ultimately have "valid_id b i" "pc_cell (piece_of b i) = \<lparr>pos_row = int r, pos_col = int c\<rparr>"
      using assms(1) wf_cell_valid wf_cell_pos by blast+
    then show ?thesis
      by (simp add: with_row_valid_id with_row_piece_old)
  qed
  ultimately show ?thesis
    unfolding wf_board_def conjunct1 [OF d] conjunct2 [OF d] by blast
qed

lemma with_row_on_grid:
  assumes v: "list_all is_valid_token ts" and w: "rows b = 0 \<or> cols b = length ts"
  shows "valid_id b i \<Longrightarrow> on_grid (with_row b ts) i \<longleftrightarrow> on_grid b i"
    and "j < length (row_pieces (rows b) 0 (Suc (length (pieces b))) ts) \<Longrightarrow>
         on_grid (with_row b ts) (Suc (length (pieces b) + j))"
proof -
  let ?n = "Suc (length (pieces b))"
  note d = with_row_dims [OF w]
  show "on_grid (with_row b ts) i \<longleftrightarrow> on_grid b i" if "valid_id b i"
  proof
    assume "on_grid (with_row b ts) i"
    then obtain r c where rc: "r < rows b + 1" "c < length ts" "cell_at (with_row b ts) r c = Some i"
      by (auto simp: on_grid_def d)
    have "r \<noteq> rows b"
      using rc row_ids_new [OF v, of c ?n i "rows b"] that
      by (auto simp: with_row_cell_new valid_id_def)
    with rc w have "is_in_bounds b r c" "cell_at b r c = Some i"
      by (auto simp: is_in_bounds_iff with_row_cell_old)
    then show "on_grid b i"
      by (rule on_gridI)
  next
    assume "on_grid b i"
    then obtain r c where rc: "r < rows b" "c < cols b" "cell_at b r c = Some i"
      by (auto simp: on_grid_def)
    then have "is_in_bounds (with_row b ts) r c"
      using w d by (auto simp: is_in_bounds_iff)
    then show "on_grid (with_row b ts) i"
      using on_gridI [of "with_row b ts" r c i] rc by (simp add: with_row_cell_old)
  qed
  show "on_grid (with_row b ts) (Suc (length (pieces b) + j))"
    if "j < length (row_pieces (rows b) 0 ?n ts)"
  proof -
    from row_pieces_onto [OF v that] obtain k
      where "k < length ts" "row_ids ?n ts ! k = Some (?n + j)"
      by blast
    then show ?thesis
      using on_gridI [of "with_row b ts" "rows b" k] d
      by (simp add: is_in_bounds_iff with_row_cell_new)
  qed
qed

lemma with_row_flight:
  assumes b: "flight_inv b []" and v: "list_all is_valid_token ts"
    and w: "rows b = 0 \<or> cols b = length ts"
  shows "flight_inv (with_row b ts) []"
proof -
  let ?n = "Suc (length (pieces b))"
  have "placement_ok (with_row b ts) [] i" if "valid_id (with_row b ts) i" for i
  proof (cases "valid_id b i")
    case True
    with b show ?thesis
      by (simp add: placement_ok_def with_row_on_grid(1) [OF v w] with_row_piece_old flight_inv_def)
  next
    case False
    with that obtain j where "j < length (row_pieces (rows b) 0 ?n ts)" "i = Suc (length (pieces b) + j)"
      by (auto simp: with_row_valid_id)
    then show ?thesis
      using row_pieces_nth [of j "rows b" 0 ?n ts] with_row_on_grid(2) [OF v w, of j]
        with_row_piece_new [of b ts j]
      by (simp add: placement_ok_def)
  qed
  then show ?thesis
    using b v w by (simp add: flight_inv_def with_row_wf)
qed

lemma with_row_tokens:
  assumes b: "wf_board b" and v: "list_all is_valid_token ts"
    and w: "rows b = 0 \<or> cols b = length ts"
  shows "grid_tokens (with_row b ts) = grid_tokens b @ [ts]"
proof -
  let ?n = "Suc (length (pieces b))"
  note d = with_row_dims [OF w]
  have "token_of (with_row b ts) r c = token_of b r c" if "r < rows b" "c < length ts" for r c
    using that w wf_cell_valid [OF b, of r c]
    by (auto simp: token_of_def with_row_cell_old with_row_piece_old is_in_bounds_iff
        split: option.splits)
  moreover have "token_of (with_row b ts) (rows b) c = ts ! c" if c: "c < length ts" for c
  proof (cases "is_empty_token (ts ! c)")
    case True
    then have "ts ! c = [kEmptyToken]"
      by (auto simp: is_empty_token_def length_Suc_conv)
    then show ?thesis
      using row_ids_nth [OF v c, of ?n "rows b" 0] True
      by (simp add: token_of_def with_row_cell_new)
  next
    case False
    then show ?thesis
      using row_ids_nth [OF v c, of ?n "rows b" 0] with_row_piece_new [of b ts]
      by (auto simp: token_of_def with_row_cell_new)
  qed
  ultimately show ?thesis
    using d w by (auto simp: grid_tokens_def intro!: nth_equalityI)
qed

lemma append_token_row_with_row:
  "list_all is_valid_token ts \<Longrightarrow> n = Suc (length (pieces b)) \<Longrightarrow>
   append_token_row b ts (rows b) n = Inr (with_row b ts, Suc (length (pieces (with_row b ts))))"
  by (simp add: append_token_row_eq with_row_def)

lemma append_token_rows_ok:
  assumes "list_all (list_all is_valid_token) rs" "flight_inv b []"
    and "\<forall>ts \<in> set rs. length ts = w" and "rows b = 0 \<or> cols b = w"
    and "n = Suc (length (pieces b))"
  shows "ensures (append_token_rows rs (rows b) (b, n))
           (\<lambda>(b', n'). flight_inv b' [] \<and> grid_tokens b' = grid_tokens b @ rs \<and>
              rows b' = rows b + length rs \<and> (rs \<noteq> [] \<longrightarrow> cols b' = w))"
  using assms
proof (induction rs arbitrary: b n)
  case Nil
  then show ?case by simp
next
  case (Cons ts rs)
  then have w: "rows b = 0 \<or> cols b = length ts" and v: "list_all is_valid_token ts"
    by auto
  have "ensures (append_token_rows rs (rows (with_row b ts))
          (with_row b ts, Suc (length (pieces (with_row b ts)))))
        (\<lambda>(b', n'). flight_inv b' [] \<and> grid_tokens b' = grid_tokens (with_row b ts) @ rs \<and>
              rows b' = rows (with_row b ts) + length rs \<and> (rs \<noteq> [] \<longrightarrow> cols b' = w))"
    using Cons with_row_flight [OF _ v w] with_row_dims [OF w] by (intro Cons.IH) auto
  then show ?case
    using Cons.prems with_row_dims [OF w] with_row_tokens [OF _ v w]
    by (cases rs) (auto simp: append_token_row_with_row elim!: ensures_mono)
qed

lemma empty_board_flight: "flight_inv empty_board []"
  by (simp add: flight_inv_def wf_board_def empty_board_def rect_def valid_id_def rows_def)

lemma empty_board_dims [simp]:
  "rows empty_board = 0" "cols empty_board = 0" "grid_tokens empty_board = []"
  "length (pieces empty_board) = 0"
  by (simp_all add: empty_board_def rows_def cols_def grid_tokens_def)

lemma from_token_grid_ok:
  assumes "list_all (list_all is_valid_token) rs" "\<forall>ts \<in> set rs. length ts = w"
  shows "ensures (from_token_grid rs)
           (\<lambda>b. flight_inv b [] \<and> grid_tokens b = rs \<and> rows b = length rs \<and>
              (rs \<noteq> [] \<longrightarrow> cols b = w))"
  using append_token_rows_ok [OF assms(1) empty_board_flight assms(2), of 1]
  by (auto simp: from_token_grid_def elim!: ensures_mono)

subsection \<open>Board equality compares the tokens\<close>

lemma board_eq_cells_ok:
  assumes "wf_board a" "wf_board b"
    and "\<forall>(r, c) \<in> set cs. is_in_bounds a r c \<and> is_in_bounds b r c"
  shows "board_eq_cells a b cs = Inr (\<forall>(r, c) \<in> set cs. token_of a r c = token_of b r c)"
  using assms by (induction cs) auto

lemma board_eq_ok:
  assumes "wf_board a" "wf_board b"
  shows "board_eq a b = Inr (cols a = cols b \<and> grid_tokens a = grid_tokens b)"
proof (cases "rows a = rows b \<and> cols a = cols b")
  case True
  have "grid_tokens a = grid_tokens b \<longleftrightarrow>
      (\<forall>r < rows a. \<forall>c < cols a. token_of a r c = token_of b r c)"
    using True by (auto simp: grid_tokens_def)
  then show ?thesis
    using True board_eq_cells_ok [OF assms, of "board_cells (rows a) (cols a)"]
    by (auto simp: board_eq_def board_cells_def is_in_bounds_iff)
next
  case False
  then have "rows a = rows b \<or> grid_tokens a \<noteq> grid_tokens b"
    by (metis grid_tokens_def length_map length_upt minus_nat.diff_0)
  with False show ?thesis
    by (auto simp: board_eq_def dest: arg_cong [where f = length])
qed

end
