(* ===== verification/Path_Utils.thy ===== *)
theory Path_Utils
  imports Board_Model
begin

section \<open>Walking straight and diagonal paths\<close>

text \<open>
  \<^verbatim>\<open>src/src/logic/path_utils.cpp\<close>. Its loops advance a cell by a fixed step until the end
  cell is reached; on a segment that is neither straight nor diagonal they never reach it, so
  they are \<^theory_text>\<open>partial_function (option)\<close>s and not returning is a fault. The lemmas
  show that they return on every straight or diagonal segment, which cells they visit, and
  that \<^verbatim>\<open>paths_share_cell\<close> decides whether two segments meet.
\<close>

subsection \<open>The source's functions\<close>

definition step_of :: "int \<Rightarrow> int" where
  "step_of d = (if d = 0 then 0 else if d > 0 then 1 else -1)"

definition is_straight_or_diagonal_path :: "int \<Rightarrow> int \<Rightarrow> bool" where
  "is_straight_or_diagonal_path dr dc = (if dr = 0 \<or> dc = 0 then True else \<bar>dr\<bar> = \<bar>dc\<bar>)"

partial_function (option) for_each_loop ::
  "int \<Rightarrow> int \<Rightarrow> int \<Rightarrow> int \<Rightarrow> (int \<Rightarrow> int \<Rightarrow> 's \<Rightarrow> 's result) \<Rightarrow> int \<Rightarrow> int \<Rightarrow> 's \<Rightarrow> 's result option" where
  "for_each_loop end_row end_col step_r step_c visitor row col s =
     (if row \<noteq> end_row \<or> col \<noteq> end_col
      then (let res = visitor row col s
            in if isl res then Some res
               else for_each_loop end_row end_col step_r step_c visitor
                      (row + step_r) (col + step_c) (projr res))
      else Some (Inr s))"

definition for_each_cell_on_path ::
  "int \<Rightarrow> int \<Rightarrow> int \<Rightarrow> int \<Rightarrow> (int \<Rightarrow> int \<Rightarrow> 's \<Rightarrow> 's result) \<Rightarrow> 's \<Rightarrow> 's result" where
  "for_each_cell_on_path start_row start_col end_row end_col visitor s =
     (let dr = end_row - start_row; dc = end_col - start_col;
          step_r = step_of dr; step_c = step_of dc
      in case for_each_loop end_row end_col step_r step_c visitor
                (start_row + step_r) (start_col + step_c) s of
           None \<Rightarrow> Inl Diverges
         | Some res \<Rightarrow> res)"

text \<open>The inner loop of \<^verbatim>\<open>paths_share_cell\<close> walks path b against one cell of path a; the outer
  one walks path a.\<close>

partial_function (option) share_inner ::
  "int \<Rightarrow> int \<Rightarrow> int \<Rightarrow> int \<Rightarrow> int \<Rightarrow> int \<Rightarrow> int \<Rightarrow> int \<Rightarrow> bool option" where
  "share_inner a_row a_col b_end_row b_end_col b_step_r b_step_c b_row b_col =
     (if a_row = b_row \<and> a_col = b_col then Some True
      else if b_row = b_end_row \<and> b_col = b_end_col then Some False
      else share_inner a_row a_col b_end_row b_end_col b_step_r b_step_c
             (b_row + b_step_r) (b_col + b_step_c))"

partial_function (option) share_outer ::
  "(int \<Rightarrow> int \<Rightarrow> bool option) \<Rightarrow> int \<Rightarrow> int \<Rightarrow> int \<Rightarrow> int \<Rightarrow> int \<Rightarrow> int \<Rightarrow> bool option" where
  "share_outer inner a_end_row a_end_col a_step_r a_step_c a_row a_col =
     Option.bind (inner a_row a_col)
       (\<lambda>hit. if hit then Some True
         else if a_row = a_end_row \<and> a_col = a_end_col then Some False
         else share_outer inner a_end_row a_end_col a_step_r a_step_c
                (a_row + a_step_r) (a_col + a_step_c))"

definition paths_share_cell :: "cell \<Rightarrow> cell \<Rightarrow> cell \<Rightarrow> cell \<Rightarrow> bool result" where
  "paths_share_cell a_start a_end b_start b_end =
     (let a_dr = int (fst a_end) - int (fst a_start);
          a_dc = int (snd a_end) - int (snd a_start);
          b_dr = int (fst b_end) - int (fst b_start);
          b_dc = int (snd b_end) - int (snd b_start)
      in if \<not> is_straight_or_diagonal_path a_dr a_dc \<or> \<not> is_straight_or_diagonal_path b_dr b_dc
         then Inr (a_start = b_start \<or> a_start = b_end \<or> a_end = b_start \<or> a_end = b_end)
         else of_option Diverges
                (share_outer
                   (\<lambda>a_row a_col.
                      share_inner a_row a_col (int (fst b_end)) (int (snd b_end))
                        (step_of b_dr) (step_of b_dc) (int (fst b_start)) (int (snd b_start)))
                   (int (fst a_end)) (int (snd a_end)) (step_of a_dr) (step_of a_dc)
                   (int (fst a_start)) (int (snd a_start))))"

declare for_each_loop.simps [code] share_inner.simps [code] share_outer.simps [code]

subsection \<open>Segments\<close>

text \<open>The cells of a segment: \<open>seg_cell\<close> counts steps from the start, \<open>seg_len\<close> is the
  Chebyshev distance, so the end is cell number \<open>seg_len\<close>.\<close>

definition straight :: "int \<Rightarrow> int \<Rightarrow> int \<Rightarrow> int \<Rightarrow> bool" where
  "straight sr sc er ec = is_straight_or_diagonal_path (er - sr) (ec - sc)"

definition seg_len :: "int \<Rightarrow> int \<Rightarrow> int \<Rightarrow> int \<Rightarrow> nat" where
  "seg_len sr sc er ec = nat (max \<bar>er - sr\<bar> \<bar>ec - sc\<bar>)"

definition seg_cell :: "int \<Rightarrow> int \<Rightarrow> int \<Rightarrow> int \<Rightarrow> nat \<Rightarrow> int \<times> int" where
  "seg_cell sr sc er ec i =
     (sr + int i * step_of (er - sr), sc + int i * step_of (ec - sc))"

definition between :: "int \<Rightarrow> int \<Rightarrow> int \<Rightarrow> int \<Rightarrow> (int \<times> int) list" where
  "between sr sc er ec = map (seg_cell sr sc er ec) [1..<seg_len sr sc er ec]"

definition segment :: "int \<Rightarrow> int \<Rightarrow> int \<Rightarrow> int \<Rightarrow> (int \<times> int) set" where
  "segment sr sc er ec = seg_cell sr sc er ec ` {0..seg_len sr sc er ec}"

lemma mult_step_of: "d = n \<or> d = - n \<or> d = 0 \<Longrightarrow> 0 \<le> n \<Longrightarrow> n * step_of d = d"
  by (auto simp: step_of_def)

lemma seg_cell_0 [simp]: "seg_cell sr sc er ec 0 = (sr, sc)"
  by (simp add: seg_cell_def)

lemma seg_cell_end:
  assumes "straight sr sc er ec"
  shows "seg_cell sr sc er ec (seg_len sr sc er ec) = (er, ec)"
proof -
  let ?n = "max \<bar>er - sr\<bar> \<bar>ec - sc\<bar>"
  have "er - sr = ?n \<or> er - sr = - ?n \<or> er - sr = 0" "ec - sc = ?n \<or> ec - sc = - ?n \<or> ec - sc = 0"
    using assms by (auto simp: straight_def is_straight_or_diagonal_path_def split: if_splits)
  moreover have "0 \<le> ?n"
    by simp
  ultimately show ?thesis
    by (simp add: seg_cell_def seg_len_def mult_step_of)
qed

lemma step_of_moves: "0 < seg_len sr sc er ec \<Longrightarrow> step_of (er - sr) \<noteq> 0 \<or> step_of (ec - sc) \<noteq> 0"
  by (auto simp: seg_len_def step_of_def split: if_splits)

lemma seg_cell_inj:
  "0 < seg_len sr sc er ec \<Longrightarrow> seg_cell sr sc er ec i = seg_cell sr sc er ec j \<Longrightarrow> i = j"
  using step_of_moves [of sr sc er ec] by (auto simp: seg_cell_def)

lemma seg_cell_not_end:
  "straight sr sc er ec \<Longrightarrow> i < seg_len sr sc er ec \<Longrightarrow> seg_cell sr sc er ec i \<noteq> (er, ec)"
  using seg_cell_inj [of sr sc er ec i "seg_len sr sc er ec"] seg_cell_end [of sr sc er ec] by auto

lemma seg_cell_Suc:
  "seg_cell sr sc er ec (Suc i) =
     (fst (seg_cell sr sc er ec i) + step_of (er - sr), snd (seg_cell sr sc er ec i) + step_of (ec - sc))"
  by (simp add: seg_cell_def algebra_simps)

lemma step_between:
  "0 \<le> n \<Longrightarrow> n \<le> \<bar>d\<bar> \<or> d = 0 \<Longrightarrow> min 0 d \<le> n * step_of d \<and> n * step_of d \<le> max 0 d"
  by (auto simp: step_of_def)

lemma seg_cell_range:
  assumes "straight sr sc er ec" "i \<le> seg_len sr sc er ec"
  shows "min sr er \<le> fst (seg_cell sr sc er ec i) \<and> fst (seg_cell sr sc er ec i) \<le> max sr er \<and>
         min sc ec \<le> snd (seg_cell sr sc er ec i) \<and> snd (seg_cell sr sc er ec i) \<le> max sc ec"
proof -
  have "int i \<le> \<bar>er - sr\<bar> \<or> er - sr = 0" "int i \<le> \<bar>ec - sc\<bar> \<or> ec - sc = 0"
    using assms
    by (auto simp: straight_def is_straight_or_diagonal_path_def seg_len_def nat_le_iff le_nat_iff
        split: if_splits)
  then show ?thesis
    using step_between [of "int i" "er - sr"] step_between [of "int i" "ec - sc"]
    by (auto simp: seg_cell_def)
qed

subsection \<open>The visiting loop returns on straight and diagonal segments\<close>

lemma for_each_loop_eq:
  assumes s: "straight sr sc er ec" and k: "k \<le> seg_len sr sc er ec"
  shows "for_each_loop er ec (step_of (er - sr)) (step_of (ec - sc)) visitor
           (fst (seg_cell sr sc er ec k)) (snd (seg_cell sr sc er ec k)) x =
         Some (foldR (\<lambda>(r, c). visitor r c) (map (seg_cell sr sc er ec) [k..<seg_len sr sc er ec]) x)"
  using k
proof (induction "seg_len sr sc er ec - k" arbitrary: k x)
  case 0
  then have "k = seg_len sr sc er ec" by simp
  with seg_cell_end [OF s] show ?case
    by (subst for_each_loop.simps) simp
next
  case (Suc n)
  then have k: "k < seg_len sr sc er ec" and n: "n = seg_len sr sc er ec - Suc k"
    by auto
  let ?p = "seg_cell sr sc er ec k"
  have ne: "fst ?p \<noteq> er \<or> snd ?p \<noteq> ec"
    using seg_cell_not_end [OF s k] by (metis prod.collapse)
  have IH: "for_each_loop er ec (step_of (er - sr)) (step_of (ec - sc)) visitor
      (fst ?p + step_of (er - sr)) (snd ?p + step_of (ec - sc)) y =
      Some (foldR (\<lambda>(r, c). visitor r c) (map (seg_cell sr sc er ec) [Suc k..<seg_len sr sc er ec]) y)"
    for y
    using Suc.hyps(1) [OF n, of y] k by (simp add: seg_cell_Suc)
  have "[k..<seg_len sr sc er ec] = k # [Suc k..<seg_len sr sc er ec]"
    using k by (simp add: upt_conv_Cons)
  then show ?case
    using ne
    by (subst for_each_loop.simps)
      (cases "visitor (fst ?p) (snd ?p) x"; simp add: IH Let_def case_prod_beta)
qed

lemma for_each_cell_on_path_eq:
  assumes s: "straight sr sc er ec" and "(sr, sc) \<noteq> (er, ec)"
  shows "for_each_cell_on_path sr sc er ec visitor x =
           foldR (\<lambda>(r, c). visitor r c) (between sr sc er ec) x"
proof -
  have "1 \<le> seg_len sr sc er ec"
    using assms(2) by (auto simp: seg_len_def)
  from for_each_loop_eq [OF s this, of visitor x] show ?thesis
    by (simp add: for_each_cell_on_path_def between_def Let_def seg_cell_def)
qed

text \<open>On a zero-length segment the steps are zero and nothing is visited.\<close>

lemma for_each_cell_on_path_refl: "for_each_cell_on_path r c r c visitor x = Inr x"
  by (simp add: for_each_cell_on_path_def step_of_def Let_def for_each_loop.simps)

lemma for_each_cell_on_path_straight:
  "straight sr sc er ec \<Longrightarrow>
   for_each_cell_on_path sr sc er ec visitor x =
     foldR (\<lambda>(r, c). visitor r c) (between sr sc er ec) x"
  by (cases "(sr, sc) = (er, ec)")
    (auto simp: for_each_cell_on_path_eq for_each_cell_on_path_refl between_def seg_len_def)

lemma between_straight:
  assumes "straight sr sc er ec" "p \<in> set (between sr sc er ec)"
  shows "min sr er \<le> fst p \<and> fst p \<le> max sr er \<and> min sc ec \<le> snd p \<and> snd p \<le> max sc ec"
proof -
  from assms(2) obtain i where "p = seg_cell sr sc er ec i" "i \<le> seg_len sr sc er ec"
    by (auto simp: between_def)
  with seg_cell_range [OF assms(1)] show ?thesis
    by simp
qed

text \<open>Off the straight and diagonal lines the loop never exits, whatever a fault-free visitor
  does: returning means that some number of steps leads to the end cell.\<close>

lemma for_each_loop_reaches:
  assumes ret: "for_each_loop er ec dr dc visitor row col x = Some res"
    and ok: "\<And>r c y. \<exists>z. visitor r c y = Inr z"
  shows "\<exists>n::nat. row + int n * dr = er \<and> col + int n * dc = ec"
proof -
  have "(\<forall>r c y. \<exists>z. visitor r c y = Inr z) \<longrightarrow>
      (\<exists>n::nat. row + int n * dr = er \<and> col + int n * dc = ec)"
  proof (rule for_each_loop.raw_induct [OF _ ret])
    fix f :: "int \<Rightarrow> int \<Rightarrow> int \<Rightarrow> int \<Rightarrow> (int \<Rightarrow> int \<Rightarrow> 's \<Rightarrow> 's result) \<Rightarrow> int \<Rightarrow> int \<Rightarrow> 's \<Rightarrow> 's result option"
      and er ec dr dc visitor row col x res
    assume IH: "\<And>er ec dr dc visitor row col x res.
        f er ec dr dc visitor row col x = Some res \<Longrightarrow>
        (\<forall>r c y. \<exists>z. visitor r c y = Inr z) \<longrightarrow>
        (\<exists>n::nat. row + int n * dr = er \<and> col + int n * dc = ec)"
      and step: "(if row \<noteq> er \<or> col \<noteq> ec
         then let res = visitor row col x
              in if isl res then Some res
                 else f er ec dr dc visitor (row + dr) (col + dc) (projr res)
         else Some (Inr x)) = Some res"
    show "(\<forall>r c y. \<exists>z. visitor r c y = Inr z) \<longrightarrow>
        (\<exists>n::nat. row + int n * dr = er \<and> col + int n * dc = ec)"
    proof (cases "row \<noteq> er \<or> col \<noteq> ec")
      case False
      then show ?thesis by (auto intro!: exI [of _ 0])
    next
      case True
      show ?thesis
      proof
        assume v: "\<forall>r c y. \<exists>z. visitor r c y = Inr z"
        then obtain z where "visitor row col x = Inr z" by blast
        with True step have "f er ec dr dc visitor (row + dr) (col + dc) z = Some res"
          by simp
        from IH [OF this] v obtain n :: nat
          where "row + dr + int n * dr = er" "col + dc + int n * dc = ec"
          by blast
        then show "\<exists>n::nat. row + int n * dr = er \<and> col + int n * dc = ec"
          by (intro exI [of _ "Suc n"]) (simp add: algebra_simps)
      qed
    qed
  qed
  with ok show ?thesis by blast
qed

lemma for_each_cell_on_path_diverges:
  assumes ns: "\<not> straight sr sc er ec" and ok: "\<And>r c y. \<exists>z. visitor r c y = Inr z"
  shows "for_each_cell_on_path sr sc er ec visitor x = Inl Diverges"
proof (cases "for_each_loop er ec (step_of (er - sr)) (step_of (ec - sc)) visitor
    (sr + step_of (er - sr)) (sc + step_of (ec - sc)) x")
  case None
  then show ?thesis
    by (simp add: for_each_cell_on_path_def Let_def)
next
  case (Some res)
  from for_each_loop_reaches [OF Some ok] obtain n :: nat
    where "sr + step_of (er - sr) + int n * step_of (er - sr) = er"
      "sc + step_of (ec - sc) + int n * step_of (ec - sc) = ec"
    by blast
  then have "er - sr = (int n + 1) * step_of (er - sr)" "ec - sc = (int n + 1) * step_of (ec - sc)"
    by (simp_all add: algebra_simps)
  then have "straight sr sc er ec"
    by (auto simp: straight_def is_straight_or_diagonal_path_def step_of_def split: if_splits)
  with ns show ?thesis by contradiction
qed

subsection \<open>Shared cells\<close>

lemma share_inner_eq:
  assumes s: "straight sr sc er ec" and k: "k \<le> seg_len sr sc er ec"
  shows "share_inner a_row a_col er ec (step_of (er - sr)) (step_of (ec - sc))
           (fst (seg_cell sr sc er ec k)) (snd (seg_cell sr sc er ec k)) =
         Some (\<exists>i \<in> {k..seg_len sr sc er ec}. seg_cell sr sc er ec i = (a_row, a_col))"
  using k
proof (induction "seg_len sr sc er ec - k" arbitrary: k)
  case 0
  then have "k = seg_len sr sc er ec" by simp
  with seg_cell_end [OF s] show ?case
    by (subst share_inner.simps) auto
next
  case (Suc n)
  then have k: "k < seg_len sr sc er ec" and n: "n = seg_len sr sc er ec - Suc k"
    by auto
  let ?p = "seg_cell sr sc er ec k"
  have ne: "\<not> (fst ?p = er \<and> snd ?p = ec)"
    using seg_cell_not_end [OF s k] by (metis prod.collapse)
  have split: "{k..seg_len sr sc er ec} = insert k {Suc k..seg_len sr sc er ec}"
    using k by auto
  show ?case
    using ne Suc.hyps(1) [OF n] k
    by (subst share_inner.simps) (auto simp: seg_cell_Suc split prod_eq_iff)
qed

lemma share_outer_eq:
  assumes s: "straight sr sc er ec" and k: "k \<le> seg_len sr sc er ec"
    and inner: "\<And>r c. inner r c = Some (P (r, c))"
  shows "share_outer inner er ec (step_of (er - sr)) (step_of (ec - sc))
           (fst (seg_cell sr sc er ec k)) (snd (seg_cell sr sc er ec k)) =
         Some (\<exists>i \<in> {k..seg_len sr sc er ec}. P (seg_cell sr sc er ec i))"
  using k
proof (induction "seg_len sr sc er ec - k" arbitrary: k)
  case 0
  then have "k = seg_len sr sc er ec" by simp
  with seg_cell_end [OF s] show ?case
    by (subst share_outer.simps) (auto simp: inner)
next
  case (Suc n)
  then have k: "k < seg_len sr sc er ec" and n: "n = seg_len sr sc er ec - Suc k"
    by auto
  let ?p = "seg_cell sr sc er ec k"
  have ne: "\<not> (fst ?p = er \<and> snd ?p = ec)"
    using seg_cell_not_end [OF s k] by (metis prod.collapse)
  have split: "{k..seg_len sr sc er ec} = insert k {Suc k..seg_len sr sc er ec}"
    using k by auto
  show ?case
    using ne Suc.hyps(1) [OF n] k
    by (subst share_outer.simps) (auto simp: seg_cell_Suc split inner)
qed

definition cell_straight :: "cell \<Rightarrow> cell \<Rightarrow> bool" where
  "cell_straight a b = straight (int (fst a)) (int (snd a)) (int (fst b)) (int (snd b))"

definition cell_segment :: "cell \<Rightarrow> cell \<Rightarrow> (int \<times> int) set" where
  "cell_segment a b = segment (int (fst a)) (int (snd a)) (int (fst b)) (int (snd b))"

lemma paths_share_cell_straight:
  assumes a: "cell_straight a_start a_end" and b: "cell_straight b_start b_end"
  shows "paths_share_cell a_start a_end b_start b_end =
           Inr (cell_segment a_start a_end \<inter> cell_segment b_start b_end \<noteq> {})"
proof -
  let ?b = "seg_cell (int (fst b_start)) (int (snd b_start)) (int (fst b_end)) (int (snd b_end))"
  let ?bn = "seg_len (int (fst b_start)) (int (snd b_start)) (int (fst b_end)) (int (snd b_end))"
  let ?an = "seg_len (int (fst a_start)) (int (snd a_start)) (int (fst a_end)) (int (snd a_end))"
  let ?P = "\<lambda>p. \<exists>i \<in> {0..?bn}. ?b i = p"
  have inner: "share_inner r c (int (fst b_end)) (int (snd b_end))
      (step_of (int (fst b_end) - int (fst b_start))) (step_of (int (snd b_end) - int (snd b_start)))
      (int (fst b_start)) (int (snd b_start)) = Some (?P (r, c))" for r c
    using share_inner_eq [OF b [unfolded cell_straight_def], of 0 r c] by simp
  note outer = share_outer_eq [OF a [unfolded cell_straight_def], of 0, where P = ?P, OF _ inner]
  have "paths_share_cell a_start a_end b_start b_end = Inr (\<exists>i \<in> {0..?an}. ?P
      (seg_cell (int (fst a_start)) (int (snd a_start)) (int (fst a_end)) (int (snd a_end)) i))"
    using outer a b by (simp add: paths_share_cell_def cell_straight_def straight_def Let_def)
  also have "\<dots> = Inr (cell_segment a_start a_end \<inter> cell_segment b_start b_end \<noteq> {})"
    unfolding cell_segment_def segment_def by (intro arg_cong [where f = Inr]) (auto simp: image_iff)
  finally show ?thesis .
qed

lemma paths_share_cell_endpoints:
  "\<not> cell_straight a_start a_end \<or> \<not> cell_straight b_start b_end \<Longrightarrow>
   paths_share_cell a_start a_end b_start b_end =
     Inr (a_start = b_start \<or> a_start = b_end \<or> a_end = b_start \<or> a_end = b_end)"
  by (auto simp: paths_share_cell_def cell_straight_def straight_def Let_def)

end
