(* ===== verification/Piece_Rules.thy ===== *)
theory Piece_Rules
  imports Path_Utils
begin

section \<open>Piece rules, move legality and the rule set\<close>

text \<open>
  \<^verbatim>\<open>src/src/rules\<close>: the six piece validators, the registry that dispatches on the piece
  kind, the static legality test \<^verbatim>\<open>is_legal_move\<close> and the injectable rule set
  \<^verbatim>\<open>GameRules\<close> with its standard instance. The locale \<open>piece_validator\<close> is the contract the
  registry's entries share: they return on a well-formed board. The main results are
  declarative characterisations of legality, one for the pieces that move by geometry and one
  for pawns.
\<close>

subsection \<open>Validators\<close>

type_synonym validator = "board_model \<Rightarrow> int \<Rightarrow> int \<Rightarrow> int \<Rightarrow> int \<Rightarrow> bool result"

definition is_king_move :: validator where
  "is_king_move b start_row start_col end_row end_col =
     (let adr = \<bar>end_row - start_row\<bar>; adc = \<bar>end_col - start_col\<bar>
      in Inr (adr \<le> 1 \<and> adc \<le> 1 \<and> (adr \<noteq> 0 \<or> adc \<noteq> 0)))"

definition is_knight_move :: "int \<Rightarrow> int \<Rightarrow> bool" where
  "is_knight_move dr dc = ((\<bar>dr\<bar> = 2 \<and> \<bar>dc\<bar> = 1) \<or> (\<bar>dr\<bar> = 1 \<and> \<bar>dc\<bar> = 2))"

definition validate_knight_move :: validator where
  "validate_knight_move b start_row start_col end_row end_col =
     Inr (is_knight_move (end_row - start_row) (end_col - start_col))"

definition bishop_is_path_clear :: validator where
  "bishop_is_path_clear b start_row start_col end_row end_col =
     for_each_cell_on_path start_row start_col end_row end_col
       (\<lambda>row col clear. bindR (is_empty b (to_size row) (to_size col))
          (\<lambda>e. Inr (if \<not> e then False else clear))) True"

definition is_bishop_move :: validator where
  "is_bishop_move b start_row start_col end_row end_col =
     (let dr = end_row - start_row; dc = end_col - start_col
      in if \<bar>dr\<bar> \<noteq> \<bar>dc\<bar> then Inr False
         else bishop_is_path_clear b start_row start_col end_row end_col)"

definition rook_is_path_clear :: validator where
  "rook_is_path_clear b start_row start_col end_row end_col =
     for_each_cell_on_path start_row start_col end_row end_col
       (\<lambda>row col clear. bindR (is_empty b (to_size row) (to_size col))
          (\<lambda>e. Inr (if \<not> e then False else clear))) True"

definition is_rook_move :: validator where
  "is_rook_move b start_row start_col end_row end_col =
     (if start_row \<noteq> end_row \<and> start_col \<noteq> end_col then Inr False
      else rook_is_path_clear b start_row start_col end_row end_col)"

definition is_queen_move :: validator where
  "is_queen_move b start_row start_col end_row end_col =
     bindR (is_rook_move b start_row start_col end_row end_col)
       (\<lambda>rook. if rook then Inr True
               else is_bishop_move b start_row start_col end_row end_col)"

definition is_pawn_start_row :: "board_model \<Rightarrow> piece_color \<Rightarrow> int \<Rightarrow> bool" where
  "is_pawn_start_row b pawn_color start_row =
     (let n = int (rows b)
      in if n < 4 then False
         else if pawn_color = White then start_row = n - 2
         else start_row = 1)"

definition is_pawn_move_for_piece ::
  "board_model \<Rightarrow> piece \<Rightarrow> int \<Rightarrow> int \<Rightarrow> int \<Rightarrow> int \<Rightarrow> bool result" where
  "is_pawn_move_for_piece b moving start_row start_col end_row end_col =
     (let dr = end_row - start_row; dc = end_col - start_col
      in bindR (piece_at b (to_size end_row) (to_size end_col))
       (\<lambda>dest.
          if dc = 0 then
            (if dest \<noteq> None then Inr False
             else if is_white moving \<and> dr = -1 then Inr True
             else if is_black moving \<and> dr = 1 then Inr True
             else if is_white moving \<and> dr = -2 \<and> is_pawn_start_row b (pc_color moving) start_row
             then is_empty b (to_size (start_row - 1)) (to_size start_col)
             else if is_black moving \<and> dr = 2 \<and> is_pawn_start_row b (pc_color moving) start_row
             then is_empty b (to_size (start_row + 1)) (to_size start_col)
             else Inr False)
          else if \<bar>dc\<bar> = 1 then
            (case dest of
               None \<Rightarrow> Inr False
             | Some d \<Rightarrow>
                 if is_white moving \<and> dr = -1 then Inr (is_black d)
                 else if is_black moving \<and> dr = 1 then Inr (is_white d)
                 else Inr False)
          else Inr False))"

definition is_pawn_move :: validator where
  "is_pawn_move b start_row start_col end_row end_col =
     bindR (piece_at b (to_size start_row) (to_size start_col))
       (\<lambda>moving. case moving of
          None \<Rightarrow> Inr False
        | Some p \<Rightarrow> is_pawn_move_for_piece b p start_row start_col end_row end_col)"

subsection \<open>Registry and static legality\<close>

record piece_rule_entry =
  re_validator :: "validator option"
  re_requires_destination_check :: bool

definition kRules :: "piece_rule_entry list" where
  "kRules =
     [\<lparr>re_validator = Some is_king_move, re_requires_destination_check = True\<rparr>,
      \<lparr>re_validator = Some is_queen_move, re_requires_destination_check = True\<rparr>,
      \<lparr>re_validator = Some is_rook_move, re_requires_destination_check = True\<rparr>,
      \<lparr>re_validator = Some is_bishop_move, re_requires_destination_check = True\<rparr>,
      \<lparr>re_validator = Some validate_knight_move, re_requires_destination_check = True\<rparr>,
      \<lparr>re_validator = Some is_pawn_move, re_requires_destination_check = False\<rparr>]"

fun kind_index :: "piece_kind \<Rightarrow> nat" where
  "kind_index King = 0"
| "kind_index Queen = 1"
| "kind_index Rook = 2"
| "kind_index Bishop = 3"
| "kind_index Knight = 4"
| "kind_index Pawn = 5"
| "kind_index Count = 6"

definition get_rule_entry :: "piece_kind \<Rightarrow> piece_rule_entry" where
  "get_rule_entry k =
     (let index = kind_index k
      in if index \<ge> length kRules
         then \<lparr>re_validator = None, re_requires_destination_check = False\<rparr>
         else kRules ! index)"

definition is_destination_legal :: validator where
  "is_destination_legal b start_row start_col end_row end_col =
     bindR (piece_at b (to_size end_row) (to_size end_col))
       (\<lambda>dest. case dest of
          None \<Rightarrow> Inr True
        | Some d \<Rightarrow>
            bindR (piece_at b (to_size start_row) (to_size start_col))
              (\<lambda>moving. case moving of
                 None \<Rightarrow> Inr False
               | Some m \<Rightarrow> Inr (is_opponent_of m d)))"

definition is_legal_move :: "board_model \<Rightarrow> piece_kind \<Rightarrow> int \<Rightarrow> int \<Rightarrow> int \<Rightarrow> int \<Rightarrow> bool result" where
  "is_legal_move b kind start_row start_col end_row end_col =
     (if rows b = 0 \<or> cols b = 0 then Inr False
      else if \<not> contains b start_row start_col \<or> \<not> contains b end_row end_col then Inr False
      else if start_row = end_row \<and> start_col = end_col then Inr False
      else
        (let rule = get_rule_entry kind
         in case re_validator rule of
              None \<Rightarrow> Inr False
            | Some v \<Rightarrow>
                bindR (v b start_row start_col end_row end_col)
                  (\<lambda>ok. if \<not> ok then Inr False
                    else if re_requires_destination_check rule
                    then is_destination_legal b start_row start_col end_row end_col
                    else Inr True)))"

subsection \<open>The rule set\<close>

record game_rules =
  gr_is_legal_move :: "board_model \<Rightarrow> piece_kind \<Rightarrow> int \<Rightarrow> int \<Rightarrow> int \<Rightarrow> int \<Rightarrow> bool result"
  gr_on_reach_last_row :: "piece \<Rightarrow> nat \<Rightarrow> nat \<Rightarrow> piece"
  gr_is_game_over :: "piece \<Rightarrow> bool"
  gr_move_duration_ms :: int
  gr_jump_duration_ms :: int
  gr_long_rest_duration_ms :: int
  gr_short_rest_duration_ms :: int

definition promote_pawn_to_queen :: "piece \<Rightarrow> nat \<Rightarrow> nat \<Rightarrow> piece" where
  "promote_pawn_to_queen p end_row board_rows =
     (if pc_kind p \<noteq> Pawn then p
      else
        (let last_row = (if board_rows = 0 then 2 ^ 64 - 1 else board_rows - 1)
         in if is_white p \<and> end_row = 0 then p\<lparr>pc_kind := Queen\<rparr>
            else if is_black p \<and> end_row = last_row then p\<lparr>pc_kind := Queen\<rparr>
            else p))"

definition king_capture_ends_game :: "piece \<Rightarrow> bool" where
  "king_capture_ends_game lost_piece \<longleftrightarrow> pc_kind lost_piece = King"

definition kMoveDurationMs :: int where "kMoveDurationMs = 1000"
definition kJumpDurationMs :: int where "kJumpDurationMs = 1000"
definition kLongRestDurationMs :: int where "kLongRestDurationMs = 4500"
definition kShortRestDurationMs :: int where "kShortRestDurationMs = 2500"

definition standard :: game_rules where
  "standard =
     \<lparr>gr_is_legal_move = is_legal_move,
      gr_on_reach_last_row = promote_pawn_to_queen,
      gr_is_game_over = king_capture_ends_game,
      gr_move_duration_ms = kMoveDurationMs,
      gr_jump_duration_ms = kJumpDurationMs,
      gr_long_rest_duration_ms = kLongRestDurationMs,
      gr_short_rest_duration_ms = kShortRestDurationMs\<rparr>"

subsection \<open>Validators return on well-formed boards\<close>

definition path_free :: "board_model \<Rightarrow> int \<Rightarrow> int \<Rightarrow> int \<Rightarrow> int \<Rightarrow> bool" where
  "path_free b sr sc er ec =
     list_all (\<lambda>(r, c). cell_at b (nat r) (nat c) = None) (between sr sc er ec)"

lemma contains_between:
  assumes "contains b sr sc" "contains b er ec" "straight sr sc er ec" "(r, c) \<in> set (between sr sc er ec)"
  shows "0 \<le> r \<and> 0 \<le> c \<and> is_in_bounds b (nat r) (nat c)"
proof -
  from between_straight [OF assms(3,4)]
  have "min sr er \<le> r" "r \<le> max sr er" "min sc ec \<le> c" "c \<le> max sc ec"
    by simp_all
  with assms(1,2) show ?thesis
    by (auto simp: contains_iff is_in_bounds_iff)
qed

lemma clear_fold:
  "list_all (\<lambda>(r, c). 0 \<le> r \<and> 0 \<le> c \<and> is_in_bounds b (nat r) (nat c)) ps \<Longrightarrow> rect b \<Longrightarrow>
   foldR (\<lambda>(r, c) clear. bindR (is_empty b (to_size r) (to_size c))
            (\<lambda>e. Inr (if \<not> e then False else clear))) ps x =
     Inr (x \<and> list_all (\<lambda>(r, c). cell_at b (nat r) (nat c) = None) ps)"
  by (induction ps arbitrary: x) (auto simp: to_size_nonneg)

lemma rook_is_path_clear_ok:
  assumes "rect b" "contains b sr sc" "contains b er ec" "straight sr sc er ec"
  shows "rook_is_path_clear b sr sc er ec = Inr (path_free b sr sc er ec)"
proof -
  have "list_all (\<lambda>(r, c). 0 \<le> r \<and> 0 \<le> c \<and> is_in_bounds b (nat r) (nat c)) (between sr sc er ec)"
    using contains_between [OF assms(2-4)] by (auto simp: list_all_iff)
  from clear_fold [OF this assms(1), of True] assms(4) show ?thesis
    by (simp add: rook_is_path_clear_def for_each_cell_on_path_straight path_free_def)
qed

lemma bishop_is_path_clear_eq: "bishop_is_path_clear = rook_is_path_clear"
  by (simp add: fun_eq_iff bishop_is_path_clear_def rook_is_path_clear_def)

lemma straight_rook: "sr = er \<or> sc = ec \<Longrightarrow> straight sr sc er ec"
  by (auto simp: straight_def is_straight_or_diagonal_path_def)

lemma straight_bishop: "\<bar>er - sr\<bar> = \<bar>ec - sc\<bar> \<Longrightarrow> straight sr sc er ec"
  by (auto simp: straight_def is_straight_or_diagonal_path_def)

lemma is_rook_move_ok:
  "rect b \<Longrightarrow> contains b sr sc \<Longrightarrow> contains b er ec \<Longrightarrow>
   is_rook_move b sr sc er ec = Inr ((sr = er \<or> sc = ec) \<and> path_free b sr sc er ec)"
  by (auto simp: is_rook_move_def rook_is_path_clear_ok straight_rook)

lemma is_bishop_move_ok:
  "rect b \<Longrightarrow> contains b sr sc \<Longrightarrow> contains b er ec \<Longrightarrow>
   is_bishop_move b sr sc er ec = Inr (\<bar>er - sr\<bar> = \<bar>ec - sc\<bar> \<and> path_free b sr sc er ec)"
  by (auto simp: is_bishop_move_def bishop_is_path_clear_eq rook_is_path_clear_ok straight_bishop)

lemma is_queen_move_ok:
  "rect b \<Longrightarrow> contains b sr sc \<Longrightarrow> contains b er ec \<Longrightarrow>
   is_queen_move b sr sc er ec =
     Inr ((sr = er \<or> sc = ec \<or> \<bar>er - sr\<bar> = \<bar>ec - sc\<bar>) \<and> path_free b sr sc er ec)"
  by (auto simp: is_queen_move_def is_rook_move_ok is_bishop_move_ok)

lemma contains_size: "contains b r c \<Longrightarrow> is_in_bounds b (to_size r) (to_size c)"
  by (simp add: contains_iff to_size_nonneg)

lemma is_pawn_move_for_piece_returns:
  assumes "wf_board b" "contains b sr sc" "contains b er ec"
  shows "\<exists>x. is_pawn_move_for_piece b p sr sc er ec = Inr x"
proof -
  have mid: "is_in_bounds b (to_size (sr - 1)) (to_size sc)" if "er - sr = -2"
    using assms(2,3) that by (auto simp: contains_iff is_in_bounds_iff to_size_nonneg)
  have mid': "is_in_bounds b (to_size (sr + 1)) (to_size sc)" if "er - sr = 2"
    using assms(2,3) that by (auto simp: contains_iff is_in_bounds_iff to_size_nonneg)
  show ?thesis
    using assms(1) contains_size [OF assms(3)] mid mid'
    by (auto simp: is_pawn_move_for_piece_def Let_def split: option.splits)
qed

text \<open>The registry's contract.\<close>

locale piece_validator =
  fixes v :: validator
  assumes returns: "wf_board b \<Longrightarrow> contains b sr sc \<Longrightarrow> contains b er ec \<Longrightarrow> \<exists>x. v b sr sc er ec = Inr x"
begin

lemma checked_returns:
  assumes "wf_board b" "contains b sr sc" "contains b er ec"
  shows "\<exists>x. bindR (v b sr sc er ec)
           (\<lambda>ok. if \<not> ok then Inr False
             else if chk then is_destination_legal b sr sc er ec else Inr True) = Inr x"
  using returns [OF assms] assms contains_size [OF assms(2)] contains_size [OF assms(3)]
  by (auto simp: is_destination_legal_def split: option.splits)

end

interpretation king_rule: piece_validator is_king_move
  by unfold_locales (simp add: is_king_move_def Let_def)

interpretation knight_rule: piece_validator validate_knight_move
  by unfold_locales (simp add: validate_knight_move_def)

interpretation rook_rule: piece_validator is_rook_move
  by unfold_locales (simp add: is_rook_move_ok)

interpretation bishop_rule: piece_validator is_bishop_move
  by unfold_locales (simp add: is_bishop_move_ok)

interpretation queen_rule: piece_validator is_queen_move
  by unfold_locales (simp add: is_queen_move_ok)

interpretation pawn_rule: piece_validator is_pawn_move
  by unfold_locales
    (auto simp: is_pawn_move_def contains_size dest: is_pawn_move_for_piece_returns
      split: option.splits)

lemmas registry_simps = get_rule_entry_def kRules_def Let_def

lemma registry_validator:
  "re_validator (get_rule_entry k) = Some v \<Longrightarrow> piece_validator v"
  using king_rule.piece_validator_axioms knight_rule.piece_validator_axioms
    rook_rule.piece_validator_axioms bishop_rule.piece_validator_axioms
    queen_rule.piece_validator_axioms pawn_rule.piece_validator_axioms
  by (cases k) (auto simp: registry_simps)

lemma registry_playable: "k \<noteq> Count \<Longrightarrow> \<exists>v. re_validator (get_rule_entry k) = Some v"
  by (cases k) (auto simp: registry_simps)

lemma is_legal_move_returns: "wf_board b \<Longrightarrow> \<exists>x. is_legal_move b k sr sc er ec = Inr x"
proof (cases "re_validator (get_rule_entry k)")
  case None
  then show ?thesis by (auto simp: is_legal_move_def Let_def)
next
  case (Some v)
  assume "wf_board b"
  with Some piece_validator.checked_returns [OF registry_validator [OF Some], of b sr sc er ec]
  show ?thesis by (auto simp: is_legal_move_def Let_def)
qed

subsection \<open>Legality, declaratively\<close>

text \<open>
  The geometry of each kind, whether it slides (needs the cells between to be free), and the
  condition on the destination: empty, or held by the opponent of the piece on the start cell.
\<close>

fun geometry :: "piece_kind \<Rightarrow> int \<Rightarrow> int \<Rightarrow> bool" where
  "geometry King dr dc = (\<bar>dr\<bar> \<le> 1 \<and> \<bar>dc\<bar> \<le> 1)"
| "geometry Queen dr dc = (dr = 0 \<or> dc = 0 \<or> \<bar>dr\<bar> = \<bar>dc\<bar>)"
| "geometry Rook dr dc = (dr = 0 \<or> dc = 0)"
| "geometry Bishop dr dc = (\<bar>dr\<bar> = \<bar>dc\<bar>)"
| "geometry Knight dr dc = ({\<bar>dr\<bar>, \<bar>dc\<bar>} = {1, 2})"
| "geometry Pawn dr dc = False"
| "geometry Count dr dc = False"

definition slides :: "piece_kind \<Rightarrow> bool" where
  "slides k \<longleftrightarrow> k = Queen \<or> k = Rook \<or> k = Bishop"

definition color_at :: "board_model \<Rightarrow> int \<Rightarrow> int \<Rightarrow> piece_color option" where
  "color_at b r c = map_option (\<lambda>i. pc_color (piece_of b i)) (cell_at b (nat r) (nat c))"

definition dest_free_or_enemy :: "board_model \<Rightarrow> int \<Rightarrow> int \<Rightarrow> int \<Rightarrow> int \<Rightarrow> bool" where
  "dest_free_or_enemy b sr sc er ec \<longleftrightarrow>
     color_at b er ec = None \<or>
     (\<exists>c. color_at b sr sc = Some c \<and> color_at b er ec = Some (opposite c))"

lemma wf_opponent:
  "wf_board b \<Longrightarrow> valid_id b i \<Longrightarrow> valid_id b j \<Longrightarrow>
   is_opponent_of (piece_of b i) (piece_of b j) \<longleftrightarrow>
     pc_color (piece_of b j) = opposite (pc_color (piece_of b i))"
  by (cases "pc_color (piece_of b i)"; cases "pc_color (piece_of b j)")
    (auto simp: is_opponent_of_def kInvalidId_def valid_id_def opposite_def)

lemma wf_same_color:
  "wf_board b \<Longrightarrow> valid_id b i \<Longrightarrow> valid_id b j \<Longrightarrow>
   is_same_color_as (piece_of b i) (piece_of b j) \<longleftrightarrow>
     pc_color (piece_of b j) = pc_color (piece_of b i)"
  by (auto simp: is_same_color_as_def kInvalidId_def valid_id_def)

lemma is_destination_legal_ok:
  assumes "wf_board b" "contains b sr sc" "contains b er ec"
  shows "is_destination_legal b sr sc er ec = Inr (dest_free_or_enemy b sr sc er ec)"
proof -
  have in_b: "is_in_bounds b (nat sr) (nat sc)" "is_in_bounds b (nat er) (nat ec)"
    and size: "to_size sr = nat sr" "to_size sc = nat sc" "to_size er = nat er" "to_size ec = nat ec"
    using assms(2,3) by (auto simp: contains_iff to_size_nonneg)
  show ?thesis
    using assms(1) in_b wf_cell_valid [OF assms(1) in_b(1)] wf_cell_valid [OF assms(1) in_b(2)]
    by (auto simp: is_destination_legal_def dest_free_or_enemy_def color_at_def size wf_opponent
        split: option.splits)
qed

lemma knight_geometry: "is_knight_move dr dc \<longleftrightarrow> {\<bar>dr\<bar>, \<bar>dc\<bar>} = {1, 2}"
  by (auto simp: is_knight_move_def doubleton_eq_iff)

lemma validator_geometry:
  assumes "wf_board b" "contains b sr sc" "contains b er ec" "(sr, sc) \<noteq> (er, ec)"
    and "k \<noteq> Pawn" "re_validator (get_rule_entry k) = Some v"
  shows "v b sr sc er ec =
           Inr (geometry k (er - sr) (ec - sc) \<and> (slides k \<longrightarrow> path_free b sr sc er ec))"
  using assms
  by (cases k)
    (auto simp: registry_simps slides_def is_king_move_def validate_knight_move_def knight_geometry
      is_rook_move_ok is_bishop_move_ok is_queen_move_ok)

lemma legal_geometric:
  assumes wf: "wf_board b" and k: "k \<noteq> Pawn" "k \<noteq> Count"
  shows "is_legal_move b k sr sc er ec =
           Inr (contains b sr sc \<and> contains b er ec \<and> (sr, sc) \<noteq> (er, ec) \<and>
                geometry k (er - sr) (ec - sc) \<and> (slides k \<longrightarrow> path_free b sr sc er ec) \<and>
                dest_free_or_enemy b sr sc er ec)"
proof -
  obtain v where v: "re_validator (get_rule_entry k) = Some v"
    using registry_playable [OF k(2)] by blast
  have "re_requires_destination_check (get_rule_entry k)"
    using k by (cases k) (simp_all add: registry_simps)
  moreover have "rows b \<noteq> 0 \<and> cols b \<noteq> 0" if "contains b sr sc"
    using that by (auto simp: contains_iff is_in_bounds_iff)
  ultimately show ?thesis
    using wf v k validator_geometry [OF wf, of sr sc er ec k v] is_destination_legal_ok [OF wf]
    by (auto simp: is_legal_move_def Let_def)
qed

text \<open>Pawns: \<open>forward c\<close> is the direction of colour \<open>c\<close>, \<open>pawn_home\<close> its double-step row.\<close>

definition forward :: "piece_color \<Rightarrow> int" where
  "forward c = (if c = White then -1 else 1)"

definition pawn_home :: "board_model \<Rightarrow> piece_color \<Rightarrow> int" where
  "pawn_home b c = (if c = White then int (rows b) - 2 else 1)"

definition pawn_move_spec :: "board_model \<Rightarrow> piece_color \<Rightarrow> int \<Rightarrow> int \<Rightarrow> int \<Rightarrow> int \<Rightarrow> bool" where
  "pawn_move_spec b c sr sc er ec \<longleftrightarrow>
     (ec = sc \<and> er = sr + forward c \<and> color_at b er ec = None) \<or>
     (ec = sc \<and> er = sr + 2 * forward c \<and> 4 \<le> rows b \<and> sr = pawn_home b c \<and>
        color_at b er ec = None \<and> color_at b (sr + forward c) sc = None) \<or>
     (\<bar>ec - sc\<bar> = 1 \<and> er = sr + forward c \<and> color_at b er ec = Some (opposite c))"

lemma is_pawn_move_for_piece_ok:
  assumes wf: "wf_board b" and start: "contains b sr sc" and dest: "contains b er ec"
  shows "is_pawn_move_for_piece b p sr sc er ec = Inr (pawn_move_spec b (pc_color p) sr sc er ec)"
proof -
  have size: "to_size sr = nat sr" "to_size sc = nat sc" "to_size er = nat er" "to_size ec = nat ec"
    and in_b: "is_in_bounds b (nat er) (nat ec)"
    using start dest by (auto simp: contains_iff to_size_nonneg)
  have mid: "to_size (sr - 1) = nat (sr - 1) \<and> is_in_bounds b (nat (sr - 1)) (nat sc)" if "er - sr = -2"
    using start dest that by (auto simp: contains_iff is_in_bounds_iff to_size_nonneg)
  have mid': "to_size (sr + 1) = nat (sr + 1) \<and> is_in_bounds b (nat (sr + 1)) (nat sc)" if "er - sr = 2"
    using start dest that by (auto simp: contains_iff is_in_bounds_iff to_size_nonneg)
  have at_dest: "piece_at b (nat er) (nat ec) = Inr (map_option (piece_of b) (cell_at b (nat er) (nat ec)))"
    using wf in_b by simp
  show ?thesis
  proof (cases "pc_color p")
    case White
    show ?thesis
      using wf mid
      by (auto simp: is_pawn_move_for_piece_def pawn_move_spec_def forward_def pawn_home_def
          is_white_def is_black_def White size at_dest color_at_def is_pawn_start_row_def Let_def
          algebra_simps split: option.splits)
  next
    case Black
    show ?thesis
      using wf mid'
      by (auto simp: is_pawn_move_for_piece_def pawn_move_spec_def forward_def pawn_home_def
          is_white_def is_black_def Black size at_dest color_at_def is_pawn_start_row_def Let_def
          algebra_simps split: option.splits)
  qed
qed

lemma legal_pawn:
  assumes wf: "wf_board b"
  shows "is_legal_move b Pawn sr sc er ec =
           Inr (contains b sr sc \<and> contains b er ec \<and>
                (\<exists>c. color_at b sr sc = Some c \<and> pawn_move_spec b c sr sc er ec))"
proof -
  have ne: "\<not> pawn_move_spec b c sr sc sr sc" for c
    by (auto simp: pawn_move_spec_def forward_def split: if_splits)
  have dims: "rows b \<noteq> 0 \<and> cols b \<noteq> 0" if "contains b sr sc"
    using that by (auto simp: contains_iff is_in_bounds_iff)
  show ?thesis
  proof (cases "contains b sr sc \<and> contains b er ec \<and> (sr, sc) \<noteq> (er, ec)")
    case True
    then have "is_in_bounds b (nat sr) (nat sc)" "to_size sr = nat sr" "to_size sc = nat sc"
      by (auto simp: contains_iff to_size_nonneg)
    with True wf dims show ?thesis
      by (auto simp: is_legal_move_def registry_simps is_pawn_move_def color_at_def
          is_pawn_move_for_piece_ok split: option.splits)
  next
    case False
    with ne dims show ?thesis
      by (auto simp: is_legal_move_def)
  qed
qed

end
