(* ===== verification/Float32.thy ===== *)
theory Float32
  imports Complex_Main "HOL-Library.Log_Nat"
begin

section \<open>Single- and double-precision rounding\<close>

text \<open>
  The values of \<^verbatim>\<open>float\<close> and \<^verbatim>\<open>double\<close> are modelled as the rationals they denote. \<open>f32 x\<close> and
  \<open>f64 x\<close> are the IEEE binary32 and binary64 values nearest to \<open>x\<close>, ties to even, for \<open>x\<close> zero or of
  magnitude in the normal range; the quotients the source forms (progress of an animation: a
  positive integer of at most 63 bits over a larger one; expected scores of players) are in that
  range, so neither overflow nor subnormal numbers arise. The lemmas: rounding is monotone,
  fixes zero, one and the integers that fit, and keeps the sign.
\<close>

subsection \<open>Rounding to nearest, ties to even\<close>

definition round_half_even :: "rat \<Rightarrow> int" where
  "round_half_even y =
     (let f = \<lfloor>y\<rfloor>; r = y - of_int f
      in if r < 1 / 2 then f else if r > 1 / 2 then f + 1 else if even f then f else f + 1)"

lemma round_half_even_floor: "\<lfloor>y\<rfloor> \<le> round_half_even y \<and> round_half_even y \<le> \<lfloor>y\<rfloor> + 1"
  by (simp add: round_half_even_def Let_def)

lemma round_half_even_of_int [simp]: "round_half_even (of_int n) = n"
  by (simp add: round_half_even_def)

lemma round_half_even_mono:
  assumes "y \<le> z"
  shows "round_half_even y \<le> round_half_even z"
proof (cases "\<lfloor>y\<rfloor> = \<lfloor>z\<rfloor>")
  case True
  then show ?thesis
    using assms by (auto simp: round_half_even_def Let_def)
next
  case False
  with floor_mono [OF assms] have "\<lfloor>y\<rfloor> + 1 \<le> \<lfloor>z\<rfloor>" by simp
  then show ?thesis
    using round_half_even_floor [of y] round_half_even_floor [of z] by simp
qed

lemma round_half_even_le: "y \<le> of_int n \<Longrightarrow> round_half_even y \<le> n"
  using round_half_even_mono [of y "of_int n"] by simp

lemma round_half_even_ge: "of_int n \<le> y \<Longrightarrow> n \<le> round_half_even y"
  using round_half_even_mono [of "of_int n" y] by simp

subsection \<open>The binary exponent\<close>

definition floor_log2 :: "rat \<Rightarrow> int" where
  "floor_log2 x =
     (let (n, d) = quotient_of x; k = bitlen n - bitlen d
      in if 2 powi k \<le> x then k else k - 1)"

lemma bitlen_powi:
  assumes "0 < n"
  shows "2 powi (bitlen n - 1) \<le> (of_int n :: rat) \<and> (of_int n :: rat) < 2 powi bitlen n"
proof -
  have b: "2 ^ nat (bitlen n - 1) \<le> n" "n < 2 ^ nat (bitlen n)"
    using bitlen_bounds [OF assms] by auto
  have pos: "0 < bitlen n"
    using bitlen_ge_iff_power [of 1 n] assms by simp
  have "(of_int (2 ^ nat (bitlen n - 1)) :: rat) \<le> of_int n" "(of_int n :: rat) < of_int (2 ^ nat (bitlen n))"
    using b by (simp_all only: of_int_le_iff of_int_less_iff)
  with pos show ?thesis
    by (simp add: power_int_def)
qed

lemma floor_log2_bounds:
  assumes "0 < x"
  shows "2 powi floor_log2 x \<le> x \<and> x < 2 powi (floor_log2 x + 1)"
proof -
  obtain n d where nd: "quotient_of x = (n, d)" by force
  have d: "0 < d" and x: "x = of_int n / of_int d"
    using quotient_of_denom_pos [OF nd] quotient_of_div [OF nd] by auto
  have n: "0 < n"
    using assms d x by (simp add: zero_less_divide_iff)
  let ?k = "bitlen n - bitlen d"
  have up: "x < 2 powi (?k + 1)"
  proof -
    have "x < 2 powi bitlen n / 2 powi (bitlen d - 1)"
      unfolding x using bitlen_powi [OF n] bitlen_powi [OF d] d n by (intro frac_less) auto
    also have "\<dots> = 2 powi (bitlen n - (bitlen d - 1))"
      by (rule power_int_diff [symmetric]) simp
    also have "bitlen n - (bitlen d - 1) = ?k + 1"
      by simp
    finally show ?thesis .
  qed
  have low: "2 powi (?k - 1) \<le> x"
  proof -
    have "?k - 1 = (bitlen n - 1) - bitlen d"
      by simp
    then have "2 powi (?k - 1) = (2 powi ((bitlen n - 1) - bitlen d) :: rat)"
      by (rule arg_cong)
    also have "\<dots> = 2 powi (bitlen n - 1) / 2 powi bitlen d"
      by (rule power_int_diff) simp
    also have "\<dots> \<le> x"
      unfolding x using bitlen_powi [OF n] bitlen_powi [OF d] d n
      by (intro frac_le) (auto simp: less_imp_le)
    finally show ?thesis .
  qed
  show ?thesis
    using up low by (simp add: floor_log2_def nd Let_def)
qed

lemma floor_log2_mono:
  assumes "0 < x" "x \<le> y"
  shows "floor_log2 x \<le> floor_log2 y"
proof (rule ccontr)
  assume "\<not> ?thesis"
  then have "2 powi (floor_log2 y + 1) \<le> (2 powi floor_log2 x :: rat)"
    by (intro power_int_increasing) auto
  with floor_log2_bounds [of x] floor_log2_bounds [of y] assms show False
    by simp
qed

subsection \<open>Rounding to a precision\<close>

text \<open>\<open>fround p\<close> rounds to \<open>p + 1\<close> significant bits.\<close>

definition fround_pos :: "nat \<Rightarrow> rat \<Rightarrow> rat" where
  "fround_pos p x =
     (let e = floor_log2 x - int p in of_int (round_half_even (x / 2 powi e)) * 2 powi e)"

definition fround :: "nat \<Rightarrow> rat \<Rightarrow> rat" where
  "fround p x = (if x = 0 then 0 else if 0 < x then fround_pos p x else - fround_pos p (- x))"

lemma fround_0 [simp]: "fround p 0 = 0"
  by (simp add: fround_def)

lemma fround_minus: "fround p (- x) = - fround p x"
  by (simp add: fround_def)

lemma fround_pos_bounds:
  assumes "0 < x"
  shows "2 powi floor_log2 x \<le> fround_pos p x \<and> fround_pos p x \<le> 2 powi (floor_log2 x + 1)"
proof -
  let ?e = "floor_log2 x - int p"
  have e: "(2::rat) powi floor_log2 x = 2 ^ p * 2 powi ?e"
    "(2::rat) powi (floor_log2 x + 1) = 2 ^ Suc p * 2 powi ?e"
    by (simp_all add: power_int_diff power_int_add)
  have pe: "(0::rat) < 2 powi ?e" by simp
  have "of_int (2 ^ p) \<le> x / 2 powi ?e" "x / 2 powi ?e \<le> of_int (2 ^ Suc p)"
    using floor_log2_bounds [OF assms] pe unfolding e
    by (simp_all add: pos_divide_le_eq pos_le_divide_eq)
  then have "2 ^ p \<le> round_half_even (x / 2 powi ?e)" "round_half_even (x / 2 powi ?e) \<le> 2 ^ Suc p"
    by (auto intro: round_half_even_ge round_half_even_le)
  then have "(of_int (2 ^ p) :: rat) \<le> of_int (round_half_even (x / 2 powi ?e))"
    "of_int (round_half_even (x / 2 powi ?e)) \<le> (of_int (2 ^ Suc p) :: rat)"
    by (simp_all only: of_int_le_iff)
  then have "2 ^ p * 2 powi ?e \<le> of_int (round_half_even (x / 2 powi ?e)) * (2 :: rat) powi ?e"
    "of_int (round_half_even (x / 2 powi ?e)) * (2 :: rat) powi ?e \<le> 2 ^ Suc p * 2 powi ?e"
    using pe by (auto intro!: mult_right_mono)
  then show ?thesis
    unfolding e fround_pos_def Let_def by simp
qed

lemma fround_pos_mono:
  assumes "0 < x" "x \<le> y"
  shows "fround_pos p x \<le> fround_pos p y"
proof (cases "floor_log2 x = floor_log2 y")
  case True
  have "round_half_even (x / 2 powi (floor_log2 y - int p)) \<le>
        round_half_even (y / 2 powi (floor_log2 y - int p))"
    using assms by (intro round_half_even_mono divide_right_mono) auto
  then show ?thesis
    by (simp add: fround_pos_def Let_def True mult_right_mono)
next
  case False
  with floor_log2_mono [OF assms] have "(2::rat) powi (floor_log2 x + 1) \<le> 2 powi floor_log2 y"
    by (intro power_int_increasing) auto
  with fround_pos_bounds [of x p] fround_pos_bounds [of y p] assms show ?thesis
    by simp
qed

lemma fround_mono: "0 \<le> x \<Longrightarrow> x \<le> y \<Longrightarrow> fround p x \<le> fround p y"
  using fround_pos_mono [of x y p] fround_pos_bounds [of y p]
  by (auto simp: fround_def intro: order_trans [of _ "2 powi _"])

lemma fround_nonneg: "0 \<le> x \<Longrightarrow> 0 \<le> fround p x"
  using fround_mono [of 0 x p] by simp

lemma fround_positive: "0 < x \<Longrightarrow> 0 < fround p x"
  using fround_pos_bounds [of x p] by (auto simp: fround_def intro: less_le_trans [of _ "2 powi _"])

text \<open>Integers of at most \<open>p + 1\<close> bits are represented exactly.\<close>

lemma fround_of_nat:
  assumes "n < 2 ^ Suc p"
  shows "fround p (of_nat n) = of_nat n"
proof (cases "n = 0")
  case False
  let ?x = "of_nat n :: rat" and ?l = "floor_log2 (of_nat n)"
  let ?e = "?l - int p"
  have x: "0 < ?x" using False by simp
  note b = floor_log2_bounds [OF x]
  have l: "?l \<le> int p"
  proof (rule ccontr)
    assume "\<not> ?l \<le> int p"
    then have "(2::rat) powi int (Suc p) \<le> 2 powi ?l" by (intro power_int_increasing) auto
    also have "(2::rat) powi int (Suc p) = 2 ^ Suc p" by (simp only: power_int_of_nat)
    finally have "(2::rat) ^ Suc p \<le> of_nat n" using b by (meson order_trans)
    then have "(of_nat (2 ^ Suc p) :: rat) \<le> of_nat n" by (simp only: of_nat_power of_nat_numeral)
    with assms show False by (simp only: of_nat_le_iff not_less [symmetric])
  qed
  have "?x / 2 powi ?e = of_nat n * 2 powi (- ?e)"
    using power_int_minus [of "2::rat" ?e] by (simp only: divide_inverse)
  also have "\<dots> = of_int (int n * 2 ^ nat (- ?e))"
    using l by (simp add: power_int_def)
  finally have "round_half_even (?x / 2 powi ?e) = int n * 2 ^ nat (- ?e)"
    by (simp only: round_half_even_of_int)
  then have "fround_pos p ?x = of_nat n * (2 ^ nat (- ?e) * 2 powi ?e)"
    by (simp add: fround_pos_def Let_def mult.assoc)
  also have "(2 ^ nat (- ?e) :: rat) * 2 powi ?e = 1"
    using l by (simp add: power_int_def flip: power_mult_distrib)
  finally show ?thesis using x by (simp add: fround_def)
qed simp

lemma fround_1 [simp]: "fround p 1 = 1"
  using fround_of_nat [of 1 p] one_less_power [of "2::nat" "Suc p"] by (simp del: power_Suc)

lemma fround_le_1: "0 \<le> x \<Longrightarrow> x \<le> 1 \<Longrightarrow> fround p x \<le> 1"
  using fround_mono [of x 1 p] by simp

subsection \<open>Single and double precision\<close>

definition f32 :: "rat \<Rightarrow> rat" where
  "f32 = fround 23"

definition f64 :: "rat \<Rightarrow> rat" where
  "f64 = fround 52"

lemma f32_0 [simp]: "f32 0 = 0"
  by (simp add: f32_def)

lemma f32_1 [simp]: "f32 1 = 1"
  by (simp add: f32_def)

lemma f32_mono: "0 \<le> x \<Longrightarrow> x \<le> y \<Longrightarrow> f32 x \<le> f32 y"
  unfolding f32_def by (rule fround_mono)

lemma f32_nonneg: "0 \<le> x \<Longrightarrow> 0 \<le> f32 x"
  unfolding f32_def by (rule fround_nonneg)

lemma f32_positive: "0 < x \<Longrightarrow> 0 < f32 x"
  unfolding f32_def by (rule fround_positive)

lemma f32_le_1: "0 \<le> x \<Longrightarrow> x \<le> 1 \<Longrightarrow> f32 x \<le> 1"
  unfolding f32_def by (rule fround_le_1)

lemma f64_mono: "0 \<le> x \<Longrightarrow> x \<le> y \<Longrightarrow> f64 x \<le> f64 y"
  unfolding f64_def by (rule fround_mono)

lemma f64_nonneg: "0 \<le> x \<Longrightarrow> 0 \<le> f64 x"
  unfolding f64_def by (rule fround_nonneg)

lemma f64_positive: "0 < x \<Longrightarrow> 0 < f64 x"
  unfolding f64_def by (rule fround_positive)

end
