(* ===== verification/Render_Snapshot.thy ===== *)
theory Render_Snapshot
  imports Piece_Token Float32
begin

section \<open>Scheduled actions and the animation snapshot\<close>

text \<open>
  The structs of \<^verbatim>\<open>realtime/move_scheduler.h\<close> that record a move in flight, a jump in
  progress and a rest, the snapshot structs of \<^verbatim>\<open>realtime/render_snapshot.h\<close> and the
  progress function. The clock is a 64-bit integer in milliseconds: it is an unbounded \<open>int\<close>
  here (a clock that overflows has run for 290 million years), while the two rest times, which
  the source stores in an \<^verbatim>\<open>int\<close>, are truncated where they are computed. A
  \<^verbatim>\<open>float\<close> is the rational it denotes, rounded by \<open>f32\<close> at every operation. The lemmas
  bound the progress by zero and one and show that it never goes backwards.
\<close>

subsection \<open>Scheduled actions\<close>

datatype rest_kind = Short | Long

record pending_move =
  pm_piece_id :: piece_id
  pm_color :: piece_color
  pm_kind :: piece_kind
  pm_start_pos :: cell
  pm_end_pos :: cell
  pm_start_time :: int
  pm_arrival_time :: int

record jump_state =
  js_piece_id :: piece_id
  js_color :: piece_color
  js_kind :: piece_kind
  js_cell :: cell
  js_start_time :: int
  js_arrival_time :: int

record active_rest =
  ar_kind :: rest_kind
  ar_start_time_ms :: int
  ar_end_time_ms :: int
  ar_row :: nat
  ar_col :: nat

subsection \<open>Snapshots\<close>

record active_move_snapshot =
  ams_piece_id :: piece_id
  ams_kind :: piece_kind
  ams_color :: piece_color
  ams_from_row :: nat
  ams_from_col :: nat
  ams_to_row :: nat
  ams_to_col :: nat
  ams_progress :: rat

record active_jump_snapshot =
  ajs_piece_id :: piece_id
  ajs_kind :: piece_kind
  ajs_color :: piece_color
  ajs_row :: nat
  ajs_col :: nat
  ajs_progress :: rat

record active_rest_snapshot =
  ars_piece_id :: piece_id
  ars_row :: nat
  ars_col :: nat
  ars_kind :: rest_kind
  ars_progress :: rat

record animation_snapshot =
  as_moves :: "active_move_snapshot list"
  as_jumps :: "active_jump_snapshot list"
  as_rests :: "active_rest_snapshot list"

definition compute_animation_progress :: "int \<Rightarrow> int \<Rightarrow> int \<Rightarrow> rat" where
  "compute_animation_progress clock_ms start_time arrival_time =
     (if clock_ms \<ge> arrival_time then 1
      else if clock_ms \<le> start_time then 0
      else
        (let duration = arrival_time - start_time
         in f32 (f32 (of_int (clock_ms - start_time)) / f32 (of_int duration))))"

subsection \<open>Progress stays in the unit interval and never decreases\<close>

lemma progress_quotient:
  assumes "s < c" "c \<le> c'" "c' < a"
  shows "f32 (of_int (c - s)) / f32 (of_int (a - s)) \<le> f32 (of_int (c' - s)) / f32 (of_int (a - s))"
    and "0 \<le> f32 (of_int (c - s)) / f32 (of_int (a - s))"
    and "f32 (of_int (c' - s)) / f32 (of_int (a - s)) \<le> 1"
proof -
  have pos: "0 < f32 (of_int (a - s))"
    using assms by (intro f32_positive) simp
  have le: "f32 (of_int (c - s)) \<le> f32 (of_int (c' - s))" "f32 (of_int (c' - s)) \<le> f32 (of_int (a - s))"
    using assms by (auto intro!: f32_mono)
  show "f32 (of_int (c - s)) / f32 (of_int (a - s)) \<le> f32 (of_int (c' - s)) / f32 (of_int (a - s))"
    using le pos by (intro divide_right_mono) auto
  show "0 \<le> f32 (of_int (c - s)) / f32 (of_int (a - s))"
    using assms pos by (intro divide_nonneg_pos f32_nonneg) auto
  show "f32 (of_int (c' - s)) / f32 (of_int (a - s)) \<le> 1"
    using le pos by (simp add: pos_divide_le_eq)
qed

lemma progress_unit:
  "0 \<le> compute_animation_progress c s a \<and> compute_animation_progress c s a \<le> 1"
  using progress_quotient [of s c c a]
  by (auto simp: compute_animation_progress_def Let_def intro!: f32_nonneg f32_le_1)

lemma progress_mono:
  assumes "c \<le> c'"
  shows "compute_animation_progress c s a \<le> compute_animation_progress c' s a"
proof (cases "s < c \<and> c' < a")
  case True
  then show ?thesis
    using assms progress_quotient [of s c c' a]
    by (auto simp: compute_animation_progress_def Let_def intro!: f32_mono)
next
  case False
  then have "compute_animation_progress c' s a = 1 \<or> compute_animation_progress c s a = 0"
    using assms by (auto simp: compute_animation_progress_def)
  then show ?thesis
    using progress_unit [of c s a] progress_unit [of c' s a] by auto
qed

end
