(* ===== verification/Collision_Resolver.thy ===== *)
theory Collision_Resolver
  imports Piece_Rules Render_Snapshot
begin

section \<open>Collisions: routes, destination claims and arrivals\<close>

text \<open>
  \<^verbatim>\<open>realtime/collision_resolver.cpp\<close>: when two moves conflict on the way, whether a friend
  already claims a destination, and what an arrival captures. The lemmas give the two route
  tests in terms of the segments the moves run over, and the three outcomes of an arrival on a
  well-formed board.
\<close>

record arriving_piece_info =
  ap_piece_id :: piece_id
  ap_start_pos :: cell
  ap_end_pos :: cell

definition ranges_overlap :: "nat \<Rightarrow> nat \<Rightarrow> nat \<Rightarrow> nat \<Rightarrow> bool" where
  "ranges_overlap a_min a_max b_min b_max \<longleftrightarrow> a_min \<le> b_max \<and> b_min \<le> a_max"

definition has_common_route :: "pending_move \<Rightarrow> pending_move \<Rightarrow> bool result" where
  "has_common_route a b =
     bindR (paths_share_cell (pm_start_pos a) (pm_end_pos a) (pm_start_pos b) (pm_end_pos b))
       (\<lambda>share. if share then Inr True
         else
           (let a_horizontal = (fst (pm_start_pos a) = fst (pm_end_pos a));
                b_horizontal = (fst (pm_start_pos b) = fst (pm_end_pos b))
            in if a_horizontal \<and> b_horizontal then
                 Inr (ranges_overlap
                   (min (snd (pm_start_pos a)) (snd (pm_end_pos a)))
                   (max (snd (pm_start_pos a)) (snd (pm_end_pos a)))
                   (min (snd (pm_start_pos b)) (snd (pm_end_pos b)))
                   (max (snd (pm_start_pos b)) (snd (pm_end_pos b))))
               else
                 (let a_vertical = (snd (pm_start_pos a) = snd (pm_end_pos a));
                      b_vertical = (snd (pm_start_pos b) = snd (pm_end_pos b))
                  in if a_vertical \<and> b_vertical then
                       Inr (ranges_overlap
                         (min (fst (pm_start_pos a)) (fst (pm_end_pos a)))
                         (max (fst (pm_start_pos a)) (fst (pm_end_pos a)))
                         (min (fst (pm_start_pos b)) (fst (pm_end_pos b)))
                         (max (fst (pm_start_pos b)) (fst (pm_end_pos b))))
                     else Inr False)))"

fun conflicts_with_opposite_color_move ::
  "pending_move list \<Rightarrow> int \<Rightarrow> piece_color \<Rightarrow> pending_move \<Rightarrow> bool result" where
  "conflicts_with_opposite_color_move [] clock_ms moving_color proposed = Inr False"
| "conflicts_with_opposite_color_move (existing # rest) clock_ms moving_color proposed =
     (if clock_ms \<ge> pm_arrival_time existing
      then conflicts_with_opposite_color_move rest clock_ms moving_color proposed
      else if pm_color existing = moving_color
      then conflicts_with_opposite_color_move rest clock_ms moving_color proposed
      else bindR (has_common_route existing proposed)
        (\<lambda>common. if common then Inr True
          else conflicts_with_opposite_color_move rest clock_ms moving_color proposed))"

fun is_same_color_destination_claimed ::
  "pending_move list \<Rightarrow> int \<Rightarrow> piece_color \<Rightarrow> cell \<Rightarrow> bool" where
  "is_same_color_destination_claimed [] clock_ms moving_color end_pos = False"
| "is_same_color_destination_claimed (existing # rest) clock_ms moving_color end_pos =
     (if clock_ms \<ge> pm_arrival_time existing
      then is_same_color_destination_claimed rest clock_ms moving_color end_pos
      else if pm_color existing \<noteq> moving_color
      then is_same_color_destination_claimed rest clock_ms moving_color end_pos
      else if pm_end_pos existing = end_pos then True
      else is_same_color_destination_claimed rest clock_ms moving_color end_pos)"

text \<open>
  The loop over the active jumps, and the whole arrival: the value is the returned flag, the
  board and the game-over flag. \<^verbatim>\<open>arriving_piece\<close> is a reference into the store, so it is
  read again after the occupant is removed.
\<close>

fun jump_captures :: "jump_state list \<Rightarrow> int \<Rightarrow> cell \<Rightarrow> piece \<Rightarrow> bool" where
  "jump_captures [] clock_ms target_cell arriving_piece = False"
| "jump_captures (jump # rest) clock_ms target_cell arriving_piece =
     (if clock_ms \<le> js_arrival_time jump \<and> js_cell jump = target_cell \<and>
         pc_color arriving_piece \<noteq> js_color jump
      then True
      else jump_captures rest clock_ms target_cell arriving_piece)"

definition check_for_jump_capture ::
  "board_model \<Rightarrow> game_rules \<Rightarrow> int \<Rightarrow> jump_state list \<Rightarrow> cell \<Rightarrow> arriving_piece_info \<Rightarrow> bool \<Rightarrow>
   (bool \<times> board_model \<times> bool) result" where
  "check_for_jump_capture b rules clock_ms active_jumps target_cell info game_over =
     (let (end_row, end_col) = target_cell
      in bindR (get_piece b (ap_piece_id info))
       (\<lambda>arriving_piece.
          if jump_captures active_jumps clock_ms target_cell arriving_piece
          then Inr (True, b, if gr_is_game_over rules arriving_piece then True else game_over)
          else bindR (piece_at b end_row end_col)
            (\<lambda>destination.
               case destination of
                 None \<Rightarrow> Inr (False, b, game_over)
               | Some d \<Rightarrow>
                   if pc_color d = pc_color arriving_piece then Inr (False, b, game_over)
                   else
                     bindR (remove_piece_at b end_row end_col)
                       (\<lambda>b1. bindR (get_piece b1 (ap_piece_id info))
                          (\<lambda>arriving.
                             (let p = gr_on_reach_last_row rules arriving end_row (rows b1);
                                  p = p\<lparr>pc_cell := \<lparr>pos_row = int end_row, pos_col = int end_col\<rparr>\<rparr>;
                                  p = p\<lparr>pc_state := Idle\<rparr>
                              in bindR (place_piece b1 p)
                                   (\<lambda>b2. Inr (True, b2,
                                      if gr_is_game_over rules d then True else game_over))))))))"

subsection \<open>Routes and claims\<close>

definition span_overlap :: "nat \<Rightarrow> nat \<Rightarrow> nat \<Rightarrow> nat \<Rightarrow> bool" where
  "span_overlap a a' b b' \<longleftrightarrow> {min a a'..max a a'} \<inter> {min b b'..max b b'} \<noteq> {}"

lemma ranges_overlap_span:
  "ranges_overlap (min a a') (max a a') (min b b') (max b b') \<longleftrightarrow> span_overlap a a' b b'"
proof -
  have "x \<le> y' \<and> y \<le> x' \<longleftrightarrow> {x..x'} \<inter> {y..y'} \<noteq> {}" if "x \<le> x'" "y \<le> y'" for x x' y y' :: nat
    using that by (auto simp: Int_atLeastAtMost)
  from this [of "min a a'" "max a a'" "min b b'" "max b b'"] show ?thesis
    unfolding ranges_overlap_def span_overlap_def by linarith
qed

definition share_cell :: "pending_move \<Rightarrow> pending_move \<Rightarrow> bool" where
  "share_cell a b =
     (if cell_straight (pm_start_pos a) (pm_end_pos a) \<and> cell_straight (pm_start_pos b) (pm_end_pos b)
      then cell_segment (pm_start_pos a) (pm_end_pos a) \<inter>
             cell_segment (pm_start_pos b) (pm_end_pos b) \<noteq> {}
      else {pm_start_pos a, pm_end_pos a} \<inter> {pm_start_pos b, pm_end_pos b} \<noteq> {})"

definition common_route :: "pending_move \<Rightarrow> pending_move \<Rightarrow> bool" where
  "common_route a b \<longleftrightarrow>
     share_cell a b \<or>
     fst (pm_start_pos a) = fst (pm_end_pos a) \<and> fst (pm_start_pos b) = fst (pm_end_pos b) \<and>
       span_overlap (snd (pm_start_pos a)) (snd (pm_end_pos a))
         (snd (pm_start_pos b)) (snd (pm_end_pos b)) \<or>
     \<not> (fst (pm_start_pos a) = fst (pm_end_pos a) \<and> fst (pm_start_pos b) = fst (pm_end_pos b)) \<and>
       snd (pm_start_pos a) = snd (pm_end_pos a) \<and> snd (pm_start_pos b) = snd (pm_end_pos b) \<and>
       span_overlap (fst (pm_start_pos a)) (fst (pm_end_pos a))
         (fst (pm_start_pos b)) (fst (pm_end_pos b))"

lemma paths_share_cell_eq:
  "paths_share_cell (pm_start_pos a) (pm_end_pos a) (pm_start_pos b) (pm_end_pos b) =
     Inr (share_cell a b)"
  using paths_share_cell_endpoints [of "pm_start_pos a" "pm_end_pos a" "pm_start_pos b" "pm_end_pos b"]
  by (auto simp: share_cell_def paths_share_cell_straight)

lemma has_common_route_eq: "has_common_route a b = Inr (common_route a b)"
  by (auto simp: has_common_route_def paths_share_cell_eq common_route_def ranges_overlap_span Let_def)

lemma conflicts_with_opposite_color_move_eq:
  "conflicts_with_opposite_color_move ps clk c proposed =
     Inr (\<exists>m \<in> set ps. clk < pm_arrival_time m \<and> pm_color m \<noteq> c \<and> common_route m proposed)"
  by (induction ps) (auto simp: has_common_route_eq)

lemma is_same_color_destination_claimed_iff:
  "is_same_color_destination_claimed ps clk c dest \<longleftrightarrow>
     (\<exists>m \<in> set ps. clk < pm_arrival_time m \<and> pm_color m = c \<and> pm_end_pos m = dest)"
  by (induction ps) auto

lemma jump_captures_iff:
  "jump_captures js clk cl p \<longleftrightarrow>
     (\<exists>j \<in> set js. clk \<le> js_arrival_time j \<and> js_cell j = cl \<and> js_color j \<noteq> pc_color p)"
  by (induction js) auto

subsection \<open>Arrivals\<close>

text \<open>The piece as it stands after its arrival.\<close>

definition arrived :: "game_rules \<Rightarrow> board_model \<Rightarrow> piece_id \<Rightarrow> cell \<Rightarrow> piece" where
  "arrived rules b i cl =
     (gr_on_reach_last_row rules (piece_of b i) (fst cl) (rows b))
       \<lparr>pc_cell := \<lparr>pos_row = int (fst cl), pos_col = int (snd cl)\<rparr>, pc_state := Idle\<rparr>"

definition enemy_at :: "board_model \<Rightarrow> piece_id \<Rightarrow> cell \<Rightarrow> piece_id option" where
  "enemy_at b i cl =
     (case cell_at b (fst cl) (snd cl) of
        None \<Rightarrow> None
      | Some j \<Rightarrow> if pc_color (piece_of b j) = pc_color (piece_of b i) then None else Some j)"

text \<open>
  What a rule set promises to the realtime engine: legality is decided on every well-formed
  board, a legal move leaves its cell, and promotion keeps the identity and the colour of a piece
  and changes the kind of pawns only.
\<close>

locale game_policy =
  fixes rules :: game_rules
  assumes legal_returns: "wf_board b \<Longrightarrow> \<exists>x. gr_is_legal_move rules b k sr sc er ec = Inr x"
    and legal_moves:
      "wf_board b \<Longrightarrow> gr_is_legal_move rules b k sr sc er ec = Inr True \<Longrightarrow> (sr, sc) \<noteq> (er, ec)"
    and promote_id [simp]: "pc_id (gr_on_reach_last_row rules p r n) = pc_id p"
    and promote_color [simp]: "pc_color (gr_on_reach_last_row rules p r n) = pc_color p"
    and promote_kind: "pc_kind (gr_on_reach_last_row rules p r n) = pc_kind p \<or>
      pc_kind p = Pawn \<and> pc_kind (gr_on_reach_last_row rules p r n) \<noteq> Count"
begin

lemma arrived_simps [simp]:
  "pc_id (arrived rules b i cl) = pc_id (piece_of b i)"
  "pc_color (arrived rules b i cl) = pc_color (piece_of b i)"
  "pc_state (arrived rules b i cl) = Idle"
  "pc_cell (arrived rules b i cl) = \<lparr>pos_row = int (fst cl), pos_col = int (snd cl)\<rparr>"
  by (simp_all add: arrived_def)

text \<open>The three outcomes of an arrival.\<close>

lemma check_for_jump_capture_ok:
  assumes b: "flight_inv b F" and i: "valid_id b (ap_piece_id info)"
    and cl: "is_in_bounds b (fst cl) (snd cl)"
  shows "check_for_jump_capture b rules clk js cl info go =
    (if jump_captures js clk cl (piece_of b (ap_piece_id info))
     then Inr (True, b, go \<or> gr_is_game_over rules (piece_of b (ap_piece_id info)))
     else case enemy_at b (ap_piece_id info) cl of
            None \<Rightarrow> Inr (False, b, go)
          | Some j \<Rightarrow> Inr (True,
              placed (removed b (fst cl) (snd cl)) (fst cl) (snd cl)
                (arrived rules b (ap_piece_id info) cl),
              go \<or> gr_is_game_over rules (piece_of b j)))"
proof -
  let ?i = "ap_piece_id info"
  have step: "place_piece (removed b (fst cl) (snd cl)) (arrived rules b ?i cl) =
      Inr (placed (removed b (fst cl) (snd cl)) (fst cl) (snd cl) (arrived rules b ?i cl))"
    using b i cl flight_removed [OF b cl]
    by (intro place_piece_ok) (auto simp: removed_def split: option.splits)
  have same: "rows (removed b (fst cl) (snd cl)) = rows b"
    "get_piece (removed b (fst cl) (snd cl)) ?i = Inr (piece_of b ?i)"
    if "cell_at b (fst cl) (snd cl) = Some j" "pc_color (piece_of b j) \<noteq> pc_color (piece_of b ?i)" for j
  proof -
    have "j \<noteq> ?i" using that by auto
    then show "rows (removed b (fst cl) (snd cl)) = rows b"
      "get_piece (removed b (fst cl) (snd cl)) ?i = Inr (piece_of b ?i)"
      using that i flight_cell(1) [OF b cl] by (auto simp: removed_def piece_of_upd_piece)
  qed
  show ?thesis
    using b i cl step same
    by (cases cl) (auto simp: check_for_jump_capture_def enemy_at_def arrived_def split: option.splits)
qed

end

lemma standard_moves:
  assumes "is_legal_move b k sr sc er ec = Inr True"
  shows "(sr, sc) \<noteq> (er, ec)"
  using assms by (auto simp: is_legal_move_def split: if_splits)

interpretation std_policy: game_policy standard
  by unfold_locales
    (auto simp: standard_def is_legal_move_returns standard_moves promote_pawn_to_queen_def Let_def
      dest: standard_moves)

end
