(* ===== verification/Move_Scheduler.thy ===== *)
theory Move_Scheduler
  imports Collision_Resolver "HOL-Library.AList"
begin

section \<open>The move scheduler\<close>

text \<open>
  \<^verbatim>\<open>realtime/move_scheduler.cpp\<close>: the queue of moves in flight, the list of jumps in
  progress and the table of rests. The table, an \<^verbatim>\<open>unordered_map\<close>, is an association list
  with distinct keys; the order in which it is iterated is unspecified in C++ and is the list's
  order here. A callback that the source runs inside a loop over the queue is an argument that
  takes and returns the scheduler together with whatever state it captures; the queue under
  iteration is replaced after the loop, as the source does.
\<close>

record move_scheduler =
  ms_pending_moves :: "pending_move list"
  ms_active_jumps :: "jump_state list"
  ms_active_rests :: "(piece_id \<times> active_rest) list"

definition empty_scheduler :: move_scheduler where
  "empty_scheduler = \<lparr>ms_pending_moves = [], ms_active_jumps = [], ms_active_rests = []\<rparr>"

subsection \<open>Queries\<close>

definition sched_is_piece_moving :: "move_scheduler \<Rightarrow> int \<Rightarrow> nat \<Rightarrow> nat \<Rightarrow> bool" where
  "sched_is_piece_moving ms clock_ms row col =
     list_ex (\<lambda>move. clock_ms < pm_arrival_time move \<and> fst (pm_start_pos move) = row \<and>
                     snd (pm_start_pos move) = col) (ms_pending_moves ms)"

definition sched_is_piece_jumping :: "move_scheduler \<Rightarrow> int \<Rightarrow> nat \<Rightarrow> nat \<Rightarrow> bool" where
  "sched_is_piece_jumping ms clock_ms row col =
     list_ex (\<lambda>jump. clock_ms < js_arrival_time jump \<and> fst (js_cell jump) = row \<and>
                     snd (js_cell jump) = col) (ms_active_jumps ms)"

definition sched_is_same_color_destination_claimed ::
  "move_scheduler \<Rightarrow> int \<Rightarrow> piece_color \<Rightarrow> cell \<Rightarrow> bool" where
  "sched_is_same_color_destination_claimed ms clock_ms color end_pos =
     is_same_color_destination_claimed (ms_pending_moves ms) clock_ms color end_pos"

definition sched_conflicts_with_opposite_color_move ::
  "move_scheduler \<Rightarrow> int \<Rightarrow> piece_color \<Rightarrow> pending_move \<Rightarrow> bool result" where
  "sched_conflicts_with_opposite_color_move ms clock_ms moving_color proposed =
     conflicts_with_opposite_color_move (ms_pending_moves ms) clock_ms moving_color proposed"

definition sched_check_for_jump_capture ::
  "move_scheduler \<Rightarrow> int \<Rightarrow> board_model \<Rightarrow> game_rules \<Rightarrow> cell \<Rightarrow> arriving_piece_info \<Rightarrow> bool \<Rightarrow>
   (bool \<times> board_model \<times> bool) result" where
  "sched_check_for_jump_capture ms clock_ms b rules target_cell info game_over =
     check_for_jump_capture b rules clock_ms (ms_active_jumps ms) target_cell info game_over"

definition sched_is_piece_resting :: "move_scheduler \<Rightarrow> int \<Rightarrow> piece_id \<Rightarrow> bool" where
  "sched_is_piece_resting ms clock_ms i =
     (case map_of (ms_active_rests ms) i of
        None \<Rightarrow> False
      | Some rest \<Rightarrow> clock_ms < ar_end_time_ms rest)"

definition sched_rest_kind :: "move_scheduler \<Rightarrow> int \<Rightarrow> piece_id \<Rightarrow> rest_kind option" where
  "sched_rest_kind ms clock_ms i =
     (case map_of (ms_active_rests ms) i of
        None \<Rightarrow> None
      | Some rest \<Rightarrow> if clock_ms \<ge> ar_end_time_ms rest then None else Some (ar_kind rest))"

subsection \<open>Loops with callbacks\<close>

definition for_each_in_flight_pending ::
  "int \<Rightarrow> (pending_move \<Rightarrow> 's \<Rightarrow> 's result) \<Rightarrow> move_scheduler \<Rightarrow> 's \<Rightarrow> 's result" where
  "for_each_in_flight_pending clock_ms fn ms s =
     foldR (\<lambda>move t. if clock_ms < pm_arrival_time move then fn move t else Inr t)
       (ms_pending_moves ms) s"

definition for_each_pending_due ::
  "int \<Rightarrow> (pending_move \<Rightarrow> move_scheduler \<times> 's \<Rightarrow> (move_scheduler \<times> 's) result) \<Rightarrow>
   move_scheduler \<times> 's \<Rightarrow> (move_scheduler \<times> 's) result" where
  "for_each_pending_due clock_ms fn s =
     bindR
       (foldR (\<lambda>move (still_pending, t).
                 if clock_ms < pm_arrival_time move then Inr (still_pending @ [move], t)
                 else bindR (fn move t) (\<lambda>t'. Inr (still_pending, t')))
          (ms_pending_moves (fst s)) ([], s))
       (\<lambda>(still_pending, ms, t). Inr (ms\<lparr>ms_pending_moves := still_pending\<rparr>, t))"

definition expire_jumps ::
  "int \<Rightarrow> (jump_state \<Rightarrow> move_scheduler \<times> 's \<Rightarrow> (move_scheduler \<times> 's) result) option \<Rightarrow>
   move_scheduler \<times> 's \<Rightarrow> (move_scheduler \<times> 's) result" where
  "expire_jumps clock_ms on_complete s =
     bindR
       (foldR (\<lambda>jump (still_jumping, t).
                 if clock_ms < js_arrival_time jump then Inr (still_jumping @ [jump], t)
                 else case on_complete of
                        None \<Rightarrow> Inr (still_jumping, t)
                      | Some fn \<Rightarrow> bindR (fn jump t) (\<lambda>t'. Inr (still_jumping, t')))
          (ms_active_jumps (fst s)) ([], s))
       (\<lambda>(still_jumping, ms, t). Inr (ms\<lparr>ms_active_jumps := still_jumping\<rparr>, t))"

subsection \<open>Updates\<close>

definition cancel_pending_move :: "piece_id \<Rightarrow> move_scheduler \<Rightarrow> move_scheduler" where
  "cancel_pending_move i ms =
     ms\<lparr>ms_pending_moves := remove_first (\<lambda>move. pm_piece_id move = i) (ms_pending_moves ms)\<rparr>"

definition schedule_move :: "pending_move \<Rightarrow> move_scheduler \<Rightarrow> move_scheduler" where
  "schedule_move move ms = ms\<lparr>ms_pending_moves := ms_pending_moves ms @ [move]\<rparr>"

definition schedule_jump :: "jump_state \<Rightarrow> move_scheduler \<Rightarrow> move_scheduler" where
  "schedule_jump jump ms = ms\<lparr>ms_active_jumps := ms_active_jumps ms @ [jump]\<rparr>"

definition schedule_rest ::
  "piece_id \<Rightarrow> rest_kind \<Rightarrow> int \<Rightarrow> int \<Rightarrow> nat \<Rightarrow> nat \<Rightarrow> move_scheduler \<Rightarrow> move_scheduler" where
  "schedule_rest i kind start_time_ms end_time_ms row col ms =
     ms\<lparr>ms_active_rests :=
          AList.update i
            \<lparr>ar_kind = kind, ar_start_time_ms = start_time_ms, ar_end_time_ms = end_time_ms,
             ar_row = row, ar_col = col\<rparr> (ms_active_rests ms)\<rparr>"

definition clear_rest :: "piece_id \<Rightarrow> move_scheduler \<Rightarrow> move_scheduler" where
  "clear_rest i ms = ms\<lparr>ms_active_rests := AList.delete i (ms_active_rests ms)\<rparr>"

definition expire_rests :: "int \<Rightarrow> move_scheduler \<Rightarrow> move_scheduler" where
  "expire_rests clock_ms ms =
     ms\<lparr>ms_active_rests := filter (\<lambda>(_, rest). \<not> clock_ms \<ge> ar_end_time_ms rest) (ms_active_rests ms)\<rparr>"

definition animations_at :: "int \<Rightarrow> move_scheduler \<Rightarrow> animation_snapshot" where
  "animations_at clock_ms ms =
     \<lparr>as_moves =
        map (\<lambda>move. \<lparr>ams_piece_id = pm_piece_id move, ams_kind = pm_kind move,
               ams_color = pm_color move,
               ams_from_row = fst (pm_start_pos move), ams_from_col = snd (pm_start_pos move),
               ams_to_row = fst (pm_end_pos move), ams_to_col = snd (pm_end_pos move),
               ams_progress = compute_animation_progress clock_ms (pm_start_time move)
                 (pm_arrival_time move)\<rparr>)
          (filter (\<lambda>move. \<not> clock_ms \<ge> pm_arrival_time move) (ms_pending_moves ms)),
      as_jumps =
        map (\<lambda>jump. \<lparr>ajs_piece_id = js_piece_id jump, ajs_kind = js_kind jump,
               ajs_color = js_color jump,
               ajs_row = fst (js_cell jump), ajs_col = snd (js_cell jump),
               ajs_progress = compute_animation_progress clock_ms (js_start_time jump)
                 (js_arrival_time jump)\<rparr>)
          (filter (\<lambda>jump. \<not> clock_ms \<ge> js_arrival_time jump) (ms_active_jumps ms)),
      as_rests =
        map (\<lambda>(piece_id, rest). \<lparr>ars_piece_id = piece_id, ars_row = ar_row rest,
               ars_col = ar_col rest, ars_kind = ar_kind rest,
               ars_progress = compute_animation_progress clock_ms (ar_start_time_ms rest)
                 (ar_end_time_ms rest)\<rparr>)
          (filter (\<lambda>(_, rest). \<not> clock_ms \<ge> ar_end_time_ms rest) (ms_active_rests ms))\<rparr>"

subsection \<open>The loops as folds over the due entries\<close>

definition due_moves :: "int \<Rightarrow> move_scheduler \<Rightarrow> pending_move list" where
  "due_moves clk ms = filter (\<lambda>m. pm_arrival_time m \<le> clk) (ms_pending_moves ms)"

definition later_moves :: "int \<Rightarrow> move_scheduler \<Rightarrow> pending_move list" where
  "later_moves clk ms = filter (\<lambda>m. clk < pm_arrival_time m) (ms_pending_moves ms)"

definition due_jumps :: "int \<Rightarrow> move_scheduler \<Rightarrow> jump_state list" where
  "due_jumps clk ms = filter (\<lambda>j. js_arrival_time j \<le> clk) (ms_active_jumps ms)"

definition later_jumps :: "int \<Rightarrow> move_scheduler \<Rightarrow> jump_state list" where
  "later_jumps clk ms = filter (\<lambda>j. clk < js_arrival_time j) (ms_active_jumps ms)"

lemma partition_foldR:
  "foldR (\<lambda>x (ys, t). if P x then Inr (ys @ [x], t) else bindR (f x t) (\<lambda>t'. Inr (ys, t'))) xs (ys, t) =
   bindR (foldR f (filter (\<lambda>x. \<not> P x) xs) t) (\<lambda>t'. Inr (ys @ filter P xs, t'))"
  by (induction xs arbitrary: ys t) (auto simp: bindR_assoc)

lemma for_each_pending_due_eq:
  "for_each_pending_due clk fn (ms, t) =
     bindR (foldR fn (due_moves clk ms) (ms, t))
       (\<lambda>(ms', t'). Inr (ms'\<lparr>ms_pending_moves := later_moves clk ms\<rparr>, t'))"
  by (simp add: for_each_pending_due_def bindR_assoc
      partition_foldR [where P = "\<lambda>m. clk < pm_arrival_time m" and f = fn, unfolded split_def]
      due_moves_def later_moves_def not_less split_def)

lemma expire_jumps_eq:
  "expire_jumps clk (Some fn) (ms, t) =
     bindR (foldR fn (due_jumps clk ms) (ms, t))
       (\<lambda>(ms', t'). Inr (ms'\<lparr>ms_active_jumps := later_jumps clk ms\<rparr>, t'))"
  unfolding expire_jumps_def option.case
  by (simp add: bindR_assoc
      partition_foldR [where P = "\<lambda>j. clk < js_arrival_time j" and f = fn, unfolded split_def] due_jumps_def later_jumps_def
      not_less split_def)

lemma for_each_in_flight_pending_eq:
  "for_each_in_flight_pending clk fn ms s = foldR fn (later_moves clk ms) s"
proof -
  have "foldR (\<lambda>x t. if P x then fn x t else Inr t) xs s = foldR fn (filter P xs) s" for P xs s
    by (induction xs arbitrary: s) (auto cong: bindR_cong)
  then show ?thesis
    by (simp add: for_each_in_flight_pending_def later_moves_def)
qed

lemma partition_mset_set:
  "set (due_moves clk ms) \<union> set (later_moves clk ms) = set (ms_pending_moves ms)"
  "set (due_jumps clk ms) \<union> set (later_jumps clk ms) = set (ms_active_jumps ms)"
  by (auto simp: due_moves_def later_moves_def due_jumps_def later_jumps_def)

subsection \<open>Queries, declaratively\<close>

lemma sched_is_piece_moving_iff:
  "sched_is_piece_moving ms clk r c \<longleftrightarrow>
     (\<exists>m \<in> set (ms_pending_moves ms). clk < pm_arrival_time m \<and> pm_start_pos m = (r, c))"
  by (auto simp: sched_is_piece_moving_def list_ex_iff prod_eq_iff)

lemma sched_is_piece_jumping_iff:
  "sched_is_piece_jumping ms clk r c \<longleftrightarrow>
     (\<exists>j \<in> set (ms_active_jumps ms). clk < js_arrival_time j \<and> js_cell j = (r, c))"
  by (auto simp: sched_is_piece_jumping_def list_ex_iff prod_eq_iff)

text \<open>The rest table as a map.\<close>

definition rest_of :: "move_scheduler \<Rightarrow> piece_id \<Rightarrow> active_rest option" where
  "rest_of ms = map_of (ms_active_rests ms)"

lemma rest_of_schedule:
  "rest_of (schedule_rest i k s e r c ms) =
     (rest_of ms)(i \<mapsto> \<lparr>ar_kind = k, ar_start_time_ms = s, ar_end_time_ms = e, ar_row = r, ar_col = c\<rparr>)"
  by (simp add: rest_of_def schedule_rest_def update_conv')

lemma rest_of_clear: "rest_of (clear_rest i ms) = (rest_of ms)(i := None)"
  by (simp add: rest_of_def clear_rest_def delete_conv')

lemma map_of_filter_val:
  "distinct (map fst xs) \<Longrightarrow>
   map_of (filter (\<lambda>(_, v). P v) xs) k =
     (case map_of xs k of None \<Rightarrow> None | Some v \<Rightarrow> if P v then Some v else None)"
  by (induction xs) (auto simp: rev_image_eqI split: option.splits dest: map_of_SomeD)

lemma rest_of_expire:
  "distinct (map fst (ms_active_rests ms)) \<Longrightarrow>
   rest_of (expire_rests clk ms) i =
     (case rest_of ms i of None \<Rightarrow> None
      | Some rest \<Rightarrow> if clk < ar_end_time_ms rest then Some rest else None)"
  by (simp add: rest_of_def expire_rests_def not_le map_of_filter_val)

text \<open>Expiring rests is unobservable: it only drops what the queries already ignore.\<close>

lemma resting_expire:
  "distinct (map fst (ms_active_rests ms)) \<Longrightarrow> clk \<le> clk' \<Longrightarrow>
   sched_is_piece_resting (expire_rests clk ms) clk' i = sched_is_piece_resting ms clk' i"
  using rest_of_expire [of ms clk i]
  by (auto simp: sched_is_piece_resting_def rest_of_def split: option.splits if_splits)

lemma distinct_rests:
  "distinct (map fst (ms_active_rests ms)) \<Longrightarrow>
   distinct (map fst (ms_active_rests (schedule_rest i k s e r c ms)))"
  "distinct (map fst (ms_active_rests ms)) \<Longrightarrow>
   distinct (map fst (ms_active_rests (clear_rest i ms)))"
  "distinct (map fst (ms_active_rests ms)) \<Longrightarrow>
   distinct (map fst (ms_active_rests (expire_rests clk ms)))"
  by (simp_all add: schedule_rest_def clear_rest_def expire_rests_def distinct_update
      distinct_delete distinct_map_filter)

lemma queues_frame [simp]:
  "ms_pending_moves (schedule_rest i k s e r c ms) = ms_pending_moves ms"
  "ms_active_jumps (schedule_rest i k s e r c ms) = ms_active_jumps ms"
  "ms_pending_moves (clear_rest i ms) = ms_pending_moves ms"
  "ms_active_jumps (clear_rest i ms) = ms_active_jumps ms"
  "ms_pending_moves (expire_rests clk ms) = ms_pending_moves ms"
  "ms_active_jumps (expire_rests clk ms) = ms_active_jumps ms"
  "ms_active_rests (cancel_pending_move i ms) = ms_active_rests ms"
  "ms_active_jumps (cancel_pending_move i ms) = ms_active_jumps ms"
  "ms_active_rests (schedule_move m ms) = ms_active_rests ms"
  "ms_active_jumps (schedule_move m ms) = ms_active_jumps ms"
  "ms_active_rests (schedule_jump j ms) = ms_active_rests ms"
  "ms_pending_moves (schedule_jump j ms) = ms_pending_moves ms"
  by (simp_all add: schedule_rest_def clear_rest_def expire_rests_def cancel_pending_move_def
      schedule_move_def schedule_jump_def)

end
