(* ===== verification/Real_Time_Arbiter.thy ===== *)
theory Real_Time_Arbiter
  imports Move_Scheduler
begin

section \<open>The realtime arbiter\<close>

text \<open>
  \<^verbatim>\<open>realtime/real_time_arbiter.cpp\<close>: the clock, the settlement of due moves (arrival,
  capture, capture by a jumper, abort), the cancellation of moves that the new position makes
  illegal, the end of jumps and of rests. The invariant \<open>arbiter_inv\<close> ties the scheduler to the
  board: the pieces off the grid are exactly the scheduled ones, each once. It is preserved by
  every operation, and no operation faults under it, for every rule set that satisfies the
  contract \<open>game_policy\<close>.
\<close>

record real_time_arbiter =
  ra_scheduler :: move_scheduler
  ra_clock_ms :: int

definition new_arbiter :: real_time_arbiter where
  "new_arbiter = \<lparr>ra_scheduler = empty_scheduler, ra_clock_ms = 0\<rparr>"

subsection \<open>Revalidation and restoration\<close>

definition can_settle_move :: "board_model \<Rightarrow> pending_move \<Rightarrow> bool result" where
  "can_settle_move b move =
     (let (start_row, start_col) = pm_start_pos move; (end_row, end_col) = pm_end_pos move
      in bindR (get_piece b (pm_piece_id move))
       (\<lambda>p. let rule = get_rule_entry (pc_kind p)
            in case re_validator rule of
                 None \<Rightarrow> Inr False
               | Some v \<Rightarrow>
                   bindR (if pc_kind p = Pawn
                          then is_pawn_move_for_piece b p (int start_row) (int start_col)
                                 (int end_row) (int end_col)
                          else v b (int start_row) (int start_col) (int end_row) (int end_col))
                     (\<lambda>ok. if \<not> ok then Inr False
                       else if re_requires_destination_check rule
                       then bindR (piece_at b end_row end_col)
                         (\<lambda>dest. case dest of
                            None \<Rightarrow> Inr True
                          | Some d \<Rightarrow> if \<not> is_opponent_of p d then Inr False else Inr True)
                       else Inr True)))"

definition restore_piece_to_cell ::
  "board_model \<Rightarrow> piece_id \<Rightarrow> nat \<Rightarrow> nat \<Rightarrow> board_model result" where
  "restore_piece_to_cell b i row col =
     bindR (set_piece_state b i Idle)
       (\<lambda>b1. bindR (piece_at b1 row col)
          (\<lambda>at_cell.
             if (case at_cell of None \<Rightarrow> False | Some p \<Rightarrow> pc_id p = i) then Inr b1
             else
               bindR (is_empty b1 row col)
                 (\<lambda>e. bindR (if \<not> e then remove_piece_at b1 row col else Inr b1)
                    (\<lambda>b2. bindR (get_piece b2 i)
                       (\<lambda>p. place_piece_at b2 row col
                              (p\<lparr>pc_cell := \<lparr>pos_row = int row, pos_col = int col\<rparr>\<rparr>))))))"

definition restore_aborted_move :: "board_model \<Rightarrow> pending_move \<Rightarrow> board_model result" where
  "restore_aborted_move b move =
     (let (start_row, start_col) = pm_start_pos move
      in restore_piece_to_cell b (pm_piece_id move) start_row start_col)"

definition restore_jumper :: "board_model \<Rightarrow> jump_state \<Rightarrow> board_model result" where
  "restore_jumper b jump =
     (let (row, col) = js_cell jump in restore_piece_to_cell b (js_piece_id jump) row col)"

subsection \<open>Settlement\<close>

definition cancel_invalid_in_flight_moves ::
  "int \<Rightarrow> move_scheduler \<times> board_model \<Rightarrow> (move_scheduler \<times> board_model) result" where
  "cancel_invalid_in_flight_moves clock_ms = (\<lambda>(ms, b).
     bindR
       (for_each_in_flight_pending clock_ms
          (\<lambda>move invalid_moves. bindR (can_settle_move b move)
             (\<lambda>ok. Inr (if \<not> ok then invalid_moves @ [move] else invalid_moves))) ms [])
       (\<lambda>invalid_moves.
          foldR (\<lambda>move (ms, b). bindR (restore_aborted_move b move)
                   (\<lambda>b'. Inr (cancel_pending_move (pm_piece_id move) ms, b')))
            invalid_moves (ms, b)))"

text \<open>
  The callback of \<^verbatim>\<open>settle_pending_moves\<close> for one due move; the state it captures is the
  board, the game-over flag and \<^verbatim>\<open>board_changed_from_settlement\<close>. \<open>apply_arrival\<close> is its
  part after the call of the collision resolver.
\<close>

type_synonym settle_state = "move_scheduler \<times> board_model \<times> bool \<times> bool"

definition apply_arrival ::
  "game_rules \<Rightarrow> pending_move \<Rightarrow> piece_id \<Rightarrow> move_scheduler \<Rightarrow> bool \<Rightarrow>
   bool \<times> board_model \<times> bool \<Rightarrow> settle_state result" where
  "apply_arrival rules move captured_opponent_id ms changed = (\<lambda>(captured, b, game_over).
     let (end_row, end_col) = pm_end_pos move
     in bindR (piece_at b end_row end_col)
       (\<lambda>destination_piece.
          if \<not> captured then
            bindR (get_piece b (pm_piece_id move))
              (\<lambda>updated.
                 (let updated = gr_on_reach_last_row rules updated end_row (rows b);
                      updated = updated\<lparr>pc_cell := \<lparr>pos_row = int end_row, pos_col = int end_col\<rparr>\<rparr>;
                      updated = updated\<lparr>pc_state := Idle\<rparr>
                  in bindR (place_piece b updated)
                    (\<lambda>b. Inr (schedule_rest (pm_piece_id move) Long
                               (to_int32 (pm_arrival_time move))
                               (to_int32 (pm_arrival_time move + gr_long_rest_duration_ms rules))
                               end_row end_col ms, b, game_over, True))))
          else if (case destination_piece of None \<Rightarrow> False
                   | Some p \<Rightarrow> pc_id p = pm_piece_id move) then
            (let ms = (if captured_opponent_id \<noteq> kInvalidId
                       then clear_rest captured_opponent_id ms else ms)
             in Inr (schedule_rest (pm_piece_id move) Long
                       (to_int32 (pm_arrival_time move))
                       (to_int32 (pm_arrival_time move + gr_long_rest_duration_ms rules))
                       end_row end_col ms, b, game_over, True))
          else
            bindR (set_piece_state b (pm_piece_id move) Captured)
              (\<lambda>b. Inr (clear_rest (pm_piece_id move) ms, b, game_over, changed))))"

definition settle_due_move ::
  "game_rules \<Rightarrow> int \<Rightarrow> pending_move \<Rightarrow> settle_state \<Rightarrow> settle_state result" where
  "settle_due_move rules clock_ms move = (\<lambda>(ms, b, game_over, changed).
     bindR (can_settle_move b move)
       (\<lambda>ok. if \<not> ok then
            bindR (restore_aborted_move b move) (\<lambda>b'. Inr (ms, b', game_over, changed))
          else
            (let (start_row, start_col) = pm_start_pos move; (end_row, end_col) = pm_end_pos move
             in bindR (piece_at b start_row start_col)
              (\<lambda>at_start.
                 bindR (if (case at_start of None \<Rightarrow> False | Some p \<Rightarrow> pc_id p = pm_piece_id move)
                        then clear_cell b start_row start_col else Inr b)
              (\<lambda>b. bindR (get_piece b (pm_piece_id move))
              (\<lambda>arriving_piece. bindR (piece_at b end_row end_col)
              (\<lambda>opponent_before.
                 (let info = \<lparr>ap_piece_id = pm_piece_id move, ap_start_pos = pm_start_pos move,
                              ap_end_pos = pm_end_pos move\<rparr>;
                      captured_opponent_id =
                        (case opponent_before of
                           None \<Rightarrow> kInvalidId
                         | Some p \<Rightarrow> if is_opponent_of p arriving_piece then pc_id p else kInvalidId)
                  in bindR (sched_check_for_jump_capture ms clock_ms b rules (pm_end_pos move) info
                              game_over)
                       (apply_arrival rules move captured_opponent_id ms changed)))))))))"

definition finish_jump ::
  "game_rules \<Rightarrow> jump_state \<Rightarrow> move_scheduler \<times> board_model \<Rightarrow> (move_scheduler \<times> board_model) result" where
  "finish_jump rules jump = (\<lambda>(ms, b).
     bindR (restore_jumper b jump)
       (\<lambda>b'. Inr (schedule_rest (js_piece_id jump) Short
                    (to_int32 (js_arrival_time jump))
                    (to_int32 (js_arrival_time jump + gr_short_rest_duration_ms rules))
                    (fst (js_cell jump)) (snd (js_cell jump)) ms, b')))"

definition settle_pending_moves ::
  "game_rules \<Rightarrow> real_time_arbiter \<Rightarrow> board_model \<Rightarrow> bool \<Rightarrow>
   (real_time_arbiter \<times> board_model \<times> bool) result" where
  "settle_pending_moves rules arb b game_over =
     (let clock_ms = ra_clock_ms arb
      in bindR (for_each_pending_due clock_ms (settle_due_move rules clock_ms)
                  (ra_scheduler arb, b, game_over, False))
       (\<lambda>(ms, b, game_over, changed).
          bindR (if changed then cancel_invalid_in_flight_moves clock_ms (ms, b) else Inr (ms, b))
       (\<lambda>(ms, b). bindR (expire_jumps clock_ms (Some (finish_jump rules)) (ms, b))
       (\<lambda>(ms, b). Inr (arb\<lparr>ra_scheduler := expire_rests clock_ms ms\<rparr>, b, game_over)))))"

definition update_time ::
  "game_rules \<Rightarrow> int \<Rightarrow> real_time_arbiter \<Rightarrow> board_model \<Rightarrow> bool \<Rightarrow>
   (real_time_arbiter \<times> board_model \<times> bool) result" where
  "update_time rules ms arb b game_over =
     settle_pending_moves rules (arb\<lparr>ra_clock_ms := ra_clock_ms arb + ms\<rparr>) b game_over"

subsection \<open>Queries and requests\<close>

definition arb_is_piece_moving :: "real_time_arbiter \<Rightarrow> nat \<Rightarrow> nat \<Rightarrow> bool" where
  "arb_is_piece_moving arb row col =
     sched_is_piece_moving (ra_scheduler arb) (ra_clock_ms arb) row col"

definition arb_is_piece_jumping :: "real_time_arbiter \<Rightarrow> nat \<Rightarrow> nat \<Rightarrow> bool" where
  "arb_is_piece_jumping arb row col =
     sched_is_piece_jumping (ra_scheduler arb) (ra_clock_ms arb) row col"

definition arb_is_piece_resting :: "real_time_arbiter \<Rightarrow> piece_id \<Rightarrow> bool" where
  "arb_is_piece_resting arb i = sched_is_piece_resting (ra_scheduler arb) (ra_clock_ms arb) i"

definition arb_is_same_color_destination_claimed ::
  "real_time_arbiter \<Rightarrow> piece_color \<Rightarrow> cell \<Rightarrow> bool" where
  "arb_is_same_color_destination_claimed arb color end_pos =
     sched_is_same_color_destination_claimed (ra_scheduler arb) (ra_clock_ms arb) color end_pos"

definition would_conflict_with_opposite_color_move ::
  "real_time_arbiter \<Rightarrow> piece_color \<Rightarrow> piece_id \<Rightarrow> cell \<Rightarrow> cell \<Rightarrow> int \<Rightarrow> bool result" where
  "would_conflict_with_opposite_color_move arb moving_color i start_pos end_pos move_duration_ms =
     (let proposed = \<lparr>pm_piece_id = i, pm_color = moving_color, pm_kind = Pawn,
                      pm_start_pos = start_pos, pm_end_pos = end_pos,
                      pm_start_time = ra_clock_ms arb,
                      pm_arrival_time = ra_clock_ms arb + move_duration_ms\<rparr>
      in sched_conflicts_with_opposite_color_move (ra_scheduler arb) (ra_clock_ms arb)
           moving_color proposed)"

definition request_move ::
  "piece_id \<Rightarrow> piece_color \<Rightarrow> piece_kind \<Rightarrow> cell \<Rightarrow> cell \<Rightarrow> int \<Rightarrow> real_time_arbiter \<Rightarrow> real_time_arbiter" where
  "request_move i color kind start_pos end_pos move_duration_ms arb =
     arb\<lparr>ra_scheduler := schedule_move
           \<lparr>pm_piece_id = i, pm_color = color, pm_kind = kind, pm_start_pos = start_pos,
            pm_end_pos = end_pos, pm_start_time = ra_clock_ms arb,
            pm_arrival_time = ra_clock_ms arb + move_duration_ms\<rparr> (ra_scheduler arb)\<rparr>"

definition request_jump ::
  "piece_id \<Rightarrow> piece_color \<Rightarrow> piece_kind \<Rightarrow> cell \<Rightarrow> int \<Rightarrow> real_time_arbiter \<Rightarrow> real_time_arbiter" where
  "request_jump i color kind cl jump_duration_ms arb =
     arb\<lparr>ra_scheduler := schedule_jump
           \<lparr>js_piece_id = i, js_color = color, js_kind = kind, js_cell = cl,
            js_start_time = ra_clock_ms arb,
            js_arrival_time = ra_clock_ms arb + jump_duration_ms\<rparr> (ra_scheduler arb)\<rparr>"

definition animations_for_render :: "real_time_arbiter \<Rightarrow> animation_snapshot" where
  "animations_for_render arb = animations_at (ra_clock_ms arb) (ra_scheduler arb)"

subsection \<open>Landing\<close>

text \<open>A piece in flight comes down on a cell; whatever stood there is captured.\<close>

definition land :: "board_model \<Rightarrow> nat \<Rightarrow> nat \<Rightarrow> piece \<Rightarrow> board_model" where
  "land b r c p = placed (removed b r c) r c p"

lemma removed_frame [simp]:
  "rows (removed b r c) = rows b" "cols (removed b r c) = cols b"
  "valid_id (removed b r c) i = valid_id b i"
  "is_in_bounds (removed b r c) r' c' = is_in_bounds b r' c'"
  "length (pieces (removed b r c)) = length (pieces b)"
  by (auto simp: removed_def split: option.splits)

lemma placed_frame [simp]:
  "rows (placed b r c p) = rows b" "cols (placed b r c p) = cols b"
  "valid_id (placed b r c p) i = valid_id b i"
  "is_in_bounds (placed b r c p) r' c' = is_in_bounds b r' c'"
  "length (pieces (placed b r c p)) = length (pieces b)"
  by (simp_all add: placed_def)

lemma lost_frame [simp]:
  "rows (lost b i) = rows b" "cols (lost b i) = cols b"
  "valid_id (lost b i) j = valid_id b j"
  "is_in_bounds (lost b i) r c = is_in_bounds b r c"
  "length (pieces (lost b i)) = length (pieces b)"
  by (simp_all add: lost_def)

lemma lifted_frame [simp]:
  "rows (lifted b r c i) = rows b" "cols (lifted b r c i) = cols b"
  "valid_id (lifted b r c i) j = valid_id b j"
  "is_in_bounds (lifted b r c i) r' c' = is_in_bounds b r' c'"
  "length (pieces (lifted b r c i)) = length (pieces b)"
  by (simp_all add: lifted_def)

lemma land_frame [simp]:
  "rows (land b r c p) = rows b" "cols (land b r c p) = cols b"
  "valid_id (land b r c p) i = valid_id b i"
  "is_in_bounds (land b r c p) r' c' = is_in_bounds b r' c'"
  "length (pieces (land b r c p)) = length (pieces b)"
  by (simp_all add: land_def)

lemma cell_at_removed:
  assumes "rect b" "is_in_bounds b r c"
  shows "cell_at (removed b r c) r' c' = (if r' = r \<and> c' = c then None else cell_at b r' c')"
  using assms by (cases "cell_at b r c") (simp_all add: removed_def cell_at_upd_cell)

lemma piece_of_removed:
  assumes "wf_board b" "is_in_bounds b r c" "valid_id b i"
  shows "piece_of (removed b r c) i =
           (if cell_at b r c = Some i then (piece_of b i)\<lparr>pc_state := Captured\<rparr> else piece_of b i)"
proof (cases "cell_at b r c")
  case (Some j)
  with wf_cell_valid [OF assms(1,2)] assms(3) show ?thesis
    by (simp add: removed_def piece_of_upd_piece)
qed (simp add: removed_def)

lemma rect_removed: "rect b \<Longrightarrow> rect (removed b r c)"
  by (cases "cell_at b r c") (simp_all add: removed_def)

lemma flight_land:
  assumes "flight_inv b (i # F)" "is_in_bounds b r c" "pc_id p = i" "pc_state p = Idle"
  shows "flight_inv (land b r c p) F"
  unfolding land_def using assms flight_removed [OF assms(1,2)]
  by (intro flight_placed) (simp_all add: cell_at_removed)

lemma cell_at_land:
  assumes "wf_board b" "is_in_bounds b r c"
  shows "cell_at (land b r c p) r' c' = (if r' = r \<and> c' = c then Some (pc_id p) else cell_at b r' c')"
  using assms
  by (simp add: land_def placed_def cell_at_upd_cell rect_removed cell_at_removed)

lemma piece_of_land:
  assumes "wf_board b" "is_in_bounds b r c" "valid_id b (pc_id p)" "valid_id b j"
  shows "piece_of (land b r c p) j =
     (if j = pc_id p then p\<lparr>pc_cell := \<lparr>pos_row = int r, pos_col = int c\<rparr>\<rparr>
      else if cell_at b r c = Some j then (piece_of b j)\<lparr>pc_state := Captured\<rparr>
      else piece_of b j)"
  using assms by (simp add: land_def placed_def piece_of_upd_piece piece_of_removed)

text \<open>Restoring a piece in flight is landing it, unchanged, on its cell.\<close>

lemma upd_piece_removed:
  assumes "wf_board b" "valid_id b i" "is_in_bounds b r c" "cell_at b r c \<noteq> Some i"
  shows "removed (upd_piece b i q) r c = upd_piece (removed b r c) i q"
proof (cases "cell_at b r c")
  case None
  then show ?thesis by (simp add: removed_def) (simp add: upd_cell_def upd_piece_def)
next
  case (Some j)
  with assms wf_cell_valid [OF assms(1,3) Some] have "j \<noteq> i" "j - 1 \<noteq> i - 1" "valid_id b j"
    by (auto simp: valid_id_def)
  with Some assms show ?thesis
    by (simp add: removed_def piece_of_upd_piece)
      (simp add: upd_cell_def upd_piece_def list_update_swap)
qed

lemma placed_overwrite:
  "pc_id p = i \<Longrightarrow> placed (upd_piece b i q) r c p = placed b r c p"
  by (simp add: placed_def upd_piece_def)

lemma placed_recell: "placed b r c (p\<lparr>pc_cell := q\<rparr>) = placed b r c p"
  by (simp add: placed_def)

lemma restore_piece_to_cell_ok:
  assumes b: "flight_inv b F" and i: "i \<in> set F" and rc: "is_in_bounds b r c"
  shows "restore_piece_to_cell b i r c = Inr (land b r c ((piece_of b i)\<lparr>pc_state := Idle\<rparr>))"
proof -
  let ?p = "(piece_of b i)\<lparr>pc_state := Idle\<rparr>"
  let ?b1 = "upd_piece b i ?p"
  have v: "valid_id b i" and here: "cell_at b r c \<noteq> Some i"
    using flight_valid [OF b i] flight_not_here [OF b rc i] by auto
  have wf: "wf_board b" "wf_board ?b1"
    using b v by (auto intro: wf_upd_state)
  have id: "pc_id (piece_of b i) = i"
    using wf v by simp
  have other: "pc_id (piece_of ?b1 j) \<noteq> i" if "cell_at b r c = Some j" for j
    using that here wf_cell_valid [OF wf(1) rc that] wf(1) v by (auto simp: piece_of_upd_piece)
  have rem: "removed ?b1 r c = upd_piece (removed b r c) i ?p"
    using wf v rc here by (simp add: upd_piece_removed)
  have empty: "removed b r c = upd_cell b r c None" if "cell_at b r c = None"
    using that by (simp add: removed_def)
  have fin: "place_piece_at B r c (?p\<lparr>pc_cell := q\<rparr>) = Inr (placed B r c ?p)"
    if "rect B" "is_in_bounds B r c" "valid_id B i" for B q
    using that id by (simp add: placed_def)
  show ?thesis
  proof (cases "cell_at b r c")
    case None
    have "placed b r c ?p = placed (upd_cell b r c None) r c ?p"
      by (simp add: placed_def upd_piece_def upd_cell_def)
        (metis list_update_beyond list_update_overwrite nth_list_update_eq not_le)
    with None v rc wf id show ?thesis
      by (simp add: restore_piece_to_cell_def fin land_def empty piece_of_upd_piece placed_overwrite
          placed_recell)
  next
    case (Some j)
    with other v rc wf id show ?thesis
      by (simp add: restore_piece_to_cell_def rem rect_removed fin land_def piece_of_upd_piece
          placed_overwrite placed_recell)
  qed
qed

subsection \<open>Evolution of the piece store\<close>

text \<open>
  What every transition keeps: the board's size, the set of pieces, each piece's colour, the kind
  of every piece but pawns, and that a captured piece stays captured.
\<close>

definition evolves :: "board_model \<Rightarrow> board_model \<Rightarrow> bool" where
  "evolves b b' \<longleftrightarrow>
     rows b' = rows b \<and> cols b' = cols b \<and> length (pieces b') = length (pieces b) \<and>
     (\<forall>i. valid_id b i \<longrightarrow>
        pc_color (piece_of b' i) = pc_color (piece_of b i) \<and>
        (pc_kind (piece_of b' i) = pc_kind (piece_of b i) \<or>
         pc_kind (piece_of b i) = Pawn \<and> pc_kind (piece_of b' i) \<noteq> Count) \<and>
        (pc_state (piece_of b i) = Captured \<longrightarrow> pc_state (piece_of b' i) = Captured))"

lemma evolves_refl [simp]: "evolves b b"
  by (simp add: evolves_def)

lemma evolves_valid: "evolves b b' \<Longrightarrow> valid_id b' i = valid_id b i"
  by (simp add: evolves_def valid_id_def)

lemma evolves_bounds: "evolves b b' \<Longrightarrow> is_in_bounds b' r c = is_in_bounds b r c"
  by (simp add: evolves_def is_in_bounds_iff)

lemma evolves_color:
  "evolves b b' \<Longrightarrow> valid_id b i \<Longrightarrow> pc_color (piece_of b' i) = pc_color (piece_of b i)"
  by (simp add: evolves_def)

lemma evolves_trans:
  assumes "evolves a b" "evolves b c"
  shows "evolves a c"
  using assms evolves_valid [OF assms(1)] by (auto simp: evolves_def) metis+

lemma evolves_land:
  assumes b: "flight_inv b F" and i: "pc_id p \<in> set F" and rc: "is_in_bounds b r c"
    and p: "pc_color p = pc_color (piece_of b (pc_id p))"
      "pc_kind p = pc_kind (piece_of b (pc_id p)) \<or> pc_kind (piece_of b (pc_id p)) = Pawn \<and> pc_kind p \<noteq> Count"
  shows "evolves b (land b r c p)"
  using p flight_state [OF b i] flight_valid [OF b i] b rc
  by (auto simp: evolves_def piece_of_land)

lemma evolves_lost: "valid_id b i \<Longrightarrow> evolves b (lost b i)"
  by (auto simp: evolves_def lost_def piece_of_upd_piece)

lemma evolves_lifted: "valid_id b i \<Longrightarrow> pc_state (piece_of b i) = Idle \<Longrightarrow> evolves b (lifted b r c i)"
  by (auto simp: evolves_def lifted_def piece_of_upd_piece)

text \<open>Settlement moreover leaves a piece that stands on a cell there, or captures it.\<close>

definition stands :: "board_model \<Rightarrow> board_model \<Rightarrow> bool" where
  "stands b b' \<longleftrightarrow> evolves b b' \<and>
     (\<forall>r c i. is_in_bounds b r c \<longrightarrow> valid_id b i \<longrightarrow> cell_at b r c = Some i \<longrightarrow>
        cell_at b' r c = Some i \<or> pc_state (piece_of b' i) = Captured)"

lemma stands_refl [simp]: "stands b b"
  by (simp add: stands_def)

lemma stands_evolves: "stands b b' \<Longrightarrow> evolves b b'"
  by (simp add: stands_def)

lemma stands_trans:
  assumes "stands a b" "stands b c"
  shows "stands a c"
proof -
  have e: "evolves a b" "evolves b c" using assms by (simp_all add: stands_def)
  show ?thesis
    using assms e evolves_trans [OF e] evolves_valid [OF e(1)] evolves_bounds [OF e(1)]
    unfolding stands_def evolves_def by (metis (no_types, lifting))
qed

lemma stands_land:
  assumes b: "flight_inv b F" and i: "pc_id p \<in> set F" and rc: "is_in_bounds b r c"
    and p: "pc_color p = pc_color (piece_of b (pc_id p))"
      "pc_kind p = pc_kind (piece_of b (pc_id p)) \<or> pc_kind (piece_of b (pc_id p)) = Pawn \<and> pc_kind p \<noteq> Count"
  shows "stands b (land b r c p)"
  using evolves_land [OF assms] flight_valid [OF b i] flight_not_here [OF b rc i] b rc
  by (auto simp: stands_def cell_at_land piece_of_land)

lemma cell_at_lost [simp]: "cell_at (lost b i) r c = cell_at b r c"
  by (simp add: lost_def)

lemma stands_lost: "valid_id b i \<Longrightarrow> stands b (lost b i)"
  using evolves_lost [of b i] by (simp add: stands_def)

text \<open>The owner of a rest stands on the cell written in the rest, or was captured since.\<close>

definition rest_ok :: "board_model \<Rightarrow> piece_id \<times> active_rest \<Rightarrow> bool" where
  "rest_ok b = (\<lambda>(i, rest).
     valid_id b i \<and> is_in_bounds b (ar_row rest) (ar_col rest) \<and>
     (cell_at b (ar_row rest) (ar_col rest) = Some i \<or> pc_state (piece_of b i) = Captured))"

definition rests_ok :: "move_scheduler \<Rightarrow> board_model \<Rightarrow> bool" where
  "rests_ok ms b \<longleftrightarrow> (\<forall>x \<in> set (ms_active_rests ms). rest_ok b x)"

lemma rests_stands:
  assumes "rests_ok ms b" "stands b b'"
  shows "rests_ok ms b'"
proof -
  have "rest_ok b' x" if "rest_ok b x" for x
  proof -
    note e = stands_evolves [OF assms(2)]
    obtain i rest where x: "x = (i, rest)" by force
    have "cell_at b' (ar_row rest) (ar_col rest) = Some i \<or> pc_state (piece_of b' i) = Captured"
      using that assms(2) e unfolding rest_ok_def stands_def evolves_def x by blast
    then show ?thesis
      using that evolves_valid [OF e] evolves_bounds [OF e] by (simp add: rest_ok_def x)
  qed
  then show ?thesis using assms(1) by (simp add: rests_ok_def)
qed

lemma set_update_subset: "set (AList.update k v xs) \<subseteq> insert (k, v) (set xs)"
  by (induction xs) auto

lemma rests_schedule:
  assumes "rests_ok ms b" "valid_id b i" "is_in_bounds b r c" "cell_at b r c = Some i"
  shows "rests_ok (schedule_rest i k s e r c ms) b"
proof -
  let ?x = "\<lparr>ar_kind = k, ar_start_time_ms = s, ar_end_time_ms = e, ar_row = r, ar_col = c\<rparr>"
  have "rest_ok b (i, ?x)" using assms by (simp add: rest_ok_def)
  then show ?thesis
    using assms(1) set_update_subset [of i ?x "ms_active_rests ms"]
    unfolding rests_ok_def schedule_rest_def by auto
qed

lemma rests_clear: "rests_ok ms b \<Longrightarrow> rests_ok (clear_rest i ms) b"
  by (auto simp: rests_ok_def clear_rest_def AList.delete_eq)

lemma rests_expire: "rests_ok ms b \<Longrightarrow> rests_ok (expire_rests clk ms) b"
  by (auto simp: rests_ok_def expire_rests_def)

lemma rests_frame [simp]:
  "rests_ok (ms\<lparr>ms_pending_moves := ps\<rparr>) b = rests_ok ms b"
  "rests_ok (ms\<lparr>ms_active_jumps := js\<rparr>) b = rests_ok ms b"
  by (simp_all add: rests_ok_def)

subsection \<open>The scheduler invariant\<close>

definition move_ok :: "board_model \<Rightarrow> pending_move \<Rightarrow> bool" where
  "move_ok b m \<longleftrightarrow>
     is_in_bounds b (fst (pm_start_pos m)) (snd (pm_start_pos m)) \<and>
     is_in_bounds b (fst (pm_end_pos m)) (snd (pm_end_pos m)) \<and>
     pm_start_pos m \<noteq> pm_end_pos m \<and> pm_color m = pc_color (piece_of b (pm_piece_id m))"

definition jump_ok :: "board_model \<Rightarrow> jump_state \<Rightarrow> bool" where
  "jump_ok b j \<longleftrightarrow>
     is_in_bounds b (fst (js_cell j)) (snd (js_cell j)) \<and>
     js_color j = pc_color (piece_of b (js_piece_id j))"

definition in_flight :: "pending_move list \<Rightarrow> jump_state list \<Rightarrow> piece_id list" where
  "in_flight ps js = map pm_piece_id ps @ map js_piece_id js"

definition sched_inv :: "pending_move list \<Rightarrow> jump_state list \<Rightarrow> board_model \<Rightarrow> bool" where
  "sched_inv ps js b \<longleftrightarrow>
     flight_inv b (in_flight ps js) \<and> (\<forall>m \<in> set ps. move_ok b m) \<and> (\<forall>j \<in> set js. jump_ok b j)"

definition arbiter_inv :: "move_scheduler \<Rightarrow> board_model \<Rightarrow> bool" where
  "arbiter_inv ms b \<longleftrightarrow>
     sched_inv (ms_pending_moves ms) (ms_active_jumps ms) b \<and>
     distinct (map fst (ms_active_rests ms))"

lemma sched_flight: "sched_inv ps js b \<Longrightarrow> flight_inv b (in_flight ps js)"
  by (simp add: sched_inv_def)

lemma sched_inv_perm:
  assumes "sched_inv ps js b" "set ps' = set ps" "set js' = set js"
    and "distinct (in_flight ps' js')"
  shows "sched_inv ps' js' b"
  using assms flight_perm [of b "in_flight ps js" "in_flight ps' js'"]
  by (auto simp: sched_inv_def in_flight_def)

lemma sched_inv_extend:
  assumes "sched_inv ps js b" "evolves b b'" "flight_inv b' (in_flight ps' js')"
    and "\<forall>m \<in> set ps'. m \<in> set ps \<or> move_ok b' m" "\<forall>j \<in> set js'. j \<in> set js \<or> jump_ok b' j"
  shows "sched_inv ps' js' b'"
proof -
  have v: "valid_id b i" if "i \<in> set (in_flight ps js)" for i
    using flight_valid [OF sched_flight [OF assms(1)] that] .
  have "move_ok b' m" if "m \<in> set ps" for m
    using that v [of "pm_piece_id m"] assms(1) evolves_bounds [OF assms(2)] evolves_color [OF assms(2)]
    by (simp add: sched_inv_def move_ok_def in_flight_def)
  moreover have "jump_ok b' j" if "j \<in> set js" for j
    using that v [of "js_piece_id j"] assms(1) evolves_bounds [OF assms(2)] evolves_color [OF assms(2)]
    by (simp add: sched_inv_def jump_ok_def in_flight_def)
  ultimately show ?thesis
    using assms(3-5) by (auto simp: sched_inv_def)
qed

lemma sched_inv_evolve:
  assumes "sched_inv ps js b" "evolves b b'" "flight_inv b' (in_flight ps' js')"
    and "set ps' \<subseteq> set ps" "set js' \<subseteq> set js"
  shows "sched_inv ps' js' b'"
  using assms by (intro sched_inv_extend [OF assms(1-3)]) auto

subsection \<open>Revalidation, declaratively\<close>

definition can_settle :: "board_model \<Rightarrow> pending_move \<Rightarrow> bool" where
  "can_settle b m =
     (let p = piece_of b (pm_piece_id m);
          sr = int (fst (pm_start_pos m)); sc = int (snd (pm_start_pos m));
          er = int (fst (pm_end_pos m)); ec = int (snd (pm_end_pos m))
      in if pc_kind p = Pawn then pawn_move_spec b (pc_color p) sr sc er ec
         else pc_kind p \<noteq> Count \<and> geometry (pc_kind p) (er - sr) (ec - sc) \<and>
              (slides (pc_kind p) \<longrightarrow> path_free b sr sc er ec) \<and>
              (cell_at b (fst (pm_end_pos m)) (snd (pm_end_pos m)) = None \<or>
               enemy_at b (pm_piece_id m) (pm_end_pos m) \<noteq> None))"

lemma opposite_neq: "c' = opposite c \<longleftrightarrow> c' \<noteq> c"
  by (cases c; cases c') (simp_all add: opposite_def)

lemma can_settle_move_ok:
  assumes wf: "wf_board b" and i: "valid_id b (pm_piece_id m)" and m: "move_ok b m"
  shows "can_settle_move b m = Inr (can_settle b m)"
proof -
  obtain sr sc where s: "pm_start_pos m = (sr, sc)" by force
  obtain er ec where e: "pm_end_pos m = (er, ec)" by force
  let ?p = "piece_of b (pm_piece_id m)"
  have in_b: "is_in_bounds b sr sc" "is_in_bounds b er ec" "(sr, sc) \<noteq> (er, ec)"
    using m by (auto simp: move_ok_def s e)
  have dest: "is_opponent_of ?p (piece_of b j) \<longleftrightarrow> pc_color (piece_of b j) \<noteq> pc_color ?p"
    if "cell_at b er ec = Some j" for j
    using wf_opponent [OF wf i wf_cell_valid [OF wf in_b(2) that]] by (simp add: opposite_neq)
  show ?thesis
  proof (cases "pc_kind ?p = Pawn")
    case True
    with in_b wf i show ?thesis
      by (simp add: can_settle_move_def can_settle_def s e registry_simps is_pawn_move_for_piece_ok)
  next
    case False
    show ?thesis
    proof (cases "re_validator (get_rule_entry (pc_kind ?p))")
      case None
      then have "pc_kind ?p = Count"
        using registry_playable [of "pc_kind ?p"] by auto
      with None i show ?thesis
        by (simp add: can_settle_move_def can_settle_def s e)
    next
      case (Some v)
      then have "pc_kind ?p \<noteq> Count" "re_requires_destination_check (get_rule_entry (pc_kind ?p))"
        using False by (cases "pc_kind ?p"; simp add: registry_simps)+
      with Some False in_b wf i dest show ?thesis
        by (auto simp: can_settle_move_def can_settle_def s e enemy_at_def Let_def
            validator_geometry [OF wf _ _ _ False Some] split: option.splits)
    qed
  qed
qed

text \<open>A move that passes revalidation ends on a free cell or on an enemy.\<close>

lemma can_settle_dest:
  assumes "can_settle b m" "enemy_at b (pm_piece_id m) (pm_end_pos m) = None"
  shows "cell_at b (fst (pm_end_pos m)) (snd (pm_end_pos m)) = None"
  using assms
  by (auto simp: can_settle_def Let_def pawn_move_spec_def color_at_def enemy_at_def opposite_neq
      split: if_splits option.splits)

subsection \<open>One arrival\<close>

definition long_rest :: "game_rules \<Rightarrow> pending_move \<Rightarrow> move_scheduler \<Rightarrow> move_scheduler" where
  "long_rest rules m ms =
     schedule_rest (pm_piece_id m) Long (to_int32 (pm_arrival_time m))
       (to_int32 (pm_arrival_time m + gr_long_rest_duration_ms rules))
       (fst (pm_end_pos m)) (snd (pm_end_pos m)) ms"

text \<open>
  The specification of one arrival: an illegal one returns to its start, one that meets an enemy
  jumper is lost, any other lands, capturing an enemy on its cell, and rests.
\<close>

definition arrival :: "game_rules \<Rightarrow> int \<Rightarrow> pending_move \<Rightarrow> settle_state \<Rightarrow> settle_state" where
  "arrival rules clk m = (\<lambda>(ms, b, go, ch).
     let i = pm_piece_id m; p = piece_of b i; cl = pm_end_pos m
     in if \<not> can_settle b m then
          (ms, land b (fst (pm_start_pos m)) (snd (pm_start_pos m)) (p\<lparr>pc_state := Idle\<rparr>), go, ch)
        else if jump_captures (ms_active_jumps ms) clk cl p then
          (clear_rest i ms, lost b i, go \<or> gr_is_game_over rules p, ch)
        else case enemy_at b i cl of
               None \<Rightarrow>
                 (long_rest rules m ms, land b (fst cl) (snd cl) (arrived rules b i cl), go, True)
             | Some j \<Rightarrow>
                 (long_rest rules m (clear_rest j ms),
                  land b (fst cl) (snd cl) (arrived rules b i cl),
                  go \<or> gr_is_game_over rules (piece_of b j), True))"

lemma land_free:
  assumes "rect b" "is_in_bounds b r c" "cell_at b r c = None"
  shows "land b r c p = placed b r c p"
proof -
  have "removed b r c = b"
    using assms rect_width [of b r]
    by (simp add: removed_def upd_cell_def cell_at_def is_in_bounds_iff rows_def)
      (metis board_model.surjective board_model.update_convs(1) list_update_id)
  then show ?thesis by (simp add: land_def)
qed

context game_policy
begin

lemma settle_due_move_ok:
  assumes b: "flight_inv b (in_flight (m # ps) js)" and m: "move_ok b m"
  shows "settle_due_move rules clk m (ms, b, go, ch) = Inr (arrival rules clk m (ms, b, go, ch))"
proof -
  obtain sr sc where s: "pm_start_pos m = (sr, sc)" by force
  obtain er ec where e: "pm_end_pos m = (er, ec)" by force
  let ?i = "pm_piece_id m"
  have F: "?i \<in> set (in_flight (m # ps) js)" by (simp add: in_flight_def)
  have v: "valid_id b ?i" and wf: "wf_board b"
    using flight_valid [OF b F] b by auto
  have in_b: "is_in_bounds b sr sc" "is_in_bounds b er ec"
    using m by (auto simp: move_ok_def s e)
  have here: "cell_at b sr sc \<noteq> Some ?i" "cell_at b er ec \<noteq> Some ?i"
    using flight_not_here [OF b _ F] in_b by auto
  have id: "pc_id (piece_of b j) = j" if "is_in_bounds b r c" "cell_at b r c = Some j" for r c j
    using wf wf_cell_valid [OF wf that] by simp
  note check = check_for_jump_capture_ok [OF b]
  show ?thesis
  proof (cases "can_settle b m")
    case False
    with b F v in_b m wf show ?thesis
      by (simp add: settle_due_move_def arrival_def can_settle_move_ok restore_aborted_move_def s
          restore_piece_to_cell_ok)
  next
    case True
    have start: "\<not> (case map_option (piece_of b) (cell_at b sr sc) of None \<Rightarrow> False | Some p \<Rightarrow> pc_id p = ?i)"
      using here id [OF in_b(1)] by (auto split: option.splits)
    let ?q = "arrived rules b ?i (er, ec)"
    have landed: "piece_at (land b er ec ?q) er ec = Inr (Some ?q)"
    proof -
      have "flight_inv (land b er ec ?q) (in_flight ps js)"
        using b in_b wf v by (intro flight_land [of b ?i]) (simp_all add: in_flight_def)
      then show ?thesis
        using wf v in_b by (simp add: cell_at_land piece_of_land)
    qed
    have enemy_cell: "cell_at b er ec = Some j \<and> valid_id b j" if "enemy_at b ?i (er, ec) = Some j" for j
      using that wf_cell_valid [OF wf in_b(2)] by (auto simp: enemy_at_def split: option.splits if_splits)
    let ?info = "\<lparr>ap_piece_id = ?i, ap_start_pos = (sr, sc), ap_end_pos = (er, ec)\<rparr>"
    let ?cap = "case enemy_at b ?i (er, ec) of None \<Rightarrow> kInvalidId | Some j \<Rightarrow> j"
    have cap: "(case map_option (piece_of b) (cell_at b er ec) of None \<Rightarrow> kInvalidId
        | Some p \<Rightarrow> if is_opponent_of p (piece_of b ?i) then pc_id p else kInvalidId) = ?cap"
    proof (cases "cell_at b er ec")
      case (Some j)
      with wf_opponent [OF wf wf_cell_valid [OF wf in_b(2) Some] v] id [OF in_b(2) Some]
      show ?thesis by (auto simp: enemy_at_def opposite_neq)
    qed (simp add: enemy_at_def)
    have reach: "settle_due_move rules clk m (ms, b, go, ch) =
        bindR (check_for_jump_capture b rules clk (ms_active_jumps ms) (er, ec) ?info go)
          (apply_arrival rules m ?cap ms ch)"
      using b F v in_b m wf True start
      by (simp add: settle_due_move_def can_settle_move_ok s e sched_check_for_jump_capture_def
          Let_def cap del: case_map_option)
    note simps = arrival_def apply_arrival_def e long_rest_def Let_def
    consider (jump) "jump_captures (ms_active_jumps ms) clk (er, ec) (piece_of b ?i)"
      | (free) "\<not> jump_captures (ms_active_jumps ms) clk (er, ec) (piece_of b ?i)" "enemy_at b ?i (er, ec) = None"
      | (enemy) j where "\<not> jump_captures (ms_active_jumps ms) clk (er, ec) (piece_of b ?i)"
          "enemy_at b ?i (er, ec) = Some j"
      by (cases "enemy_at b ?i (er, ec)") auto
    then show ?thesis
    proof cases
      case jump
      then show ?thesis
        unfolding reach using wf v in_b True here id [OF in_b(2)]
        by (auto simp: simps check lost_def split: option.splits)
    next
      case free
      then have "cell_at b er ec = None"
        using can_settle_dest [OF True] by (simp add: e)
      then show ?thesis
        unfolding reach using free wf v in_b True
        by (simp add: simps check land_free arrived_def)
    next
      case enemy
      then show ?thesis
        unfolding reach using wf v in_b True landed enemy_cell
        by (simp add: simps check land_def kInvalidId_def valid_id_def)
    qed
  qed
qed

lemma arrival_inv:
  assumes inv: "sched_inv (m # ps) js b" and rests: "distinct (map fst (ms_active_rests ms))"
    and a: "arrival rules clk m (ms, b, go, ch) = (ms', b', go', ch')"
  shows "sched_inv ps js b'" "stands b b'" "go \<longrightarrow> go'"
    "ms_pending_moves ms' = ms_pending_moves ms" "ms_active_jumps ms' = ms_active_jumps ms"
    "distinct (map fst (ms_active_rests ms'))" "rests_ok ms b \<Longrightarrow> rests_ok ms' b'"
proof -
  let ?i = "pm_piece_id m"
  have b: "flight_inv b (?i # in_flight ps js)" and m: "move_ok b m"
    using inv by (auto simp: sched_inv_def in_flight_def)
  have v: "valid_id b ?i" and wf: "wf_board b"
    using flight_valid [OF b] b by auto
  note out = a [unfolded arrival_def Let_def prod.case, symmetric]
  have st: "flight_inv b' (in_flight ps js) \<and> stands b b'"
  proof (cases "can_settle b m \<and> jump_captures (ms_active_jumps ms) clk (pm_end_pos m) (piece_of b ?i)")
    case True
    with out have "b' = lost b ?i" by simp
    then show ?thesis using flight_lost [OF b] stands_lost [OF v] by simp
  next
    case False
    then obtain r c p where b': "b' = land b r c p" "is_in_bounds b r c" "pc_id p = ?i"
      "pc_state p = Idle" "pc_color p = pc_color (piece_of b ?i)"
      "pc_kind p = pc_kind (piece_of b ?i) \<or> pc_kind (piece_of b ?i) = Pawn \<and> pc_kind p \<noteq> Count"
      using out m wf v promote_kind [of "piece_of b ?i" "fst (pm_end_pos m)" "rows b"]
      by (auto simp: move_ok_def arrived_def split: option.splits if_splits)
    then show ?thesis
      using flight_land [OF b b'(2-4)] stands_land [OF b, of p r c] by simp
  qed
  then show "stands b b'" "sched_inv ps js b'"
    using sched_inv_evolve [OF inv, of b' ps js] by (auto dest: stands_evolves)
  show "rests_ok ms' b'" if "rests_ok ms b"
  proof -
    have old: "rests_ok ms b'" using rests_stands [OF that] st by simp
    have b'_in: "valid_id b' ?i" "is_in_bounds b' (fst (pm_end_pos m)) (snd (pm_end_pos m))"
      using v m stands_evolves [of b b'] st by (auto simp: evolves_valid evolves_bounds move_ok_def)
    have "rests_ok (long_rest rules m ms1) b'"
      if "b' = land b (fst (pm_end_pos m)) (snd (pm_end_pos m)) (arrived rules b ?i (pm_end_pos m))"
        "rests_ok ms1 b'" for ms1
      unfolding long_rest_def using that b'_in m wf v
      by (intro rests_schedule) (simp_all add: cell_at_land move_ok_def)
    then show ?thesis using out old rests_clear [OF old] by (auto split: if_splits option.splits)
  qed
  show "go \<longrightarrow> go'" "ms_pending_moves ms' = ms_pending_moves ms"
    "ms_active_jumps ms' = ms_active_jumps ms" "distinct (map fst (ms_active_rests ms'))"
    using out rests
    by (auto simp: long_rest_def distinct_rests split: option.splits if_splits)
qed

text \<open>All due moves.\<close>

lemma settle_due_moves:
  assumes inv: "sched_inv (due @ ps) (ms_active_jumps ms) b"
    and rests: "distinct (map fst (ms_active_rests ms))"
  shows "ensures (foldR (settle_due_move rules clk) due (ms, b, go, False))
     (\<lambda>(ms', b', go', ch'). sched_inv ps (ms_active_jumps ms) b' \<and> stands b b' \<and> (go \<longrightarrow> go') \<and>
        ms_active_jumps ms' = ms_active_jumps ms \<and> distinct (map fst (ms_active_rests ms')) \<and>
        (rests_ok ms b \<longrightarrow> rests_ok ms' b'))"
proof -
  let ?I = "\<lambda>xs (ms' :: move_scheduler, b', go', ch' :: bool). sched_inv (xs @ ps) (ms_active_jumps ms) b' \<and> stands b b' \<and>
      (go \<longrightarrow> go') \<and> ms_active_jumps ms' = ms_active_jumps ms \<and> distinct (map fst (ms_active_rests ms')) \<and>
      (rests_ok ms b \<longrightarrow> rests_ok ms' b')"
  have "ensures (foldR (settle_due_move rules clk) due (ms, b, go, False)) (?I [])"
  proof (rule ensures_foldR [where I = ?I])
    show "?I due (ms, b, go, False)" using assms by simp
  next
    fix m xs and t :: settle_state
    assume I: "?I (m # xs) t"
    obtain ms1 b1 go1 ch1 where t: "t = (ms1, b1, go1, ch1)" by (cases t)
    obtain ms2 b2 go2 ch2 where out: "arrival rules clk m t = (ms2, b2, go2, ch2)"
      by (cases "arrival rules clk m t")
    have inv1: "sched_inv (m # xs @ ps) (ms_active_jumps ms) b1"
      and r1: "distinct (map fst (ms_active_rests ms1))"
      using I by (simp_all add: t)
    have "settle_due_move rules clk m t = Inr (arrival rules clk m t)"
      using inv1 unfolding t by (intro settle_due_move_ok) (auto simp: sched_inv_def)
    then show "ensures (settle_due_move rules clk m t) (?I xs)"
      using I arrival_inv [OF inv1 r1 out [unfolded t]] stands_trans [of b b1 b2]
      by (simp add: t out [unfolded t])
  qed
  then show ?thesis by (simp add: split_def)
qed

end

subsection \<open>Cancellation, jumps and rests\<close>

lemma restore_inv:
  assumes inv: "sched_inv ps js b" and m: "i \<in> set (in_flight ps js)" and rc: "is_in_bounds b r c"
    and sub: "set ps' \<subseteq> set ps" "set js' \<subseteq> set js" "distinct (in_flight ps' js')"
      "set (in_flight ps' js') = set (in_flight ps js) - {i}"
  shows "ensures (restore_piece_to_cell b i r c)
    (\<lambda>b'. sched_inv ps' js' b' \<and> stands b b' \<and> valid_id b' i \<and> cell_at b' r c = Some i)"
proof -
  let ?p = "(piece_of b i)\<lparr>pc_state := Idle\<rparr>"
  have b: "flight_inv b (in_flight ps js)"
    using inv by (rule sched_flight)
  have v: "valid_id b i" using flight_valid [OF b m] .
  have id: "pc_id (piece_of b i) = i" using b v by simp
  have "flight_inv b (i # in_flight ps' js')"
    using flight_perm [OF b, of "i # in_flight ps' js'"] sub m by auto
  from flight_land [OF this rc, of ?p] have "flight_inv (land b r c ?p) (in_flight ps' js')"
    by (simp add: id)
  moreover have "stands b (land b r c ?p)"
    using b m rc id by (intro stands_land) auto
  moreover have "cell_at (land b r c ?p) r c = Some i" using b rc id by (simp add: cell_at_land)
  ultimately show ?thesis
    using restore_piece_to_cell_ok [OF b m rc] sched_inv_evolve [OF inv _ _ sub(1,2)] v
    by (simp add: stands_evolves)
qed

lemma cancel_invalid_in_flight_moves_ok:
  assumes inv: "sched_inv (ms_pending_moves ms) (ms_active_jumps ms) b"
    and later: "\<forall>m \<in> set (ms_pending_moves ms). clk < pm_arrival_time m"
  shows "ensures (cancel_invalid_in_flight_moves clk (ms, b))
     (\<lambda>(ms', b'). sched_inv (ms_pending_moves ms') (ms_active_jumps ms) b' \<and> stands b b' \<and>
        ms_pending_moves ms' = filter (can_settle b) (ms_pending_moves ms) \<and>
        ms_active_jumps ms' = ms_active_jumps ms \<and> ms_active_rests ms' = ms_active_rests ms)"
proof -
  let ?P = "ms_pending_moves ms" and ?J = "ms_active_jumps ms"
  let ?bad = "filter (\<lambda>m. \<not> can_settle b m) ?P"
  have b: "flight_inv b (in_flight ?P ?J)" and ok: "\<forall>m \<in> set ?P. move_ok b m"
    using inv by (auto simp: sched_inv_def)
  then have dist: "distinct (map pm_piece_id ?P)" and dist_all: "distinct (in_flight ?P ?J)"
    by (auto simp: flight_inv_def in_flight_def)
  have "can_settle_move b m = Inr (can_settle b m)" if "m \<in> set ?P" for m
    using that ok b flight_valid [OF b, of "pm_piece_id m"]
    by (intro can_settle_move_ok) (auto simp: in_flight_def)
  then have collect: "cancel_invalid_in_flight_moves clk (ms, b) =
      foldR (\<lambda>move (ms, b). bindR (restore_aborted_move b move)
               (\<lambda>b'. Inr (cancel_pending_move (pm_piece_id move) ms, b'))) ?bad (ms, b)"
    using later
    by (simp add: cancel_invalid_in_flight_moves_def for_each_in_flight_pending_eq later_moves_def
        foldR_collect [where P = "can_settle b"])
  let ?keep = "\<lambda>xs. filter (\<lambda>m. can_settle b m \<or> m \<in> set xs) ?P"
  let ?I = "\<lambda>xs (ms' :: move_scheduler, b'). distinct xs \<and> sched_inv (?keep xs) ?J b' \<and> stands b b' \<and>
      ms_pending_moves ms' = ?keep xs \<and> ms_active_jumps ms' = ?J \<and>
      ms_active_rests ms' = ms_active_rests ms"
  have "ensures (cancel_invalid_in_flight_moves clk (ms, b)) (?I [])"
    unfolding collect
  proof (rule ensures_foldR [where I = ?I])
    have "?keep ?bad = ?P" by (auto intro: filter_True)
    then show "?I ?bad (ms, b)"
      using inv dist by (simp add: distinct_map)
  next
    fix m xs and t :: "move_scheduler \<times> board_model"
    assume I: "?I (m # xs) t" and sub: "set (m # xs) \<subseteq> set ?bad"
    obtain ms1 b1 where t: "t = (ms1, b1)" by (cases t)
    have mP: "m \<in> set ?P" "\<not> can_settle b m" "m \<notin> set xs"
      using sub I by (auto simp: t)
    have keep: "remove_first (\<lambda>y. pm_piece_id y = pm_piece_id m) (?keep (m # xs)) = ?keep xs"
      using dist mP
      by (auto simp: remove_first_filter distinct_map_filter inj_on_def distinct_map
          intro!: filter_cong)
    have ids: "set (in_flight (?keep xs) ?J) = set (in_flight (?keep (m # xs)) ?J) - {pm_piece_id m}"
    proof -
      have "pm_piece_id ` set (?keep xs) = pm_piece_id ` set (?keep (m # xs)) - {pm_piece_id m}"
        unfolding keep [symmetric] using dist
        by (intro set_map_remove_first_key) (simp add: distinct_map_filter)
      moreover have "pm_piece_id m \<notin> js_piece_id ` set ?J"
        using dist_all mP(1) by (auto simp: in_flight_def)
      ultimately show ?thesis
        unfolding in_flight_def by (simp only: set_append set_map) blast
    qed
    have "distinct (in_flight (?keep xs) ?J)"
      using dist_all unfolding in_flight_def by (auto simp: distinct_map_filter)
    then have "ensures (restore_aborted_move b1 m) (\<lambda>b'. sched_inv (?keep xs) ?J b' \<and> stands b1 b' \<and>
        valid_id b' (pm_piece_id m) \<and> cell_at b' (fst (pm_start_pos m)) (snd (pm_start_pos m)) = Some (pm_piece_id m))"
      using I mP ids unfolding t restore_aborted_move_def split_def Let_def
      by (intro restore_inv [where ps = "?keep (m # xs)" and js = ?J])
        (auto simp: in_flight_def sched_inv_def move_ok_def)
    then show "ensures (case t of (ms, b) \<Rightarrow> bindR (restore_aborted_move b m)
          (\<lambda>b'. Inr (cancel_pending_move (pm_piece_id m) ms, b'))) (?I xs)"
      using I keep stands_trans [of b b1]
      by (auto simp: t cancel_pending_move_def elim!: ensures_mono)
  qed
  then show ?thesis
    by (rule ensures_mono) auto
qed

lemma finish_jumps:
  assumes inv: "sched_inv (ms_pending_moves ms) (due @ js) b"
    and rests: "distinct (map fst (ms_active_rests ms))"
  shows "ensures (foldR (finish_jump rules) due (ms, b))
     (\<lambda>(ms', b'). sched_inv (ms_pending_moves ms) js b' \<and> stands b b' \<and>
        ms_pending_moves ms' = ms_pending_moves ms \<and> distinct (map fst (ms_active_rests ms')) \<and>
        (rests_ok ms b \<longrightarrow> rests_ok ms' b'))"
proof -
  let ?P = "ms_pending_moves ms"
  let ?I = "\<lambda>xs (ms' :: move_scheduler, b'). sched_inv ?P (xs @ js) b' \<and> stands b b' \<and>
      ms_pending_moves ms' = ?P \<and> distinct (map fst (ms_active_rests ms')) \<and>
      (rests_ok ms b \<longrightarrow> rests_ok ms' b')"
  have "ensures (foldR (finish_jump rules) due (ms, b)) (?I [])"
  proof (rule ensures_foldR [where I = ?I])
    show "?I due (ms, b)" using assms by simp
  next
    fix j xs and t :: "move_scheduler \<times> board_model"
    assume I: "?I (j # xs) t"
    obtain ms1 b1 where t: "t = (ms1, b1)" by (cases t)
    have inv1: "sched_inv ?P (j # xs @ js) b1" using I by (simp add: t)
    have dist: "distinct (in_flight ?P (j # xs @ js))"
      using sched_flight [OF inv1] by (simp add: flight_inv_def)
    have cell: "is_in_bounds b1 (fst (js_cell j)) (snd (js_cell j))"
      using inv1 by (simp add: sched_inv_def jump_ok_def)
    have "ensures (restore_jumper b1 j) (\<lambda>b'. sched_inv ?P (xs @ js) b' \<and> stands b1 b' \<and>
        valid_id b' (js_piece_id j) \<and> cell_at b' (fst (js_cell j)) (snd (js_cell j)) = Some (js_piece_id j))"
      using inv1 dist unfolding restore_jumper_def split_def Let_def
      by (intro restore_inv [OF inv1]) (auto simp: in_flight_def sched_inv_def jump_ok_def)
    then show "ensures (finish_jump rules j t) (?I xs)"
      using I stands_trans [of b b1] rests_stands [of ms1 b1] cell
      by (auto simp: t finish_jump_def distinct_rests evolves_bounds [OF stands_evolves]
          elim!: ensures_mono intro!: rests_schedule)
  qed
  then show ?thesis by (rule ensures_mono) auto
qed

lemma sched_partition:
  "sched_inv (ms_pending_moves ms) (ms_active_jumps ms) b \<Longrightarrow>
   sched_inv (due_moves clk ms @ later_moves clk ms) (ms_active_jumps ms) b"
  "sched_inv ps (ms_active_jumps ms) b \<Longrightarrow>
   sched_inv ps (due_jumps clk ms @ later_jumps clk ms) b"
proof -
  have *: "distinct (map f (filter P xs @ filter (\<lambda>x. \<not> P x) xs))" if "distinct (map f xs)" for f P xs
    using that by (auto simp: distinct_map_filter) (auto simp: distinct_map inj_on_def)
  have d: "distinct (map pm_piece_id ps) \<and> distinct (map js_piece_id js) \<and>
      pm_piece_id ` set ps \<inter> js_piece_id ` set js = {}"
    if "sched_inv ps js b" for ps js
    using sched_flight [OF that] by (auto simp: flight_inv_def in_flight_def)
  show "sched_inv (due_moves clk ms @ later_moves clk ms) (ms_active_jumps ms) b"
    if "sched_inv (ms_pending_moves ms) (ms_active_jumps ms) b"
    using d [OF that] * [of pm_piece_id "ms_pending_moves ms" "\<lambda>m. pm_arrival_time m \<le> clk"]
    by (intro sched_inv_perm [OF that])
      (auto simp: in_flight_def due_moves_def later_moves_def not_le)
  show "sched_inv ps (due_jumps clk ms @ later_jumps clk ms) b"
    if "sched_inv ps (ms_active_jumps ms) b"
    using d [OF that] * [of js_piece_id "ms_active_jumps ms" "\<lambda>m. js_arrival_time m \<le> clk"]
    by (intro sched_inv_perm [OF that])
      (auto simp: in_flight_def due_jumps_def later_jumps_def not_le)
qed

subsection \<open>Settlement keeps the invariant and leaves nothing due\<close>

definition quiescent :: "int \<Rightarrow> move_scheduler \<Rightarrow> bool" where
  "quiescent clk ms \<longleftrightarrow>
     (\<forall>m \<in> set (ms_pending_moves ms). clk < pm_arrival_time m) \<and>
     (\<forall>j \<in> set (ms_active_jumps ms). clk < js_arrival_time j) \<and>
     (\<forall>(i, rest) \<in> set (ms_active_rests ms). clk < ar_end_time_ms rest)"

context game_policy
begin

lemma settle_pending_moves_ok:
  assumes inv: "arbiter_inv (ra_scheduler arb) b"
  shows "ensures (settle_pending_moves rules arb b go)
     (\<lambda>(arb', b', go'). arbiter_inv (ra_scheduler arb') b' \<and> ra_clock_ms arb' = ra_clock_ms arb \<and>
        stands b b' \<and> (go \<longrightarrow> go') \<and> quiescent (ra_clock_ms arb) (ra_scheduler arb') \<and>
        set (ms_pending_moves (ra_scheduler arb')) \<subseteq> set (ms_pending_moves (ra_scheduler arb)) \<and>
        set (ms_active_jumps (ra_scheduler arb')) \<subseteq> set (ms_active_jumps (ra_scheduler arb)) \<and>
        (rests_ok (ra_scheduler arb) b \<longrightarrow> rests_ok (ra_scheduler arb') b'))"
proof -
  let ?ms = "ra_scheduler arb" and ?clk = "ra_clock_ms arb"
  let ?J = "ms_active_jumps ?ms" and ?L = "later_moves ?clk ?ms"
  have later: "\<forall>m \<in> set ?L. ?clk < pm_arrival_time m \<and> m \<in> set (ms_pending_moves ?ms)"
    by (auto simp: later_moves_def)
  have one: "ensures (for_each_pending_due ?clk (settle_due_move rules ?clk) (?ms, b, go, False))
     (\<lambda>(ms, b', go', ch). sched_inv ?L ?J b' \<and> stands b b' \<and> (go \<longrightarrow> go') \<and>
        ms_pending_moves ms = ?L \<and> ms_active_jumps ms = ?J \<and> distinct (map fst (ms_active_rests ms)) \<and>
        (rests_ok ?ms b \<longrightarrow> rests_ok ms b'))"
    using settle_due_moves [of "due_moves ?clk ?ms" ?L ?ms b ?clk go] inv
    by (auto simp: for_each_pending_due_eq arbiter_inv_def sched_partition elim!: ensures_mono)
  have two: "ensures (if ch then cancel_invalid_in_flight_moves ?clk (ms, b1) else Inr (ms, b1))
     (\<lambda>(ms', b'). sched_inv (ms_pending_moves ms') ?J b' \<and> stands b1 b' \<and>
        set (ms_pending_moves ms') \<subseteq> set ?L \<and> ms_active_jumps ms' = ?J \<and>
        ms_active_rests ms' = ms_active_rests ms)"
    if "sched_inv ?L ?J b1" "ms_pending_moves ms = ?L" "ms_active_jumps ms = ?J"
      "distinct (map fst (ms_active_rests ms))" for ch ms b1
    using that later cancel_invalid_in_flight_moves_ok [of ms b1 ?clk]
    by (auto elim!: ensures_mono)
  have three: "ensures (expire_jumps ?clk (Some (finish_jump rules)) (ms, b2))
     (\<lambda>(ms', b'). sched_inv (ms_pending_moves ms) (later_jumps ?clk ?ms) b' \<and> stands b2 b' \<and>
        ms_pending_moves ms' = ms_pending_moves ms \<and> ms_active_jumps ms' = later_jumps ?clk ?ms \<and>
        distinct (map fst (ms_active_rests ms')) \<and> (rests_ok ms b2 \<longrightarrow> rests_ok ms' b'))"
    if "sched_inv (ms_pending_moves ms) ?J b2" "ms_active_jumps ms = ?J"
      "distinct (map fst (ms_active_rests ms))" for ms b2
  proof -
    have same: "due_jumps ?clk ms = due_jumps ?clk ?ms" "later_jumps ?clk ms = later_jumps ?clk ?ms"
      using that(2) by (simp_all add: due_jumps_def later_jumps_def)
    show ?thesis
      using that finish_jumps [of ms "due_jumps ?clk ?ms" "later_jumps ?clk ?ms" b2 rules]
        sched_partition(2) [of "ms_pending_moves ms" ?ms b2 ?clk]
      by (auto simp: expire_jumps_eq same elim!: ensures_mono)
  qed
  have fin: "arbiter_inv (expire_rests ?clk ms) b3 \<and> quiescent ?clk (expire_rests ?clk ms)"
    if "sched_inv (ms_pending_moves ms) (later_jumps ?clk ?ms) b3"
      "set (ms_pending_moves ms) \<subseteq> set ?L"
      "ms_active_jumps ms = later_jumps ?clk ?ms" "distinct (map fst (ms_active_rests ms))" for ms b3
    using that later distinct_rests(3) [of ms ?clk]
    by (auto simp: arbiter_inv_def quiescent_def later_jumps_def)
      (auto simp: expire_rests_def)
  obtain ms1 b1 go1 ch where
    r1: "for_each_pending_due ?clk (settle_due_move rules ?clk) (?ms, b, go, False) = Inr (ms1, b1, go1, ch)"
    and p1: "sched_inv ?L ?J b1" "stands b b1" "go \<longrightarrow> go1" "ms_pending_moves ms1 = ?L"
      "ms_active_jumps ms1 = ?J" "distinct (map fst (ms_active_rests ms1))"
      "rests_ok ?ms b \<longrightarrow> rests_ok ms1 b1"
    using one by (auto simp: ensures_iff)
  obtain ms2 b2 where
    r2: "(if ch then cancel_invalid_in_flight_moves ?clk (ms1, b1) else Inr (ms1, b1)) = Inr (ms2, b2)"
    and p2: "sched_inv (ms_pending_moves ms2) ?J b2" "stands b1 b2" "set (ms_pending_moves ms2) \<subseteq> set ?L"
      "ms_active_jumps ms2 = ?J" and same: "ms_active_rests ms2 = ms_active_rests ms1"
    using two [OF p1(1,4,5,6), of ch] by (auto simp: ensures_iff)
  have q2: "distinct (map fst (ms_active_rests ms2))" "rests_ok ?ms b \<longrightarrow> rests_ok ms2 b2"
    using p1(6,7) rests_stands [of ms1 b1 b2] p2(2) same by (auto simp: rests_ok_def)
  obtain ms3 b3 where r3: "expire_jumps ?clk (Some (finish_jump rules)) (ms2, b2) = Inr (ms3, b3)"
    and p3: "sched_inv (ms_pending_moves ms2) (later_jumps ?clk ?ms) b3" "stands b2 b3"
      "ms_pending_moves ms3 = ms_pending_moves ms2" "ms_active_jumps ms3 = later_jumps ?clk ?ms"
      "distinct (map fst (ms_active_rests ms3))" "rests_ok ?ms b \<longrightarrow> rests_ok ms3 b3"
    using three [OF p2(1,4) q2(1)] q2(2) by (auto simp: ensures_iff)
  have "stands b b3"
    using stands_trans p1(2) p2(2) p3(2) by blast
  moreover have "settle_pending_moves rules arb b go =
      Inr (arb\<lparr>ra_scheduler := expire_rests ?clk ms3\<rparr>, b3, go1)"
    by (simp add: settle_pending_moves_def r1 r2 r3)
  ultimately show ?thesis
    using fin [of ms3 b3] p1(3) p2(3) p3 later by (auto simp: later_jumps_def rests_expire)
qed

end

end
