(* ===== verification/Game_State.thy ===== *)
theory Game_State
  imports Real_Time_Arbiter
begin

section \<open>The game session\<close>

text \<open>
  \<^verbatim>\<open>logic/game_state.cpp\<close> and \<^verbatim>\<open>logic/game_action.h\<close>: selection, move and jump requests,
  the passage of time and the verdict. The invariant \<open>game_inv\<close> extends the arbiter's with the
  selection; every action preserves it without a fault, so it holds in every reachable state.
\<close>

subsection \<open>State and actions\<close>

record game_state =
  gs_board :: board_model
  gs_rules :: game_rules
  gs_arbiter :: real_time_arbiter
  gs_selected :: "cell option"
  gs_game_over :: bool

datatype game_action =
    Select nat nat
  | ClearSelection
  | MoveSelected nat nat
  | JumpSelected
  | JumpAt nat nat
  | AdvanceClock int

definition new_game_with :: "board_model \<Rightarrow> game_rules \<Rightarrow> game_state" where
  "new_game_with b rules =
     \<lparr>gs_board = b, gs_rules = rules, gs_arbiter = new_arbiter, gs_selected = None,
      gs_game_over = False\<rparr>"

definition new_game :: "board_model \<Rightarrow> game_state" where
  "new_game b = new_game_with b standard"

subsection \<open>Queries\<close>

definition game_token_at :: "game_state \<Rightarrow> nat \<Rightarrow> nat \<Rightarrow> string result" where
  "game_token_at g row col = token_at (gs_board g) row col"

definition same_board_layout_as :: "game_state \<Rightarrow> game_state \<Rightarrow> bool result" where
  "same_board_layout_as g other = board_eq (gs_board g) (gs_board other)"

fun king_scan :: "game_state \<Rightarrow> (nat \<times> nat) list \<Rightarrow> bool \<times> bool \<Rightarrow> (bool \<times> bool) result" where
  "king_scan g [] s = Inr s"
| "king_scan g ((row, col) # rest) (white_king_present, black_king_present) =
     bindR (game_token_at g row col)
       (\<lambda>token.
          if token = to_token White King then king_scan g rest (True, black_king_present)
          else if token = to_token Black King then king_scan g rest (white_king_present, True)
          else king_scan g rest (white_king_present, black_king_present))"

definition winning_color :: "game_state \<Rightarrow> piece_color option result" where
  "winning_color g =
     (if \<not> gs_game_over g then Inr None
      else bindR (king_scan g (board_cells (rows (gs_board g)) (cols (gs_board g))) (False, False))
        (\<lambda>(white_king_present, black_king_present).
           if white_king_present \<and> \<not> black_king_present then Inr (Some White)
           else if black_king_present \<and> \<not> white_king_present then Inr (Some Black)
           else Inr None))"

definition game_is_in_bounds :: "game_state \<Rightarrow> nat \<Rightarrow> nat \<Rightarrow> bool" where
  "game_is_in_bounds g row col = is_in_bounds (gs_board g) row col"

definition is_piece :: "game_state \<Rightarrow> nat \<Rightarrow> nat \<Rightarrow> bool result" where
  "is_piece g row col =
     (if \<not> game_is_in_bounds g row col then Inr False
      else bindR (is_empty (gs_board g) row col) (\<lambda>e. Inr (\<not> e)))"

definition is_piece_moving :: "game_state \<Rightarrow> nat \<Rightarrow> nat \<Rightarrow> bool" where
  "is_piece_moving g row col = arb_is_piece_moving (gs_arbiter g) row col"

definition is_piece_jumping :: "game_state \<Rightarrow> nat \<Rightarrow> nat \<Rightarrow> bool" where
  "is_piece_jumping g row col = arb_is_piece_jumping (gs_arbiter g) row col"

definition is_piece_resting :: "game_state \<Rightarrow> nat \<Rightarrow> nat \<Rightarrow> bool result" where
  "is_piece_resting g row col =
     bindR (piece_at (gs_board g) row col)
       (\<lambda>p. case p of None \<Rightarrow> Inr False
             | Some piece \<Rightarrow> Inr (arb_is_piece_resting (gs_arbiter g) (pc_id piece)))"

definition is_selectable_piece :: "game_state \<Rightarrow> nat \<Rightarrow> nat \<Rightarrow> bool result" where
  "is_selectable_piece g row col =
     bindR (is_piece g row col)
       (\<lambda>present.
          if \<not> (present \<and> \<not> is_piece_moving g row col \<and> \<not> is_piece_jumping g row col) then Inr False
          else bindR (is_piece_resting g row col) (\<lambda>resting. Inr (\<not> resting)))"

definition game_animations_for_render :: "game_state \<Rightarrow> animation_snapshot" where
  "game_animations_for_render g = animations_for_render (gs_arbiter g)"

definition is_friendly_to_selection :: "game_state \<Rightarrow> nat \<Rightarrow> nat \<Rightarrow> bool result" where
  "is_friendly_to_selection g row col =
     (case gs_selected g of
        None \<Rightarrow> Inr False
      | Some (sel_row, sel_col) \<Rightarrow>
          bindR (is_selectable_piece g row col)
            (\<lambda>selectable. if \<not> selectable then Inr False
               else bindR (piece_at (gs_board g) sel_row sel_col)
                 (\<lambda>selected_piece. bindR (piece_at (gs_board g) row col)
                    (\<lambda>cell_piece. case (selected_piece, cell_piece) of
                       (Some s, Some c) \<Rightarrow> Inr (is_same_color_as c s)
                     | _ \<Rightarrow> Inr False))))"

definition game_is_legal_move :: "game_state \<Rightarrow> int \<Rightarrow> int \<Rightarrow> int \<Rightarrow> int \<Rightarrow> bool result" where
  "game_is_legal_move g start_row start_col end_row end_col =
     bindR (piece_at (gs_board g) (to_size start_row) (to_size start_col))
       (\<lambda>moving. case moving of
          None \<Rightarrow> Inr False
        | Some p \<Rightarrow> gr_is_legal_move (gs_rules g) (gs_board g) (pc_kind p)
                      start_row start_col end_row end_col)"

subsection \<open>Time and selection\<close>

definition add_clock :: "int \<Rightarrow> game_state \<Rightarrow> game_state result" where
  "add_clock ms g =
     bindR (update_time (gs_rules g) ms (gs_arbiter g) (gs_board g) (gs_game_over g))
       (\<lambda>(arb, b, go). Inr (g\<lparr>gs_arbiter := arb, gs_board := b, gs_game_over := go\<rparr>))"

definition game_settle_pending_moves :: "game_state \<Rightarrow> game_state result" where
  "game_settle_pending_moves g =
     bindR (settle_pending_moves (gs_rules g) (gs_arbiter g) (gs_board g) (gs_game_over g))
       (\<lambda>(arb, b, go). Inr (g\<lparr>gs_arbiter := arb, gs_board := b, gs_game_over := go\<rparr>))"

definition select :: "nat \<Rightarrow> nat \<Rightarrow> game_state \<Rightarrow> game_state" where
  "select row col g =
     (if \<not> game_is_in_bounds g row col then g else g\<lparr>gs_selected := Some (row, col)\<rparr>)"

definition clear_selection :: "game_state \<Rightarrow> game_state" where
  "clear_selection g = g\<lparr>gs_selected := None\<rparr>"

subsection \<open>Moves and jumps\<close>

definition compute_move_duration ::
  "game_state \<Rightarrow> nat \<Rightarrow> nat \<Rightarrow> nat \<Rightarrow> nat \<Rightarrow> bool \<Rightarrow> int" where
  "compute_move_duration g from_row from_col to_row to_col is_capture =
     (if is_capture then gr_move_duration_ms (gs_rules g)
      else
        (let row_delta = (if from_row > to_row then from_row - to_row else to_row - from_row);
             col_delta = (if from_col > to_col then from_col - to_col else to_col - from_col)
         in int (max row_delta col_delta) * gr_move_duration_ms (gs_rules g)))"

definition can_move_selected_to ::
  "game_state \<Rightarrow> nat \<Rightarrow> nat \<Rightarrow> nat \<Rightarrow> nat \<Rightarrow> bool result" where
  "can_move_selected_to g from_row from_col to_row to_col =
     (if \<not> game_is_in_bounds g to_row to_col then Inr False
      else if is_piece_moving g from_row from_col \<or> is_piece_jumping g from_row from_col then Inr False
      else bindR (is_piece_resting g from_row from_col)
        (\<lambda>resting. if resting then Inr False
           else bindR (piece_at (gs_board g) from_row from_col)
             (\<lambda>moving. case moving of
                None \<Rightarrow> Inr False
              | Some p \<Rightarrow>
                  bindR (game_is_legal_move g (int from_row) (int from_col) (int to_row) (int to_col))
                    (\<lambda>legal. if \<not> legal then Inr False
                       else if arb_is_same_color_destination_claimed (gs_arbiter g) (pc_color p)
                                 (to_row, to_col) then Inr False
                       else Inr True))))"

definition move_selected_to :: "nat \<Rightarrow> nat \<Rightarrow> game_state \<Rightarrow> game_state result" where
  "move_selected_to to_row to_col g =
     (case gs_selected g of
        None \<Rightarrow> Inr g
      | Some (from_row, from_col) \<Rightarrow>
          bindR (can_move_selected_to g from_row from_col to_row to_col)
            (\<lambda>can. if \<not> can then Inr g
               else bindR (piece_at (gs_board g) from_row from_col)
                 (\<lambda>moving_opt. bindR (of_option UndefinedBehaviour moving_opt)
                 (\<lambda>moving. bindR (piece_at (gs_board g) to_row to_col)
                 (\<lambda>destination.
                    let is_capture = (case destination of None \<Rightarrow> False
                                      | Some d \<Rightarrow> is_opponent_of d moving);
                        move_duration = compute_move_duration g from_row from_col to_row to_col is_capture
                    in bindR (set_piece_state (gs_board g) (pc_id moving) Moving)
                      (\<lambda>b1. bindR (clear_cell b1 from_row from_col)
                      (\<lambda>b2. Inr (clear_selection (g\<lparr>gs_board := b2,
                               gs_arbiter := request_move (pc_id moving) (pc_color moving)
                                 (pc_kind moving) (from_row, from_col) (to_row, to_col)
                                 move_duration (gs_arbiter g)\<rparr>))))))))) "

definition jump_at :: "nat \<Rightarrow> nat \<Rightarrow> game_state \<Rightarrow> game_state result" where
  "jump_at row col g =
     (if \<not> game_is_in_bounds g row col then Inr g
      else bindR (is_empty (gs_board g) row col)
        (\<lambda>e. if e then Inr g
           else if is_piece_moving g row col \<or> is_piece_jumping g row col then Inr g
           else bindR (is_piece_resting g row col)
             (\<lambda>resting. if resting then Inr g
                else bindR (piece_at (gs_board g) row col)
                  (\<lambda>piece. case piece of
                     None \<Rightarrow> Inr g
                   | Some p \<Rightarrow>
                       bindR (set_piece_state (gs_board g) (pc_id p) Moving)
                         (\<lambda>b1. bindR (clear_cell b1 row col)
                         (\<lambda>b2. Inr (g\<lparr>gs_board := b2,
                              gs_arbiter := request_jump (pc_id p) (pc_color p) (pc_kind p) (row, col)
                                (gr_jump_duration_ms (gs_rules g)) (gs_arbiter g)\<rparr>)))))))"

definition jump_selected :: "game_state \<Rightarrow> game_state result" where
  "jump_selected g =
     (case gs_selected g of
        None \<Rightarrow> Inr g
      | Some (row, col) \<Rightarrow> bindR (jump_at row col g) (\<lambda>g'. Inr (clear_selection g')))"

fun apply_action :: "game_action \<Rightarrow> game_state \<Rightarrow> game_state result" where
  "apply_action (Select row col) g = Inr (select row col g)"
| "apply_action ClearSelection g = Inr (clear_selection g)"
| "apply_action (MoveSelected to_row to_col) g = move_selected_to to_row to_col g"
| "apply_action JumpSelected g = jump_selected g"
| "apply_action (JumpAt row col) g = jump_at row col g"
| "apply_action (AdvanceClock ms) g = add_clock ms g"

text \<open>The writer is the caller's; its output is the value returned beside the state.\<close>

definition write_board :: "(board_model \<Rightarrow> 'o result) \<Rightarrow> game_state \<Rightarrow> (game_state \<times> 'o) result" where
  "write_board writer g =
     bindR (game_settle_pending_moves g)
       (\<lambda>g'. bindR (writer (gs_board g')) (\<lambda>out. Inr (g', out)))"

subsection \<open>The invariant\<close>

definition game_inv :: "game_state \<Rightarrow> bool" where
  "game_inv g \<longleftrightarrow>
     arbiter_inv (ra_scheduler (gs_arbiter g)) (gs_board g) \<and>
     (\<forall>r c. gs_selected g = Some (r, c) \<longrightarrow> is_in_bounds (gs_board g) r c)"

lemma game_inv_wf: "game_inv g \<Longrightarrow> wf_board (gs_board g)"
  by (auto simp: game_inv_def arbiter_inv_def dest: sched_flight intro: flight_wf)

text \<open>The ids of the pieces scheduled as a move or as a jump.\<close>

definition scheduled :: "game_state \<Rightarrow> piece_id list" where
  "scheduled g =
     map pm_piece_id (ms_pending_moves (ra_scheduler (gs_arbiter g))) @
     map js_piece_id (ms_active_jumps (ra_scheduler (gs_arbiter g)))"

lemma game_inv_flight: "game_inv g \<Longrightarrow> flight_inv (gs_board g) (scheduled g)"
  by (simp add: game_inv_def arbiter_inv_def sched_inv_def scheduled_def in_flight_def)

lemma new_game_inv: "flight_inv b [] \<Longrightarrow> game_inv (new_game_with b rules)"
  by (simp add: game_inv_def new_game_with_def new_arbiter_def empty_scheduler_def arbiter_inv_def
      sched_inv_def in_flight_def)

lemma game_inv_select: "game_inv g \<Longrightarrow> game_inv (select r c g)"
  by (simp add: game_inv_def select_def game_is_in_bounds_def)

lemma game_inv_clear: "game_inv g \<Longrightarrow> game_inv (clear_selection g)"
  by (simp add: game_inv_def clear_selection_def)

text \<open>What a step keeps.\<close>

definition game_step_ok :: "game_state \<Rightarrow> game_state \<Rightarrow> bool" where
  "game_step_ok g g' \<longleftrightarrow>
     game_inv g' \<and> evolves (gs_board g) (gs_board g') \<and> gs_rules g' = gs_rules g \<and>
     (gs_game_over g \<longrightarrow> gs_game_over g')"

lemma game_step_ok_refl: "game_inv g \<Longrightarrow> game_step_ok g g"
  by (simp add: game_step_ok_def)

lemma game_step_ok_trans: "game_step_ok g g' \<Longrightarrow> game_step_ok g' g'' \<Longrightarrow> game_step_ok g g''"
  by (auto simp: game_step_ok_def intro: evolves_trans)

lemma sched_lift_evolves:
  assumes "arbiter_inv ms b" "is_in_bounds b r c" "cell_at b r c = Some i"
  shows "evolves b (lifted b r c i)"
  using assms flight_cell [of b _ r c i]
  by (intro evolves_lifted) (auto simp: arbiter_inv_def dest: sched_flight)

lemma sched_lift_move:
  assumes inv: "arbiter_inv ms b" and rc: "is_in_bounds b r c" "cell_at b r c = Some i"
    and dest: "is_in_bounds b r' c'" "(r, c) \<noteq> (r', c')" and m: "pm_piece_id m = i"
      "pm_start_pos m = (r, c)" "pm_end_pos m = (r', c')" "pm_color m = pc_color (piece_of b i)"
  shows "arbiter_inv (schedule_move m ms) (lifted b r c i)"
proof -
  have s: "sched_inv (ms_pending_moves ms) (ms_active_jumps ms) b"
    using inv by (simp add: arbiter_inv_def)
  note f = sched_flight [OF s]
  note cell = flight_cell [OF f rc]
  have ev: "evolves b (lifted b r c i)"
    using inv rc by (rule sched_lift_evolves)
  have fl: "flight_inv (lifted b r c i) (i # in_flight (ms_pending_moves ms) (ms_active_jumps ms))"
    using flight_lifted [OF f rc] .
  have "move_ok (lifted b r c i) m"
    using dest m rc ev cell by (simp add: move_ok_def evolves_color)
  moreover have "flight_inv (lifted b r c i) (in_flight (ms_pending_moves ms @ [m]) (ms_active_jumps ms))"
    using fl m by (intro flight_perm [OF fl]) (auto simp: in_flight_def flight_inv_def)
  ultimately have "sched_inv (ms_pending_moves ms @ [m]) (ms_active_jumps ms) (lifted b r c i)"
    using s ev by (intro sched_inv_extend [OF s ev]) auto
  then show ?thesis
    using inv ev by (simp add: arbiter_inv_def) (simp add: schedule_move_def)
qed

lemma sched_lift_jump:
  assumes inv: "arbiter_inv ms b" and rc: "is_in_bounds b r c" "cell_at b r c = Some i"
    and j: "js_piece_id j = i" "js_cell j = (r, c)" "js_color j = pc_color (piece_of b i)"
  shows "arbiter_inv (schedule_jump j ms) (lifted b r c i)"
proof -
  have s: "sched_inv (ms_pending_moves ms) (ms_active_jumps ms) b"
    using inv by (simp add: arbiter_inv_def)
  note f = sched_flight [OF s]
  note cell = flight_cell [OF f rc]
  have ev: "evolves b (lifted b r c i)"
    using inv rc by (rule sched_lift_evolves)
  have fl: "flight_inv (lifted b r c i) (i # in_flight (ms_pending_moves ms) (ms_active_jumps ms))"
    using flight_lifted [OF f rc] .
  have "jump_ok (lifted b r c i) j"
    using j rc ev cell by (simp add: jump_ok_def evolves_color)
  moreover have "flight_inv (lifted b r c i) (in_flight (ms_pending_moves ms) (ms_active_jumps ms @ [j]))"
    using fl j by (intro flight_perm [OF fl]) (auto simp: in_flight_def flight_inv_def)
  ultimately have "sched_inv (ms_pending_moves ms) (ms_active_jumps ms @ [j]) (lifted b r c i)"
    using s ev by (intro sched_inv_extend [OF s ev]) auto
  then show ?thesis
    using inv ev by (simp add: arbiter_inv_def) (simp add: schedule_jump_def)
qed

subsection \<open>Requests, declaratively\<close>

definition busy :: "game_state \<Rightarrow> nat \<Rightarrow> nat \<Rightarrow> bool" where
  "busy g r c \<longleftrightarrow>
     is_piece_moving g r c \<or> is_piece_jumping g r c \<or>
     is_in_bounds (gs_board g) r c \<and>
       (case cell_at (gs_board g) r c of None \<Rightarrow> False | Some i \<Rightarrow> arb_is_piece_resting (gs_arbiter g) i)"

lemma is_piece_resting_ok:
  assumes "wf_board (gs_board g)"
  shows "is_piece_resting g r c =
           Inr (is_in_bounds (gs_board g) r c \<and>
                (case cell_at (gs_board g) r c of None \<Rightarrow> False
                 | Some i \<Rightarrow> arb_is_piece_resting (gs_arbiter g) i))"
  using assms wf_cell_valid [OF assms]
  by (cases "is_in_bounds (gs_board g) r c")
    (auto simp: is_piece_resting_def split: option.splits)

lemma jump_at_ok:
  assumes wf: "wf_board (gs_board g)"
  shows "jump_at r c g =
    Inr (case (if is_in_bounds (gs_board g) r c then cell_at (gs_board g) r c else None) of
           None \<Rightarrow> g
         | Some i \<Rightarrow>
             if busy g r c then g
             else g\<lparr>gs_board := lifted (gs_board g) r c i,
                    gs_arbiter := request_jump i (pc_color (piece_of (gs_board g) i))
                      (pc_kind (piece_of (gs_board g) i)) (r, c)
                      (gr_jump_duration_ms (gs_rules g)) (gs_arbiter g)\<rparr>)"
proof (cases "is_in_bounds (gs_board g) r c")
  case True
  show ?thesis
  proof (cases "cell_at (gs_board g) r c")
    case (Some i)
    with wf True wf_cell_valid [OF wf True Some] show ?thesis
      by (simp add: jump_at_def game_is_in_bounds_def is_piece_resting_ok busy_def lifted_def)
  qed (use wf True in \<open>simp add: jump_at_def game_is_in_bounds_def\<close>)
qed (simp add: jump_at_def game_is_in_bounds_def)

text \<open>The condition under which a move request is accepted, on the piece \<open>i\<close> of the selected cell.\<close>

definition accepts_move :: "game_state \<Rightarrow> cell \<Rightarrow> cell \<Rightarrow> piece_id \<Rightarrow> bool" where
  "accepts_move g src dst i \<longleftrightarrow>
     is_in_bounds (gs_board g) (fst src) (snd src) \<and> is_in_bounds (gs_board g) (fst dst) (snd dst) \<and>
     cell_at (gs_board g) (fst src) (snd src) = Some i \<and> \<not> busy g (fst src) (snd src) \<and>
     gr_is_legal_move (gs_rules g) (gs_board g) (pc_kind (piece_of (gs_board g) i))
       (int (fst src)) (int (snd src)) (int (fst dst)) (int (snd dst)) = Inr True \<and>
     \<not> (\<exists>m \<in> set (ms_pending_moves (ra_scheduler (gs_arbiter g))).
           ra_clock_ms (gs_arbiter g) < pm_arrival_time m \<and>
           pm_color m = pc_color (piece_of (gs_board g) i) \<and> pm_end_pos m = dst)"

definition is_capture :: "game_state \<Rightarrow> piece_id \<Rightarrow> cell \<Rightarrow> bool" where
  "is_capture g i dst \<longleftrightarrow> enemy_at (gs_board g) i dst \<noteq> None"

definition launched :: "game_state \<Rightarrow> cell \<Rightarrow> cell \<Rightarrow> piece_id \<Rightarrow> game_state" where
  "launched g src dst i =
     g\<lparr>gs_board := lifted (gs_board g) (fst src) (snd src) i,
       gs_arbiter := request_move i (pc_color (piece_of (gs_board g) i))
         (pc_kind (piece_of (gs_board g) i)) src dst
         (compute_move_duration g (fst src) (snd src) (fst dst) (snd dst) (is_capture g i dst))
         (gs_arbiter g),
       gs_selected := None\<rparr>"

context game_policy
begin

lemma can_move_selected_to_ok:
  assumes wf: "wf_board (gs_board g)" and r: "gs_rules g = rules"
  shows "can_move_selected_to g (fst src) (snd src) (fst dst) (snd dst) =
           Inr (\<exists>i. accepts_move g src dst i)"
proof (cases "is_in_bounds (gs_board g) (fst src) (snd src)")
  case True
  show ?thesis
  proof (cases "cell_at (gs_board g) (fst src) (snd src)")
    case None
    with True wf show ?thesis
      by (simp add: can_move_selected_to_def accepts_move_def is_piece_resting_ok)
  next
    case (Some i)
    obtain x where x: "gr_is_legal_move rules (gs_board g) (pc_kind (piece_of (gs_board g) i))
       (int (fst src)) (int (snd src)) (int (fst dst)) (int (snd dst)) = Inr x"
      using legal_returns [OF wf] by blast
    show ?thesis
      using True Some wf x
      by (auto simp: can_move_selected_to_def accepts_move_def is_piece_resting_ok busy_def r
          game_is_in_bounds_def game_is_legal_move_def arb_is_same_color_destination_claimed_def
          sched_is_same_color_destination_claimed_def is_same_color_destination_claimed_iff)
  qed
next
  case False
  with wf show ?thesis
    by (simp add: can_move_selected_to_def accepts_move_def is_piece_resting_ok)
qed

lemma move_selected_to_ok:
  assumes wf: "wf_board (gs_board g)" and r: "gs_rules g = rules"
  shows "move_selected_to (fst dst) (snd dst) g =
    (case gs_selected g of
       None \<Rightarrow> Inr g
     | Some src \<Rightarrow>
         Inr (case cell_at (gs_board g) (fst src) (snd src) of
                None \<Rightarrow> g
              | Some i \<Rightarrow> if accepts_move g src dst i then launched g src dst i else g))"
proof (cases "gs_selected g")
  case (Some src)
  obtain r0 c0 where src: "src = (r0, c0)" by force
  note can = can_move_selected_to_ok [OF wf r, of src dst, unfolded src, simplified]
  show ?thesis
  proof (cases "\<exists>i. accepts_move g src dst i")
    case True
    then obtain i where i: "accepts_move g src dst i" by blast
    then have cell: "is_in_bounds (gs_board g) r0 c0" "cell_at (gs_board g) r0 c0 = Some i"
      and dst: "is_in_bounds (gs_board g) (fst dst) (snd dst)"
      by (auto simp: accepts_move_def src)
    have v: "valid_id (gs_board g) i"
      using wf_cell_valid [OF wf cell] .
    have cap: "(case map_option (piece_of (gs_board g)) (cell_at (gs_board g) (fst dst) (snd dst)) of
        None \<Rightarrow> False | Some d \<Rightarrow> is_opponent_of d (piece_of (gs_board g) i)) = is_capture g i dst"
    proof (cases "cell_at (gs_board g) (fst dst) (snd dst)")
      case (Some j)
      with wf_opponent [OF wf wf_cell_valid [OF wf dst Some] v] show ?thesis
        by (auto simp: is_capture_def enemy_at_def opposite_neq)
    qed (simp add: is_capture_def enemy_at_def)
    show ?thesis
      using Some i cell dst v wf True
      by (simp add: move_selected_to_def src can cap launched_def lifted_def clear_selection_def Let_def
          del: case_map_option)
  next
    case False
    then show ?thesis
      using Some can by (auto simp: move_selected_to_def src split: option.splits)
  qed
qed (simp add: move_selected_to_def)

lemma move_step:
  assumes inv: "game_inv g" and r: "gs_rules g = rules"
  shows "ensures (move_selected_to tr tc g) (game_step_ok g)"
proof -
  note wf = game_inv_wf [OF inv]
  have "game_step_ok g (launched g src (tr, tc) i)" if a: "accepts_move g src (tr, tc) i" for src i
  proof -
    obtain r0 c0 where src: "src = (r0, c0)" by force
    have arb: "arbiter_inv (ra_scheduler (gs_arbiter g)) (gs_board g)"
      using inv by (simp add: game_inv_def)
    have "(int r0, int c0) \<noteq> (int tr, int tc)"
      using a r legal_moves [OF wf, of "pc_kind (piece_of (gs_board g) i)"]
      unfolding accepts_move_def src by (metis fst_conv snd_conv)
    then show ?thesis
      using a sched_lift_move [OF arb, of r0 c0 i tr tc] sched_lift_evolves [OF arb, of r0 c0 i] inv
      by (simp add: game_step_ok_def game_inv_def launched_def request_move_def accepts_move_def src)
  qed
  then show ?thesis
    using move_selected_to_ok [OF wf r, of "(tr, tc)"] game_step_ok_refl [OF inv]
    by (auto split: option.splits)
qed

lemma jump_step:
  assumes inv: "game_inv g"
  shows "ensures (jump_at r c g) (game_step_ok g)"
proof -
  note wf = game_inv_wf [OF inv]
  have arb: "arbiter_inv (ra_scheduler (gs_arbiter g)) (gs_board g)"
    using inv by (simp add: game_inv_def)
  have "game_step_ok g (g\<lparr>gs_board := lifted (gs_board g) r c i,
      gs_arbiter := request_jump i (pc_color (piece_of (gs_board g) i))
        (pc_kind (piece_of (gs_board g) i)) (r, c) (gr_jump_duration_ms (gs_rules g)) (gs_arbiter g)\<rparr>)"
    if "is_in_bounds (gs_board g) r c" "cell_at (gs_board g) r c = Some i" for i
    using that sched_lift_jump [OF arb that] sched_lift_evolves [OF arb that] inv
    by (simp add: game_step_ok_def game_inv_def request_jump_def)
  then show ?thesis
    unfolding jump_at_ok [OF wf]
    using game_step_ok_refl [OF inv] by (auto split: option.splits)
qed

lemma game_step_clear: "game_step_ok g g' \<Longrightarrow> game_step_ok g (clear_selection g')"
  using game_inv_clear [of g'] by (simp add: game_step_ok_def) (simp add: clear_selection_def)

lemma settle_step:
  assumes inv: "game_inv g" and r: "gs_rules g = rules"
    and arb: "ra_scheduler arb = ra_scheduler (gs_arbiter g)"
  shows "ensures
     (bindR (settle_pending_moves (gs_rules g) arb (gs_board g) (gs_game_over g))
       (\<lambda>(arb, b, go). Inr (g\<lparr>gs_arbiter := arb, gs_board := b, gs_game_over := go\<rparr>)))
     (\<lambda>g'. game_step_ok g g' \<and> ra_clock_ms (gs_arbiter g') = ra_clock_ms arb \<and>
           gs_selected g' = gs_selected g \<and>
           quiescent (ra_clock_ms arb) (ra_scheduler (gs_arbiter g')) \<and>
           set (ms_pending_moves (ra_scheduler (gs_arbiter g')))
             \<subseteq> set (ms_pending_moves (ra_scheduler (gs_arbiter g))) \<and>
           set (ms_active_jumps (ra_scheduler (gs_arbiter g')))
             \<subseteq> set (ms_active_jumps (ra_scheduler (gs_arbiter g))) \<and>
           (rests_ok (ra_scheduler (gs_arbiter g)) (gs_board g) \<longrightarrow>
              rests_ok (ra_scheduler (gs_arbiter g')) (gs_board g')))"
proof -
  have "arbiter_inv (ra_scheduler arb) (gs_board g)"
    using inv arb by (simp add: game_inv_def)
  from settle_pending_moves_ok [OF this, of "gs_game_over g"] show ?thesis
    using inv r arb
    by (auto simp: game_step_ok_def game_inv_def evolves_bounds dest: stands_evolves elim!: ensures_mono)
qed

lemma add_clock_step:
  assumes "game_inv g" "gs_rules g = rules"
  shows "ensures (add_clock ms g)
     (\<lambda>g'. game_step_ok g g' \<and> ra_clock_ms (gs_arbiter g') = ra_clock_ms (gs_arbiter g) + ms \<and>
           quiescent (ra_clock_ms (gs_arbiter g')) (ra_scheduler (gs_arbiter g')) \<and>
           set (ms_pending_moves (ra_scheduler (gs_arbiter g')))
             \<subseteq> set (ms_pending_moves (ra_scheduler (gs_arbiter g))) \<and>
           set (ms_active_jumps (ra_scheduler (gs_arbiter g')))
             \<subseteq> set (ms_active_jumps (ra_scheduler (gs_arbiter g))) \<and>
           (rests_ok (ra_scheduler (gs_arbiter g)) (gs_board g) \<longrightarrow>
              rests_ok (ra_scheduler (gs_arbiter g')) (gs_board g')))"
  using settle_step [OF assms, of "(gs_arbiter g)\<lparr>ra_clock_ms := ra_clock_ms (gs_arbiter g) + ms\<rparr>"]
  unfolding add_clock_def update_time_def by (auto elim!: ensures_mono)

lemma action_step:
  assumes "game_inv g" "gs_rules g = rules"
  shows "ensures (apply_action a g) (game_step_ok g)"
proof (cases a)
  case (Select r c)
  have "game_step_ok g (select r c g)"
    using game_inv_select [OF assms(1), of r c] by (simp add: game_step_ok_def) (simp add: select_def)
  with Select show ?thesis by simp
next
  case JumpSelected
  have "ensures (jump_at r c g) (\<lambda>g'. game_step_ok g (clear_selection g'))" for r c
    using jump_step [OF assms(1)] game_step_clear by (rule ensures_mono)
  with JumpSelected game_step_ok_refl [OF assms(1)] show ?thesis
    by (auto simp: jump_selected_def split: option.splits)
next
  case (AdvanceClock ms)
  with add_clock_step [OF assms, of ms] show ?thesis
    by (auto elim: ensures_mono)
qed (use assms move_step jump_step game_step_clear [OF game_step_ok_refl] in auto)

lemma actions_step:
  assumes "game_inv g" "gs_rules g = rules"
  shows "ensures (foldR apply_action as g) (game_step_ok g)"
proof (rule ensures_foldR_inv)
  show "game_step_ok g g" using assms(1) by (rule game_step_ok_refl)
next
  fix a g'
  assume "game_step_ok g g'"
  then show "ensures (apply_action a g') (game_step_ok g)"
    using action_step [of g' a] assms game_step_ok_trans
    by (auto simp: game_step_ok_def elim!: ensures_mono intro: evolves_trans)
qed

end

subsection \<open>No two friendly moves share a destination\<close>

locale timed_policy = game_policy +
  assumes move_takes_time: "0 < gr_move_duration_ms rules"
begin

lemma move_duration_pos:
  assumes "gs_rules g = rules" "(fr, fc) \<noteq> (tr, tc)"
  shows "0 < compute_move_duration g fr fc tr tc cap"
  using assms move_takes_time by (auto simp: compute_move_duration_def Let_def intro!: mult_pos_pos)

end

interpretation std_timed: timed_policy standard
  by unfold_locales (simp add: standard_def kMoveDurationMs_def)

definition claims_inv :: "game_state \<Rightarrow> bool" where
  "claims_inv g \<longleftrightarrow>
     (let ps = ms_pending_moves (ra_scheduler (gs_arbiter g))
      in (\<forall>m \<in> set ps. ra_clock_ms (gs_arbiter g) < pm_arrival_time m) \<and>
         (\<forall>m \<in> set ps. \<forall>m' \<in> set ps.
            m \<noteq> m' \<longrightarrow> pm_color m = pm_color m' \<longrightarrow> pm_end_pos m \<noteq> pm_end_pos m'))"

context timed_policy
begin

lemma claims_launched:
  assumes inv: "game_inv g" "claims_inv g" and r: "gs_rules g = rules" and a: "accepts_move g src dst i"
  shows "claims_inv (launched g src dst i)"
proof -
  have "(int (fst src), int (snd src)) \<noteq> (int (fst dst), int (snd dst))"
    using a r legal_moves [OF game_inv_wf [OF inv(1)], of "pc_kind (piece_of (gs_board g) i)"]
    unfolding accepts_move_def by metis
  then have "0 < compute_move_duration g (fst src) (snd src) (fst dst) (snd dst) (is_capture g i dst)"
    by (intro move_duration_pos [OF r]) auto
  then show ?thesis
    using inv(2) a
    by (auto simp: claims_inv_def Let_def launched_def request_move_def schedule_move_def accepts_move_def)
qed

lemma claims_step:
  assumes inv: "game_inv g" "claims_inv g" and r: "gs_rules g = rules"
  shows "ensures (apply_action a g) claims_inv"
proof (cases a)
  case (Select r c)
  with inv show ?thesis by (simp add: select_def claims_inv_def Let_def)
next
  case ClearSelection
  with inv show ?thesis by (simp add: clear_selection_def claims_inv_def Let_def)
next
  case (MoveSelected tr tc)
  with move_selected_to_ok [OF game_inv_wf [OF inv(1)] r, of "(tr, tc)"] claims_launched [OF inv r] inv
  show ?thesis by (auto split: option.splits)
next
  case JumpSelected
  with jump_at_ok [OF game_inv_wf [OF inv(1)]] inv show ?thesis
    by (auto simp: jump_selected_def clear_selection_def claims_inv_def Let_def request_jump_def
        split: option.splits)
next
  case (JumpAt r c)
  with jump_at_ok [OF game_inv_wf [OF inv(1)]] inv show ?thesis
    by (auto simp: claims_inv_def Let_def request_jump_def split: option.splits)
next
  case (AdvanceClock ms)
  with add_clock_step [OF inv(1) r, of ms] inv show ?thesis
    by (auto simp: claims_inv_def Let_def quiescent_def subset_iff elim!: ensures_mono)
qed

end

subsection \<open>Reachable states\<close>

text \<open>States reachable from a given one by player actions and the passage of time.\<close>

inductive reachable :: "game_state \<Rightarrow> game_state \<Rightarrow> bool" for g0 where
  start: "reachable g0 g0"
| step: "reachable g0 g \<Longrightarrow> apply_action a g = Inr g' \<Longrightarrow> reachable g0 g'"

context game_policy
begin

lemma reachable_ok:
  assumes "reachable g0 g" "game_inv g0" "gs_rules g0 = rules"
  shows "game_step_ok g0 g"
  using assms
proof (induction rule: reachable.induct)
  case start
  then show ?case by (simp add: game_step_ok_refl)
next
  case (step g a g')
  then have "game_step_ok g g'"
    using action_step [of g a] by (simp add: game_step_ok_def)
  with step show ?case
    using game_step_ok_trans by blast
qed

end

context timed_policy
begin

lemma reachable_claims:
  assumes "reachable g0 g" "game_inv g0" "gs_rules g0 = rules" "claims_inv g0"
  shows "claims_inv g"
  using assms
proof (induction rule: reachable.induct)
  case (step g a g')
  have "game_step_ok g0 g"
    using reachable_ok [OF step.hyps(1) step.prems(1,2)] .
  then show ?case
    using step claims_step [of g a] by (simp add: game_step_ok_def)
qed

end

lemma new_game_claims: "claims_inv (new_game_with b rules)"
  by (simp add: claims_inv_def Let_def new_game_with_def new_arbiter_def empty_scheduler_def)

subsection \<open>A whole move, from request to arrival\<close>

lemma cell_at_lifted:
  "wf_board b \<Longrightarrow> is_in_bounds b r c \<Longrightarrow>
   cell_at (lifted b r c i) r' c' = (if r' = r \<and> c' = c then None else cell_at b r' c')"
  by (simp add: lifted_def cell_at_upd_cell)

lemma piece_of_lifted:
  "valid_id b i \<Longrightarrow> valid_id b j \<Longrightarrow>
   piece_of (lifted b r c i) j = (if j = i then (piece_of b i)\<lparr>pc_state := Moving\<rparr> else piece_of b j)"
  by (simp add: lifted_def piece_of_upd_piece)

lemma color_at_lifted:
  assumes "wf_board b" "is_in_bounds b r c" "cell_at b r c = Some i" "is_in_bounds b (nat r') (nat c')"
  shows "color_at (lifted b r c i) r' c' =
           (if nat r' = r \<and> nat c' = c then None else color_at b r' c')"
  using assms wf_cell_valid [OF assms(1,2,3)] wf_cell_valid [OF assms(1,4)]
  by (cases "cell_at b (nat r') (nat c')") (auto simp: color_at_def cell_at_lifted piece_of_lifted)

lemma enemy_at_lifted:
  assumes "wf_board b" "is_in_bounds b r c" "cell_at b r c = Some i"
    and "is_in_bounds b (fst cl) (snd cl)" "cl \<noteq> (r, c)"
  shows "enemy_at (lifted b r c i) i cl = enemy_at b i cl"
  using assms wf_cell_valid [OF assms(1,2,3)] wf_cell_valid [OF assms(1,4)]
  by (cases "cell_at b (fst cl) (snd cl)")
    (auto simp: enemy_at_def cell_at_lifted piece_of_lifted prod_eq_iff)

lemma legal_can_settle:
  assumes wf: "wf_board b" and src: "is_in_bounds b (fst (pm_start_pos m)) (snd (pm_start_pos m))"
      "cell_at b (fst (pm_start_pos m)) (snd (pm_start_pos m)) = Some (pm_piece_id m)"
    and legal: "is_legal_move b (pc_kind (piece_of b (pm_piece_id m)))
      (int (fst (pm_start_pos m))) (int (snd (pm_start_pos m)))
      (int (fst (pm_end_pos m))) (int (snd (pm_end_pos m))) = Inr True"
  shows "can_settle (lifted b (fst (pm_start_pos m)) (snd (pm_start_pos m)) (pm_piece_id m)) m"
proof -
  obtain sr sc where s: "pm_start_pos m = (sr, sc)" by force
  obtain er ec where e: "pm_end_pos m = (er, ec)" by force
  let ?i = "pm_piece_id m"
  let ?p = "piece_of b ?i" and ?b = "lifted b sr sc ?i"
  have src': "is_in_bounds b sr sc" "cell_at b sr sc = Some ?i"
    using src by (simp_all add: s)
  have v: "valid_id b ?i" using wf_cell_valid [OF wf src'] .
  have p: "pc_kind (piece_of ?b ?i) = pc_kind ?p" "pc_color (piece_of ?b ?i) = pc_color ?p"
    using v by (simp_all add: piece_of_lifted)
  have here: "color_at b (int sr) (int sc) = Some (pc_color ?p)"
    using src' by (simp add: color_at_def)
  have ne: "(er, ec) \<noteq> (sr, sc)"
    using standard_moves [OF legal] by (auto simp: s e)
  show ?thesis
  proof (cases "pc_kind ?p = Pawn")
    case True
    then have er: "is_in_bounds b er ec"
      and spec: "pawn_move_spec b (pc_color ?p) (int sr) (int sc) (int er) (int ec)"
      using legal legal_pawn [OF wf] here by (auto simp: s e)
    have dest: "color_at ?b (int er) (int ec) = color_at b (int er) (int ec)"
      using color_at_lifted [OF wf src', of "int er" "int ec"] er ne by auto
    have "pawn_move_spec ?b (pc_color ?p) (int sr) (int sc) (int er) (int ec)"
    proof (cases "int er = int sr + 2 * forward (pc_color ?p) \<and> ec = sc")
      case two: True
      let ?mid = "int sr + forward (pc_color ?p)"
      have "is_in_bounds b (nat ?mid) sc" "nat ?mid \<noteq> sr"
        using src'(1) er two by (auto simp: is_in_bounds_iff forward_def split: if_splits)
      then have "color_at ?b ?mid (int sc) = color_at b ?mid (int sc)"
        using color_at_lifted [OF wf src', of ?mid "int sc"] by auto
      then show ?thesis
        using spec dest by (auto simp: pawn_move_spec_def pawn_home_def)
    next
      case False
      then show ?thesis
        using spec dest by (auto simp: pawn_move_spec_def pawn_home_def)
    qed
    then show ?thesis
      using True p by (simp add: can_settle_def s e)
  next
    case False
    have "pc_kind ?p \<noteq> Count"
      using legal by (auto simp: is_legal_move_def registry_simps split: if_splits)
    note geo = legal [unfolded legal_geometric [OF wf False this]]
    have er: "is_in_bounds b er ec"
      using geo by (simp add: e)
    have "path_free ?b (int sr) (int sc) (int er) (int ec)"
      if "path_free b (int sr) (int sc) (int er) (int ec)"
      using that wf src' by (auto simp: path_free_def list_all_iff cell_at_lifted)
    moreover have "cell_at ?b er ec = None \<or> enemy_at ?b ?i (er, ec) \<noteq> None"
      using geo ne wf src' er enemy_at_lifted [OF wf src', of "(er, ec)"]
      by (auto simp: s e dest_free_or_enemy_def color_at_def enemy_at_def cell_at_lifted opposite_neq
          split: option.splits)
    ultimately show ?thesis
      using geo False \<open>pc_kind ?p \<noteq> Count\<close> p by (simp add: can_settle_def s e)
  qed
qed

context game_policy
begin

lemma settle_one_move:
  assumes inv: "sched_inv [m] [] b"
    and arb: "ms_pending_moves (ra_scheduler arb) = [m]" "ms_active_jumps (ra_scheduler arb) = []"
    and due: "pm_arrival_time m \<le> ra_clock_ms arb"
    and a: "arrival rules (ra_clock_ms arb) m (ra_scheduler arb, b, go, False) = (ms', b', go', ch')"
    and rests: "distinct (map fst (ms_active_rests (ra_scheduler arb)))"
  shows "settle_pending_moves rules arb b go =
    Inr (arb\<lparr>ra_scheduler := expire_rests (ra_clock_ms arb)
               (ms'\<lparr>ms_pending_moves := [], ms_active_jumps := []\<rparr>)\<rparr>, b', go')"
proof -
  have "settle_due_move rules (ra_clock_ms arb) m (ra_scheduler arb, b, go, False) = Inr (ms', b', go', ch')"
    using inv a by (subst settle_due_move_ok [where ps = "[]" and js = "[]"]) (auto simp: sched_inv_def)
  moreover have "ms_active_jumps ms' = []"
    using arrival_inv(5) [OF inv rests a] arb by simp
  moreover have "cancel_invalid_in_flight_moves clk (ms'\<lparr>ms_pending_moves := []\<rparr>, b') =
      Inr (ms'\<lparr>ms_pending_moves := []\<rparr>, b')" for clk
    by (simp add: cancel_invalid_in_flight_moves_def for_each_in_flight_pending_eq later_moves_def)
  ultimately show ?thesis
    using arb due
    by (cases ch') (simp_all add: settle_pending_moves_def for_each_pending_due_eq expire_jumps_eq
        due_moves_def later_moves_def due_jumps_def later_jumps_def)
qed

end

definition launched_move :: "game_state \<Rightarrow> cell \<Rightarrow> cell \<Rightarrow> piece_id \<Rightarrow> pending_move" where
  "launched_move g src dst i =
     \<lparr>pm_piece_id = i, pm_color = pc_color (piece_of (gs_board g) i),
      pm_kind = pc_kind (piece_of (gs_board g) i), pm_start_pos = src, pm_end_pos = dst,
      pm_start_time = ra_clock_ms (gs_arbiter g),
      pm_arrival_time = ra_clock_ms (gs_arbiter g) +
        compute_move_duration g (fst src) (snd src) (fst dst) (snd dst) (is_capture g i dst)\<rparr>"

text \<open>The state when the only move in flight arrives on time.\<close>

definition landed_game :: "game_state \<Rightarrow> cell \<Rightarrow> cell \<Rightarrow> piece_id \<Rightarrow> game_state" where
  "landed_game g src dst i =
     (let m = launched_move g src dst i; ms = ra_scheduler (gs_arbiter g); b = gs_board g;
          b1 = lifted b (fst src) (snd src) i
      in g\<lparr>gs_board := land b1 (fst dst) (snd dst) (arrived (gs_rules g) b1 i dst),
           gs_arbiter := \<lparr>ra_scheduler = expire_rests (pm_arrival_time m)
               ((long_rest (gs_rules g) m
                   (case enemy_at b i dst of None \<Rightarrow> ms | Some j \<Rightarrow> clear_rest j ms))
                 \<lparr>ms_pending_moves := [], ms_active_jumps := []\<rparr>),
               ra_clock_ms = pm_arrival_time m\<rparr>,
           gs_selected := None,
           gs_game_over := gs_game_over g \<or>
             (case enemy_at b i dst of None \<Rightarrow> False | Some j \<Rightarrow> gr_is_game_over (gs_rules g) (piece_of b j))\<rparr>)"

lemma accepts_moves: "gs_rules g = standard \<Longrightarrow> accepts_move g src dst i \<Longrightarrow> dst \<noteq> src"
  using standard_moves by (fastforce simp: accepts_move_def standard_def prod_eq_iff)

lemma whole_move:
  assumes inv: "game_inv g" and r: "gs_rules g = standard"
    and idle: "ms_pending_moves (ra_scheduler (gs_arbiter g)) = []"
      "ms_active_jumps (ra_scheduler (gs_arbiter g)) = []"
    and sel: "gs_selected g = Some src" and a: "accepts_move g src dst i"
  shows "foldR apply_action
      [MoveSelected (fst dst) (snd dst),
       AdvanceClock (compute_move_duration g (fst src) (snd src) (fst dst) (snd dst) (is_capture g i dst))] g
    = Inr (landed_game g src dst i)"
proof -
  let ?m = "launched_move g src dst i" and ?b = "gs_board g" and ?ms = "ra_scheduler (gs_arbiter g)"
  let ?b1 = "lifted ?b (fst src) (snd src) i"
  let ?ms1 = "schedule_move ?m ?ms"
  let ?arb = "\<lparr>ra_scheduler = ?ms1, ra_clock_ms = pm_arrival_time ?m\<rparr>"
  note wf = game_inv_wf [OF inv]
  have src: "is_in_bounds ?b (fst src) (snd src)" "cell_at ?b (fst src) (snd src) = Some i"
    and dst: "is_in_bounds ?b (fst dst) (snd dst)" "dst \<noteq> (fst src, snd src)"
    using a accepts_moves [OF r a] by (auto simp: accepts_move_def)
  have v: "valid_id ?b i" using wf_cell_valid [OF wf src] .
  have move: "move_selected_to (fst dst) (snd dst) g = Inr (launched g src dst i)"
    using std_policy.move_selected_to_ok [OF wf r, of dst] sel a src by simp
  have arb1: "arbiter_inv ?ms1 ?b1"
    using inv src dst
    by (intro sched_lift_move [where r' = "fst dst" and c' = "snd dst"])
      (auto simp: game_inv_def launched_move_def)
  then have sched: "sched_inv [?m] [] ?b1" "distinct (map fst (ms_active_rests ?ms1))"
    using idle by (auto simp: arbiter_inv_def schedule_move_def)
  have settle: "can_settle ?b1 ?m"
    using legal_can_settle [OF wf, of ?m] src a r
    by (simp add: launched_move_def accepts_move_def standard_def)
  have enemy: "enemy_at ?b1 i dst = enemy_at ?b i dst"
    using enemy_at_lifted [OF wf src dst] .
  have enemy_piece: "piece_of ?b1 j = piece_of ?b j" if "enemy_at ?b i dst = Some j" for j
    using that wf_cell_valid [OF wf dst(1), of j] v
    by (auto simp: enemy_at_def piece_of_lifted split: option.splits if_splits)
  have land: "arrival standard (pm_arrival_time ?m) ?m (?ms1, ?b1, gs_game_over g, False) =
      (long_rest standard ?m (case enemy_at ?b i dst of None \<Rightarrow> ?ms1 | Some j \<Rightarrow> clear_rest j ?ms1),
       land ?b1 (fst dst) (snd dst) (arrived standard ?b1 i dst),
       gs_game_over g \<or> (case enemy_at ?b i dst of None \<Rightarrow> False
          | Some j \<Rightarrow> gr_is_game_over standard (piece_of ?b j)), True)"
    using settle idle enemy enemy_piece
    by (cases "enemy_at ?b i dst")
      (simp_all add: arrival_def Let_def schedule_move_def, simp_all add: launched_move_def)
  have same: "(long_rest standard ?m (case enemy_at ?b i dst of None \<Rightarrow> ?ms1 | Some j \<Rightarrow> clear_rest j ?ms1))
        \<lparr>ms_pending_moves := [], ms_active_jumps := []\<rparr> =
      (long_rest standard ?m (case enemy_at ?b i dst of None \<Rightarrow> ?ms | Some j \<Rightarrow> clear_rest j ?ms))
        \<lparr>ms_pending_moves := [], ms_active_jumps := []\<rparr>"
    by (cases "enemy_at ?b i dst")
      (simp_all add: long_rest_def schedule_rest_def clear_rest_def schedule_move_def)
  have arb: "(gs_arbiter (launched g src dst i))\<lparr>ra_clock_ms := pm_arrival_time ?m\<rparr> = ?arb"
    by (simp add: launched_def request_move_def launched_move_def)
  have "settle_pending_moves standard ?arb ?b1 (gs_game_over g) =
      Inr (?arb\<lparr>ra_scheduler := expire_rests (pm_arrival_time ?m)
             ((long_rest standard ?m (case enemy_at ?b i dst of None \<Rightarrow> ?ms1 | Some j \<Rightarrow> clear_rest j ?ms1))
                \<lparr>ms_pending_moves := [], ms_active_jumps := []\<rparr>)\<rparr>,
           land ?b1 (fst dst) (snd dst) (arrived standard ?b1 i dst),
           gs_game_over g \<or> (case enemy_at ?b i dst of None \<Rightarrow> False
              | Some j \<Rightarrow> gr_is_game_over standard (piece_of ?b j)))"
    using std_policy.settle_one_move [OF sched(1), of ?arb "gs_game_over g"] land sched(2) idle
    by (simp add: schedule_move_def)
  moreover have "add_clock (compute_move_duration g (fst src) (snd src) (fst dst) (snd dst) (is_capture g i dst))
        (launched g src dst i) =
      bindR (settle_pending_moves standard
              ((gs_arbiter (launched g src dst i))\<lparr>ra_clock_ms := pm_arrival_time ?m\<rparr>) ?b1 (gs_game_over g))
        (\<lambda>(arb, b, go). Inr ((launched g src dst i)\<lparr>gs_arbiter := arb, gs_board := b, gs_game_over := go\<rparr>))"
    using r by (simp add: add_clock_def update_time_def launched_def request_move_def launched_move_def)
  ultimately have "add_clock (compute_move_duration g (fst src) (snd src) (fst dst) (snd dst) (is_capture g i dst))
      (launched g src dst i) = Inr (landed_game g src dst i)"
    unfolding arb same using r by (simp add: landed_game_def Let_def cong: option.case_cong)
      (simp add: launched_def)
  with move show ?thesis by simp
qed

subsection \<open>The verdict\<close>

definition king_on_board :: "board_model \<Rightarrow> piece_color \<Rightarrow> bool" where
  "king_on_board b col \<longleftrightarrow>
     (\<exists>r c i. is_in_bounds b r c \<and> cell_at b r c = Some i \<and>
        pc_color (piece_of b i) = col \<and> pc_kind (piece_of b i) = King)"

lemma king_token: "to_token c k = to_token c' King \<longleftrightarrow> c = c' \<and> k = King"
  by (cases c; cases c'; cases k) (simp_all add: token_defs)

lemma token_of_king:
  "token_of b r c = to_token col King \<longleftrightarrow>
     (\<exists>i. cell_at b r c = Some i \<and> pc_color (piece_of b i) = col \<and> pc_kind (piece_of b i) = King)"
  by (cases "cell_at b r c") (simp_all add: token_of_def king_token, simp add: to_token_def)

lemma king_scan_ok:
  assumes "wf_board (gs_board g)" "\<forall>(r, c) \<in> set cs. is_in_bounds (gs_board g) r c"
  shows "king_scan g cs (w, k) =
     Inr (w \<or> (\<exists>(r, c) \<in> set cs. token_of (gs_board g) r c = to_token White King),
          k \<or> (\<exists>(r, c) \<in> set cs. token_of (gs_board g) r c = to_token Black King))"
  using assms
proof (induction cs arbitrary: w k)
  case (Cons x cs)
  obtain r c where x: "x = (r, c)" by force
  have ne: "to_token White King \<noteq> to_token Black King" by (simp add: king_token)
  show ?case
    using Cons ne by (auto simp: x game_token_at_def)
qed simp

lemma winning_color_ok:
  assumes wf: "wf_board (gs_board g)"
  shows "winning_color g =
     Inr (if gs_game_over g \<and> king_on_board (gs_board g) White \<and> \<not> king_on_board (gs_board g) Black
          then Some White
          else if gs_game_over g \<and> king_on_board (gs_board g) Black \<and> \<not> king_on_board (gs_board g) White
          then Some Black else None)"
proof -
  have "(\<exists>(r, c) \<in> set (board_cells (rows (gs_board g)) (cols (gs_board g))).
      token_of (gs_board g) r c = to_token col King) = king_on_board (gs_board g) col" for col
    by (simp add: board_cells_def token_of_king king_on_board_def is_in_bounds_iff Bex_def)
  then show ?thesis
    using king_scan_ok [OF wf, of "board_cells (rows (gs_board g)) (cols (gs_board g))" False False]
    by (auto simp: winning_color_def board_cells_def is_in_bounds_iff)
qed

subsection \<open>Rests\<close>

lemma rested_in_landed_game:
  assumes "enemy_at (gs_board g) i dst \<noteq> Some i"
    and t: "0 \<le> pm_arrival_time (launched_move g src dst i)"
      "pm_arrival_time (launched_move g src dst i) + gr_long_rest_duration_ms (gs_rules g) < 2 ^ 31"
      "0 < gr_long_rest_duration_ms (gs_rules g)"
    and inv: "game_inv g"
  shows "sched_is_piece_resting (ra_scheduler (gs_arbiter (landed_game g src dst i))) clk i \<longleftrightarrow>
     clk < pm_arrival_time (launched_move g src dst i) + gr_long_rest_duration_ms (gs_rules g)"
proof -
  let ?m = "launched_move g src dst i" and ?ms = "ra_scheduler (gs_arbiter g)"
  let ?ms' = "long_rest (gs_rules g) ?m
      (case enemy_at (gs_board g) i dst of None \<Rightarrow> ?ms | Some j \<Rightarrow> clear_rest j ?ms)"
  let ?ms2 = "?ms'\<lparr>ms_pending_moves := [], ms_active_jumps := []\<rparr>"
  let ?t_end = "pm_arrival_time ?m + gr_long_rest_duration_ms (gs_rules g)"
  have "distinct (map fst (ms_active_rests ?ms))"
    using inv by (simp add: game_inv_def arbiter_inv_def)
  then have "distinct (map fst (ms_active_rests ?ms2))"
    by (simp add: long_rest_def distinct_rests split: option.splits)
  moreover have "to_int32 ?t_end = ?t_end"
    using t by (intro to_int32_id) auto
  moreover have "pm_piece_id ?m = i" by (simp add: launched_move_def)
  then have "\<exists>rest. rest_of ?ms2 i = Some rest \<and> ar_end_time_ms rest = to_int32 ?t_end"
    unfolding rest_of_def
    using rest_of_schedule [of i, unfolded rest_of_def] by (simp add: long_rest_def)
  ultimately have "\<exists>rest. rest_of (expire_rests (pm_arrival_time ?m) ?ms2) i = Some rest \<and>
      ar_end_time_ms rest = ?t_end"
    using t(3) rest_of_expire [of ?ms2 "pm_arrival_time ?m" i] by auto
  moreover have "ra_scheduler (gs_arbiter (landed_game g src dst i)) = expire_rests (pm_arrival_time ?m) ?ms2"
    by (simp add: landed_game_def Let_def)
  ultimately show ?thesis
    by (auto simp: sched_is_piece_resting_def rest_of_def)
qed

end
