(* ===== verification/Text_Utils.thy ===== *)
theory Text_Utils
  imports Prelude
begin

section \<open>Text: streams, words and decimal numbers\<close>

text \<open>
  What the source uses of the C++ library on text: \<^verbatim>\<open>std::isspace\<close> and
  \<^verbatim>\<open>std::isdigit\<close> of the C locale, \<^verbatim>\<open>operator>>\<close> into a string and into an integer
  (leading white space skipped, an optional sign, decimal digits, failure on overflow),
  \<^verbatim>\<open>std::getline\<close>, \<^verbatim>\<open>std::to_string\<close> of an unsigned number. The lemmas are the round
  trips: words of joined words, lines of joined lines, the number of its digits.
\<close>

subsection \<open>Characters\<close>

definition is_space :: "char \<Rightarrow> bool" where
  "is_space c = (c \<in> {CHR '' '', CHR 0x09, CHR 0x0A, CHR 0x0B, CHR 0x0C, CHR 0x0D})"

definition is_digit :: "char \<Rightarrow> bool" where
  "is_digit c = (48 \<le> (of_char c :: nat) \<and> (of_char c :: nat) \<le> 57)"

definition digit_value :: "char \<Rightarrow> nat" where
  "digit_value c = of_char c - 48"

definition digit_char :: "nat \<Rightarrow> char" where
  "digit_char d = char_of (48 + d)"

lemma digit_char [simp]:
  assumes "d < 10"
  shows "is_digit (digit_char d)" "digit_value (digit_char d) = d"
  using assms by (simp_all add: is_digit_def digit_value_def digit_char_def)

lemma digit_not_space: "is_digit c \<Longrightarrow> \<not> is_space c"
  by (auto simp: is_space_def is_digit_def)

subsection \<open>Words\<close>

text \<open>\<open>extract_word\<close> is \<^verbatim>\<open>stream >> word\<close>: the word (empty when the stream is exhausted)
  and the rest.\<close>

definition extract_word :: "string \<Rightarrow> string \<times> string" where
  "extract_word s =
     (let s' = dropWhile is_space s
      in (takeWhile (\<lambda>c. \<not> is_space c) s', dropWhile (\<lambda>c. \<not> is_space c) s'))"

lemma extract_word_shorter:
  assumes "extract_word s = (w, rest)" "w \<noteq> []"
  shows "length rest < length s"
proof -
  have "dropWhile is_space s = w @ rest"
    using assms(1) by (auto simp: extract_word_def Let_def)
  moreover have "length (dropWhile is_space s) \<le> length s"
    by (rule length_dropWhile_le)
  ultimately show ?thesis
    using assms(2) by (cases w) auto
qed

function words :: "string \<Rightarrow> string list" where
  "words s =
     (case extract_word s of (w, rest) \<Rightarrow> if w = [] then [] else w # words rest)"
  by pat_completeness auto
termination
  by (relation "measure length") (auto simp: extract_word_shorter [OF sym] dest: extract_word_shorter [OF sym])

declare words.simps [simp del]

definition is_word :: "string \<Rightarrow> bool" where
  "is_word w \<longleftrightarrow> w \<noteq> [] \<and> (\<forall>c \<in> set w. \<not> is_space c)"

lemma extract_word_space [simp]: "is_space c \<Longrightarrow> extract_word (c # s) = extract_word s"
  by (simp add: extract_word_def)

lemma words_space [simp]: "is_space c \<Longrightarrow> words (c # s) = words s"
  by (subst words.simps, subst (2) words.simps) simp

lemma extract_word_append:
  assumes "is_word w" "rest = [] \<or> is_space (hd rest)"
  shows "extract_word (w @ rest) = (w, rest)"
proof -
  obtain c w' where w: "w = c # w'" "\<not> is_space c"
    using assms(1) by (cases w) (auto simp: is_word_def)
  have "takeWhile (\<lambda>c. \<not> is_space c) (w @ rest) = w" "dropWhile (\<lambda>c. \<not> is_space c) (w @ rest) = rest"
    using assms by (cases rest; simp add: is_word_def takeWhile_append dropWhile_append)+
  with w show ?thesis by (simp add: extract_word_def)
qed

lemma words_append:
  assumes "is_word w" "rest = [] \<or> is_space (hd rest)"
  shows "words (w @ rest) = w # words rest"
  using assms by (subst words.simps) (auto simp: extract_word_append is_word_def)

lemma words_Nil [simp]: "words [] = []"
  by (subst words.simps) (simp add: extract_word_def)

text \<open>Words joined by single blanks, as the writers of the source print them.\<close>

fun join :: "char \<Rightarrow> string list \<Rightarrow> string" where
  "join c [] = []"
| "join c [w] = w"
| "join c (w # ws) = w @ c # join c ws"

lemma join_Cons: "join c (w # ws) = (if ws = [] then w else w @ c # join c ws)"
  by (cases ws) auto

lemma words_join:
  "list_all is_word ws \<Longrightarrow> is_space c \<Longrightarrow> words (join c ws) = ws"
  by (induction ws) (auto simp: join_Cons words_append words_append [where rest = "[]", simplified])

lemma words_are_words: "w \<in> set (words s) \<Longrightarrow> is_word w"
proof (induction s rule: words.induct)
  case (1 s)
  obtain v rest where e: "extract_word s = (v, rest)" by force
  then have v: "\<forall>c \<in> set v. \<not> is_space c"
    by (auto simp: extract_word_def Let_def dest: set_takeWhileD)
  have "words s = (if v = [] then [] else v # words rest)"
    by (subst words.simps) (simp add: e)
  with 1 e v show ?case
    by (auto simp: is_word_def split: if_splits)
qed

subsection \<open>Lines\<close>

text \<open>The lines \<^verbatim>\<open>std::getline\<close> reads one after the other until it fails.\<close>

fun get_lines_from :: "string \<Rightarrow> string \<Rightarrow> string list" where
  "get_lines_from acc [] = (if acc = [] then [] else [acc])"
| "get_lines_from acc (c # s) =
     (if c = CHR 0x0A then acc # get_lines_from [] s else get_lines_from (acc @ [c]) s)"

definition get_lines :: "string \<Rightarrow> string list" where
  "get_lines s = get_lines_from [] s"

lemma get_lines_from_append:
  "CHR 0x0A \<notin> set l \<Longrightarrow> get_lines_from acc (l @ s) = get_lines_from (acc @ l) s"
  by (induction l arbitrary: acc) auto

lemma get_lines_join:
  assumes "\<forall>l \<in> set ls. l \<noteq> [] \<and> CHR 0x0A \<notin> set l"
  shows "get_lines (join CHR 0x0A ls) = ls"
  using assms
proof (induction ls)
  case (Cons l ls)
  then show ?case
    using get_lines_from_append [of l "[]" "[]"] get_lines_from_append [of l "[]" "CHR 0x0A # join CHR 0x0A ls"]
    by (auto simp: join_Cons get_lines_def)
qed (simp add: get_lines_def)

subsection \<open>Numbers\<close>

fun show_nat :: "nat \<Rightarrow> string" where
  "show_nat n = (if n < 10 then [digit_char n] else show_nat (n div 10) @ [digit_char (n mod 10)])"

declare show_nat.simps [simp del]

text \<open>\<^verbatim>\<open>std::to_string\<close> and \<^verbatim>\<open>out << i\<close> of a signed integer.\<close>

definition show_int :: "int \<Rightarrow> string" where
  "show_int i = (if i < 0 then ''-'' @ show_nat (nat (- i)) else show_nat (nat i))"

definition digits_value :: "string \<Rightarrow> nat" where
  "digits_value ds = foldl (\<lambda>v c. v * 10 + digit_value c) 0 ds"

lemma digits_mono: "v \<le> foldl (\<lambda>v c. v * 10 + digit_value c) v ds"
proof (induction ds arbitrary: v)
  case (Cons d ds)
  have "v \<le> v * 10 + digit_value d" by simp
  also have "\<dots> \<le> foldl (\<lambda>v c. v * 10 + digit_value c) (v * 10 + digit_value d) ds" by (rule Cons)
  finally show ?case by simp
qed simp

lemma show_nat_digits: "list_all is_digit (show_nat n) \<and> show_nat n \<noteq> [] \<and> digits_value (show_nat n) = n"
proof (induction n rule: show_nat.induct)
  case (1 n)
  then show ?case
    by (cases "n < 10")
      (simp_all add: show_nat.simps [of n] digits_value_def)
qed

lemma show_nat_word: "is_word (show_nat n)"
  using show_nat_digits [of n] by (auto simp: is_word_def list_all_iff digit_not_space)

text \<open>
  \<^verbatim>\<open>stream >> i\<close> for an integer type with the range \<open>lo..hi\<close>: \<open>None\<close> is the failed
  extraction. The whole run of digits is read before the range is checked.
\<close>

definition extract_int :: "int \<Rightarrow> int \<Rightarrow> string \<Rightarrow> (int \<times> string) option" where
  "extract_int lo hi s =
     (let s1 = dropWhile is_space s;
          (neg, s2) = (case s1 of [] \<Rightarrow> (False, [])
                       | c # cs \<Rightarrow> if c = CHR ''-'' then (True, cs)
                                   else if c = CHR ''+'' then (False, cs) else (False, s1));
          ds = takeWhile is_digit s2; rest = dropWhile is_digit s2;
          v = (if neg then - int (digits_value ds) else int (digits_value ds))
      in if ds = [] then None else if v < lo \<or> hi < v then None else Some (v, rest))"

lemma extract_int_range: "extract_int lo hi s = Some (v, rest) \<Longrightarrow> lo \<le> v \<and> v \<le> hi"
  by (auto simp: extract_int_def Let_def split: prod.splits if_splits)

lemma digit_not_sign: "is_digit c \<Longrightarrow> c \<noteq> CHR ''-'' \<and> c \<noteq> CHR ''+''"
  by (auto simp: is_digit_def)

lemma extract_int_show:
  assumes "int n \<le> hi" "lo \<le> 0" "rest = [] \<or> \<not> is_digit (hd rest)" "list_all is_space pre"
  shows "extract_int lo hi (pre @ show_nat n @ rest) = Some (int n, rest)"
proof -
  note d = show_nat_digits [of n]
  obtain c cs where s: "show_nat n = c # cs" "is_digit c"
    using d by (cases "show_nat n") auto
  have drop: "dropWhile is_space (pre @ show_nat n @ rest) = show_nat n @ rest"
    using assms(4) s digit_not_space by (auto simp: dropWhile_append list_all_iff)
  have "takeWhile is_digit (show_nat n @ rest) = show_nat n" "dropWhile is_digit (show_nat n @ rest) = rest"
    using d assms(3) by (cases rest; simp add: takeWhile_append dropWhile_append list_all_iff)+
  then show ?thesis
    using drop d s digit_not_sign [OF s(2)] assms(1,2)
    by (simp add: extract_int_def Let_def)
qed

end
