(* ===== verification/Board_IO.thy ===== *)
theory Board_IO
  imports Board_Model Text_Utils
begin

section \<open>Board text: validation, printing and the VPL input format\<close>

text \<open>
  \<^verbatim>\<open>rules/board_validator.cpp\<close>, \<^verbatim>\<open>io/board_writer.cpp\<close> and \<^verbatim>\<open>io/vpl_io.cpp\<close>. Parsing
  accepts exactly the rectangular grids of valid tokens, names the first error, and the boards it
  builds satisfy the board invariant; printing a board and parsing the text gives the same layout.
\<close>

subsection \<open>Parsing\<close>

datatype board_error = Ok | UnknownToken | RowWidthMismatch

definition split_row :: "string \<Rightarrow> string list" where
  "split_row line = words line"

text \<open>The loop over the lines; an early return carries the error and keeps the caller's board.\<close>

fun parse_rows_loop ::
  "string list \<Rightarrow> nat \<Rightarrow> nat \<Rightarrow> board_model \<times> piece_factory \<Rightarrow> (board_error \<times> board_model) result" where
  "parse_rows_loop [] expected_width row_index (parsed, factory) = Inr (Ok, parsed)"
| "parse_rows_loop (line # lines) expected_width row_index (parsed, factory) =
     (let tokens = split_row line
      in if expected_width = 0 \<and> length tokens = 0 then Inr (RowWidthMismatch, parsed)
         else if expected_width \<noteq> 0 \<and> length tokens \<noteq> expected_width then Inr (RowWidthMismatch, parsed)
         else
           (let expected_width = (if expected_width = 0 then length tokens else expected_width)
            in if \<not> list_all is_valid_token tokens then Inr (UnknownToken, parsed)
               else bindR (append_token_row parsed tokens row_index factory)
                      (parse_rows_loop lines expected_width (row_index + 1))))"

definition parse_board_rows :: "string list \<Rightarrow> board_model \<Rightarrow> (board_error \<times> board_model) result" where
  "parse_board_rows lines b =
     (if lines = [] then Inr (Ok, empty_board)
      else bindR (parse_rows_loop lines 0 0 (empty_board, 1))
        (\<lambda>(err, parsed). Inr (err, if err = Ok then parsed else b)))"

definition kErrorUnknownToken :: string where "kErrorUnknownToken = ''ERROR UNKNOWN_TOKEN''"
definition kErrorRowWidthMismatch :: string where "kErrorRowWidthMismatch = ''ERROR ROW_WIDTH_MISMATCH''"

fun board_error_message :: "board_error \<Rightarrow> string" where
  "board_error_message UnknownToken = kErrorUnknownToken"
| "board_error_message RowWidthMismatch = kErrorRowWidthMismatch"
| "board_error_message Ok = ''''"

subsection \<open>Printing\<close>

fun write_cells :: "board_model \<Rightarrow> nat \<Rightarrow> nat list \<Rightarrow> string \<Rightarrow> string result" where
  "write_cells b row [] out = Inr out"
| "write_cells b row (col # rest) out =
     bindR (token_at b row col)
       (\<lambda>t. write_cells b row rest (out @ (if col > 0 then '' '' else '''') @ t))"

fun write_rows :: "board_model \<Rightarrow> nat list \<Rightarrow> string \<Rightarrow> string result" where
  "write_rows b [] out = Inr out"
| "write_rows b (row # rest) out =
     bindR (write_cells b row [0..<cols b] out)
       (\<lambda>out. write_rows b rest (out @ (if row + 1 < rows b then [CHR 0x0A] else [])))"

definition board_writer :: "board_model \<Rightarrow> string result" where
  "board_writer b = write_rows b [0..<rows b] ''''"

subsection \<open>The VPL input\<close>

record vpl_input =
  vi_board :: board_model
  vi_error :: board_error
  vi_commands :: "string list"

definition is_trim_char :: "char \<Rightarrow> bool" where
  "is_trim_char c = (c \<in> {CHR '' '', CHR 0x09, CHR 0x0D, CHR 0x0A})"

definition trim_line :: "string \<Rightarrow> string" where
  "trim_line line = rev (dropWhile is_trim_char (rev (dropWhile is_trim_char line)))"

definition kBoardSectionHeader :: string where "kBoardSectionHeader = ''Board:''"
definition kCommandsSectionHeader :: string where "kCommandsSectionHeader = ''Commands:''"

datatype vpl_section = NoSection | BoardSection | CommandsSection

fun vpl_loop ::
  "string list \<Rightarrow> vpl_section \<Rightarrow> string list \<Rightarrow> string list \<Rightarrow> string list \<times> string list" where
  "vpl_loop [] sect board_lines commands = (board_lines, commands)"
| "vpl_loop (line # lines) sect board_lines commands =
     (let trimmed = trim_line line
      in if trimmed = kBoardSectionHeader then vpl_loop lines BoardSection board_lines commands
         else if trimmed = kCommandsSectionHeader then vpl_loop lines CommandsSection board_lines commands
         else if sect = BoardSection then vpl_loop lines sect (board_lines @ [line]) commands
         else if sect = CommandsSection then
           vpl_loop lines sect board_lines (if line \<noteq> [] then commands @ [line] else commands)
         else vpl_loop lines sect board_lines commands)"

definition read_vpl_input :: "string \<Rightarrow> vpl_input result" where
  "read_vpl_input input =
     (let (board_lines, commands) = vpl_loop (get_lines input) NoSection [] []
      in bindR (parse_board_rows board_lines empty_board)
           (\<lambda>(err, b). Inr \<lparr>vi_board = b, vi_error = err, vi_commands = commands\<rparr>))"

subsection \<open>What parsing accepts\<close>

definition grid_of :: "string list \<Rightarrow> string list list" where
  "grid_of lines = map split_row lines"

definition good_grid :: "string list list \<Rightarrow> bool" where
  "good_grid ts \<longleftrightarrow>
     ts = [] \<or>
     (0 < length (hd ts) \<and> (\<forall>row \<in> set ts. length row = length (hd ts)) \<and>
      list_all (list_all is_valid_token) ts)"

lemma parse_rows_loop_accepts:
  assumes "flight_inv b []" "n = Suc (length (pieces b))" "rows b = 0 \<or> cols b = w"
    and "list_all (list_all is_valid_token) (grid_of lines)"
    and "\<forall>row \<in> set (grid_of lines). length row = w" "0 < w" "w0 = w \<or> w0 = 0"
  shows "ensures (parse_rows_loop lines w0 (rows b) (b, n))
     (\<lambda>(err, b'). err = Ok \<and> flight_inv b' [] \<and> grid_tokens b' = grid_tokens b @ grid_of lines \<and>
        rows b' = rows b + length lines \<and> (lines \<noteq> [] \<longrightarrow> cols b' = w))"
  using assms
proof (induction lines arbitrary: b n w0)
  case Nil
  then show ?case by (simp add: grid_of_def)
next
  case (Cons line lines)
  let ?ts = "split_row line"
  have ts: "list_all is_valid_token ?ts" "length ?ts = w" "rows b = 0 \<or> cols b = length ?ts"
    using Cons.prems by (auto simp: grid_of_def)
  let ?b = "with_row b ?ts"
  note d = with_row_dims [OF ts(3)]
  have "ensures (parse_rows_loop lines w (rows ?b) (?b, Suc (length (pieces ?b))))
     (\<lambda>(err, b'). err = Ok \<and> flight_inv b' [] \<and> grid_tokens b' = grid_tokens ?b @ grid_of lines \<and>
        rows b' = rows ?b + length lines \<and> (lines \<noteq> [] \<longrightarrow> cols b' = w))"
    using Cons.prems d ts by (intro Cons.IH) (auto simp: grid_of_def with_row_flight)
  moreover have "parse_rows_loop (line # lines) w0 (rows b) (b, n) =
      parse_rows_loop lines w (rows ?b) (?b, Suc (length (pieces ?b)))"
    using Cons.prems ts d by (auto simp: Let_def append_token_row_with_row)
  ultimately show ?case
    using Cons.prems d ts with_row_tokens [OF flight_wf [OF Cons.prems(1)] ts(1,3)]
    by (cases lines) (auto simp: grid_of_def elim!: ensures_mono)
qed

text \<open>On any other grid the loop still returns, with an error.\<close>

lemma parse_rows_loop_rejects:
  assumes "n = Suc (length (pieces b))"
    and "\<not> (list_all (list_all is_valid_token) (grid_of lines) \<and>
            (\<forall>row \<in> set (grid_of lines). length row = (if w0 = 0 then length (hd (grid_of lines)) else w0)) \<and>
            (w0 = 0 \<longrightarrow> lines \<noteq> [] \<longrightarrow> hd (grid_of lines) \<noteq> []))"
  shows "\<exists>err b'. parse_rows_loop lines w0 r (b, n) = Inr (err, b') \<and> err \<noteq> Ok"
  using assms
proof (induction lines arbitrary: b n w0 r)
  case Nil
  then show ?case by (simp add: grid_of_def)
next
  case (Cons line lines)
  let ?ts = "split_row line" and ?w = "if w0 = 0 then length (split_row line) else w0"
  show ?case
  proof (cases "length ?ts = ?w \<and> ?w \<noteq> 0 \<and> list_all is_valid_token ?ts")
    case True
    then have ts: "list_all is_valid_token ?ts" "length ?ts = ?w" "?w \<noteq> 0" by auto
    obtain b1 n1 where row: "append_token_row b ?ts r n = Inr (b1, n1)" "n1 = Suc (length (pieces b1))"
      using append_token_row_eq [OF ts(1) Cons.prems(1), of r] Cons.prems(1) by simp
    have "\<not> (list_all (list_all is_valid_token) (grid_of lines) \<and>
            (\<forall>row \<in> set (grid_of lines). length row = ?w))"
      using Cons.prems(2) ts by (auto simp: grid_of_def split: if_splits)
    then have "\<exists>err b'. parse_rows_loop lines ?w (r + 1) (b1, n1) = Inr (err, b') \<and> err \<noteq> Ok"
      using ts(3) row(2) by (intro Cons.IH) auto
    with ts row show ?thesis
      by (auto simp: Let_def split: if_splits)
  next
    case False
    then show ?thesis
      by (auto simp: Let_def split: if_splits)
  qed
qed

lemma parse_board_rows_ok:
  "ensures (parse_board_rows lines b)
     (\<lambda>(err, b'). if good_grid (grid_of lines)
        then err = Ok \<and> flight_inv b' [] \<and> grid_tokens b' = grid_of lines \<and>
             rows b' = length lines \<and> (lines \<noteq> [] \<longrightarrow> 0 < cols b')
        else err \<noteq> Ok \<and> b' = b)"
proof (cases "lines = []")
  case True
  then show ?thesis
    by (simp add: parse_board_rows_def grid_of_def good_grid_def empty_board_flight)
next
  case False
  show ?thesis
  proof (cases "good_grid (grid_of lines)")
    case good: True
    then have "ensures (parse_rows_loop lines 0 (rows empty_board) (empty_board, 1))
     (\<lambda>(err, b'). err = Ok \<and> flight_inv b' [] \<and> grid_tokens b' = grid_tokens empty_board @ grid_of lines \<and>
        rows b' = rows empty_board + length lines \<and>
        (lines \<noteq> [] \<longrightarrow> cols b' = length (hd (grid_of lines))))"
      using False by (intro parse_rows_loop_accepts) (auto simp: good_grid_def empty_board_flight grid_of_def)
    with good False show ?thesis
      by (auto simp: parse_board_rows_def good_grid_def grid_of_def elim!: ensures_mono)
  next
    case bad: False
    have "\<exists>err b'. parse_rows_loop lines 0 0 (empty_board, 1) = Inr (err, b') \<and> err \<noteq> Ok"
      using bad False by (intro parse_rows_loop_rejects) (auto simp: good_grid_def grid_of_def hd_map)
    with bad False show ?thesis
      by (auto simp: parse_board_rows_def)
  qed
qed

subsection \<open>What printing produces\<close>

definition board_lines :: "board_model \<Rightarrow> string list" where
  "board_lines b = map (join CHR '' '') (grid_tokens b)"

lemma join_snoc: "ws \<noteq> [] \<Longrightarrow> join c (ws @ [w]) = join c ws @ c # w"
  by (induction ws) (auto simp: join_Cons)

lemma write_cells_ok:
  assumes "wf_board b" "row < rows b" "k \<le> cols b"
  shows "write_cells b row [0..<k] out = Inr (out @ join CHR '' '' (map (token_of b row) [0..<k]))"
proof -
  have app: "write_cells b row (xs @ [k]) out =
      bindR (write_cells b row xs out)
        (\<lambda>out. bindR (token_at b row k) (\<lambda>t. Inr (out @ (if k > 0 then '' '' else '''') @ t)))"
    for xs k out
    by (induction xs arbitrary: out) (auto simp: bindR_assoc)
  show ?thesis
    using assms(3)
  proof (induction k)
    case (Suc k)
    then show ?case
      using assms(1,2) by (cases "k = 0") (simp_all add: app is_in_bounds_iff join_snoc)
  qed simp
qed

lemma write_rows_ok:
  assumes "wf_board b" "k \<le> rows b"
  shows "write_rows b [0..<k] out =
    Inr (out @ join CHR 0x0A (take k (board_lines b)) @ (if 0 < k \<and> k < rows b then [CHR 0x0A] else []))"
proof -
  have app: "write_rows b (xs @ [k]) out =
      bindR (write_rows b xs out)
        (\<lambda>out. bindR (write_cells b k [0..<cols b] out)
           (\<lambda>out. Inr (out @ (if k + 1 < rows b then [CHR 0x0A] else []))))"
    for xs k out
    by (induction xs arbitrary: out) (auto simp: bindR_assoc)
  show ?thesis
    using assms(2)
  proof (induction k)
    case (Suc k)
    have len: "length (board_lines b) = rows b"
      by (simp add: board_lines_def grid_tokens_def)
    have nth: "board_lines b ! k = join CHR '' '' (map (token_of b k) [0..<cols b])"
      using Suc.prems by (simp add: board_lines_def grid_tokens_def)
    have "take (Suc k) (board_lines b) = take k (board_lines b) @ [board_lines b ! k]"
      using Suc.prems len by (simp add: take_Suc_conv_app_nth)
    moreover have "take k (board_lines b) \<noteq> []" if "k \<noteq> 0"
      using that Suc.prems len by (cases "board_lines b") auto
    ultimately show ?case
      using Suc assms(1) len nth
      by (cases "k = 0") (auto simp: app write_cells_ok join_snoc)
  qed simp
qed

lemma board_writer_ok: "wf_board b \<Longrightarrow> board_writer b = Inr (join CHR 0x0A (board_lines b))"
proof -
  assume "wf_board b"
  then show ?thesis
    using write_rows_ok [of b "rows b" "''''"]
    by (simp add: board_writer_def board_lines_def grid_tokens_def)
qed

lemma token_is_word: "is_word (token_of b r c)"
proof -
  have "is_word (to_token col k)" for col k
    by (cases col; cases k) (simp_all add: token_defs is_word_def is_space_def)
  then show ?thesis
    by (simp add: token_of_def split: option.splits) (simp add: is_word_def is_space_def kEmptyToken_def)
qed

lemma token_is_valid: "is_valid_token (token_of b r c)"
proof -
  have "is_valid_token (to_token col k)" for col k
    by (cases col; cases k) (simp_all add: token_defs)
  then show ?thesis
    by (simp add: token_of_def split: option.splits) (simp add: token_defs)
qed

lemma grid_tokens_good:
  assumes "0 < cols b"
  shows "good_grid (grid_tokens b)"
proof -
  have "list_all (list_all is_valid_token) (grid_tokens b)"
    by (auto simp: grid_tokens_def list_all_iff token_is_valid)
  with assms show ?thesis
    by (cases "rows b") (auto simp: good_grid_def grid_tokens_def upt_conv_Cons simp del: upt_Suc)
qed

text \<open>Lines of text that hold only words and blanks.\<close>

lemma join_words_line:
  assumes "list_all is_word ws" "ws \<noteq> []"
  shows "join CHR '' '' ws \<noteq> [] \<and> CHR 0x0A \<notin> set (join CHR '' '' ws)"
  using assms
  by (induction ws) (auto simp: join_Cons is_word_def is_space_def)

lemma print_parse:
  assumes wf: "wf_board b" and c: "0 < cols b"
  shows "\<exists>out. board_writer b = Inr out \<and>
     ensures (parse_board_rows (get_lines out) b0)
       (\<lambda>(err, b'). err = Ok \<and> flight_inv b' [] \<and> board_eq b b' = Inr True)"
proof -
  have ws: "list_all is_word ts" "ts \<noteq> []" if "ts \<in> set (grid_tokens b)" for ts
    using that c by (auto simp: grid_tokens_def list_all_iff token_is_word)
  have lines: "get_lines (join CHR 0x0A (board_lines b)) = board_lines b"
    using ws by (intro get_lines_join) (auto simp: board_lines_def join_words_line)
  have "split_row (join CHR '' '' ts) = ts" if "ts \<in> set (grid_tokens b)" for ts
    using ws [OF that] by (simp add: split_row_def words_join is_space_def)
  then have grid: "grid_of (board_lines b) = grid_tokens b"
    by (simp add: grid_of_def board_lines_def map_idI)
  have same: "cols b' = cols b" if "grid_tokens b' = grid_tokens b" "rows b' = rows b" "0 < rows b" for b'
    using arg_cong [OF that(1), of "\<lambda>ts. length (hd ts)"] that
    by (simp add: grid_tokens_def upt_conv_Cons)
  have len: "rows b = length (board_lines b)"
    by (simp add: board_lines_def grid_tokens_def)
  have pos: "0 < rows b"
    using c by (cases "cells b") (auto simp: cols_def rows_def)
  obtain err b' where p: "parse_board_rows (board_lines b) b0 = Inr (err, b')" "err = Ok"
    "flight_inv b' []" "grid_tokens b' = grid_tokens b" "rows b' = length (board_lines b)"
    using parse_board_rows_ok [of "board_lines b" b0] grid_tokens_good [OF c]
    by (auto simp: ensures_iff grid)
  have "cols b' = cols b"
    using p(4,5) pos len by (intro same) simp_all
  with p(4) have "board_eq b b' = Inr True"
    unfolding board_eq_ok [OF wf flight_wf [OF p(3)]] by simp
  with p(1-3) show ?thesis
    using wf by (simp add: board_writer_ok lines)
qed

end
