(* ===== verification/Snapshot_Writer.thy ===== *)
theory Snapshot_Writer
  imports Game_State Board_IO
begin

section \<open>The view of a game and its text\<close>

text \<open>
  \<^verbatim>\<open>ui/view/board_view_builder.cpp\<close>, \<^verbatim>\<open>ui/view/board_view_model.cpp\<close> and
  \<^verbatim>\<open>server/snapshot_writer.cpp\<close>: what a client is shown of a game and the text the server sends.
  The lemmas: a consistent game has a view of the size of its board whose cells are the board's
  tokens, and the cell lines of the text are the lines the board writer prints.
\<close>

subsection \<open>The view model\<close>

record piece_view =
  pv_kind :: piece_kind
  pv_color :: piece_color

type_synonym cell_view = "piece_view option"

record board_view_model =
  bv_height :: nat
  bv_width :: nat
  bv_clock_ms :: int
  bv_game_over :: bool
  bv_selection :: "(nat \<times> nat) option"
  bv_cells :: "cell_view list"
  bv_animations :: animation_snapshot

definition build_cell :: "game_state \<Rightarrow> nat \<times> nat \<Rightarrow> cell_view result" where
  "build_cell g = (\<lambda>(row, col).
     bindR (game_token_at g row col)
       (\<lambda>t. Inr (case descriptor_from_token t of
                    None \<Rightarrow> None
                  | Some d \<Rightarrow> Some \<lparr>pv_kind = pd_kind d, pv_color = pd_color d\<rparr>)))"

definition build :: "game_state \<Rightarrow> board_view_model result" where
  "build g =
     (let height = rows (gs_board g); width = cols (gs_board g)
      in bindR (foldR (\<lambda>pos acc. bindR (build_cell g pos) (\<lambda>c. Inr (acc @ [c])))
                  (board_cells height width) [])
           (\<lambda>cs. Inr \<lparr>bv_height = height, bv_width = width,
                      bv_clock_ms = ra_clock_ms (gs_arbiter g), bv_game_over = gs_game_over g,
                      bv_selection = gs_selected g, bv_cells = cs,
                      bv_animations = game_animations_for_render g\<rparr>))"

definition board_view_cell_index :: "nat \<Rightarrow> nat \<Rightarrow> nat \<Rightarrow> nat" where
  "board_view_cell_index row col width = row * width + col"

definition board_view_cell_at :: "board_view_model \<Rightarrow> nat \<Rightarrow> nat \<Rightarrow> cell_view" where
  "board_view_cell_at view row col =
     (if row \<ge> bv_height view \<or> col \<ge> bv_width view then None
      else let index = board_view_cell_index row col (bv_width view)
           in if index \<ge> length (bv_cells view) then None else bv_cells view ! index)"

definition board_view_piece_at :: "board_view_model \<Rightarrow> nat \<Rightarrow> nat \<Rightarrow> piece_view option" where
  "board_view_piece_at view row col = board_view_cell_at view row col"

definition board_view_is_move_origin :: "board_view_model \<Rightarrow> nat \<Rightarrow> nat \<Rightarrow> bool" where
  "board_view_is_move_origin view row col =
     list_ex (\<lambda>m. ams_from_row m = row \<and> ams_from_col m = col) (as_moves (bv_animations view))"

definition board_view_is_jump_origin :: "board_view_model \<Rightarrow> nat \<Rightarrow> nat \<Rightarrow> bool" where
  "board_view_is_jump_origin view row col =
     list_ex (\<lambda>j. ajs_row j = row \<and> ajs_col j = col) (as_jumps (bv_animations view))"

definition board_view_jump_progress_at :: "board_view_model \<Rightarrow> nat \<Rightarrow> nat \<Rightarrow> rat" where
  "board_view_jump_progress_at view row col =
     (case List.find (\<lambda>j. ajs_row j = row \<and> ajs_col j = col) (as_jumps (bv_animations view)) of
        Some j \<Rightarrow> ajs_progress j
      | None \<Rightarrow> 0)"

definition find_rest_at :: "board_view_model \<Rightarrow> nat \<Rightarrow> nat \<Rightarrow> active_rest_snapshot option" where
  "find_rest_at view row col =
     List.find (\<lambda>r. ars_row r = row \<and> ars_col r = col) (as_rests (bv_animations view))"

definition board_view_is_resting_cell :: "board_view_model \<Rightarrow> nat \<Rightarrow> nat \<Rightarrow> bool" where
  "board_view_is_resting_cell view row col = (find_rest_at view row col \<noteq> None)"

definition board_view_rest_progress_at :: "board_view_model \<Rightarrow> nat \<Rightarrow> nat \<Rightarrow> rat" where
  "board_view_rest_progress_at view row col =
     (case find_rest_at view row col of Some r \<Rightarrow> ars_progress r | None \<Rightarrow> 0)"

definition board_view_rest_kind_at :: "board_view_model \<Rightarrow> nat \<Rightarrow> nat \<Rightarrow> rest_kind" where
  "board_view_rest_kind_at view row col =
     (case find_rest_at view row col of Some r \<Rightarrow> ars_kind r | None \<Rightarrow> Short)"

subsection \<open>The snapshot text\<close>

definition newline :: string where
  "newline = [CHR 0x0A]"

definition write_cell_token :: "cell_view \<Rightarrow> string" where
  "write_cell_token cell =
     (case cell of Some p \<Rightarrow> to_token (pv_color p) (pv_kind p) | None \<Rightarrow> ''.'')"

text \<open>
  \<^verbatim>\<open>std::fixed << std::setprecision(6)\<close>: the sixth decimal is rounded to nearest, ties to even, from
  the exact value.
\<close>

definition pad_left :: "nat \<Rightarrow> string \<Rightarrow> string" where
  "pad_left n s = replicate (n - length s) (CHR ''0'') @ s"

definition write_progress :: "rat \<Rightarrow> string" where
  "write_progress x =
     (let n = nat (round_half_even (\<bar>x\<bar> * 1000000))
      in (if x < 0 then ''-'' else '''') @ show_nat (n div 1000000) @ ''.'' @
         pad_left 6 (show_nat (n mod 1000000)))"

fun rest_kind_token :: "rest_kind \<Rightarrow> string" where
  "rest_kind_token Short = ''short''"
| "rest_kind_token Long = ''long''"

definition write_move_snapshot :: "active_move_snapshot \<Rightarrow> string" where
  "write_move_snapshot m =
     ''move piece_id '' @ show_nat (ams_piece_id m) @ '' piece '' @
     to_token (ams_color m) (ams_kind m) @ '' from '' @ show_nat (ams_from_row m) @ '' '' @
     show_nat (ams_from_col m) @ '' to '' @ show_nat (ams_to_row m) @ '' '' @
     show_nat (ams_to_col m) @ '' progress '' @ write_progress (ams_progress m) @ newline"

definition write_jump_snapshot :: "active_jump_snapshot \<Rightarrow> string" where
  "write_jump_snapshot j =
     ''jump piece_id '' @ show_nat (ajs_piece_id j) @ '' piece '' @
     to_token (ajs_color j) (ajs_kind j) @ '' row '' @ show_nat (ajs_row j) @ '' '' @
     show_nat (ajs_col j) @ '' progress '' @ write_progress (ajs_progress j) @ newline"

definition write_rest_snapshot :: "active_rest_snapshot \<Rightarrow> string" where
  "write_rest_snapshot r =
     ''rest piece_id '' @ show_nat (ars_piece_id r) @ '' row '' @ show_nat (ars_row r) @ '' '' @
     show_nat (ars_col r) @ '' kind '' @ rest_kind_token (ars_kind r) @ '' progress '' @
     write_progress (ars_progress r) @ newline"

definition write_cell_row :: "board_view_model \<Rightarrow> nat \<Rightarrow> string" where
  "write_cell_row view row =
     concat (map (\<lambda>col. (if col > 0 then '' '' else '''') @
                        write_cell_token (board_view_cell_at view row col)) [0..<bv_width view]) @
     (if row + 1 < bv_height view then newline else '''')"

definition write_snapshot :: "board_view_model \<Rightarrow> string" where
  "write_snapshot view =
     ''snapshot'' @ newline @
     ''clock_ms '' @ show_int (bv_clock_ms view) @ newline @
     ''game_over '' @ (if bv_game_over view then ''true'' else ''false'') @ newline @
     ''height '' @ show_nat (bv_height view) @ newline @
     ''width '' @ show_nat (bv_width view) @ newline @
     (case bv_selection view of
        None \<Rightarrow> ''''
      | Some (r, c) \<Rightarrow> ''selection '' @ show_nat r @ '' '' @ show_nat c @ newline) @
     ''cells'' @ newline @
     concat (map (write_cell_row view) [0..<bv_height view]) @
     newline @ ''animations'' @ newline @ ''moves'' @ newline @
     concat (map write_move_snapshot (as_moves (bv_animations view))) @
     ''jumps'' @ newline @
     concat (map write_jump_snapshot (as_jumps (bv_animations view))) @
     ''rests'' @ newline @
     concat (map write_rest_snapshot (as_rests (bv_animations view)))"

subsection \<open>The view of a consistent game\<close>

definition view_of :: "board_model \<Rightarrow> nat \<times> nat \<Rightarrow> cell_view" where
  "view_of b = (\<lambda>(r, c). map_option (\<lambda>d. \<lparr>pv_kind = pd_kind d, pv_color = pd_color d\<rparr>)
                  (descriptor_from_token (token_of b r c)))"

definition view_model :: "game_state \<Rightarrow> board_view_model" where
  "view_model g =
     \<lparr>bv_height = rows (gs_board g), bv_width = cols (gs_board g),
      bv_clock_ms = ra_clock_ms (gs_arbiter g), bv_game_over = gs_game_over g,
      bv_selection = gs_selected g,
      bv_cells = map (view_of (gs_board g)) (board_cells (rows (gs_board g)) (cols (gs_board g))),
      bv_animations = game_animations_for_render g\<rparr>"

lemma foldR_append_map:
  assumes "\<And>x. x \<in> set xs \<Longrightarrow> f x = Inr (h x)"
  shows "foldR (\<lambda>x acc. bindR (f x) (\<lambda>y. Inr (acc @ [y]))) xs acc = Inr (acc @ map h xs)"
  using assms by (induction xs arbitrary: acc) auto

lemma build_ok:
  assumes "wf_board (gs_board g)"
  shows "build g = Inr (view_model g)"
proof -
  have "build_cell g pos = Inr (view_of (gs_board g) pos)"
    if "pos \<in> set (board_cells (rows (gs_board g)) (cols (gs_board g)))" for pos
  proof -
    obtain r c where "pos = (r, c)" by force
    with that assms show ?thesis
      by (auto simp: build_cell_def view_of_def game_token_at_def board_cells_def is_in_bounds_iff
          split: option.splits)
  qed
  then show ?thesis
    by (simp add: build_def view_model_def foldR_append_map Let_def)
qed

lemma nth_board_cells:
  "r < n \<Longrightarrow> c < m \<Longrightarrow> board_cells n m ! (r * m + c) = (r, c) \<and> r * m + c < length (board_cells n m)"
proof -
  assume rc: "r < n" "c < m"
  then have "r * m + c < Suc r * m" by simp
  also have "\<dots> \<le> n * m" using rc by (intro mult_right_mono) auto
  finally have "r * m + c < n * m" .
  moreover have "(r * m + c) div m = r" "(r * m + c) mod m = c" using rc by simp_all
  ultimately show ?thesis
    using rc by (simp add: board_cells_def product_nth)
qed

lemma view_cell:
  assumes "r < rows (gs_board g)" "c < cols (gs_board g)"
  shows "board_view_cell_at (view_model g) r c = view_of (gs_board g) (r, c)"
  using assms nth_board_cells [OF assms]
  by (simp add: board_view_cell_at_def view_model_def board_view_cell_index_def Let_def)

lemma write_view_cell: "write_cell_token (view_of b (r, c)) = token_of b r c"
proof (cases "cell_at b r c")
  case None
  then have "token_of b r c = [kEmptyToken]" by (simp add: token_of_def)
  then show ?thesis
    by (simp add: write_cell_token_def view_of_def descriptor_from_token_def is_empty_token_def kEmptyToken_def)
next
  case (Some i)
  have "write_cell_token (map_option (\<lambda>d. \<lparr>pv_kind = pd_kind d, pv_color = pd_color d\<rparr>)
      (descriptor_from_token (to_token col k))) = to_token col k" for col k
    by (cases col; cases k) (simp_all add: write_cell_token_def token_defs)
  then show ?thesis using Some by (simp add: view_of_def token_of_def)
qed

lemma concat_join:
  "concat (map (\<lambda>k. (if k > 0 then [c] else []) @ f k) [0..<n]) = join c (map f [0..<n])"
proof (induction n)
  case (Suc n)
  then show ?case by (cases "n = 0") (simp_all add: join_snoc)
qed simp

lemma concat_lines:
  "concat (map (\<lambda>k. f k @ (if k + 1 < n then [c] else [])) [0..<n]) = join c (map f [0..<n])"
proof -
  have "concat (map (\<lambda>k. f k @ (if k + 1 < m then [c] else [])) [0..<k]) =
      join c (map f [0..<k]) @ (if 0 < k \<and> k < m then [c] else [])" if "k \<le> m" for k m
    using that
  proof (induction k)
    case (Suc k)
    then show ?case by (cases "k = 0") (simp_all add: join_snoc)
  qed simp
  from this [of n n] show ?thesis by simp
qed

text \<open>The cells section of a snapshot is what the board writer prints.\<close>

lemma snapshot_cells:
  "concat (map (write_cell_row (view_model g)) [0..<rows (gs_board g)]) =
     join CHR 0x0A (board_lines (gs_board g))"
proof -
  let ?b = "gs_board g"
  have dims: "bv_height (view_model g) = rows ?b" "bv_width (view_model g) = cols ?b"
    by (simp_all add: view_model_def)
  have row: "concat (map (\<lambda>col. (if col > 0 then '' '' else '''') @
      write_cell_token (board_view_cell_at (view_model g) r col)) [0..<cols ?b]) =
      join CHR '' '' (map (token_of ?b r) [0..<cols ?b])" if "r < rows ?b" for r
  proof -
    have "map (\<lambda>col. (if col > 0 then '' '' else '''') @
        write_cell_token (board_view_cell_at (view_model g) r col)) [0..<cols ?b] =
      map (\<lambda>col. (if col > 0 then '' '' else '''') @ token_of ?b r col) [0..<cols ?b]"
      using that by (auto simp: view_cell write_view_cell)
    then show ?thesis by (simp only: concat_join)
  qed
  have "map (write_cell_row (view_model g)) [0..<rows ?b] =
      map (\<lambda>r. join CHR '' '' (map (token_of ?b r) [0..<cols ?b]) @
             (if r + 1 < rows ?b then [CHR 0x0A] else [])) [0..<rows ?b]"
    by (auto simp: write_cell_row_def dims row newline_def)
  then show ?thesis
    by (simp only: concat_lines) (simp add: board_lines_def grid_tokens_def o_def)
qed

end
