(* ===== verification/Snapshot_Reader.thy ===== *)
theory Snapshot_Reader
  imports Snapshot_Writer
begin

section \<open>The client's reader of snapshots\<close>

text \<open>
  \<^verbatim>\<open>network/snapshot_reader.cpp\<close>: the text of a snapshot back to a view. Numbers are accumulated in a
  signed 64-bit integer, so too many digits are undefined behaviour; the progress of an animation is
  read by \<^verbatim>\<open>std::strtof\<close>, whose grammar and rounding are modelled below; the vector of cells reserves
  the product of height and width, modulo \<open>2^64\<close>, and throws if that is more than \<open>capacity\<close> cells.
  \<open>Inr None\<close> is the reader's \<^verbatim>\<open>std::nullopt\<close>.

  The lemmas: the reader accepts what the server's writer prints and gives back the same view, with
  each progress rounded to six decimals on the way.
\<close>

subsection \<open>Numbers\<close>

primrec parse_int64_loop :: "int \<Rightarrow> string \<Rightarrow> int option result" where
  "parse_int64_loop value [] = Inr (Some value)"
| "parse_int64_loop value (ch # token) =
     (if \<not> is_digit ch then Inr None
      else if value * 10 + int (digit_value ch) \<ge> 2 ^ 63 then Inl UndefinedBehaviour
      else parse_int64_loop (value * 10 + int (digit_value ch)) token)"

definition parse_int64 :: "string \<Rightarrow> int option result" where
  "parse_int64 token = (if token = [] then Inr None else parse_int64_loop 0 token)"

definition parse_non_negative_size :: "string \<Rightarrow> nat option result" where
  "parse_non_negative_size token =
     bindR (parse_int64 token)
       (\<lambda>parsed. case parsed of
          None \<Rightarrow> Inr None
        | Some v \<Rightarrow> if v < 0 then Inr None else Inr (Some (to_size v)))"

definition parse_bool :: "string \<Rightarrow> bool option" where
  "parse_bool token =
     (if token = ''true'' then Some True else if token = ''false'' then Some False else None)"

text \<open>
  \<^verbatim>\<open>std::strtof\<close> on a whole token: a sign, then digits with a point and an exponent, or the same in
  base 16 with a binary exponent, or a name of infinity or of not-a-number, in any case of letters.
  \<open>None\<close>: the longest prefix it converts is not the whole token.
\<close>

datatype cfloat = Finite rat | Infinite | NaN

definition char_in :: "char \<Rightarrow> char \<Rightarrow> char \<Rightarrow> bool" where
  "char_in lo hi c = (of_char lo \<le> (of_char c :: nat) \<and> of_char c \<le> (of_char hi :: nat))"

definition lower :: "string \<Rightarrow> string" where
  "lower s = map (\<lambda>c. if char_in CHR ''A'' CHR ''Z'' c then char_of (of_char c + 32 :: nat) else c) s"

definition hex_digit :: "char \<Rightarrow> nat option" where
  "hex_digit c =
     (if is_digit c then Some (digit_value c)
      else if char_in CHR ''a'' CHR ''f'' c then Some (of_char c - 87) else None)"

definition base_value :: "nat \<Rightarrow> (char \<Rightarrow> nat option) \<Rightarrow> string \<Rightarrow> nat" where
  "base_value base val ds = foldl (\<lambda>v c. v * base + the (val c)) 0 ds"

definition decimal_digit :: "char \<Rightarrow> nat option" where
  "decimal_digit c = (if is_digit c then Some (digit_value c) else None)"

definition sign_split :: "string \<Rightarrow> int \<times> string" where
  "sign_split s =
     (if s \<noteq> [] \<and> hd s = CHR ''-'' then (-1, tl s)
      else if s \<noteq> [] \<and> hd s = CHR ''+'' then (1, tl s) else (1, s))"

text \<open>The exponent after its letter: a sign and at least one digit, up to the end.\<close>

definition exponent_value :: "string \<Rightarrow> int option" where
  "exponent_value s =
     (let (sign, ds) = sign_split s
      in if ds = [] \<or> \<not> list_all is_digit ds then None else Some (sign * int (digits_value ds)))"

definition mantissa_value ::
  "nat \<Rightarrow> (char \<Rightarrow> nat option) \<Rightarrow> char \<Rightarrow> nat \<Rightarrow> string \<Rightarrow> rat option" where
  "mantissa_value base val letter exp_base t =
     (let whole = takeWhile (\<lambda>c. val c \<noteq> None) t;
          rest = dropWhile (\<lambda>c. val c \<noteq> None) t;
          (frac, rest') = (case rest of
                             CHR ''.'' # r \<Rightarrow> (takeWhile (\<lambda>c. val c \<noteq> None) r, dropWhile (\<lambda>c. val c \<noteq> None) r)
                           | _ \<Rightarrow> ('''', rest));
          m = of_nat (base_value base val (whole @ frac)) / of_nat base ^ length frac
      in if whole @ frac = [] then None
         else case rest' of
                [] \<Rightarrow> Some m
              | c # e \<Rightarrow> if c \<noteq> letter then None
                         else map_option (\<lambda>x. m * of_nat exp_base powi x) (exponent_value e))"

text \<open>Rounding with the range of the format: overflow is infinite, small numbers are subnormal.\<close>

definition round_float :: "rat \<Rightarrow> cfloat" where
  "round_float x =
     (if \<bar>x\<bar> < 1 / 2 ^ 126 then Finite (of_int (round_half_even (x * 2 ^ 149)) / 2 ^ 149)
      else if \<bar>f32 x\<bar> \<ge> 2 ^ 128 then Infinite else Finite (f32 x))"

definition unsigned_float :: "string \<Rightarrow> rat option" where
  "unsigned_float t =
     (if take 2 t = ''0x'' then mantissa_value 16 hex_digit CHR ''p'' 2 (drop 2 t)
      else mantissa_value 10 decimal_digit CHR ''e'' 10 t)"

definition is_nan_token :: "string \<Rightarrow> bool" where
  "is_nan_token t =
     (t = ''nan'' \<or> (take 4 t = ''nan('' \<and> 5 \<le> length t \<and> last t = CHR '')'' \<and>
        list_all (\<lambda>c. is_digit c \<or> char_in CHR ''a'' CHR ''z'' c \<or> c = CHR ''_'') (butlast (drop 4 t))))"

definition parse_float :: "string \<Rightarrow> cfloat option" where
  "parse_float token =
     (if token = [] then None
      else
        (let (sign, t) = sign_split token; l = lower t
         in if l = ''inf'' \<or> l = ''infinity'' then Some Infinite
            else if is_nan_token l then Some NaN
            else map_option (\<lambda>x. round_float (of_int sign * x)) (unsigned_float l)))"

definition parse_progress :: "string \<Rightarrow> rat option result" where
  "parse_progress token =
     (case parse_float token of
        None \<Rightarrow> Inr None
      | Some (Finite x) \<Rightarrow> Inr (Some x)
      | Some _ \<Rightarrow> Inl NotFinite)"

definition parse_piece_id :: "string \<Rightarrow> piece_id option result" where
  "parse_piece_id token =
     bindR (parse_int64 token)
       (\<lambda>parsed. case parsed of
          None \<Rightarrow> Inr None
        | Some v \<Rightarrow> if v < 0 then Inr None else Inr (Some (to_size v)))"

definition parse_rest_kind :: "string \<Rightarrow> rest_kind option" where
  "parse_rest_kind token =
     (if token = ''short'' then Some Short else if token = ''long'' then Some Long else None)"

subsection \<open>Cells and animation lines\<close>

definition parse_cell_token :: "string \<Rightarrow> cell_view option" where
  "parse_cell_token token =
     (if \<not> is_valid_token token then None
      else Some (map_option (\<lambda>d. \<lparr>pv_kind = pd_kind d, pv_color = pd_color d\<rparr>) (descriptor_from_token token)))"

definition parse_move_line :: "string list \<Rightarrow> active_move_snapshot option result" where
  "parse_move_line tokens =
     (if length tokens \<noteq> 13 \<or> tokens ! 0 \<noteq> ''move'' \<or> tokens ! 1 \<noteq> ''piece_id'' \<or>
         tokens ! 3 \<noteq> ''piece'' \<or> tokens ! 5 \<noteq> ''from'' \<or> tokens ! 8 \<noteq> ''to'' \<or>
         tokens ! 11 \<noteq> ''progress'' then Inr None
      else
        bindR (parse_piece_id (tokens ! 2)) (\<lambda>pid.
        bindR (parse_non_negative_size (tokens ! 6)) (\<lambda>fr.
        bindR (parse_non_negative_size (tokens ! 7)) (\<lambda>fc.
        bindR (parse_non_negative_size (tokens ! 9)) (\<lambda>tr.
        bindR (parse_non_negative_size (tokens ! 10)) (\<lambda>tc.
        bindR (parse_progress (tokens ! 12)) (\<lambda>pr.
          Inr (case (pid, descriptor_from_token (tokens ! 4), fr, fc, tr, tc, pr) of
                 (Some piece_id, Some d, Some from_row, Some from_col, Some to_row, Some to_col, Some progress) \<Rightarrow>
                   Some \<lparr>ams_piece_id = piece_id, ams_kind = pd_kind d, ams_color = pd_color d,
                         ams_from_row = from_row, ams_from_col = from_col, ams_to_row = to_row,
                         ams_to_col = to_col, ams_progress = progress\<rparr>
               | _ \<Rightarrow> None))))))))"

definition parse_jump_line :: "string list \<Rightarrow> active_jump_snapshot option result" where
  "parse_jump_line tokens =
     (if length tokens \<noteq> 10 \<or> tokens ! 0 \<noteq> ''jump'' \<or> tokens ! 1 \<noteq> ''piece_id'' \<or>
         tokens ! 3 \<noteq> ''piece'' \<or> tokens ! 5 \<noteq> ''row'' \<or> tokens ! 8 \<noteq> ''progress'' then Inr None
      else
        bindR (parse_piece_id (tokens ! 2)) (\<lambda>pid.
        bindR (parse_non_negative_size (tokens ! 6)) (\<lambda>r.
        bindR (parse_non_negative_size (tokens ! 7)) (\<lambda>c.
        bindR (parse_progress (tokens ! 9)) (\<lambda>pr.
          Inr (case (pid, descriptor_from_token (tokens ! 4), r, c, pr) of
                 (Some piece_id, Some d, Some row, Some col, Some progress) \<Rightarrow>
                   Some \<lparr>ajs_piece_id = piece_id, ajs_kind = pd_kind d, ajs_color = pd_color d,
                         ajs_row = row, ajs_col = col, ajs_progress = progress\<rparr>
               | _ \<Rightarrow> None))))))"

definition parse_rest_line :: "string list \<Rightarrow> active_rest_snapshot option result" where
  "parse_rest_line tokens =
     (if length tokens \<noteq> 10 \<or> tokens ! 0 \<noteq> ''rest'' \<or> tokens ! 1 \<noteq> ''piece_id'' \<or>
         tokens ! 3 \<noteq> ''row'' \<or> tokens ! 6 \<noteq> ''kind'' \<or> tokens ! 8 \<noteq> ''progress'' then Inr None
      else
        bindR (parse_piece_id (tokens ! 2)) (\<lambda>pid.
        bindR (parse_non_negative_size (tokens ! 4)) (\<lambda>r.
        bindR (parse_non_negative_size (tokens ! 5)) (\<lambda>c.
        bindR (parse_progress (tokens ! 9)) (\<lambda>pr.
          Inr (case (pid, r, c, parse_rest_kind (tokens ! 7), pr) of
                 (Some piece_id, Some row, Some col, Some kind, Some progress) \<Rightarrow>
                   Some \<lparr>ars_piece_id = piece_id, ars_row = row, ars_col = col, ars_kind = kind,
                         ars_progress = progress\<rparr>
               | _ \<Rightarrow> None))))))"

subsection \<open>Sections and the whole text\<close>

text \<open>The lines from \<^verbatim>\<open>line_index\<close> on are the list that is still to be read.\<close>

definition split_lines :: "string \<Rightarrow> string list" where
  "split_lines s = get_lines (filter (\<lambda>c. c \<noteq> CHR 0x0D) s)"

definition is_section_marker :: "string list \<Rightarrow> string \<Rightarrow> bool" where
  "is_section_marker tokens marker = (length tokens = 1 \<and> tokens ! 0 = marker)"

fun section_loop ::
  "string \<Rightarrow> (string list \<Rightarrow> 'a option result) \<Rightarrow> string list \<Rightarrow> 'a list \<Rightarrow> (string list \<times> 'a list) option result" where
  "section_loop next_section parse_line [] destination =
     Inr (if next_section = [] then Some ([], destination) else None)"
| "section_loop next_section parse_line (l # lines) destination =
     (let tokens = words l
      in if tokens = [] then section_loop next_section parse_line lines destination
         else if next_section \<noteq> [] \<and> is_section_marker tokens next_section
         then Inr (Some (l # lines, destination))
         else bindR (parse_line tokens)
           (\<lambda>parsed. case parsed of
              None \<Rightarrow> Inr None
            | Some x \<Rightarrow> section_loop next_section parse_line lines (destination @ [x])))"

definition parse_animation_section ::
  "string \<Rightarrow> string \<Rightarrow> (string list \<Rightarrow> 'a option result) \<Rightarrow> string list \<Rightarrow> (string list \<times> 'a list) option result" where
  "parse_animation_section section_name next_section parse_line lines =
     (case lines of
        [] \<Rightarrow> Inr None
      | l # ls \<Rightarrow> if \<not> is_section_marker (words l) section_name then Inr None
                  else section_loop next_section parse_line ls [])"

text \<open>A step of a reader that may fail or refuse.\<close>

definition bindO :: "'a option result \<Rightarrow> ('a \<Rightarrow> 'b option result) \<Rightarrow> 'b option result" where
  "bindO m f = bindR m (\<lambda>x. case x of None \<Rightarrow> Inr None | Some y \<Rightarrow> f y)"

definition parse_animations :: "string list \<Rightarrow> animation_snapshot option result" where
  "parse_animations lines =
     (case lines of
        [] \<Rightarrow> Inr None
      | l # ls \<Rightarrow>
          if \<not> is_section_marker (words l) ''animations'' then Inr None
          else
            bindO (parse_animation_section ''moves'' ''jumps'' parse_move_line ls) (\<lambda>(ls1, moves).
            bindO (parse_animation_section ''jumps'' ''rests'' parse_jump_line ls1) (\<lambda>(ls2, jumps).
            bindO (parse_animation_section ''rests'' '''' parse_rest_line ls2) (\<lambda>(ls3, rests).
              Inr (if ls3 = [] then Some \<lparr>as_moves = moves, as_jumps = jumps, as_rests = rests\<rparr> else None)))))"

definition empty_view :: board_view_model where
  "empty_view =
     \<lparr>bv_height = 0, bv_width = 0, bv_clock_ms = 0, bv_game_over = False, bv_selection = None,
      bv_cells = [], bv_animations = \<lparr>as_moves = [], as_jumps = [], as_rests = []\<rparr>\<rparr>"

definition header_line :: "string list \<Rightarrow> board_view_model \<Rightarrow> board_view_model option result" where
  "header_line tokens view =
     (if tokens ! 0 = ''clock_ms''
      then if length tokens \<noteq> 2 then Inr None
           else bindO (parse_int64 (tokens ! 1)) (\<lambda>v. Inr (Some (view\<lparr>bv_clock_ms := v\<rparr>)))
      else if tokens ! 0 = ''game_over''
      then if length tokens \<noteq> 2 then Inr None
           else bindO (Inr (parse_bool (tokens ! 1))) (\<lambda>v. Inr (Some (view\<lparr>bv_game_over := v\<rparr>)))
      else if tokens ! 0 = ''height''
      then if length tokens \<noteq> 2 then Inr None
           else bindO (parse_non_negative_size (tokens ! 1)) (\<lambda>v. Inr (Some (view\<lparr>bv_height := v\<rparr>)))
      else if tokens ! 0 = ''width''
      then if length tokens \<noteq> 2 then Inr None
           else bindO (parse_non_negative_size (tokens ! 1)) (\<lambda>v. Inr (Some (view\<lparr>bv_width := v\<rparr>)))
      else if tokens ! 0 = ''selection''
      then if length tokens \<noteq> 3 then Inr None
           else bindR (parse_non_negative_size (tokens ! 1)) (\<lambda>row.
                bindR (parse_non_negative_size (tokens ! 2)) (\<lambda>col.
                  Inr (case (row, col) of
                         (Some r, Some c) \<Rightarrow> Some (view\<lparr>bv_selection := Some (r, c)\<rparr>)
                       | _ \<Rightarrow> None)))
      else Inr None)"

fun header_loop ::
  "string list \<Rightarrow> board_view_model \<Rightarrow> (board_view_model \<times> string list) option result" where
  "header_loop [] view = Inr None"
| "header_loop (l # lines) view =
     (let tokens = words l
      in if tokens = [] then header_loop lines view
         else if tokens ! 0 = ''cells''
         then (if length tokens \<noteq> 1 then Inr None else Inr (Some (view, lines)))
         else bindO (header_line tokens view) (header_loop lines))"

fun cells_of :: "string list \<Rightarrow> cell_view list option" where
  "cells_of [] = Some []"
| "cells_of (token # tokens) =
     (case parse_cell_token token of
        None \<Rightarrow> None
      | Some c \<Rightarrow> map_option ((#) c) (cells_of tokens))"

fun rows_loop ::
  "nat \<Rightarrow> nat \<Rightarrow> string list \<Rightarrow> cell_view list \<Rightarrow> (cell_view list \<times> string list) option" where
  "rows_loop 0 width lines found = Some (found, lines)"
| "rows_loop (Suc n) width [] found = None"
| "rows_loop (Suc n) width (l # lines) found =
     (let tokens = words l
      in if length tokens \<noteq> width then None
         else case cells_of tokens of
                None \<Rightarrow> None
              | Some row \<Rightarrow> rows_loop n width lines (found @ row))"

definition read_snapshot :: "nat \<Rightarrow> string \<Rightarrow> board_view_model option result" where
  "read_snapshot capacity s =
     (case split_lines s of
        [] \<Rightarrow> Inr None
      | first # lines \<Rightarrow>
          if first \<noteq> ''snapshot'' then Inr None
          else
            bindO (header_loop lines empty_view) (\<lambda>(view, lines1).
              if (bv_height view * bv_width view) mod 2 ^ 64 > capacity then Inl RuntimeError
              else
                bindO (Inr (rows_loop (bv_height view) (bv_width view) lines1 [])) (\<lambda>(found, lines2).
                  if lines2 = [] then Inr (Some (view\<lparr>bv_cells := found\<rparr>))
                  else bindO (parse_animations lines2)
                    (\<lambda>anims. Inr (Some (view\<lparr>bv_cells := found, bv_animations := anims\<rparr>))))))"

subsection \<open>Numbers are read back\<close>

lemma parse_int64_loop_digits:
  assumes "list_all is_digit ds" "foldl (\<lambda>v c. v * 10 + digit_value c) v ds < 2 ^ 63"
  shows "parse_int64_loop (int v) ds = Inr (Some (int (foldl (\<lambda>v c. v * 10 + digit_value c) v ds)))"
  using assms
proof (induction ds arbitrary: v)
  case (Cons d ds)
  have "v * 10 + digit_value d < 2 ^ 63"
    using digits_mono [of "v * 10 + digit_value d" ds] Cons.prems(2) by simp
  then have "int (v * 10 + digit_value d) < 2 ^ 63" by (simp add: of_nat_less_iff [symmetric] del: of_nat_less_iff)
  then show ?case using Cons.IH [of "v * 10 + digit_value d"] Cons.prems by simp
qed simp

definition size63 :: "nat \<Rightarrow> bool" where
  "size63 n \<longleftrightarrow> n < 2 ^ 63"

lemma parse_int64_show [simp]: "size63 n \<Longrightarrow> parse_int64 (show_nat n) = Inr (Some (int n))"
  using show_nat_digits [of n] parse_int64_loop_digits [of "show_nat n" 0]
  by (simp add: parse_int64_def digits_value_def size63_def)

lemma parse_size_show [simp]:
  "size63 n \<Longrightarrow> parse_non_negative_size (show_nat n) = Inr (Some n)"
  "size63 n \<Longrightarrow> parse_piece_id (show_nat n) = Inr (Some n)"
  by (simp_all add: parse_non_negative_size_def parse_piece_id_def)

subsection \<open>Progress\<close>

text \<open>What is left of a progress after six decimals of text.\<close>

definition quantised :: "rat \<Rightarrow> rat" where
  "quantised x = f32 (of_int (round_half_even (x * 1000000)) / 1000000)"

lemma digits_value_append: "digits_value (a @ b) = digits_value a * 10 ^ length b + digits_value b"
proof -
  have "foldl (\<lambda>v c. v * 10 + digit_value c) v b =
      v * 10 ^ length b + foldl (\<lambda>v c. v * 10 + digit_value c) 0 b" for v
  proof (induction b arbitrary: v)
    case (Cons d b)
    have "foldl (\<lambda>v c. v * 10 + digit_value c) v (d # b) =
        (v * 10 + digit_value d) * 10 ^ length b + foldl (\<lambda>v c. v * 10 + digit_value c) 0 b"
      using Cons [of "v * 10 + digit_value d"] by simp
    also have "\<dots> = v * 10 ^ length (d # b) +
        (digit_value d * 10 ^ length b + foldl (\<lambda>v c. v * 10 + digit_value c) 0 b)"
      by (simp add: add_mult_distrib)
    also have "digit_value d * 10 ^ length b + foldl (\<lambda>v c. v * 10 + digit_value c) 0 b =
        foldl (\<lambda>v c. v * 10 + digit_value c) 0 (d # b)"
      using Cons [of "digit_value d"] by simp
    finally show ?case .
  qed simp
  from this [of "digits_value a"] show ?thesis unfolding digits_value_def foldl_append .
qed

lemma show_nat_length: "n < 10 ^ Suc k \<Longrightarrow> length (show_nat n) \<le> Suc k"
proof (induction k arbitrary: n)
  case (Suc k)
  show ?case
  proof (cases "n < 10")
    case False
    then have "show_nat n = show_nat (n div 10) @ [digit_char (n mod 10)]" by (subst show_nat.simps) simp
    moreover have "n div 10 < 10 ^ Suc k" using Suc.prems by (simp add: less_mult_imp_div_less mult.commute)
    ultimately show ?thesis using Suc.IH [of "n div 10"] by simp
  qed (simp add: show_nat.simps)
qed (simp add: show_nat.simps)

lemma pad_left_digits:
  assumes "n < 1000000"
  shows "list_all is_digit (pad_left 6 (show_nat n))" "digits_value (pad_left 6 (show_nat n)) = n"
    "length (pad_left 6 (show_nat n)) = 6"
proof -
  have "digits_value (replicate k (CHR ''0'')) = 0" for k
    by (induction k) (simp_all add: digits_value_def digit_value_def)
  then show "digits_value (pad_left 6 (show_nat n)) = n"
    using show_nat_digits [of n] by (simp add: pad_left_def digits_value_append)
  show "list_all is_digit (pad_left 6 (show_nat n))"
    using show_nat_digits [of n] by (auto simp: pad_left_def list_all_iff is_digit_def)
  show "length (pad_left 6 (show_nat n)) = 6"
    using show_nat_length [of n 5] assms by (simp add: pad_left_def)
qed

lemma base_value_digits:
  "list_all is_digit ds \<Longrightarrow> base_value 10 decimal_digit ds = digits_value ds"
  unfolding base_value_def digits_value_def
  by (rule foldl_cong) (auto simp: decimal_digit_def list_all_iff)

lemma mantissa_fixed:
  assumes "list_all is_digit a" "a \<noteq> []" "list_all is_digit b"
  shows "mantissa_value 10 decimal_digit letter e (a @ CHR ''.'' # b) =
    Some (of_nat (digits_value (a @ b)) / 10 ^ length b)"
proof -
  let ?P = "\<lambda>c. decimal_digit c \<noteq> None"
  have d: "\<forall>c \<in> set a. ?P c" "\<forall>c \<in> set b. ?P c" "\<not> ?P (CHR ''.'')"
    using assms by (auto simp: decimal_digit_def list_all_iff is_digit_def)
  have "takeWhile ?P (a @ CHR ''.'' # b) = a" "dropWhile ?P (a @ CHR ''.'' # b) = CHR ''.'' # b"
    using d by (simp_all add: takeWhile_append2 dropWhile_append2 del: not_None_eq)
  moreover have "takeWhile ?P b = b" "dropWhile ?P b = []"
    using d(2) by (simp_all add: takeWhile_eq_all_conv dropWhile_eq_Nil_conv del: not_None_eq)
  ultimately show ?thesis
    using assms base_value_digits [of "a @ b"]
    by (simp add: mantissa_value_def Let_def del: takeWhile_eq_all_conv dropWhile_eq_Nil_conv not_None_eq)
qed

lemma lower_plain: "\<forall>c \<in> set s. is_digit c \<or> c = CHR ''.'' \<Longrightarrow> lower s = s"
  by (induction s) (auto simp: lower_def char_in_def is_digit_def)

lemma round_float_unit:
  assumes "n \<le> 1000000"
  shows "round_float (of_nat n / 1000000) = Finite (f32 (of_nat n / 1000000))"
proof (cases "n = 0")
  case False
  have "(1 :: rat) / 2 ^ 126 \<le> 1 / 1000000" by simp
  also have "\<dots> \<le> of_nat n / 1000000" using False by simp
  finally have "\<not> \<bar>of_nat n / 1000000\<bar> < (1 :: rat) / 2 ^ 126" by simp
  moreover have "0 \<le> f32 (of_nat n / 1000000)" "f32 (of_nat n / 1000000) \<le> 1"
    using assms by (auto intro!: f32_nonneg f32_le_1)
  ultimately show ?thesis by (simp add: round_float_def)
qed (simp add: round_float_def round_half_even_def)

lemma fixed_text:
  assumes "list_all is_digit a" "a \<noteq> []" "list_all is_digit b"
  shows "unsigned_float (a @ CHR ''.'' # b) = Some (of_nat (digits_value (a @ b)) / 10 ^ length b)"
    "lower (a @ CHR ''.'' # b) = a @ CHR ''.'' # b"
    "parse_float (a @ CHR ''.'' # b) =
       Some (round_float (of_nat (digits_value (a @ b)) / 10 ^ length b))"
proof -
  obtain c a' where a: "a = c # a'" "is_digit c" using assms by (cases a) auto
  have x: "take 2 (a @ CHR ''.'' # b) \<noteq> ''0x''"
    using a assms(1) by (cases a') (auto simp: is_digit_def list_all_iff)
  then show u: "unsigned_float (a @ CHR ''.'' # b) = Some (of_nat (digits_value (a @ b)) / 10 ^ length b)"
    using mantissa_fixed [OF assms] by (simp add: unsigned_float_def)
  show l: "lower (a @ CHR ''.'' # b) = a @ CHR ''.'' # b"
    using assms by (intro lower_plain) (auto simp: list_all_iff)
  have "c \<noteq> CHR ''i''" "c \<noteq> CHR ''n''" "c \<noteq> CHR ''-''" "c \<noteq> CHR ''+''" using a(2) by (auto simp: is_digit_def)
  then have "\<not> is_nan_token (a @ CHR ''.'' # b)" "(a @ CHR ''.'' # b) \<noteq> ''inf''" "(a @ CHR ''.'' # b) \<noteq> ''infinity''"
    "sign_split (a @ CHR ''.'' # b) = (1, a @ CHR ''.'' # b)" "a @ CHR ''.'' # b \<noteq> []"
    using a(1) by (simp_all add: is_nan_token_def sign_split_def)
  then show "parse_float (a @ CHR ''.'' # b) = Some (round_float (of_nat (digits_value (a @ b)) / 10 ^ length b))"
    using u l by (simp add: parse_float_def)
qed

lemma parse_progress_write:
  assumes "0 \<le> x" "x \<le> 1"
  shows "parse_progress (write_progress x) = Inr (Some (quantised x))"
proof -
  define n where "n = nat (round_half_even (x * 1000000))"
  have "0 \<le> round_half_even (x * 1000000)" "round_half_even (x * 1000000) \<le> 1000000"
    using assms by (auto intro!: round_half_even_ge round_half_even_le)
  then have n: "n \<le> 1000000" "int n = round_half_even (x * 1000000)" by (simp_all add: n_def)
  note p = pad_left_digits [of "n mod 1000000"] and d = show_nat_digits [of "n div 1000000"]
  have w: "write_progress x = show_nat (n div 1000000) @ CHR ''.'' # pad_left 6 (show_nat (n mod 1000000))"
    using assms by (simp add: write_progress_def n_def Let_def)
  have v: "digits_value (show_nat (n div 1000000) @ pad_left 6 (show_nat (n mod 1000000))) = n"
    using p d by (simp add: digits_value_append)
  have "parse_float (write_progress x) = Some (round_float (of_nat n / 1000000))"
    using fixed_text(3) [of "show_nat (n div 1000000)" "pad_left 6 (show_nat (n mod 1000000))"] p d v w by simp
  moreover have "(of_nat n :: rat) = of_int (round_half_even (x * 1000000))" by (metis n(2) of_int_of_nat_eq)
  ultimately show ?thesis
    using round_float_unit [OF n(1)] by (simp add: parse_progress_def quantised_def)
qed

subsection \<open>The lines of a snapshot\<close>

text \<open>The text of a view as a list of lines, each a list of words.\<close>

definition move_tokens :: "active_move_snapshot \<Rightarrow> string list" where
  "move_tokens m =
     [''move'', ''piece_id'', show_nat (ams_piece_id m), ''piece'', to_token (ams_color m) (ams_kind m),
      ''from'', show_nat (ams_from_row m), show_nat (ams_from_col m), ''to'', show_nat (ams_to_row m),
      show_nat (ams_to_col m), ''progress'', write_progress (ams_progress m)]"

definition jump_tokens :: "active_jump_snapshot \<Rightarrow> string list" where
  "jump_tokens j =
     [''jump'', ''piece_id'', show_nat (ajs_piece_id j), ''piece'', to_token (ajs_color j) (ajs_kind j),
      ''row'', show_nat (ajs_row j), show_nat (ajs_col j), ''progress'', write_progress (ajs_progress j)]"

definition rest_tokens :: "active_rest_snapshot \<Rightarrow> string list" where
  "rest_tokens r =
     [''rest'', ''piece_id'', show_nat (ars_piece_id r), ''row'', show_nat (ars_row r), show_nat (ars_col r),
      ''kind'', rest_kind_token (ars_kind r), ''progress'', write_progress (ars_progress r)]"

definition row_tokens :: "board_view_model \<Rightarrow> nat \<Rightarrow> string list" where
  "row_tokens v r = map (\<lambda>c. write_cell_token (board_view_cell_at v r c)) [0..<bv_width v]"

definition header_tokens :: "board_view_model \<Rightarrow> string list list" where
  "header_tokens v =
     [[''clock_ms'', show_int (bv_clock_ms v)], [''game_over'', if bv_game_over v then ''true'' else ''false''],
      [''height'', show_nat (bv_height v)], [''width'', show_nat (bv_width v)]] @
     (case bv_selection v of None \<Rightarrow> [] | Some (r, c) \<Rightarrow> [[''selection'', show_nat r, show_nat c]])"

definition anim_tokens :: "animation_snapshot \<Rightarrow> string list list" where
  "anim_tokens a =
     [[''animations''], [''moves'']] @ map move_tokens (as_moves a) @ [[''jumps'']] @
     map jump_tokens (as_jumps a) @ [[''rests'']] @ map rest_tokens (as_rests a)"

definition snapshot_tokens :: "board_view_model \<Rightarrow> string list list" where
  "snapshot_tokens v =
     [[''snapshot'']] @ header_tokens v @ [[''cells'']] @ map (row_tokens v) [0..<bv_height v] @
     anim_tokens (bv_animations v)"

abbreviation line_text :: "string list \<Rightarrow> string" where
  "line_text \<equiv> join CHR '' ''"

definition lines_text :: "string list list \<Rightarrow> string" where
  "lines_text ls = concat (map (\<lambda>l. line_text l @ [CHR 0x0A]) ls)"

lemma lines_text_simps [simp]:
  "lines_text [] = []" "lines_text (l # ls) = line_text l @ CHR 0x0A # lines_text ls"
  "lines_text (a @ b) = lines_text a @ lines_text b"
  by (simp_all add: lines_text_def)

lemma join_newline: "ls \<noteq> [] \<Longrightarrow> join CHR 0x0A ls @ [CHR 0x0A] = concat (map (\<lambda>l. l @ [CHR 0x0A]) ls)"
  by (induction ls) (auto simp: join_Cons)

lemma cells_text:
  assumes "0 < bv_height v"
  shows "concat (map (write_cell_row v) [0..<bv_height v]) @ [CHR 0x0A] = lines_text (map (row_tokens v) [0..<bv_height v])"
proof -
  have row: "write_cell_row v r = line_text (row_tokens v r) @ (if r + 1 < bv_height v then [CHR 0x0A] else [])" for r
    using concat_join [of "CHR '' ''" "\<lambda>c. write_cell_token (board_view_cell_at v r c)" "bv_width v"]
    by (simp add: write_cell_row_def row_tokens_def newline_def)
  have "concat (map (write_cell_row v) [0..<bv_height v]) =
      join CHR 0x0A (map (\<lambda>r. line_text (row_tokens v r)) [0..<bv_height v])"
    unfolding concat_lines [symmetric] by (rule arg_cong [of _ _ concat], rule map_cong [OF refl]) (rule row)
  then show ?thesis using assms by (simp add: join_newline lines_text_def o_def)
qed

lemma anim_text:
  "''animations'' @ newline @ ''moves'' @ newline @ concat (map write_move_snapshot (as_moves a)) @
   ''jumps'' @ newline @ concat (map write_jump_snapshot (as_jumps a)) @
   ''rests'' @ newline @ concat (map write_rest_snapshot (as_rests a)) = lines_text (anim_tokens a)"
proof -
  have "write_move_snapshot = (\<lambda>m. line_text (move_tokens m) @ [CHR 0x0A])"
    by (simp add: fun_eq_iff write_move_snapshot_def move_tokens_def newline_def)
  moreover have "write_jump_snapshot = (\<lambda>j. line_text (jump_tokens j) @ [CHR 0x0A])"
    by (simp add: fun_eq_iff write_jump_snapshot_def jump_tokens_def newline_def)
  moreover have "write_rest_snapshot = (\<lambda>r. line_text (rest_tokens r) @ [CHR 0x0A])"
    by (simp add: fun_eq_iff write_rest_snapshot_def rest_tokens_def newline_def)
  ultimately show ?thesis
    by (simp add: anim_tokens_def newline_def) (simp add: lines_text_def o_def)
qed

lemma snapshot_text:
  assumes "0 < bv_height v"
  shows "write_snapshot v = lines_text (snapshot_tokens v)"
proof -
  have "write_snapshot v =
      lines_text ([[''snapshot'']] @ header_tokens v @ [[''cells'']]) @
      (concat (map (write_cell_row v) [0..<bv_height v]) @ [CHR 0x0A]) @ lines_text (anim_tokens (bv_animations v))"
    unfolding anim_text [symmetric]
    by (simp add: write_snapshot_def header_tokens_def newline_def split: option.splits)
  then show ?thesis unfolding cells_text [OF assms] by (simp add: snapshot_tokens_def)
qed

subsection \<open>Lines are read back\<close>

definition move_fits :: "active_move_snapshot \<Rightarrow> bool" where
  "move_fits m \<longleftrightarrow> size63 (ams_piece_id m) \<and> size63 (ams_from_row m) \<and> size63 (ams_from_col m) \<and>
     size63 (ams_to_row m) \<and> size63 (ams_to_col m) \<and> ams_kind m \<noteq> Count \<and>
     0 \<le> ams_progress m \<and> ams_progress m \<le> 1"

definition jump_fits :: "active_jump_snapshot \<Rightarrow> bool" where
  "jump_fits j \<longleftrightarrow> size63 (ajs_piece_id j) \<and> size63 (ajs_row j) \<and> size63 (ajs_col j) \<and> ajs_kind j \<noteq> Count \<and>
     0 \<le> ajs_progress j \<and> ajs_progress j \<le> 1"

definition rest_fits :: "active_rest_snapshot \<Rightarrow> bool" where
  "rest_fits r \<longleftrightarrow> size63 (ars_piece_id r) \<and> size63 (ars_row r) \<and> size63 (ars_col r) \<and>
     0 \<le> ars_progress r \<and> ars_progress r \<le> 1"

lemma parse_animation_lines:
  "move_fits m \<Longrightarrow> parse_move_line (move_tokens m) = Inr (Some (m\<lparr>ams_progress := quantised (ams_progress m)\<rparr>))"
  "jump_fits j \<Longrightarrow> parse_jump_line (jump_tokens j) = Inr (Some (j\<lparr>ajs_progress := quantised (ajs_progress j)\<rparr>))"
  "rest_fits r \<Longrightarrow> parse_rest_line (rest_tokens r) = Inr (Some (r\<lparr>ars_progress := quantised (ars_progress r)\<rparr>))"
proof -
  show "move_fits m \<Longrightarrow> parse_move_line (move_tokens m) = Inr (Some (m\<lparr>ams_progress := quantised (ams_progress m)\<rparr>))"
    by (simp add: move_fits_def parse_move_line_def move_tokens_def descriptor_to_token parse_progress_write)
  show "jump_fits j \<Longrightarrow> parse_jump_line (jump_tokens j) = Inr (Some (j\<lparr>ajs_progress := quantised (ajs_progress j)\<rparr>))"
    by (simp add: jump_fits_def parse_jump_line_def jump_tokens_def descriptor_to_token parse_progress_write)
  show "rest_fits r \<Longrightarrow> parse_rest_line (rest_tokens r) = Inr (Some (r\<lparr>ars_progress := quantised (ars_progress r)\<rparr>))"
    by (cases "ars_kind r")
      (simp_all add: rest_fits_def parse_rest_line_def rest_tokens_def parse_rest_kind_def parse_progress_write)
qed

lemma is_word_token: "is_word (to_token c k)"
  by (cases c; cases k) (simp_all add: token_defs is_word_def is_space_def)

lemma is_word_progress:
  assumes "0 \<le> x" "x \<le> 1"
  shows "is_word (write_progress x)"
proof -
  let ?n = "nat (round_half_even (\<bar>x\<bar> * 1000000))"
  have "list_all is_digit (pad_left 6 (show_nat (?n mod 1000000)))" by (rule pad_left_digits) simp
  then show ?thesis
    using assms show_nat_digits [of "?n div 1000000"] digit_not_space
    by (auto simp: write_progress_def Let_def is_word_def list_all_iff is_space_def)
qed

lemma is_word_consts [simp]:
  "is_word ''move''" "is_word ''piece_id''" "is_word ''piece''" "is_word ''from''" "is_word ''to''"
  "is_word ''progress''" "is_word ''jump''" "is_word ''row''" "is_word ''rest''" "is_word ''kind''"
  "is_word ''short''" "is_word ''long''" "is_word ''clock_ms''" "is_word ''game_over''" "is_word ''height''"
  "is_word ''width''" "is_word ''selection''" "is_word ''cells''" "is_word ''snapshot''" "is_word ''animations''"
  "is_word ''moves''" "is_word ''jumps''" "is_word ''rests''" "is_word ''true''" "is_word ''false''" "is_word ''.''"
  by (simp_all add: is_word_def is_space_def)

lemma animation_words:
  "move_fits m \<Longrightarrow> list_all is_word (move_tokens m)"
  "jump_fits j \<Longrightarrow> list_all is_word (jump_tokens j)"
  "rest_fits r \<Longrightarrow> list_all is_word (rest_tokens r)"
  by (auto simp: move_fits_def move_tokens_def jump_fits_def jump_tokens_def rest_fits_def rest_tokens_def
      show_nat_word is_word_token is_word_progress) (cases "ars_kind r", simp_all)

lemma words_line [simp]: "list_all is_word l \<Longrightarrow> words (line_text l) = l"
  by (rule words_join) (simp_all add: is_space_def)

text \<open>A section: its lines up to the marker of the next one, or to the end.\<close>

lemma section_loop_lines:
  assumes "\<And>x. x \<in> set xs \<Longrightarrow> list_all is_word (toks x) \<and> 2 \<le> length (toks x) \<and> parse_line (toks x) = Inr (Some (q x))"
    and "if next_section = [] then ls = [] else is_word next_section \<and> (\<exists>ls'. ls = next_section # ls')"
  shows "section_loop next_section parse_line (map (\<lambda>x. line_text (toks x)) xs @ ls) acc = Inr (Some (ls, acc @ map q xs))"
  using assms(1)
proof (induction xs arbitrary: acc)
  case Nil
  then show ?case
    using assms(2) words_line [of "[next_section]"]
    by (auto simp: is_section_marker_def split: if_splits)
next
  case (Cons x xs)
  then have x: "list_all is_word (toks x)" "2 \<le> length (toks x)" "parse_line (toks x) = Inr (Some (q x))"
    by auto
  then have l: "toks x \<noteq> []" "length (toks x) \<noteq> 1" by auto
  have ih: "section_loop next_section parse_line (map (\<lambda>x. line_text (toks x)) xs @ ls) (acc @ [q x]) =
      Inr (Some (ls, (acc @ [q x]) @ map q xs))"
    by (rule Cons.IH) (use Cons.prems in auto)
  show ?case using x l ih by (simp add: is_section_marker_def Let_def)
qed

definition received_animations :: "animation_snapshot \<Rightarrow> animation_snapshot" where
  "received_animations a =
     \<lparr>as_moves = map (\<lambda>m. m\<lparr>ams_progress := quantised (ams_progress m)\<rparr>) (as_moves a),
      as_jumps = map (\<lambda>j. j\<lparr>ajs_progress := quantised (ajs_progress j)\<rparr>) (as_jumps a),
      as_rests = map (\<lambda>r. r\<lparr>ars_progress := quantised (ars_progress r)\<rparr>) (as_rests a)\<rparr>"

definition animations_fit :: "animation_snapshot \<Rightarrow> bool" where
  "animations_fit a \<longleftrightarrow>
     list_all move_fits (as_moves a) \<and> list_all jump_fits (as_jumps a) \<and> list_all rest_fits (as_rests a)"

lemma parse_animations_lines:
  assumes "animations_fit a"
  shows "parse_animations (map line_text (anim_tokens a)) = Inr (Some (received_animations a))"
proof -
  let ?M = "map (\<lambda>m. line_text (move_tokens m)) (as_moves a)"
  let ?J = "map (\<lambda>j. line_text (jump_tokens j)) (as_jumps a)"
  let ?R = "map (\<lambda>r. line_text (rest_tokens r)) (as_rests a)"
  have m: "section_loop ''jumps'' parse_move_line (?M @ ''jumps'' # ?J @ ''rests'' # ?R) [] =
      Inr (Some (''jumps'' # ?J @ ''rests'' # ?R, [] @ as_moves (received_animations a)))"
    unfolding received_animations_def animation_snapshot.simps
  proof (rule section_loop_lines)
    fix x assume "x \<in> set (as_moves a)"
    then have "move_fits x" using assms by (simp add: animations_fit_def list_all_iff)
    then show "list_all is_word (move_tokens x) \<and> 2 \<le> length (move_tokens x) \<and>
        parse_move_line (move_tokens x) = Inr (Some (x\<lparr>ams_progress := quantised (ams_progress x)\<rparr>))"
      by (simp add: animation_words parse_animation_lines) (simp add: move_tokens_def)
  qed simp
  have j: "section_loop ''rests'' parse_jump_line (?J @ ''rests'' # ?R) [] =
      Inr (Some (''rests'' # ?R, [] @ as_jumps (received_animations a)))"
    unfolding received_animations_def animation_snapshot.simps
  proof (rule section_loop_lines)
    fix x assume "x \<in> set (as_jumps a)"
    then have "jump_fits x" using assms by (simp add: animations_fit_def list_all_iff)
    then show "list_all is_word (jump_tokens x) \<and> 2 \<le> length (jump_tokens x) \<and>
        parse_jump_line (jump_tokens x) = Inr (Some (x\<lparr>ajs_progress := quantised (ajs_progress x)\<rparr>))"
      by (simp add: animation_words parse_animation_lines) (simp add: jump_tokens_def)
  qed simp
  have r: "section_loop '''' parse_rest_line (?R @ []) [] =
      Inr (Some ([], [] @ as_rests (received_animations a)))"
    unfolding received_animations_def animation_snapshot.simps
  proof (rule section_loop_lines)
    fix x assume "x \<in> set (as_rests a)"
    then have "rest_fits x" using assms by (simp add: animations_fit_def list_all_iff)
    then show "list_all is_word (rest_tokens x) \<and> 2 \<le> length (rest_tokens x) \<and>
        parse_rest_line (rest_tokens x) = Inr (Some (x\<lparr>ars_progress := quantised (ars_progress x)\<rparr>))"
      by (simp add: animation_words parse_animation_lines) (simp add: rest_tokens_def)
  qed simp
  have w: "words ''animations'' = [''animations'']" "words ''moves'' = [''moves'']"
    "words ''jumps'' = [''jumps'']" "words ''rests'' = [''rests'']"
    using words_line [of "[''animations'']"] words_line [of "[''moves'']"] words_line [of "[''jumps'']"]
      words_line [of "[''rests'']"] by simp_all
  have "map line_text (anim_tokens a) = ''animations'' # ''moves'' # ?M @ ''jumps'' # ?J @ ''rests'' # ?R"
    by (simp add: anim_tokens_def)
  then show ?thesis
    using m j r w
    by (simp add: parse_animations_def parse_animation_section_def is_section_marker_def bindO_def)
qed

text \<open>Cells.\<close>

lemma parse_cell_write:
  assumes "\<forall>p. c = Some p \<longrightarrow> pv_kind p \<noteq> Count"
  shows "parse_cell_token (write_cell_token c) = Some c" "is_word (write_cell_token c)"
proof -
  show "parse_cell_token (write_cell_token c) = Some c"
  proof (cases c)
    case None
    then show ?thesis by (simp add: parse_cell_token_def write_cell_token_def token_defs)
  next
    case (Some p)
    then show ?thesis
      using assms by (simp add: parse_cell_token_def write_cell_token_def to_token_valid descriptor_to_token)
  qed
  show "is_word (write_cell_token c)"
    by (cases c) (simp_all add: write_cell_token_def is_word_token)
qed

lemma cells_of_write: "\<forall>c \<in> set cs. \<forall>p. c = Some p \<longrightarrow> pv_kind p \<noteq> Count \<Longrightarrow>
    cells_of (map write_cell_token cs) = Some cs"
  by (induction cs) (simp_all add: parse_cell_write)

lemma concat_rows:
  "h * w \<le> length xs \<Longrightarrow> concat (map (\<lambda>r. map (\<lambda>c. xs ! (r * w + c)) [0..<w]) [0..<h]) = take (h * w) xs"
proof (induction h)
  case (Suc h)
  have "map (\<lambda>c. xs ! (h * w + c)) [0..<w] = take w (drop (h * w) xs)"
    using Suc.prems by (intro nth_equalityI) (auto simp: add.commute)
  then show ?case using Suc by (simp add: take_add add.commute [of w])
qed simp

subsection \<open>The whole snapshot is read back\<close>

definition cells_fit :: "board_view_model \<Rightarrow> bool" where
  "cells_fit v \<longleftrightarrow> length (bv_cells v) = bv_height v * bv_width v \<and>
     (\<forall>c \<in> set (bv_cells v). \<forall>p. c = Some p \<longrightarrow> pv_kind p \<noteq> Count)"

definition view_fits :: "board_view_model \<Rightarrow> bool" where
  "view_fits v \<longleftrightarrow>
     0 \<le> bv_clock_ms v \<and> bv_clock_ms v < 2 ^ 63 \<and> 0 < bv_height v \<and> size63 (bv_height v) \<and> size63 (bv_width v) \<and>
     (\<forall>r c. bv_selection v = Some (r, c) \<longrightarrow> size63 r \<and> size63 c) \<and> cells_fit v \<and> animations_fit (bv_animations v)"

definition received :: "board_view_model \<Rightarrow> board_view_model" where
  "received v = v\<lparr>bv_animations := received_animations (bv_animations v)\<rparr>"

lemma view_cell_at:
  assumes "cells_fit v" "r < bv_height v" "c < bv_width v"
  shows "board_view_cell_at v r c = bv_cells v ! (r * bv_width v + c)"
    "\<forall>p. board_view_cell_at v r c = Some p \<longrightarrow> pv_kind p \<noteq> Count"
proof -
  have "r * bv_width v + c < bv_height v * bv_width v"
    using nth_board_cells [OF assms(2,3)] by (simp add: board_cells_def)
  then show e: "board_view_cell_at v r c = bv_cells v ! (r * bv_width v + c)"
    using assms by (simp add: board_view_cell_at_def board_view_cell_index_def cells_fit_def Let_def)
  show "\<forall>p. board_view_cell_at v r c = Some p \<longrightarrow> pv_kind p \<noteq> Count"
    using e assms(1) \<open>r * bv_width v + c < _\<close> unfolding cells_fit_def by (metis nth_mem)
qed

lemma rows_loop_lines:
  assumes "cells_fit v" "n \<le> bv_height v"
  shows "rows_loop n (bv_width v) (map (\<lambda>r. line_text (row_tokens v r)) [bv_height v - n..<bv_height v] @ ls) acc =
    Some (acc @ concat (map (\<lambda>r. map (\<lambda>c. bv_cells v ! (r * bv_width v + c)) [0..<bv_width v])
      [bv_height v - n..<bv_height v]), ls)"
  using assms(2)
proof (induction n arbitrary: acc)
  case (Suc n)
  let ?r = "bv_height v - Suc n" and ?cell = "\<lambda>r c. bv_cells v ! (r * bv_width v + c)"
  have up: "[?r..<bv_height v] = ?r # [bv_height v - n..<bv_height v]"
  proof -
    have "Suc ?r = bv_height v - n" "?r < bv_height v" using Suc.prems by simp_all
    then show ?thesis using upt_conv_Cons [of ?r "bv_height v"] by simp
  qed
  have cells: "map (board_view_cell_at v ?r) [0..<bv_width v] = map (?cell ?r) [0..<bv_width v]"
    using view_cell_at(1) [OF assms(1)] Suc.prems by simp
  have fit: "\<forall>c \<in> set (map (?cell ?r) [0..<bv_width v]). \<forall>p. c = Some p \<longrightarrow> pv_kind p \<noteq> Count"
    unfolding cells [symmetric] using view_cell_at(2) [OF assms(1), of ?r] Suc.prems by auto
  have toks: "row_tokens v ?r = map write_cell_token (map (?cell ?r) [0..<bv_width v])"
    unfolding cells [symmetric] by (simp add: row_tokens_def)
  have "list_all is_word (row_tokens v ?r)"
    unfolding toks using fit parse_cell_write(2) by (simp add: list_all_iff)
  moreover have "cells_of (row_tokens v ?r) = Some (map (?cell ?r) [0..<bv_width v])"
    unfolding toks by (rule cells_of_write [OF fit])
  moreover have "length (row_tokens v ?r) = bv_width v" by (simp add: row_tokens_def)
  ultimately show ?case
    using Suc.IH [of "acc @ map (?cell ?r) [0..<bv_width v]"] Suc.prems up by simp
qed simp

definition headed :: "board_view_model \<Rightarrow> board_view_model" where
  "headed v = v\<lparr>bv_cells := [], bv_animations := bv_animations empty_view\<rparr>"

lemma show_int_clock: "0 \<le> i \<Longrightarrow> show_int i = show_nat (nat i)"
  by (simp add: show_int_def)

lemma header_loop_lines:
  assumes "view_fits v"
  shows "header_loop (map line_text (header_tokens v) @ ''cells'' # ls) empty_view = Inr (Some (headed v, ls))"
proof -
  have c: "0 \<le> bv_clock_ms v" "size63 (nat (bv_clock_ms v))"
    using assms by (auto simp: view_fits_def size63_def)
  have w: "words ''cells'' = [''cells'']" using words_line [of "[''cells'']"] by simp
  have b: "is_word (if bv_game_over v then ''true'' else ''false'')"
    "parse_bool (if bv_game_over v then ''true'' else ''false'') = Some (bv_game_over v)"
    by (simp_all add: parse_bool_def)
  note words_line [of "[_, _]", simp] words_line [of "[_, _, _]", simp]
  show ?thesis
  proof (cases "bv_selection v")
    case None
    then show ?thesis
      using assms c w b
      by (simp add: header_tokens_def header_line_def bindO_def view_fits_def show_int_clock show_nat_word
          empty_view_def headed_def Let_def del: join.simps)
  next
    case (Some rc)
    then show ?thesis
      using assms c w b
      by (cases rc) (simp add: header_tokens_def header_line_def bindO_def view_fits_def show_int_clock show_nat_word
          empty_view_def headed_def Let_def del: join.simps)
  qed
qed

lemma join_space: "list_all is_word l \<Longrightarrow> c \<in> set (line_text l) \<Longrightarrow> c = CHR '' '' \<or> \<not> is_space c"
  by (induction l) (auto simp: join_Cons is_word_def split: if_splits)

lemma get_lines_text:
  "\<forall>l \<in> set ls. CHR 0x0A \<notin> set l \<Longrightarrow> get_lines (concat (map (\<lambda>l. l @ [CHR 0x0A]) ls)) = ls"
  unfolding get_lines_def by (induction ls) (simp_all add: get_lines_from_append)

lemma split_lines_text:
  assumes "\<forall>l \<in> set ls. list_all is_word l"
  shows "split_lines (lines_text ls) = map line_text ls"
proof -
  have sp: "is_space (CHR 0x0A)" "is_space (CHR 0x0D)" by (simp_all add: is_space_def)
  have no: "CHR 0x0A \<notin> set (line_text l)" "CHR 0x0D \<notin> set (line_text l)" if "l \<in> set ls" for l
    using join_space [of l] assms that sp by fastforce+
  have "filter (\<lambda>c. c \<noteq> CHR 0x0D) (lines_text ls) = lines_text ls"
    using no(2) by (auto simp: lines_text_def filter_id_conv)
  moreover have "lines_text ls = concat (map (\<lambda>l. l @ [CHR 0x0A]) (map line_text ls))"
    by (simp add: lines_text_def o_def)
  ultimately show ?thesis
    using get_lines_text [of "map line_text ls"] no(1) by (simp add: split_lines_def)
qed

lemma snapshot_words:
  assumes "view_fits v"
  shows "\<forall>l \<in> set (snapshot_tokens v). list_all is_word l"
proof -
  have "list_all is_word (row_tokens v r)" if "r < bv_height v" for r
    using assms that view_cell_at(2) [of v r] parse_cell_write(2)
    by (auto simp: view_fits_def row_tokens_def list_all_iff)
  then show ?thesis
    using assms animation_words
    by (auto simp: snapshot_tokens_def header_tokens_def anim_tokens_def view_fits_def animations_fit_def
        list_all_iff [of move_fits] list_all_iff [of jump_fits] list_all_iff [of rest_fits] show_int_clock
        show_nat_word split: option.splits)
qed

lemma read_snapshot_write:
  assumes "view_fits v" "bv_height v * bv_width v \<le> capacity"
  shows "read_snapshot capacity (write_snapshot v) = Inr (Some (received v))"
proof -
  let ?h = "bv_height v" and ?w = "bv_width v" and ?A = "map line_text (anim_tokens (bv_animations v))"
  have fit: "cells_fit v" "animations_fit (bv_animations v)" "0 < ?h" using assms(1) by (simp_all add: view_fits_def)
  have split: "split_lines (write_snapshot v) =
      ''snapshot'' # map line_text (header_tokens v) @ ''cells'' # map (\<lambda>r. line_text (row_tokens v r)) [0..<?h] @ ?A"
    using split_lines_text [OF snapshot_words [OF assms(1)]] snapshot_text [OF fit(3)]
    by (simp add: snapshot_tokens_def)
  have rows: "rows_loop ?h ?w (map (\<lambda>r. line_text (row_tokens v r)) [0..<?h] @ ?A) [] = Some (bv_cells v, ?A)"
    using rows_loop_lines [OF fit(1) order_refl, of ?A "[]"] concat_rows [of ?h ?w "bv_cells v"] fit(1)
    by (simp add: cells_fit_def)
  have "(?h * ?w) mod 2 ^ 64 \<le> capacity" using assms(2) mod_less_eq_dividend order_trans by blast
  moreover have "?A \<noteq> []" by (simp add: anim_tokens_def)
  ultimately show ?thesis
    using header_loop_lines [OF assms(1)] rows parse_animations_lines [OF fit(2)]
    by (simp add: read_snapshot_def split bindO_def headed_def received_def)
qed

text \<open>A progress arrives at most one millionth off.\<close>

lemma round_half_even_error: "\<bar>of_int (round_half_even y) - y\<bar> \<le> 1 / 2"
proof -
  have "of_int \<lfloor>y\<rfloor> \<le> y" "y < of_int \<lfloor>y\<rfloor> + 1" by linarith+
  then show ?thesis by (auto simp: round_half_even_def Let_def abs_le_iff)
qed

lemma f32_error:
  assumes "0 \<le> x" "x \<le> 1"
  shows "\<bar>f32 x - x\<bar> \<le> 1 / 2 ^ 24"
proof (cases "x = 0")
  case False
  then have x: "0 < x" using assms by simp
  let ?e = "floor_log2 x - int 23"
  have "floor_log2 x \<le> 0"
  proof (rule ccontr)
    assume "\<not> floor_log2 x \<le> 0"
    then have "(2 :: rat) powi 1 \<le> 2 powi floor_log2 x" by (intro power_int_increasing) auto
    then show False using floor_log2_bounds [OF x] assms(2) by simp
  qed
  then have "(2 :: rat) powi ?e \<le> 2 powi (- 23)" by (intro power_int_increasing) auto
  also have "(2 :: rat) powi (- 23) = 1 / 2 ^ 23"
    using power_int_minus [of "2 :: rat" 23] by (simp add: power_int_def inverse_eq_divide)
  finally have e: "(2 :: rat) powi ?e \<le> 1 / 2 ^ 23" .
  have pe: "(0 :: rat) < 2 powi ?e" by simp
  have "f32 x - x = (of_int (round_half_even (x / 2 powi ?e)) - x / 2 powi ?e) * 2 powi ?e"
  proof -
    have "f32 x = of_int (round_half_even (x / 2 powi ?e)) * 2 powi ?e"
      using x by (simp only: f32_def fround_def fround_pos_def Let_def if_True if_False False)
    moreover have "x = x / 2 powi ?e * 2 powi ?e" using pe by simp
    ultimately show ?thesis by (metis left_diff_distrib)
  qed
  then have "\<bar>f32 x - x\<bar> = \<bar>of_int (round_half_even (x / 2 powi ?e)) - x / 2 powi ?e\<bar> * 2 powi ?e"
    using pe by (simp only: abs_mult abs_of_pos)
  also have "\<dots> \<le> 1 / 2 * (1 / 2 ^ 23)"
    using round_half_even_error e pe by (intro mult_mono) auto
  finally show ?thesis by simp
qed simp

lemma quantised_error:
  assumes "0 \<le> x" "x \<le> 1"
  shows "0 \<le> quantised x \<and> quantised x \<le> 1 \<and> \<bar>quantised x - x\<bar> \<le> 1 / 1000000"
proof -
  let ?y = "of_int (round_half_even (x * 1000000)) / (1000000 :: rat)"
  have n: "0 \<le> round_half_even (x * 1000000)" "round_half_even (x * 1000000) \<le> 1000000"
    using assms by (auto intro!: round_half_even_ge round_half_even_le)
  then have y: "0 \<le> ?y" "?y \<le> 1" by simp_all
  have "\<bar>?y - x\<bar> \<le> 1 / 2000000"
    using round_half_even_error [of "x * 1000000"] by (simp add: abs_le_iff field_simps)
  moreover have "\<bar>quantised x - ?y\<bar> \<le> 1 / 2 ^ 24" unfolding quantised_def by (rule f32_error [OF y])
  moreover have "(1 :: rat) / 2 ^ 24 + 1 / 2000000 \<le> 1 / 1000000" by simp
  ultimately have "\<bar>quantised x - x\<bar> \<le> 1 / 1000000" by linarith
  then show ?thesis using y by (simp add: quantised_def f32_nonneg f32_le_1)
qed

end
