(* ===== verification/Game_Input.thy ===== *)
theory Game_Input
  imports Game_State Board_IO
begin

section \<open>Input handling and the command-line program\<close>

text \<open>
  \<^verbatim>\<open>ui/layout\<close> (pixels to cells), \<^verbatim>\<open>io/game_input_handler.cpp\<close> (clicks, jumps and text
  commands), \<^verbatim>\<open>server/match.cpp\<close>, \<^verbatim>\<open>engine/game_engine.cpp\<close> and \<^verbatim>\<open>main.cpp\<close>. A
  handler is its layout together with the game it refers to; what a command prints is appended to
  the output. The lemmas: the pixel map inverts the cell origins, every handler is a sequence of
  game actions, and the program returns for every input text.
\<close>

subsection \<open>Layout\<close>

definition kReferenceCellSizePixels :: int where "kReferenceCellSizePixels = 100"

record board_layout =
  bl_board_x :: int
  bl_board_y :: int
  bl_cell_size :: int
  bl_board_width_pixels :: int
  bl_board_height_pixels :: int

definition empty_layout :: board_layout where
  "empty_layout = \<lparr>bl_board_x = 0, bl_board_y = 0, bl_cell_size = 0, bl_board_width_pixels = 0,
                   bl_board_height_pixels = 0\<rparr>"

definition cell_origin_x :: "board_layout \<Rightarrow> nat \<Rightarrow> int" where
  "cell_origin_x l col = bl_board_x l + int col * bl_cell_size l"

definition cell_origin_y :: "board_layout \<Rightarrow> nat \<Rightarrow> int" where
  "cell_origin_y l row = bl_board_y l + int row * bl_cell_size l"

text \<open>\<^verbatim>\<open>try_pixel_to_cell\<close> returns the row and column when it returns true. Both dividends
  are non-negative there, so C++ division agrees with \<open>div\<close>.\<close>

definition try_pixel_to_cell :: "board_layout \<Rightarrow> int \<Rightarrow> int \<Rightarrow> nat \<Rightarrow> nat \<Rightarrow> (nat \<times> nat) option" where
  "try_pixel_to_cell l x y width_cells height_cells =
     (if bl_cell_size l \<le> 0 \<or> width_cells = 0 \<or> height_cells = 0 then None
      else if x < bl_board_x l \<or> y < bl_board_y l then None
      else
        (let local_x = x - bl_board_x l; local_y = y - bl_board_y l
         in if local_x \<ge> bl_board_width_pixels l \<or> local_y \<ge> bl_board_height_pixels l then None
            else
              (let col = to_size (local_x div bl_cell_size l);
                   row = to_size (local_y div bl_cell_size l)
               in if col < width_cells \<and> row < height_cells then Some (row, col) else None)))"

definition calculate_layout :: "int \<Rightarrow> int \<Rightarrow> int \<Rightarrow> int \<Rightarrow> board_layout" where
  "calculate_layout window_width window_height board_width_cells board_height_cells =
     (if window_width \<le> 0 \<or> window_height \<le> 0 \<or> board_width_cells \<le> 0 \<or> board_height_cells \<le> 0
      then empty_layout
      else
        (let cell_size = min (window_width div board_width_cells) (window_height div board_height_cells);
             board_width_pixels = cell_size * board_width_cells;
             board_height_pixels = cell_size * board_height_cells
         in \<lparr>bl_board_x = (window_width - board_width_pixels) div 2,
             bl_board_y = (window_height - board_height_pixels) div 2,
             bl_cell_size = cell_size,
             bl_board_width_pixels = board_width_pixels,
             bl_board_height_pixels = board_height_pixels\<rparr>))"

definition default_initial_window_size :: "nat \<Rightarrow> nat \<Rightarrow> int \<times> int" where
  "default_initial_window_size rs cs =
     (int cs * kReferenceCellSizePixels, int rs * kReferenceCellSizePixels)"

definition bootstrap_default_layout :: "game_state \<Rightarrow> board_layout" where
  "bootstrap_default_layout g =
     (let rs = rows (gs_board g); cs = cols (gs_board g)
      in if rs = 0 \<or> cs = 0 then empty_layout
         else (let (w, h) = default_initial_window_size rs cs
               in calculate_layout w h (int cs) (int rs)))"

subsection \<open>Clicks and jumps\<close>

definition pixel_to_cell :: "board_layout \<Rightarrow> game_state \<Rightarrow> int \<Rightarrow> int \<Rightarrow> (nat \<times> nat) option" where
  "pixel_to_cell l g x y =
     (if rows (gs_board g) = 0 \<or> cols (gs_board g) = 0 then None
      else try_pixel_to_cell l x y (cols (gs_board g)) (rows (gs_board g)))"

definition handle_select :: "nat \<Rightarrow> nat \<Rightarrow> game_state \<Rightarrow> game_state result" where
  "handle_select row col g =
     bindR (is_selectable_piece g row col) (\<lambda>ok. Inr (if ok then select row col g else g))"

definition handle_friendly_click :: "nat \<Rightarrow> nat \<Rightarrow> game_state \<Rightarrow> game_state result" where
  "handle_friendly_click row col g =
     (if gs_selected g = Some (row, col) then
        (if is_piece_moving g row col \<or> is_piece_jumping g row col then Inr g
         else bindR (is_piece_resting g row col)
           (\<lambda>resting. if resting then Inr g else jump_selected g))
      else Inr (select row col g))"

definition handle_move_attempt :: "nat \<Rightarrow> nat \<Rightarrow> game_state \<Rightarrow> game_state result" where
  "handle_move_attempt row col g =
     (case gs_selected g of
        None \<Rightarrow> Inr g
      | Some (from_row, from_col) \<Rightarrow>
          if is_piece_moving g from_row from_col \<or> is_piece_jumping g from_row from_col then Inr g
          else bindR (is_piece_resting g from_row from_col)
            (\<lambda>resting. if resting then Inr g else move_selected_to row col g))"

definition handle_click :: "board_layout \<Rightarrow> int \<Rightarrow> int \<Rightarrow> game_state \<Rightarrow> game_state result" where
  "handle_click l x y g =
     (if gs_game_over g then Inr g
      else case pixel_to_cell l g x y of
             None \<Rightarrow> Inr g
           | Some (row, col) \<Rightarrow>
               if \<not> game_is_in_bounds g row col then Inr g
               else if gs_selected g = None then handle_select row col g
               else bindR (is_friendly_to_selection g row col)
                 (\<lambda>friendly. if friendly then handle_friendly_click row col g
                    else handle_move_attempt row col g))"

definition handle_jump :: "board_layout \<Rightarrow> int \<Rightarrow> int \<Rightarrow> game_state \<Rightarrow> game_state result" where
  "handle_jump l x y g =
     (if gs_game_over g then Inr g
      else case pixel_to_cell l g x y of
             None \<Rightarrow> Inr g
           | Some (row, col) \<Rightarrow>
               if \<not> game_is_in_bounds g row col then Inr g
               else if is_piece_moving g row col \<or> is_piece_jumping g row col then Inr g
               else bindR (is_piece_resting g row col)
                 (\<lambda>resting. if resting then Inr g
                    else bindR (jump_at row col g) (\<lambda>g'. Inr (clear_selection g'))))"

definition handle_wait :: "int \<Rightarrow> game_state \<Rightarrow> game_state result" where
  "handle_wait ms g = (if gs_game_over g then Inr g else add_clock ms g)"

definition handle_print_board :: "string \<Rightarrow> game_state \<Rightarrow> (game_state \<times> string) result" where
  "handle_print_board out g =
     bindR (write_board board_writer g) (\<lambda>(g', text). Inr (g', out @ text))"

subsection \<open>Text commands\<close>

definition kPrintBoardCommand :: string where "kPrintBoardCommand = ''print board''"

definition int_min :: int where "int_min = - (2 ^ 31)"
definition int_max :: int where "int_max = 2 ^ 31 - 1"
definition int64_min :: int where "int64_min = - (2 ^ 63)"
definition int64_max :: int where "int64_max = 2 ^ 63 - 1"

definition extract_pair :: "string \<Rightarrow> (int \<times> int) option" where
  "extract_pair s =
     (case extract_int int_min int_max s of
        None \<Rightarrow> None
      | Some (x, rest) \<Rightarrow> map_option (\<lambda>(y, _). (x, y)) (extract_int int_min int_max rest))"

definition execute :: "board_layout \<Rightarrow> string \<Rightarrow> game_state \<times> string \<Rightarrow> (game_state \<times> string) result" where
  "execute l command = (\<lambda>(g, out).
     let (verb, stream) = extract_word command
     in if verb = ''click'' then
          (case extract_pair stream of
             None \<Rightarrow> Inr (g, out)
           | Some (x, y) \<Rightarrow> bindR (handle_click l x y g) (\<lambda>g'. Inr (g', out)))
        else if verb = ''jump'' then
          (case extract_pair stream of
             None \<Rightarrow> Inr (g, out)
           | Some (x, y) \<Rightarrow> bindR (handle_jump l x y g) (\<lambda>g'. Inr (g', out)))
        else if verb = ''wait'' then
          (case extract_int int64_min int64_max stream of
             None \<Rightarrow> Inr (g, out)
           | Some (ms, _) \<Rightarrow> bindR (handle_wait ms g) (\<lambda>g'. Inr (g', out)))
        else if verb = ''print'' \<and> command = kPrintBoardCommand then
          bindR (handle_print_board out g) (\<lambda>(g', out'). Inr (g', out' @ [CHR 0x0A]))
        else Inr (g, out))"

subsection \<open>Match, engine and program\<close>

definition submit_action :: "game_action \<Rightarrow> game_state \<Rightarrow> game_state result" where
  "submit_action = apply_action"

definition match_tick :: "int \<Rightarrow> game_state \<Rightarrow> game_state result" where
  "match_tick delta_ms g = add_clock delta_ms g"

record game_engine =
  ge_match :: game_state
  ge_layout :: board_layout

definition new_engine :: "board_model \<Rightarrow> game_engine" where
  "new_engine b = (let g = new_game b in \<lparr>ge_match = g, ge_layout = bootstrap_default_layout g\<rparr>)"

definition engine_execute :: "string \<Rightarrow> game_engine \<times> string \<Rightarrow> (game_engine \<times> string) result" where
  "engine_execute command = (\<lambda>(e, out).
     bindR (execute (ge_layout e) command (ge_match e, out))
       (\<lambda>(g, out'). Inr (e\<lparr>ge_match := g\<rparr>, out')))"

definition execute_all :: "string list \<Rightarrow> game_engine \<times> string \<Rightarrow> (game_engine \<times> string) result" where
  "execute_all commands s = foldR engine_execute commands s"

definition main_program :: "string \<Rightarrow> string result" where
  "main_program input =
     bindR (read_vpl_input input)
       (\<lambda>vpl. if vi_error vpl \<noteq> Ok then Inr (board_error_message (vi_error vpl) @ [CHR 0x0A])
          else bindR (execute_all (vi_commands vpl) (new_engine (vi_board vpl), ''''))
            (\<lambda>(_, out). Inr out))"

subsection \<open>Pixels and cells\<close>

lemma pixel_in_cell:
  assumes "try_pixel_to_cell l x y w h = Some (row, col)"
  shows "cell_origin_x l col \<le> x \<and> x < cell_origin_x l col + bl_cell_size l \<and>
         cell_origin_y l row \<le> y \<and> y < cell_origin_y l row + bl_cell_size l \<and> row < h \<and> col < w"
proof -
  have pos: "0 < bl_cell_size l" "bl_board_x l \<le> x" "bl_board_y l \<le> y"
    and rc: "col = nat ((x - bl_board_x l) div bl_cell_size l)"
      "row = nat ((y - bl_board_y l) div bl_cell_size l)" "row < h" "col < w"
    using assms
    by (auto simp: try_pixel_to_cell_def Let_def to_size_nonneg pos_imp_zdiv_nonneg_iff split: if_splits)
  have "0 \<le> (x - bl_board_x l) div bl_cell_size l" "0 \<le> (y - bl_board_y l) div bl_cell_size l"
    using pos by (simp_all add: pos_imp_zdiv_nonneg_iff)
  moreover have "a div n * n \<le> a \<and> a < a div n * n + n" if "0 < n" for a n :: int
    using that div_mult_mod_eq [of a n] pos_mod_bound [of n a] pos_mod_sign [of n a] by linarith
  from this [OF pos(1), of "x - bl_board_x l"] this [OF pos(1), of "y - bl_board_y l"]
  have "(x - bl_board_x l) div bl_cell_size l * bl_cell_size l \<le> x - bl_board_x l"
    "x - bl_board_x l < (x - bl_board_x l) div bl_cell_size l * bl_cell_size l + bl_cell_size l"
    "(y - bl_board_y l) div bl_cell_size l * bl_cell_size l \<le> y - bl_board_y l"
    "y - bl_board_y l < (y - bl_board_y l) div bl_cell_size l * bl_cell_size l + bl_cell_size l"
    by auto
  ultimately show ?thesis
    using rc by (simp add: cell_origin_x_def cell_origin_y_def)
qed

lemma calculated_layout:
  assumes "0 < W" "0 < H" "0 < w" "0 < h" "l = calculate_layout W H w h"
  shows "bl_board_width_pixels l = bl_cell_size l * w" "bl_board_height_pixels l = bl_cell_size l * h"
    "bl_board_width_pixels l \<le> W" "bl_board_height_pixels l \<le> H"
    "0 \<le> bl_board_x l" "0 \<le> bl_board_y l" "0 \<le> bl_cell_size l"
proof -
  let ?c = "min (W div w) (H div h)"
  have fits: "W div w * w \<le> W" "H div h * h \<le> H"
    using assms div_mult_mod_eq [of W w] pos_mod_sign [of w W] div_mult_mod_eq [of H h]
      pos_mod_sign [of h H] by linarith+
  have "?c * w \<le> W" "?c * h \<le> H"
    using assms by (auto intro!: order_trans [OF mult_right_mono fits(1)] order_trans [OF mult_right_mono fits(2)])
  moreover have "0 \<le> ?c"
    using assms by (simp add: pos_imp_zdiv_nonneg_iff)
  ultimately show "bl_board_width_pixels l = bl_cell_size l * w" "bl_board_height_pixels l = bl_cell_size l * h"
    "bl_board_width_pixels l \<le> W" "bl_board_height_pixels l \<le> H"
    "0 \<le> bl_board_x l" "0 \<le> bl_board_y l" "0 \<le> bl_cell_size l"
    using assms by (simp_all add: calculate_layout_def Let_def)
qed

lemma pixel_of_cell:
  assumes l: "l = calculate_layout W H (int w) (int h)" and pos: "0 < W" "0 < H" "0 < bl_cell_size l"
    and rc: "row < h" "col < w" and d: "0 \<le> dx" "dx < bl_cell_size l" "0 \<le> dy" "dy < bl_cell_size l"
  shows "try_pixel_to_cell l (cell_origin_x l col + dx) (cell_origin_y l row + dy) w h = Some (row, col)"
proof -
  have wh: "0 < int w" "0 < int h" using rc by auto
  note c = calculated_layout [OF pos(1,2) wh l]
  let ?n = "bl_cell_size l"
  have lim: "int k * ?n + e < ?n * int m" if "k < m" "0 \<le> e" "e < ?n" for k m e
  proof -
    have "(int k + 1) * ?n \<le> int m * ?n"
      using that pos by (intro mult_right_mono) auto
    then show ?thesis using that by (simp add: algebra_simps)
  qed
  have q: "(int k * ?n + e) div ?n = int k" if "0 \<le> e" "e < ?n" for k e
    using that pos by (simp add: div_add1_eq)
  have nn: "0 \<le> int k * ?n + e" if "0 \<le> e" for k e
    using that pos by simp
  show ?thesis
    using pos rc d c lim [OF rc(2) d(1,2)] lim [OF rc(1) d(3,4)] nn [OF d(1), of col] nn [OF d(3), of row]
    by (simp add: not_less try_pixel_to_cell_def cell_origin_x_def cell_origin_y_def Let_def q)
qed

subsection \<open>Every handler plays game actions\<close>

definition plays :: "nat \<Rightarrow> game_state \<Rightarrow> game_state \<Rightarrow> bool" where
  "plays n g g' \<longleftrightarrow> (\<exists>as. length as \<le> n \<and> foldR apply_action as g = Inr g')"

lemma plays_none: "plays n g g"
  unfolding plays_def by (intro exI [of _ "[]"]) simp

lemma plays_one: "0 < n \<Longrightarrow> apply_action a g = Inr g' \<Longrightarrow> plays n g g'"
  unfolding plays_def by (intro exI [of _ "[a]"]) simp

lemma is_selectable_piece_returns:
  assumes "wf_board (gs_board g)"
  shows "\<exists>x. is_selectable_piece g r c = Inr x"
  using assms by (auto simp: is_selectable_piece_def is_piece_def game_is_in_bounds_def is_piece_resting_ok)

lemma is_friendly_returns:
  assumes wf: "wf_board (gs_board g)"
  shows "\<exists>x. is_friendly_to_selection g r c = Inr x"
proof -
  obtain x where "is_selectable_piece g r c = Inr x"
    using is_selectable_piece_returns [OF wf] by blast
  then show ?thesis
    by (auto simp: is_friendly_to_selection_def piece_at_ok [OF wf] split: option.splits prod.splits)
qed

lemma action_plays:
  assumes "game_inv g" "gs_rules g = standard" "apply_action a g = m"
  shows "ensures m (\<lambda>g'. plays (Suc n) g g')"
  using std_policy.action_step [OF assms(1,2), of a] assms(3)
  by (auto simp: ensures_iff intro!: plays_one)

lemma handle_click_plays:
  assumes inv: "game_inv g" and r: "gs_rules g = standard"
  shows "ensures (handle_click l x y g) (plays 1 g)"
proof -
  note wf = game_inv_wf [OF inv]
  have act: "ensures m (plays 1 g)" if "apply_action a g = m" for a m
    using action_plays [OF inv r that, of 0] by simp
  have sel: "plays 1 g (select row col g)" for row col
    using act [of "Select row col"] by simp
  have "ensures (handle_select row col g) (plays 1 g)" for row col
    using is_selectable_piece_returns [OF wf, of row col] sel plays_none by (auto simp: handle_select_def)
  moreover have "ensures (handle_friendly_click row col g) (plays 1 g)" for row col
    using is_piece_resting_ok [OF wf] sel plays_none act [of JumpSelected]
    by (auto simp: handle_friendly_click_def)
  moreover have "ensures (handle_move_attempt row col g) (plays 1 g)" for row col
    using is_piece_resting_ok [OF wf] plays_none act [of "MoveSelected row col"]
    by (auto simp: handle_move_attempt_def split: option.splits)
  moreover have "ensures (is_friendly_to_selection g row col) (\<lambda>_. True)" for row col
    using is_friendly_returns [OF wf, of row col] by auto
  ultimately show ?thesis
    using plays_none
    by (auto simp: handle_click_def split: option.splits elim!: ensures_mono)
qed

lemma handle_jump_plays:
  assumes inv: "game_inv g" and r: "gs_rules g = standard"
  shows "ensures (handle_jump l x y g) (plays 2 g)"
proof -
  note wf = game_inv_wf [OF inv]
  have "ensures (jump_at row col g) (\<lambda>g'. plays 2 g (clear_selection g'))" for row col
  proof -
    obtain g' where "jump_at row col g = Inr g'"
      using std_policy.jump_step [OF inv, of row col] by (auto simp: ensures_iff)
    then show ?thesis
      unfolding plays_def by (auto intro!: exI [of _ "[JumpAt row col, ClearSelection]"])
  qed
  then show ?thesis
    using is_piece_resting_ok [OF wf] plays_none
    by (auto simp: handle_jump_def split: option.splits)
qed

lemma handle_wait_plays:
  assumes inv: "game_inv g" and r: "gs_rules g = standard"
  shows "ensures (handle_wait ms g) (plays 1 g)"
  using action_plays [OF inv r, of "AdvanceClock ms" _ 0] plays_none by (auto simp: handle_wait_def)

lemma plays_step_ok:
  assumes "game_inv g" "gs_rules g = standard" "plays n g g'"
  shows "game_step_ok g g'"
proof -
  obtain as where "foldR apply_action as g = Inr g'"
    using assms(3) by (auto simp: plays_def)
  then show ?thesis
    using std_policy.actions_step [OF assms(1,2), of as] by simp
qed

subsection \<open>The program returns for every input\<close>

lemma print_step:
  assumes inv: "game_inv g" and r: "gs_rules g = standard"
  shows "ensures (handle_print_board out g) (\<lambda>(g', _). game_step_ok g g')"
proof -
  have "ensures (game_settle_pending_moves g) (game_step_ok g)"
    using std_policy.settle_step [OF inv r, of "gs_arbiter g"]
    by (auto simp: game_settle_pending_moves_def elim!: ensures_mono)
  then show ?thesis
    by (auto simp: handle_print_board_def write_board_def board_writer_ok game_step_ok_def game_inv_wf
        elim!: ensures_mono)
qed

lemma execute_step:
  assumes inv: "game_inv g" and r: "gs_rules g = standard"
  shows "ensures (execute l command (g, out)) (\<lambda>(g', _). game_step_ok g g')"
proof -
  have p: "ensures m (game_step_ok g)" if "ensures m (plays n g)" for m n
    using that plays_step_ok [OF inv r] by (rule ensures_mono)
  have "ensures (handle_click l x y g) (game_step_ok g)" "ensures (handle_jump l x y g) (game_step_ok g)"
    "ensures (handle_wait ms g) (game_step_ok g)" for x y ms
    using p [OF handle_click_plays [OF inv r]] p [OF handle_jump_plays [OF inv r]]
      p [OF handle_wait_plays [OF inv r]] .
  then show ?thesis
    using print_step [OF inv r, of out] game_step_ok_refl [OF inv]
    by (auto simp: execute_def Let_def split: prod.splits option.splits elim!: ensures_mono)
qed

lemma execute_all_step:
  assumes "game_inv (ge_match e)" "gs_rules (ge_match e) = standard"
  shows "ensures (execute_all cs (e, out)) (\<lambda>(e', _). game_step_ok (ge_match e) (ge_match e'))"
  unfolding execute_all_def
proof (rule ensures_foldR_inv)
  show "case (e, out) of (e', _) \<Rightarrow> game_step_ok (ge_match e) (ge_match e')"
    using game_step_ok_refl [OF assms(1)] by simp
next
  fix c and t :: "game_engine \<times> string"
  assume I: "case t of (e', _) \<Rightarrow> game_step_ok (ge_match e) (ge_match e')"
  obtain e' out' where t: "t = (e', out')" by (cases t)
  have "ensures (execute (ge_layout e') c (ge_match e', out'))
      (\<lambda>(g', _). game_step_ok (ge_match e') g')"
    using I assms by (intro execute_step) (auto simp: t game_step_ok_def)
  then show "ensures (engine_execute c t) (\<lambda>(e', _). game_step_ok (ge_match e) (ge_match e'))"
    using I game_step_ok_trans [of "ge_match e" "ge_match e'"]
    by (auto simp: engine_execute_def t elim!: ensures_mono)
qed

lemma main_program_returns: "\<exists>out. main_program input = Inr out"
proof -
  obtain ls cs where v: "vpl_loop (get_lines input) NoSection [] [] = (ls, cs)" by force
  obtain err b where p: "parse_board_rows ls empty_board = Inr (err, b)"
    and ok: "err = Ok \<longrightarrow> flight_inv b []"
    using parse_board_rows_ok [of ls empty_board] by (auto simp: ensures_iff split: if_splits)
  show ?thesis
  proof (cases "err = Ok")
    case True
    then have "game_inv (ge_match (new_engine b))" "gs_rules (ge_match (new_engine b)) = standard"
      using ok new_game_inv [of b standard] by (simp_all add: new_engine_def new_game_def new_game_with_def Let_def)
    from execute_all_step [OF this, of cs "''''"] show ?thesis
      using True by (auto simp: main_program_def read_vpl_input_def v p ensures_iff)
  next
    case False
    then show ?thesis by (simp add: main_program_def read_vpl_input_def v p)
  qed
qed

end
