(* ===== verification/Message_Parser.thy ===== *)
theory Message_Parser
  imports Game_Input
begin

section \<open>The wire protocol of the game server: commands and authorisation\<close>

text \<open>
  \<^verbatim>\<open>server/game_message_parser.cpp\<close> (what the server reads) and
  \<^verbatim>\<open>network/network_input_handler.cpp\<close> (what the client sends). Every message the client
  writes parses back to the intent it was written for, the parser invents nothing, and the
  authorisation check lets a player lift only pieces of their own colour.
\<close>

subsection \<open>Tokens\<close>

definition is_token_end :: "char \<Rightarrow> bool" where
  "is_token_end c = (c \<in> {CHR '' '', CHR 0x09, CHR 0x0D, CHR 0x0A})"

definition next_token :: "string \<Rightarrow> string option \<times> string" where
  "next_token message =
     (let m = dropWhile is_space message
      in if m = [] then (None, m)
         else (Some (takeWhile (\<lambda>c. \<not> is_token_end c) m), dropWhile (\<lambda>c. \<not> is_token_end c) m))"

text \<open>The accumulator is a \<^verbatim>\<open>size_t\<close> and wraps.\<close>

definition parse_non_negative_int :: "string \<Rightarrow> nat option" where
  "parse_non_negative_int token =
     (if token = [] then None
      else foldl (\<lambda>acc ch. case acc of None \<Rightarrow> None
             | Some v \<Rightarrow> if \<not> is_digit ch then None
                         else Some ((v * 10 + digit_value ch) mod 2 ^ 64)) (Some 0) token)"

definition trim :: "string \<Rightarrow> string" where
  "trim message = rev (dropWhile is_space (rev (dropWhile is_space message)))"

subsection \<open>Messages\<close>

record login_request =
  lr_username :: string
  lr_password :: string

definition parse_single_word :: "string \<Rightarrow> string \<Rightarrow> bool" where
  "parse_single_word expected message =
     (let m = trim message
      in if m = [] then False
         else
           (let (command, m) = next_token m
            in if command \<noteq> Some expected then False
               else fst (next_token m) = None))"

definition parse_play_message :: "string \<Rightarrow> bool" where
  "parse_play_message message = parse_single_word ''play'' message"

definition parse_resign_message :: "string \<Rightarrow> bool" where
  "parse_resign_message message = parse_single_word ''resign'' message"

definition parse_join_game_message :: "string \<Rightarrow> nat option" where
  "parse_join_game_message message =
     (let m = trim message
      in if m = [] then None
         else
           (let (command, m) = next_token m
            in if command \<noteq> Some ''join_game'' then None
               else
                 (let (room_id_token, m) = next_token m
                  in case room_id_token of
                       None \<Rightarrow> None
                     | Some t \<Rightarrow>
                         (case parse_non_negative_int t of
                            None \<Rightarrow> None
                          | Some parsed_room_id \<Rightarrow>
                              if fst (next_token m) \<noteq> None then None else Some parsed_room_id))))"

definition parse_login_message :: "string \<Rightarrow> login_request option" where
  "parse_login_message message =
     (let m = trim message
      in if m = [] then None
         else
           (let (command, m) = next_token m
            in if command \<noteq> Some ''login'' then None
               else
                 (let (username, m) = next_token m
                  in case username of
                       None \<Rightarrow> None
                     | Some u \<Rightarrow>
                         if u = [] then None
                         else
                           (case next_token m of
                              (None, _) \<Rightarrow> Some \<lparr>lr_username = u, lr_password = []\<rparr>
                            | (Some p, m) \<Rightarrow>
                                if fst (next_token m) \<noteq> None then None
                                else Some \<lparr>lr_username = u, lr_password = p\<rparr>))))"

definition parse_message :: "string \<Rightarrow> game_action option" where
  "parse_message message =
     (let m = trim message
      in if m = [] then None
         else
           (let (command, m) = next_token m
            in case command of
                 None \<Rightarrow> None
               | Some c \<Rightarrow>
                   if c = ''clear'' then
                     (if fst (next_token m) \<noteq> None then None else Some ClearSelection)
                   else if c = ''select'' \<or> c = ''move'' \<or> c = ''jump'' then
                     (let (row, m) = next_token m; (col, m) = next_token m
                      in case (row, col) of
                           (Some r, Some k) \<Rightarrow>
                             if fst (next_token m) \<noteq> None then None
                             else
                               (case (parse_non_negative_int r, parse_non_negative_int k) of
                                  (Some parsed_row, Some parsed_col) \<Rightarrow>
                                    if c = ''select'' then Some (Select parsed_row parsed_col)
                                    else if c = ''move'' then Some (MoveSelected parsed_row parsed_col)
                                    else Some (JumpAt parsed_row parsed_col)
                                | _ \<Rightarrow> None)
                         | _ \<Rightarrow> None)
                   else None))"

subsection \<open>Authorisation\<close>

definition piece_color_at :: "game_state \<Rightarrow> nat \<Rightarrow> nat \<Rightarrow> piece_color option result" where
  "piece_color_at g row col =
     bindR (is_piece g row col)
       (\<lambda>present. if \<not> present then Inr None
          else bindR (game_token_at g row col)
            (\<lambda>t. Inr (map_option pd_color (descriptor_from_token t))))"

definition is_action_allowed :: "piece_color \<Rightarrow> game_state \<Rightarrow> game_action \<Rightarrow> bool result" where
  "is_action_allowed player_side g a =
     (case a of
        ClearSelection \<Rightarrow> Inr True
      | AdvanceClock _ \<Rightarrow> Inr False
      | Select row col \<Rightarrow> bindR (piece_color_at g row col) (\<lambda>c. Inr (c = Some player_side))
      | JumpAt row col \<Rightarrow> bindR (piece_color_at g row col) (\<lambda>c. Inr (c = Some player_side))
      | MoveSelected _ _ \<Rightarrow>
          (case gs_selected g of
             None \<Rightarrow> Inr False
           | Some (row, col) \<Rightarrow> bindR (piece_color_at g row col) (\<lambda>c. Inr (c = Some player_side)))
      | JumpSelected \<Rightarrow>
          (case gs_selected g of
             None \<Rightarrow> Inr False
           | Some (row, col) \<Rightarrow> bindR (piece_color_at g row col) (\<lambda>c. Inr (c = Some player_side))))"

subsection \<open>The client's messages\<close>

definition send_login :: "string \<Rightarrow> string \<Rightarrow> string" where
  "send_login username password =
     (if password = [] then ''login '' @ username else ''login '' @ username @ '' '' @ password)"

definition send_play :: string where "send_play = ''play''"

definition send_join_game :: "nat \<Rightarrow> string" where
  "send_join_game room_id = ''join_game '' @ show_nat room_id"

definition send_select :: "nat \<Rightarrow> nat \<Rightarrow> string" where
  "send_select row col = ''select '' @ show_nat row @ '' '' @ show_nat col"

definition send_move :: "nat \<Rightarrow> nat \<Rightarrow> string" where
  "send_move row col = ''move '' @ show_nat row @ '' '' @ show_nat col"

definition send_jump :: "nat \<Rightarrow> nat \<Rightarrow> string" where
  "send_jump row col = ''jump '' @ show_nat row @ '' '' @ show_nat col"

definition send_clear :: string where "send_clear = ''clear''"

definition send_resign :: string where "send_resign = ''resign''"

subsection \<open>Reading what was written\<close>

text \<open>A wire token: not empty, no white space of any kind.\<close>

lemma token_end_space: "is_token_end c \<Longrightarrow> is_space c"
  by (auto simp: is_token_end_def is_space_def)

lemma next_token_word:
  assumes "is_word w" "rest = [] \<or> is_token_end (hd rest)"
  shows "next_token (w @ rest) = (Some w, rest)" "next_token (CHR '' '' # w @ rest) = (Some w, rest)"
proof -
  obtain c w' where w: "w = c # w'" "\<not> is_space c"
    using assms(1) by (cases w) (auto simp: is_word_def)
  have inner: "\<forall>c \<in> set w. \<not> is_token_end c"
    using assms(1) token_end_space by (auto simp: is_word_def)
  then have "takeWhile (\<lambda>c. \<not> is_token_end c) (w @ rest) = w"
    "dropWhile (\<lambda>c. \<not> is_token_end c) (w @ rest) = rest"
    using assms(2) by (cases rest; simp add: takeWhile_append dropWhile_append)+
  then show "next_token (w @ rest) = (Some w, rest)"
    using w by (simp add: next_token_def)
  then show "next_token (CHR '' '' # w @ rest) = (Some w, rest)"
    using w by (simp add: next_token_def is_space_def)
qed

lemmas next_token_last = next_token_word [where rest = "[]", simplified]

lemma next_token_Nil [simp]: "next_token [] = (None, [])"
  by (simp add: next_token_def)

lemma trim_words:
  assumes "is_word v" "is_word w"
  shows "trim v = v" "trim (v @ mid @ w) = v @ mid @ w"
proof -
  have ends: "dropWhile is_space s = s" if "s \<noteq> []" "\<not> is_space (hd s)" for s
    using that by (cases s) auto
  have v: "v \<noteq> []" "\<not> is_space (hd v)" "\<not> is_space (last v)" "w \<noteq> []" "\<not> is_space (last w)"
    using assms by (auto simp: is_word_def)
  then show "trim v = v"
    by (simp add: trim_def ends hd_rev)
  have "dropWhile is_space (v @ mid @ w) = v @ mid @ w"
    using v by (intro ends) auto
  moreover have "dropWhile is_space (rev (v @ mid @ w)) = rev (v @ mid @ w)"
    using v by (intro ends) (simp_all add: hd_append hd_rev)
  ultimately show "trim (v @ mid @ w) = v @ mid @ w"
    by (simp only: trim_def rev_rev_ident)
qed

lemma parse_digits:
  assumes "list_all is_digit ds"
  shows "foldl (\<lambda>acc ch. case acc of None \<Rightarrow> None
             | Some v \<Rightarrow> if \<not> is_digit ch then None
                         else Some ((v * 10 + digit_value ch) mod 2 ^ 64)) (Some (a mod 2 ^ 64)) ds =
         Some (foldl (\<lambda>v c. v * 10 + digit_value c) a ds mod 2 ^ 64)"
  using assms
proof (induction ds arbitrary: a)
  case (Cons d ds)
  have "(a mod 2 ^ 64 * 10 + digit_value d) mod 2 ^ 64 = (a * 10 + digit_value d) mod 2 ^ 64"
    by (metis mod_add_left_eq mod_mult_left_eq)
  with Cons show ?case by simp
qed simp

lemma parse_show: "parse_non_negative_int (show_nat n) = Some (n mod 2 ^ 64)"
  using show_nat_digits [of n] parse_digits [of "show_nat n" 0]
  by (auto simp: parse_non_negative_int_def digits_value_def)

lemma command_words:
  "is_word ''select''" "is_word ''move''" "is_word ''jump''" "is_word ''clear''" "is_word ''play''"
  "is_word ''resign''" "is_word ''join_game''" "is_word ''login''"
  by (simp_all add: is_word_def is_space_def)

lemma space_token_end [simp]: "is_token_end CHR '' ''"
  by (simp add: is_token_end_def)

lemma pair_message:
  assumes c: "is_word cmd" and m: "message = cmd @ '' '' @ show_nat r @ '' '' @ show_nat k"
  shows "trim message = message" "message \<noteq> []"
    "next_token message = (Some cmd, '' '' @ show_nat r @ '' '' @ show_nat k)"
    "next_token ('' '' @ show_nat r @ '' '' @ show_nat k) = (Some (show_nat r), '' '' @ show_nat k)"
    "next_token ('' '' @ show_nat k) = (Some (show_nat k), [])"
proof -
  show "trim message = message"
    using trim_words(2) [OF c show_nat_word [of k], of "'' '' @ show_nat r @ '' ''"] by (simp add: m)
  show "message \<noteq> []"
    using c by (auto simp: m is_word_def)
  show "next_token message = (Some cmd, '' '' @ show_nat r @ '' '' @ show_nat k)"
    unfolding m using c by (intro next_token_word(1)) auto
  show "next_token ('' '' @ show_nat r @ '' '' @ show_nat k) = (Some (show_nat r), '' '' @ show_nat k)"
    using next_token_word(2) [OF show_nat_word, of "'' '' @ show_nat k" r] by simp
  show "next_token ('' '' @ show_nat k) = (Some (show_nat k), [])"
    using next_token_last(2) [OF show_nat_word] by simp
qed

lemma client_round_trip:
  assumes "r < 2 ^ 64" "c < 2 ^ 64"
  shows "parse_message (send_select r c) = Some (Select r c)"
    "parse_message (send_move r c) = Some (MoveSelected r c)"
    "parse_message (send_jump r c) = Some (JumpAt r c)"
    "parse_message send_clear = Some ClearSelection"
proof -
  note p = pair_message [OF command_words(1), of "send_select r c" r c]
    pair_message [OF command_words(2), of "send_move r c" r c]
    pair_message [OF command_words(3), of "send_jump r c" r c]
  have s: "send_select r c = ''select'' @ '' '' @ show_nat r @ '' '' @ show_nat c"
    "send_move r c = ''move'' @ '' '' @ show_nat r @ '' '' @ show_nat c"
    "send_jump r c = ''jump'' @ '' '' @ show_nat r @ '' '' @ show_nat c"
    by (simp_all add: send_select_def send_move_def send_jump_def)
  show "parse_message (send_select r c) = Some (Select r c)"
    unfolding parse_message_def Let_def p(1) [OF s(1)] p(3) [OF s(1)]
    using p(2) [OF s(1)] p(4) [OF s(1)] p(5) [OF s(1)] assms by (simp add: parse_show)
  show "parse_message (send_move r c) = Some (MoveSelected r c)"
    unfolding parse_message_def Let_def p(6) [OF s(2)] p(8) [OF s(2)]
    using p(7) [OF s(2)] p(9) [OF s(2)] p(10) [OF s(2)] assms by (simp add: parse_show)
  show "parse_message (send_jump r c) = Some (JumpAt r c)"
    unfolding parse_message_def Let_def p(11) [OF s(3)] p(13) [OF s(3)]
    using p(12) [OF s(3)] p(14) [OF s(3)] p(15) [OF s(3)] assms by (simp add: parse_show)
  show "parse_message send_clear = Some ClearSelection"
    by code_simp
qed

lemma word_message_round_trip:
  "parse_play_message send_play" "parse_resign_message send_resign"
  "\<not> parse_resign_message send_play" "\<not> parse_play_message send_resign"
  by code_simp+

lemma join_round_trip:
  assumes "n < 2 ^ 64"
  shows "parse_join_game_message (send_join_game n) = Some n"
proof -
  have m: "send_join_game n = ''join_game'' @ '' '' @ show_nat n"
    by (simp add: send_join_game_def)
  have "trim (send_join_game n) = send_join_game n" "send_join_game n \<noteq> []"
    using trim_words(2) [OF command_words(7) show_nat_word [of n], of "'' ''"] by (simp_all add: m)
  moreover have "next_token (send_join_game n) = (Some ''join_game'', '' '' @ show_nat n)"
    unfolding m using command_words(7) by (intro next_token_word(1)) auto
  moreover have "next_token ('' '' @ show_nat n) = (Some (show_nat n), [])"
    using next_token_last(2) [OF show_nat_word] by simp
  ultimately show ?thesis
    using assms unfolding parse_join_game_message_def Let_def by (simp add: parse_show)
qed

lemma login_round_trip:
  assumes u: "is_word u" and p: "p = [] \<or> is_word p"
  shows "parse_login_message (send_login u p) = Some \<lparr>lr_username = u, lr_password = p\<rparr>"
proof (cases "p = []")
  case True
  then have m: "send_login u p = ''login'' @ '' '' @ u"
    by (simp add: send_login_def)
  have "trim (send_login u p) = send_login u p" "send_login u p \<noteq> []"
    using trim_words(2) [OF command_words(8) u, of "'' ''"] by (simp_all add: m)
  moreover have "next_token (send_login u p) = (Some ''login'', '' '' @ u)"
    unfolding m using command_words(8) by (intro next_token_word(1)) auto
  moreover have "next_token ('' '' @ u) = (Some u, [])"
    using next_token_last(2) [OF u] by simp
  ultimately show ?thesis
    using True u unfolding parse_login_message_def Let_def by (simp add: is_word_def)
next
  case False
  with p have p: "is_word p" by simp
  have m: "send_login u p = ''login'' @ '' '' @ u @ '' '' @ p"
    using False by (simp add: send_login_def)
  have "trim (send_login u p) = send_login u p" "send_login u p \<noteq> []"
    using trim_words(2) [OF command_words(8) p, of "'' '' @ u @ '' ''"] by (simp_all add: m)
  moreover have "next_token (send_login u p) = (Some ''login'', '' '' @ u @ '' '' @ p)"
    unfolding m using command_words(8) by (intro next_token_word(1)) auto
  moreover have "next_token ('' '' @ u @ '' '' @ p) = (Some u, '' '' @ p)"
    using next_token_word(2) [OF u, of "'' '' @ p"] by simp
  moreover have "next_token ('' '' @ p) = (Some p, [])"
    using next_token_last(2) [OF p] by simp
  ultimately show ?thesis
    using u unfolding parse_login_message_def Let_def by (simp add: is_word_def)
qed

subsection \<open>Authorisation\<close>

definition color_on :: "game_state \<Rightarrow> nat \<Rightarrow> nat \<Rightarrow> piece_color option" where
  "color_on g r c =
     (if is_in_bounds (gs_board g) r c
      then map_option (\<lambda>i. pc_color (piece_of (gs_board g) i)) (cell_at (gs_board g) r c) else None)"

lemma token_descriptor_color: "map_option pd_color (descriptor_from_token (to_token c k)) = Some c"
  by (cases c; cases k) (simp_all add: token_defs)

lemma piece_color_at_ok:
  assumes "wf_board (gs_board g)"
  shows "piece_color_at g r c = Inr (color_on g r c)"
  using assms
  by (auto simp: piece_color_at_def is_piece_def game_is_in_bounds_def game_token_at_def color_on_def
      token_of_def token_descriptor_color split: option.splits)

lemma is_action_allowed_returns:
  "wf_board (gs_board g) \<Longrightarrow> \<exists>x. is_action_allowed side g a = Inr x"
  by (auto simp: is_action_allowed_def piece_color_at_ok split: game_action.splits option.splits)

lemma lifted_other:
  assumes "flight_inv b F" "is_in_bounds b r c" "cell_at b r c = Some i" "valid_id b j" "j \<noteq> i"
  shows "piece_of (lifted b r c i) j = piece_of b j"
  using assms flight_cell(1) [OF assms(1-3)] by (simp add: piece_of_lifted)

lemma jump_at_authorised:
  assumes inv: "game_inv g" and col: "color_on g r c = Some side" and j: "jump_at r c g = Inr g'"
    and i: "valid_id (gs_board g) i" "pc_color (piece_of (gs_board g) i) \<noteq> side"
  shows "piece_of (gs_board g') i = piece_of (gs_board g) i"
proof -
  obtain k where k: "is_in_bounds (gs_board g) r c" "cell_at (gs_board g) r c = Some k"
    "pc_color (piece_of (gs_board g) k) = side"
    using col by (auto simp: color_on_def split: if_splits)
  then have "i \<noteq> k" using i by auto
  then show ?thesis
    using j jump_at_ok [OF game_inv_wf [OF inv], of r c] k i lifted_other [OF game_inv_flight [OF inv] k(1,2)]
    by (auto split: if_splits)
qed

lemma allowed_action_spares_enemy:
  assumes inv: "game_inv g" and r: "gs_rules g = standard"
    and ok: "is_action_allowed side g a = Inr True" and a: "apply_action a g = Inr g'"
    and i: "valid_id (gs_board g) i" "pc_color (piece_of (gs_board g) i) \<noteq> side"
  shows "piece_of (gs_board g') i = piece_of (gs_board g) i"
proof -
  note wf = game_inv_wf [OF inv]
  note col = piece_color_at_ok [OF wf]
  show ?thesis
  proof (cases a)
    case (Select r c)
    with a show ?thesis by (auto simp: select_def)
  next
    case ClearSelection
    with a show ?thesis by (auto simp: clear_selection_def)
  next
    case (MoveSelected tr tc)
    obtain src where src: "gs_selected g = Some src" "color_on g (fst src) (snd src) = Some side"
      using ok MoveSelected col by (auto simp: is_action_allowed_def split: option.splits)
    then obtain k where k: "is_in_bounds (gs_board g) (fst src) (snd src)"
      "cell_at (gs_board g) (fst src) (snd src) = Some k" "pc_color (piece_of (gs_board g) k) = side"
      by (auto simp: color_on_def split: if_splits)
    then have "i \<noteq> k" using i by auto
    then show ?thesis
      using a MoveSelected std_policy.move_selected_to_ok [OF wf r, of "(tr, tc)"] src k i
        lifted_other [OF game_inv_flight [OF inv] k(1,2)]
      by (auto simp: launched_def split: if_splits)
  next
    case JumpSelected
    obtain r c where sel: "gs_selected g = Some (r, c)" "color_on g r c = Some side"
      using ok JumpSelected col by (auto simp: is_action_allowed_def split: option.splits)
    with a JumpSelected obtain g1 where "jump_at r c g = Inr g1" "g' = clear_selection g1"
      by (auto simp: jump_selected_def bindR_Inr_iff)
    then show ?thesis
      using jump_at_authorised [OF inv sel(2) _ i] by (simp add: clear_selection_def)
  next
    case (JumpAt r c)
    then have "color_on g r c = Some side"
      using ok col by (auto simp: is_action_allowed_def)
    from jump_at_authorised [OF inv this _ i] show ?thesis
      using a JumpAt by simp
  next
    case (AdvanceClock ms)
    with ok show ?thesis by (simp add: is_action_allowed_def)
  qed
qed

end
