(* ===== verification/Password_Hasher.thy ===== *)
theory Password_Hasher
  imports Text_Utils "HOL-Library.Word"
begin

section \<open>Password hashing\<close>

text \<open>
  \<^verbatim>\<open>server/password_hasher.cpp\<close>: SHA-256 as an incremental digest over 32-bit words, HMAC,
  PBKDF2, the hexadecimal encoding and the stored form
  \<^verbatim>\<open>pbkdf2_sha256$iterations$salt$digest\<close>. Bytes are \<open>8 word\<close>, the arithmetic of the digest is
  that of \<open>32 word\<close> and the bit counter is a \<open>64 word\<close>, so every wrap-around is the code's.
  \<^verbatim>\<open>std::random_device\<close> is not code of the repository: the salt it fills is an argument.

  The lemmas show that the buffered digest is the block-wise one of the standard, whatever the
  pieces in which the data arrives, that HMAC is the nested hash of RFC 2104, that hexadecimal
  decoding inverts encoding, and that a stored hash accepts exactly the passwords with its
  derived key.
\<close>

unbundle bit_operations_syntax

type_synonym byte = "8 word"

subsection \<open>SHA-256\<close>

record sha256_context =
  sc_state :: "32 word list"
  sc_bit_count :: "64 word"
  sc_buffer :: "byte list"
  sc_buffer_size :: nat

text \<open>The table as the source lays it out, seven constants a row.\<close>

definition kSha256Constants :: "32 word list" where
  "kSha256Constants =
    concat [
      [0x428a2f98, 0x71374491, 0xb5c0fbcf, 0xe9b5dba5, 0x3956c25b, 0x59f111f1, 0x923f82a4],
      [0xab1c5ed5, 0xd807aa98, 0x12835b01, 0x243185be, 0x550c7dc3, 0x72be5d74, 0x80deb1fe],
      [0x9bdc06a7, 0xc19bf174, 0xe49b69c1, 0xefbe4786, 0x0fc19dc6, 0x240ca1cc, 0x2de92c6f],
      [0x4a7484aa, 0x5cb0a9dc, 0x76f988da, 0x983e5152, 0xa831c66d, 0xb00327c8, 0xbf597fc7],
      [0xc6e00bf3, 0xd5a79147, 0x06ca6351, 0x14292967, 0x27b70a85, 0x2e1b2138, 0x4d2c6dfc],
      [0x53380d13, 0x650a7354, 0x766a0abb, 0x81c2c92e, 0x92722c85, 0xa2bfe8a1, 0xa81a664b],
      [0xc24b8b70, 0xc76c51a3, 0xd192e819, 0xd6990624, 0xf40e3585, 0x106aa070, 0x19a4c116],
      [0x1e376c08, 0x2748774c, 0x34b0bcb5, 0x391c0cb3, 0x4ed8aa4a, 0x5b9cca4f, 0x682e6ff3],
      [0x748f82ee, 0x78a5636f, 0x84c87814, 0x8cc70208, 0x90befffa, 0xa4506ceb, 0xbef9a3f7],
      [0xc67178f2]]"

definition rotr :: "32 word \<Rightarrow> nat \<Rightarrow> 32 word" where
  "rotr value bits = drop_bit bits value OR push_bit (32 - bits) value"

text \<open>The message schedule: sixteen big-endian words of the block, then 48 derived ones.\<close>

definition block_word :: "byte list \<Rightarrow> nat \<Rightarrow> 32 word" where
  "block_word block i =
     push_bit 24 (ucast (block ! (i * 4))) OR push_bit 16 (ucast (block ! (i * 4 + 1))) OR
     push_bit 8 (ucast (block ! (i * 4 + 2))) OR ucast (block ! (i * 4 + 3))"

definition next_word :: "nat \<Rightarrow> 32 word list \<Rightarrow> 32 word list" where
  "next_word i ws =
     (let s0 = rotr (ws ! (i - 15)) 7 XOR rotr (ws ! (i - 15)) 18 XOR drop_bit 3 (ws ! (i - 15));
          s1 = rotr (ws ! (i - 2)) 17 XOR rotr (ws ! (i - 2)) 19 XOR drop_bit 10 (ws ! (i - 2))
      in ws @ [ws ! (i - 16) + s0 + ws ! (i - 7) + s1])"

definition message_schedule :: "byte list \<Rightarrow> 32 word list" where
  "message_schedule block = fold next_word [16..<64] (map (block_word block) [0..<16])"

type_synonym working_variables =
  "32 word \<times> 32 word \<times> 32 word \<times> 32 word \<times> 32 word \<times> 32 word \<times> 32 word \<times> 32 word"

definition sha256_round :: "32 word list \<Rightarrow> nat \<Rightarrow> working_variables \<Rightarrow> working_variables" where
  "sha256_round ws i = (\<lambda>(a, b, c, d, e, f, g, h).
     let s1 = rotr e 6 XOR rotr e 11 XOR rotr e 25;
         ch = (e AND f) XOR (NOT e AND g);
         temp1 = h + s1 + ch + kSha256Constants ! i + ws ! i;
         s0 = rotr a 2 XOR rotr a 13 XOR rotr a 22;
         maj = (a AND b) XOR (a AND c) XOR (b AND c);
         temp2 = s0 + maj
     in (temp1 + temp2, a, b, c, d + temp1, e, f, g))"

definition compress :: "32 word list \<Rightarrow> byte list \<Rightarrow> 32 word list" where
  "compress st block =
     (let ws = message_schedule block;
          (a, b, c, d, e, f, g, h) =
            fold (sha256_round ws) [0..<64]
              (st ! 0, st ! 1, st ! 2, st ! 3, st ! 4, st ! 5, st ! 6, st ! 7)
      in [st ! 0 + a, st ! 1 + b, st ! 2 + c, st ! 3 + d,
          st ! 4 + e, st ! 5 + f, st ! 6 + g, st ! 7 + h])"

definition sha256_transform :: "sha256_context \<Rightarrow> byte list \<Rightarrow> sha256_context" where
  "sha256_transform ctx block = ctx\<lparr>sc_state := compress (sc_state ctx) block\<rparr>"

definition sha256_init :: "sha256_context \<Rightarrow> sha256_context" where
  "sha256_init ctx = ctx
     \<lparr>sc_state := [0x6a09e667, 0xbb67ae85, 0x3c6ef372, 0xa54ff53a,
                   0x510e527f, 0x9b05688c, 0x1f83d9ab, 0x5be0cd19],
      sc_bit_count := 0, sc_buffer_size := 0\<rparr>"

text \<open>A context on the stack: the aggregate initialisers make every member zero.\<close>

definition fresh_context :: sha256_context where
  "fresh_context =
     \<lparr>sc_state = replicate 8 0, sc_bit_count = 0, sc_buffer = replicate 64 0, sc_buffer_size = 0\<rparr>"

text \<open>\<^verbatim>\<open>context.buffer[context.buffer_size++] = v\<close>\<close>

definition push_byte :: "byte \<Rightarrow> sha256_context \<Rightarrow> sha256_context" where
  "push_byte v ctx = ctx\<lparr>sc_buffer := (sc_buffer ctx)[sc_buffer_size ctx := v],
                         sc_buffer_size := sc_buffer_size ctx + 1\<rparr>"

definition update_byte :: "byte \<Rightarrow> sha256_context \<Rightarrow> sha256_context" where
  "update_byte v ctx =
     (let ctx1 = push_byte v ctx
      in if sc_buffer_size ctx1 = 64
         then (let ctx2 = sha256_transform ctx1 (sc_buffer ctx1)
               in ctx2\<lparr>sc_bit_count := sc_bit_count ctx2 + 512, sc_buffer_size := 0\<rparr>)
         else ctx1)"

definition sha256_update :: "byte list \<Rightarrow> sha256_context \<Rightarrow> sha256_context" where
  "sha256_update data ctx = fold update_byte data ctx"

text \<open>The two loops \<^verbatim>\<open>while (buffer_size < n) buffer[buffer_size++] = 0\<close>.\<close>

definition zero_fill :: "nat \<Rightarrow> sha256_context \<Rightarrow> sha256_context" where
  "zero_fill n ctx = fold (\<lambda>_. push_byte 0) [sc_buffer_size ctx..<n] ctx"

definition word_bytes :: "32 word \<Rightarrow> byte list" where
  "word_bytes w = [ucast (drop_bit 24 w AND 0xff), ucast (drop_bit 16 w AND 0xff),
                   ucast (drop_bit 8 w AND 0xff), ucast (w AND 0xff)]"

definition sha256_final :: "sha256_context \<Rightarrow> byte list" where
  "sha256_final ctx0 =
     (let ctx1 = ctx0\<lparr>sc_bit_count := sc_bit_count ctx0 + of_nat (sc_buffer_size ctx0 * 8)\<rparr>;
          ctx2 = push_byte 0x80 ctx1;
          ctx3 = (if sc_buffer_size ctx2 > 56
                  then (let c = zero_fill 64 ctx2
                        in (sha256_transform c (sc_buffer c))\<lparr>sc_buffer_size := 0\<rparr>)
                  else ctx2);
          ctx4 = zero_fill 56 ctx3;
          ctx5 = fold (\<lambda>i c. push_byte (ucast (drop_bit (i * 8) (sc_bit_count c) AND 0xff)) c)
                   (rev [0..<8]) ctx4;
          ctx6 = sha256_transform ctx5 (sc_buffer ctx5)
      in concat (map (\<lambda>i. word_bytes (sc_state ctx6 ! i)) [0..<8]))"

definition sha256 :: "byte list \<Rightarrow> byte list" where
  "sha256 data = sha256_final (sha256_update data (sha256_init fresh_context))"

subsection \<open>HMAC and PBKDF2\<close>

definition key_block :: "byte list \<Rightarrow> byte list" where
  "key_block key = (let k = (if length key > 64 then sha256 key else key)
                    in k @ replicate (64 - length k) 0)"

definition hmac_sha256 :: "byte list \<Rightarrow> byte list \<Rightarrow> byte list" where
  "hmac_sha256 key data =
     (let inner_pad = map (\<lambda>k. k XOR 0x36) (key_block key);
          outer_pad = map (\<lambda>k. k XOR 0x5c) (key_block key);
          inner_digest =
            sha256_final (sha256_update data (sha256_update inner_pad (sha256_init fresh_context)))
      in sha256_final (sha256_update inner_digest
           (sha256_update outer_pad (sha256_init fresh_context))))"

definition bytes_of :: "string \<Rightarrow> byte list" where
  "bytes_of s = map of_char s"

definition block_index :: "nat \<Rightarrow> byte list" where
  "block_index block = word_bytes (of_nat block)"

text \<open>The iterations of one block: the running hash \<open>u\<close> and the accumulated exclusive or.\<close>

fun pbkdf2_iterate :: "nat \<Rightarrow> byte list \<Rightarrow> byte list \<times> byte list \<Rightarrow> byte list" where
  "pbkdf2_iterate 0 password (u, result) = result"
| "pbkdf2_iterate (Suc n) password (u, result) =
     (let u' = hmac_sha256 password u
      in pbkdf2_iterate n password (u', map2 (XOR) result u'))"

definition pbkdf2_block :: "byte list \<Rightarrow> byte list \<Rightarrow> int \<Rightarrow> nat \<Rightarrow> byte list" where
  "pbkdf2_block password salt iterations block =
     (let u = hmac_sha256 password (salt @ block_index block)
      in pbkdf2_iterate (nat (iterations - 1)) password (u, u))"

text \<open>One round of the outer loop copies at most 32 bytes to \<open>derived\<close> at \<open>offset\<close>.\<close>

definition pbkdf2_copy :: "nat \<Rightarrow> byte list \<Rightarrow> byte list \<times> nat \<Rightarrow> byte list \<times> nat" where
  "pbkdf2_copy dk_len block_result = (\<lambda>(derived, offset).
     let copy_len = min 32 (dk_len - offset)
     in (take offset derived @ take copy_len block_result @ drop (offset + copy_len) derived,
         offset + copy_len))"

definition pbkdf2_sha256 :: "string \<Rightarrow> byte list \<Rightarrow> int \<Rightarrow> nat \<Rightarrow> byte list" where
  "pbkdf2_sha256 password salt iterations dk_len =
     (let blocks = nat (to_int32 (int ((dk_len + 31) div 32)))
      in fst (fold (\<lambda>block. pbkdf2_copy dk_len
                      (pbkdf2_block (bytes_of password) salt iterations block))
                [1..<blocks + 1] (replicate dk_len 0, 0)))"

subsection \<open>Hexadecimal text\<close>

definition hex_char :: "nat \<Rightarrow> char" where
  "hex_char n = ''0123456789abcdef'' ! n"

definition to_hex :: "byte list \<Rightarrow> string" where
  "to_hex data = concat (map (\<lambda>b. [hex_char (unat b div 16), hex_char (unat b mod 16)]) data)"

definition hex_value :: "char \<Rightarrow> nat option" where
  "hex_value c =
     (let n = of_char c
      in if 48 \<le> n \<and> n \<le> 57 then Some (n - 48)
         else if 97 \<le> n \<and> n \<le> 102 then Some (n - 87)
         else if 65 \<le> n \<and> n \<le> 70 then Some (n - 55)
         else None)"

definition is_hex :: "char \<Rightarrow> bool" where
  "is_hex c = (hex_value c \<noteq> None)"

text \<open>
  \<^verbatim>\<open>std::stoi\<close> in base 16 and 10: white space, a sign, in base 16 an optional \<open>0x\<close> in front of a
  digit, then the longest run of digits; no digit is \<^verbatim>\<open>std::invalid_argument\<close>, a value that is
  no \<^verbatim>\<open>int\<close> is \<^verbatim>\<open>std::out_of_range\<close>; what follows the digits is ignored.
\<close>

definition split_sign :: "string \<Rightarrow> int \<times> string" where
  "split_sign s =
     (case dropWhile is_space s of
        CHR ''-'' # t \<Rightarrow> (-1, t)
      | CHR ''+'' # t \<Rightarrow> (1, t)
      | t \<Rightarrow> (1, t))"

definition stoi_digits :: "nat \<Rightarrow> (char \<Rightarrow> nat option) \<Rightarrow> int \<Rightarrow> string \<Rightarrow> int option" where
  "stoi_digits base val sign t =
     (let ds = takeWhile (\<lambda>c. val c \<noteq> None) t;
          v = sign * int (foldl (\<lambda>acc c. acc * base + the (val c)) 0 ds)
      in if ds = [] \<or> v < - (2 ^ 31) \<or> v \<ge> 2 ^ 31 then None else Some v)"

definition strip_0x :: "string \<Rightarrow> string" where
  "strip_0x t =
     (case t of
        CHR ''0'' # x # d # _ \<Rightarrow> if (x = CHR ''x'' \<or> x = CHR ''X'') \<and> is_hex d then drop 2 t else t
      | _ \<Rightarrow> t)"

definition stoi16 :: "string \<Rightarrow> int option" where
  "stoi16 s = (let (sign, t) = split_sign s in stoi_digits 16 hex_value sign (strip_0x t))"

definition decimal_value :: "char \<Rightarrow> nat option" where
  "decimal_value c = (if is_digit c then Some (digit_value c) else None)"

definition stoi10 :: "string \<Rightarrow> int option" where
  "stoi10 s = (let (sign, t) = split_sign s in stoi_digits 10 decimal_value sign t)"

fun hex_bytes :: "string \<Rightarrow> byte list option" where
  "hex_bytes (a # b # rest) =
     (case stoi16 [a, b] of
        None \<Rightarrow> None
      | Some v \<Rightarrow> map_option (\<lambda>out. of_int v # out) (hex_bytes rest))"
| "hex_bytes _ = Some []"

definition from_hex :: "string \<Rightarrow> byte list option" where
  "from_hex hex = (if length hex mod 2 \<noteq> 0 then None else hex_bytes hex)"

definition constant_time_equals :: "string \<Rightarrow> string \<Rightarrow> bool" where
  "constant_time_equals left right =
     (if length left \<noteq> length right then False
      else fold (\<lambda>i result. result OR ((of_char (left ! i) :: byte) XOR of_char (right ! i)))
             [0..<length left] 0 = 0)"

subsection \<open>Stored hashes\<close>

definition kHashBytes :: nat where
  "kHashBytes = 32"

definition hash_password :: "byte list \<Rightarrow> string \<Rightarrow> int \<Rightarrow> string" where
  "hash_password salt password iterations =
     ''pbkdf2_sha256$'' @ show_int iterations @ ''$'' @ to_hex salt @ ''$'' @
     to_hex (pbkdf2_sha256 password salt iterations kHashBytes)"

text \<open>\<^verbatim>\<open>std::string::find\<close> from a position; \<open>None\<close> is \<^verbatim>\<open>npos\<close>, and \<^verbatim>\<open>npos + 1\<close> is zero.\<close>

definition find_from :: "char \<Rightarrow> string \<Rightarrow> nat \<Rightarrow> nat option" where
  "find_from c s pos = List.find (\<lambda>i. s ! i = c) [pos..<length s]"

definition after :: "nat option \<Rightarrow> nat" where
  "after p = (case p of None \<Rightarrow> 0 | Some i \<Rightarrow> i + 1)"

definition substr :: "string \<Rightarrow> nat \<Rightarrow> nat \<Rightarrow> string" where
  "substr s pos n = take n (drop pos s)"

definition verify_password :: "string \<Rightarrow> string \<Rightarrow> bool" where
  "verify_password password stored_hash =
     (let first = find_from CHR ''$'' stored_hash 0;
          second = find_from CHR ''$'' stored_hash (after first);
          third = find_from CHR ''$'' stored_hash (after second)
      in case (first, second, third) of
           (Some f, Some s, Some t) \<Rightarrow>
             if substr stored_hash 0 f \<noteq> ''pbkdf2_sha256'' then False
             else (case stoi10 (substr stored_hash (f + 1) (s - f - 1)) of
                     None \<Rightarrow> False
                   | Some iterations \<Rightarrow>
                       (case from_hex (substr stored_hash (s + 1) (t - s - 1)) of
                          None \<Rightarrow> False
                        | Some salt \<Rightarrow>
                            (case from_hex (drop (t + 1) stored_hash) of
                               None \<Rightarrow> False
                             | Some expected_hash \<Rightarrow>
                                 (let derived = pbkdf2_sha256 password salt iterations (length expected_hash)
                                  in constant_time_equals (to_hex derived) (drop (t + 1) stored_hash)))))
         | _ \<Rightarrow> False)"

subsection \<open>The digest of the standard\<close>

text \<open>
  \<open>blocks\<close> cuts a message into its full 64-byte blocks, \<open>padded\<close> appends the padding of the
  standard (a one bit, zeros up to eight bytes before a block boundary, the bit length), and
  \<open>sha256_spec\<close> folds the compression function over the blocks of the padded message.
\<close>

definition blocks :: "byte list \<Rightarrow> byte list list" where
  "blocks d = map (\<lambda>k. take 64 (drop (64 * k) d)) [0..<length d div 64]"

definition length_bytes :: "64 word \<Rightarrow> byte list" where
  "length_bytes w = map (\<lambda>i. ucast (drop_bit (i * 8) w AND 0xff)) (rev [0..<8])"

definition padded :: "byte list \<Rightarrow> byte list" where
  "padded d = d @ [0x80] @ replicate ((119 - length d mod 64) mod 64) 0 @
              length_bytes (of_nat (8 * length d))"

definition initial_state :: "32 word list" where
  "initial_state = sc_state (sha256_init fresh_context)"

definition sha256_spec :: "byte list \<Rightarrow> byte list" where
  "sha256_spec d = concat (map word_bytes (foldl compress initial_state (blocks (padded d))))"

lemma blocks_append:
  assumes "length a mod 64 = 0"
  shows "blocks (a @ b) = blocks a @ blocks b"
proof -
  let ?n = "length a div 64" and ?m = "length b div 64"
  have len: "length a = 64 * ?n" using assms by (simp add: mod_0_imp_dvd)
  then have "length (a @ b) div 64 = ?n + ?m" by simp
  then have "[0..<length (a @ b) div 64] = [0..<?n] @ map (\<lambda>k. k + ?n) [0..<?m]"
    using map_add_upt [of ?n ?m] upt_add_eq_append [of 0 ?n ?m] by (simp add: add.commute)
  moreover have "take 64 (drop (64 * k) (a @ b)) = take 64 (drop (64 * k) a)" if "k < ?n" for k
    using that len by simp
  moreover have "take 64 (drop (64 * (k + ?n)) (a @ b)) = take 64 (drop (64 * k) b)" for k
    using len by (simp add: add_mult_distrib2)
  ultimately show ?thesis by (simp add: blocks_def o_def)
qed

lemma blocks_single: "length b = 64 \<Longrightarrow> blocks b = [b]"
  by (simp add: blocks_def)

lemma blocks_short: "length b < 64 \<Longrightarrow> blocks b = []"
  by (simp add: blocks_def)

text \<open>The whole blocks of a message and the incomplete rest.\<close>

definition whole :: "byte list \<Rightarrow> byte list" where
  "whole d = take (64 * (length d div 64)) d"

definition remainder :: "byte list \<Rightarrow> byte list" where
  "remainder d = drop (64 * (length d div 64)) d"

lemma whole_remainder:
  "whole d @ remainder d = d" "length (remainder d) = length d mod 64" "length (whole d) mod 64 = 0"
  "length (whole d) div 64 = length d div 64"
proof -
  have min: "min (length d) (64 * (length d div 64)) = 64 * (length d div 64)" by simp
  have "length d - 64 * (length d div 64) = length d mod 64"
    by (simp add: minus_mult_div_eq_mod)
  moreover have "64 * (length d div 64) \<le> length d" by simp
  ultimately show "whole d @ remainder d = d" "length (remainder d) = length d mod 64"
    "length (whole d) mod 64 = 0" "length (whole d) div 64 = length d div 64"
    by (simp_all add: whole_def remainder_def min del: min_def)
qed

lemma blocks_whole: "blocks (whole d) = blocks d"
  using blocks_append [of "whole d" "remainder d"] blocks_short [of "remainder d"]
  by (simp add: whole_remainder)

lemma whole_unique:
  assumes "length a mod 64 = 0" "length r < 64"
  shows "whole (a @ r) = a" "remainder (a @ r) = r"
proof -
  have "length (a @ r) div 64 = length a div 64" "64 * (length a div 64) = length a"
    using assms by (auto simp: div_add1_eq)
  then show "whole (a @ r) = a" "remainder (a @ r) = r"
    by (simp_all add: whole_def remainder_def)
qed

subsection \<open>The buffer\<close>

definition holds :: "sha256_context \<Rightarrow> byte list \<Rightarrow> bool" where
  "holds ctx r \<longleftrightarrow> length (sc_buffer ctx) = 64 \<and> sc_buffer_size ctx = length r \<and>
                  length r \<le> 64 \<and> take (length r) (sc_buffer ctx) = r"

lemma push_byte_holds:
  assumes "holds ctx r" "length r < 64"
  shows "holds (push_byte v ctx) (r @ [v])" "sc_state (push_byte v ctx) = sc_state ctx"
    "sc_bit_count (push_byte v ctx) = sc_bit_count ctx"
  using assms by (simp_all add: holds_def push_byte_def take_Suc_conv_app_nth)

lemma fold_push_holds:
  assumes "holds ctx r" "length r + length vs \<le> 64"
  shows "holds (fold push_byte vs ctx) (r @ vs) \<and> sc_state (fold push_byte vs ctx) = sc_state ctx \<and>
         sc_bit_count (fold push_byte vs ctx) = sc_bit_count ctx"
  using assms
proof (induction vs arbitrary: ctx r)
  case (Cons v vs)
  then show ?case
    using Cons.IH [OF push_byte_holds(1), of ctx r v] by (simp add: push_byte_holds)
qed simp

lemma zero_fill_holds:
  assumes "holds ctx r" "n \<le> 64"
  shows "holds (zero_fill n ctx) (r @ replicate (n - length r) 0) \<and>
         sc_state (zero_fill n ctx) = sc_state ctx \<and> sc_bit_count (zero_fill n ctx) = sc_bit_count ctx"
proof -
  have "fold (\<lambda>_. push_byte 0) [length r..<n] ctx = fold push_byte (replicate (n - length r) 0) ctx"
    using fold_map [of push_byte "\<lambda>_. 0" "[length r..<n]"] by (simp add: map_replicate_const o_def)
  then show ?thesis
    using fold_push_holds [OF assms(1), of "replicate (n - length r) 0"] assms
    by (cases "length r \<le> n") (simp_all add: zero_fill_def holds_def)
qed

lemma full_buffer: "holds ctx r \<Longrightarrow> length r = 64 \<Longrightarrow> sc_buffer ctx = r"
  by (auto simp: holds_def)

lemma empty_buffer: "holds ctx r \<Longrightarrow> holds (ctx\<lparr>sc_buffer_size := 0\<rparr>) []"
  by (simp add: holds_def)

text \<open>
  \<open>absorbed ctx d\<close>: the context has read the bytes \<open>d\<close> since it was initialised.
\<close>

definition absorbed :: "sha256_context \<Rightarrow> byte list \<Rightarrow> bool" where
  "absorbed ctx d \<longleftrightarrow>
     holds ctx (remainder d) \<and> sc_state ctx = foldl compress initial_state (blocks d) \<and>
     sc_bit_count ctx = of_nat (8 * length (whole d))"

lemma absorbed_init: "absorbed (sha256_init fresh_context) []"
  by (simp add: absorbed_def holds_def remainder_def whole_def blocks_def initial_state_def
      fresh_context_def sha256_init_def)

lemma absorbed_update_byte:
  assumes "absorbed ctx d"
  shows "absorbed (update_byte v ctx) (d @ [v])"
proof -
  let ?r = "remainder d" and ?ctx = "push_byte v ctx"
  have a: "holds ctx ?r" "sc_state ctx = foldl compress initial_state (blocks d)"
    "sc_bit_count ctx = of_nat (8 * length (whole d))"
    using assms by (simp_all add: absorbed_def)
  have len: "length ?r < 64" by (simp add: whole_remainder)
  note p = push_byte_holds [OF a(1) len, of v]
  have d: "d @ [v] = whole d @ (?r @ [v])" by (simp add: whole_remainder flip: append_assoc)
  have size: "sc_buffer_size ?ctx = length ?r + 1" using p by (simp add: holds_def)
  show ?thesis
  proof (cases "length ?r + 1 = 64")
    case True
    have "whole (d @ [v]) = whole d @ (?r @ [v])" "remainder (d @ [v]) = []"
      using whole_unique [of "whole d @ (?r @ [v])" "[]"] True whole_remainder(3) [of d]
      by (simp_all add: d mod_add_left_eq del: append_assoc)
    moreover have "blocks (d @ [v]) = blocks d @ [?r @ [v]]"
      using blocks_append [OF whole_remainder(3), of d "?r @ [v]"] blocks_single [of "?r @ [v]"] True
      by (simp add: d blocks_whole)
    ultimately show ?thesis
      using True a p size full_buffer [OF p(1)] empty_buffer [OF p(1)]
      by (simp add: absorbed_def update_byte_def sha256_transform_def Let_def holds_def algebra_simps)
  next
    case False
    then have "whole (d @ [v]) = whole d" "remainder (d @ [v]) = ?r @ [v]"
      using whole_unique [OF whole_remainder(3), of "?r @ [v]" d] len by (simp_all add: d)
    moreover have "blocks (d @ [v]) = blocks d"
      using blocks_append [OF whole_remainder(3), of d "?r @ [v]"] blocks_short [of "?r @ [v]"] False len
      by (simp add: d blocks_whole)
    ultimately show ?thesis
      using False a p size by (simp add: absorbed_def update_byte_def Let_def)
  qed
qed

lemma absorbed_update: "absorbed ctx d \<Longrightarrow> absorbed (sha256_update data ctx) (d @ data)"
proof (induction data arbitrary: ctx d)
  case (Cons v data)
  then show ?case
    using Cons.IH [OF absorbed_update_byte, of ctx d v] by (simp add: sha256_update_def)
qed (simp add: sha256_update_def)

lemma length_compress: "length (compress st b) = 8"
  by (simp add: compress_def Let_def split: prod.splits)

lemma length_foldl_compress: "length st = 8 \<Longrightarrow> length (foldl compress st bs) = 8"
  by (induction bs rule: rev_induct) (simp_all add: length_compress)

lemma length_length_bytes: "length (length_bytes w) = 8"
  by (simp add: length_bytes_def)

text \<open>
  The padding blocks: one when the rest leaves room for the length, two otherwise.
\<close>

lemma blocks_padded:
  fixes d :: "byte list"
  defines "r \<equiv> remainder d" and "n \<equiv> length (remainder d)"
    and "lb \<equiv> length_bytes (of_nat (8 * length d))"
  shows "blocks (padded d) = blocks d @
    (if n < 56 then [r @ [0x80] @ replicate (55 - n) 0 @ lb]
     else [r @ [0x80] @ replicate (63 - n) 0, replicate 56 0 @ lb])"
proof -
  have n: "n = length d mod 64" "n < 64" by (simp_all add: n_def whole_remainder)
  let ?tail = "r @ [0x80] @ replicate ((119 - n) mod 64) 0 @ lb"
  have "padded d = whole d @ ?tail"
    by (simp add: padded_def lb_def n(1) r_def whole_remainder flip: append_assoc)
  then have *: "blocks (padded d) = blocks d @ blocks ?tail"
    using blocks_append [OF whole_remainder(3)] by (simp add: blocks_whole)
  have [simp]: "length r = n" "length lb = 8" by (simp_all add: r_def n_def lb_def length_length_bytes)
  show ?thesis
  proof (cases "n < 56")
    case True
    then have "119 - n = 64 + (55 - n)" by simp
    then have "(119 - n) mod 64 = 55 - n" using True by (simp only: mod_add_self1) simp
    then show ?thesis using True * by (simp add: blocks_single)
  next
    case False
    let ?b1 = "r @ [0x80] @ replicate (63 - n) 0"
    have "(119 - n) mod 64 = (63 - n) + 56" using False n(2) by simp
    then have "?tail = ?b1 @ (replicate 56 0 @ lb)"
      by (simp only: replicate_add append_assoc)
    moreover have "length ?b1 = 64" using n(2) by simp
    ultimately show ?thesis
      using False * blocks_append [of ?b1 "replicate 56 0 @ lb"] by (simp add: blocks_single)
  qed
qed

text \<open>The last steps of \<^verbatim>\<open>sha256_final\<close>, from a buffer that has room for the length.\<close>

definition finish_digest :: "sha256_context \<Rightarrow> byte list" where
  "finish_digest ctx3 =
     (let ctx4 = zero_fill 56 ctx3;
          ctx5 = fold (\<lambda>i c. push_byte (ucast (drop_bit (i * 8) (sc_bit_count c) AND 0xff)) c)
                   (rev [0..<8]) ctx4;
          ctx6 = sha256_transform ctx5 (sc_buffer ctx5)
      in concat (map (\<lambda>i. word_bytes (sc_state ctx6 ! i)) [0..<8]))"

lemma fold_length_bytes:
  assumes "holds ctx r" "length r + length is \<le> 64"
  shows "fold (\<lambda>i c. push_byte (ucast (drop_bit (i * 8) (sc_bit_count c) AND 0xff)) c) is ctx =
         fold push_byte (map (\<lambda>i. ucast (drop_bit (i * 8) (sc_bit_count ctx) AND 0xff)) is) ctx"
  using assms
proof (induction "is" arbitrary: ctx r)
  case (Cons i "is")
  then show ?case
    using Cons.IH [OF push_byte_holds(1), of ctx r] by (simp add: push_byte_holds)
qed simp

lemma finish_digest_eq:
  assumes "holds ctx r" "length r \<le> 56" "length (sc_state ctx) = 8"
  shows "finish_digest ctx = concat (map word_bytes
    (compress (sc_state ctx) (r @ replicate (56 - length r) 0 @ length_bytes (sc_bit_count ctx))))"
proof -
  let ?c4 = "zero_fill 56 ctx" and ?r4 = "r @ replicate (56 - length r) 0"
  have h4: "holds ?c4 ?r4" "sc_state ?c4 = sc_state ctx" "sc_bit_count ?c4 = sc_bit_count ctx"
    using zero_fill_holds [OF assms(1), of 56] by simp_all
  let ?c5 = "fold (\<lambda>i c. push_byte (ucast (drop_bit (i * 8) (sc_bit_count c) AND 0xff)) c)
                   (rev [0..<8]) ?c4"
  have "?c5 = fold push_byte (length_bytes (sc_bit_count ctx)) ?c4"
    using fold_length_bytes [OF h4(1), of "rev [0..<8]"] assms(2) h4(3) by (simp add: length_bytes_def)
  then have "holds ?c5 (?r4 @ length_bytes (sc_bit_count ctx))" "sc_state ?c5 = sc_state ctx"
    using fold_push_holds [OF h4(1), of "length_bytes (sc_bit_count ctx)"] assms(2) h4
    by (simp_all add: length_length_bytes)
  moreover from this(1) have "sc_buffer ?c5 = ?r4 @ length_bytes (sc_bit_count ctx)"
    by (rule full_buffer) (use assms(2) in \<open>simp add: length_length_bytes\<close>)
  moreover have "map (\<lambda>i. word_bytes (ws ! i)) [0..<8] = map word_bytes ws" if "length ws = 8" for ws
    using that map_nth [of ws] by (metis map_map comp_apply map_cong)
  ultimately show ?thesis
    unfolding finish_digest_def Let_def
    by (simp add: sha256_transform_def length_compress del: upt_rec_numeral)
qed

lemma sha256_final_spec:
  assumes "absorbed ctx d"
  shows "sha256_final ctx = sha256_spec d"
proof -
  let ?r = "remainder d" and ?n = "length (remainder d)"
  let ?c1 = "ctx\<lparr>sc_bit_count := sc_bit_count ctx + of_nat (sc_buffer_size ctx * 8)\<rparr>"
  let ?c2 = "push_byte 0x80 ?c1" and ?lb = "length_bytes (of_nat (8 * length d))"
  let ?st = "foldl compress initial_state (blocks d)"
  have a: "holds ctx ?r" "sc_state ctx = ?st" "sc_bit_count ctx = of_nat (8 * length (whole d))"
    using assms by (simp_all add: absorbed_def)
  have n: "?n < 64" by (simp add: whole_remainder)
  have "length d = length (whole d) + ?n"
    using arg_cong [OF whole_remainder(1) [of d], of length] by simp
  then have bits: "sc_bit_count ?c1 = of_nat (8 * length d)"
    using a by (simp add: holds_def algebra_simps)
  have "holds ?c1 ?r" using a(1) by (simp add: holds_def)
  note p = push_byte_holds [OF this n, of "0x80"]
  have st8: "length ?st = 8"
    by (rule length_foldl_compress) (simp add: initial_state_def sha256_init_def)
  have size: "sc_buffer_size ?c2 = ?n + 1" using p by (simp add: holds_def)
  show ?thesis
  proof (cases "?n < 56")
    case True
    then have "\<not> 56 < ?n + 1" by simp
    then have "sha256_final ctx = finish_digest ?c2"
      by (simp only: sha256_final_def finish_digest_def Let_def size if_False)
    also have "\<dots> = concat (map word_bytes (compress ?st (?r @ [0x80] @ replicate (55 - ?n) 0 @ ?lb)))"
      using finish_digest_eq [OF p(1)] True p a(2) bits st8 by simp
    finally show ?thesis using True by (simp add: sha256_spec_def blocks_padded)
  next
    case False
    let ?c = "zero_fill 64 ?c2" and ?b = "?r @ [0x80] @ replicate (63 - ?n) 0"
    let ?c3 = "(sha256_transform ?c (sc_buffer ?c))\<lparr>sc_buffer_size := 0\<rparr>"
    have z: "holds ?c ?b" "sc_state ?c = ?st" "sc_bit_count ?c = of_nat (8 * length d)"
      using zero_fill_holds [OF p(1), of 64] p a(2) bits by simp_all
    then have c3: "holds ?c3 []" "sc_state ?c3 = compress ?st ?b" "sc_bit_count ?c3 = of_nat (8 * length d)"
      using full_buffer [OF z(1)] n by (simp_all add: sha256_transform_def holds_def)
    have "56 < ?n + 1" using False by simp
    then have "sha256_final ctx = finish_digest ?c3"
      by (simp only: sha256_final_def finish_digest_def Let_def size if_True)
    also have "\<dots> = concat (map word_bytes (compress (compress ?st ?b) (replicate 56 0 @ ?lb)))"
      using finish_digest_eq [OF c3(1)] c3 by (simp add: length_compress)
    finally show ?thesis using False by (simp add: sha256_spec_def blocks_padded)
  qed
qed

subsection \<open>Lengths\<close>

lemma length_sha256_final: "length (sha256_final ctx) = 32"
  by (simp add: sha256_final_def Let_def length_concat word_bytes_def o_def del: upt_rec_numeral)
    (simp add: sum_list_triv)

lemma length_hmac: "length (hmac_sha256 key data) = 32"
  by (simp add: hmac_sha256_def Let_def length_sha256_final)

lemma length_pbkdf2_iterate: "length res = 32 \<Longrightarrow> length (pbkdf2_iterate n p (u, res)) = 32"
  by (induction n arbitrary: u res) (simp_all add: length_hmac Let_def)

lemma length_pbkdf2_block: "length (pbkdf2_block p salt it k) = 32"
  by (simp add: pbkdf2_block_def Let_def length_pbkdf2_iterate length_hmac)

lemma length_pbkdf2_fold:
  "length (fst s) = dk_len \<and> snd s \<le> dk_len \<Longrightarrow>
   length (fst (fold (\<lambda>k. pbkdf2_copy dk_len (pbkdf2_block p salt it k)) ks s)) = dk_len"
proof (induction ks arbitrary: s)
  case (Cons k ks)
  obtain derived offset where "s = (derived, offset)" by force
  moreover have "m + (x - m) = x" if "m \<le> x" for m x :: nat using that by simp
  ultimately have "length (fst (pbkdf2_copy dk_len (pbkdf2_block p salt it k) s)) = dk_len \<and>
      snd (pbkdf2_copy dk_len (pbkdf2_block p salt it k) s) \<le> dk_len"
    using Cons.prems by (auto simp: pbkdf2_copy_def Let_def length_pbkdf2_block)
  then show ?case by (simp add: Cons.IH)
qed simp

lemma length_pbkdf2: "length (pbkdf2_sha256 p salt it dk_len) = dk_len"
  using length_pbkdf2_fold [of "(replicate dk_len 0, 0)" dk_len] by (simp add: pbkdf2_sha256_def Let_def)

subsection \<open>Comparison and hexadecimal round trip\<close>

lemma or_eq_zero: "a OR b = (0 :: 'a::len word) \<longleftrightarrow> a = 0 \<and> b = 0"
  by (auto simp: bit_eq_iff bit_or_iff)

lemma xor_eq_zero: "a XOR b = (0 :: 'a::len word) \<longleftrightarrow> a = b"
  by (auto simp: bit_eq_iff bit_xor_iff)

lemma byte_of_char_inj: "(of_char a :: byte) = of_char b \<longleftrightarrow> a = b"
proof
  assume "(of_char a :: byte) = of_char b"
  then have "unat (of_nat (of_char a) :: byte) = unat (of_nat (of_char b) :: byte)"
    by (simp add: of_nat_of_char)
  then show "a = b" by (simp add: unat_of_nat)
qed simp

lemma fold_or_zero:
  "fold (\<lambda>i res. res OR (f i :: 'a::len word)) is acc = 0 \<longleftrightarrow> acc = 0 \<and> (\<forall>i \<in> set is. f i = 0)"
  by (induction "is" arbitrary: acc) (auto simp: or_eq_zero)

lemma constant_time_equals_iff: "constant_time_equals l r \<longleftrightarrow> l = r"
proof (cases "length l = length r")
  case True
  then have "constant_time_equals l r \<longleftrightarrow> (\<forall>i < length l. l ! i = r ! i)"
    unfolding constant_time_equals_def fold_or_zero by (auto simp: xor_eq_zero byte_of_char_inj)
  then show ?thesis using True by (simp add: list_eq_iff_nth_eq)
qed (auto simp: constant_time_equals_def)

lemma hex_char_value:
  assumes "n < 16"
  shows "hex_value (hex_char n) = Some n" "\<not> is_space (hex_char n)"
    "hex_char n \<noteq> CHR ''-''" "hex_char n \<noteq> CHR ''+''" "hex_char n \<noteq> CHR ''$''"
proof -
  have "list_all (\<lambda>n. hex_value (hex_char n) = Some n \<and> \<not> is_space (hex_char n) \<and>
      hex_char n \<noteq> CHR ''-'' \<and> hex_char n \<noteq> CHR ''+'' \<and> hex_char n \<noteq> CHR ''$'') [0..<16]"
    by code_simp
  then show "hex_value (hex_char n) = Some n" "\<not> is_space (hex_char n)"
    "hex_char n \<noteq> CHR ''-''" "hex_char n \<noteq> CHR ''+''" "hex_char n \<noteq> CHR ''$''"
    using assms by (simp_all add: list_all_iff)
qed

lemma split_sign_unsigned:
  assumes "s = c # t" "\<not> is_space c" "c \<noteq> CHR ''-''" "c \<noteq> CHR ''+''"
  shows "split_sign s = (1, s)"
  using assms by (auto simp: split_sign_def split: char.splits bool.splits)

lemma stoi16_nibbles:
  assumes "n < 256"
  shows "stoi16 [hex_char (n div 16), hex_char (n mod 16)] = Some (int n)"
proof -
  have n: "n div 16 < 16" "n mod 16 < 16" using assms by auto
  note h = hex_char_value [OF n(1)] hex_char_value [OF n(2)]
  have "strip_0x [a, b] = [a, b]" for a b
    by (simp add: strip_0x_def split: char.splits bool.splits)
  then show ?thesis
    using h split_sign_unsigned [OF refl h(2-4), of "[hex_char (n mod 16)]"] assms
    by (simp add: stoi16_def stoi_digits_def Let_def flip: of_nat_add of_nat_mult)
qed

lemma byte_less: "unat (b :: byte) < 256"
  using unsigned_less [of b] by simp

lemma from_hex_to_hex: "from_hex (to_hex d) = Some d"
proof -
  have "even (length (to_hex d))" by (induction d) (simp_all add: to_hex_def)
  moreover have "hex_bytes (to_hex d) = Some d"
    by (induction d) (simp_all add: to_hex_def stoi16_nibbles [OF byte_less])
  ultimately show ?thesis by (simp add: from_hex_def mod2_eq_if)
qed

lemma length_to_hex: "length (to_hex d) = 2 * length d"
  by (induction d) (simp_all add: to_hex_def)

lemma to_hex_no_dollar: "CHR ''$'' \<notin> set (to_hex d)"
proof -
  have "unat b div 16 < 16" "unat b mod 16 < 16" for b :: byte
    using byte_less [of b] by auto
  then have "hex_char (unat b div 16) \<noteq> CHR ''$''" "hex_char (unat b mod 16) \<noteq> CHR ''$''" for b :: byte
    using hex_char_value(5) by blast+
  then show ?thesis by (simp add: to_hex_def) metis
qed

lemma to_hex_inj: "to_hex d = to_hex d' \<Longrightarrow> d = d'"
  by (metis from_hex_to_hex option.inject)

subsection \<open>Stored hashes are checked exactly\<close>

lemma stoi10_show:
  assumes "- (2 ^ 31) \<le> i" "i < 2 ^ 31"
  shows "stoi10 (show_int i) = Some i"
proof -
  have ds: "stoi_digits 10 decimal_value sg (show_nat n) = Some (sg * int n)"
    if "- (2 ^ 31) \<le> sg * int n" "sg * int n < 2 ^ 31" for sg n
  proof -
    note d = show_nat_digits [of n]
    then have "takeWhile (\<lambda>c. decimal_value c \<noteq> None) (show_nat n) = show_nat n"
      by (auto simp: decimal_value_def list_all_iff)
    moreover have "foldl (\<lambda>acc c. acc * 10 + the (decimal_value c)) 0 (show_nat n) = digits_value (show_nat n)"
      unfolding digits_value_def using d
      by (intro foldl_cong) (auto simp: decimal_value_def list_all_iff)
    ultimately show ?thesis
      using that d unfolding stoi_digits_def Let_def by (simp del: not_None_eq takeWhile_eq_all_conv)
  qed
  obtain c cs where s: "show_nat (nat i) = c # cs" "is_digit c"
    using show_nat_digits [of "nat i"] by (cases "show_nat (nat i)") auto
  then have "\<not> is_space c" "c \<noteq> CHR ''-''" "c \<noteq> CHR ''+''"
    by (auto simp: digit_not_space digit_not_sign)
  then have "split_sign (show_nat (nat i)) = (1, show_nat (nat i))"
    using split_sign_unsigned [OF s(1)] by blast
  moreover have "split_sign (CHR ''-'' # t) = (-1, t)" for t
    by (simp add: split_sign_def is_space_def)
  ultimately show ?thesis
    using ds [of "-1" "nat (- i)"] ds [of 1 "nat i"] assms
    by (auto simp: stoi10_def show_int_def)
qed

lemma show_int_no_dollar: "CHR ''$'' \<notin> set (show_int i)"
proof -
  have "CHR ''$'' \<notin> set (show_nat n)" for n
    using show_nat_digits [of n] by (auto simp: list_all_iff is_digit_def)
  then show ?thesis by (simp add: show_int_def)
qed

lemma find_from_at:
  assumes "c \<notin> set a"
  shows "find_from c (p @ a @ c # b) (length p) = Some (length p + length a)"
proof -
  let ?s = "p @ a @ c # b"
  have "?s ! (length p + i) \<noteq> c" if "i < length a" for i
    using that assms nth_mem [of i a] by (auto simp: nth_append)
  then show ?thesis
    unfolding find_from_def find_Some_iff
    by (intro exI [of _ "length a"]) (auto simp: nth_append)
qed

lemma verify_stored:
  assumes "- (2 ^ 31) \<le> it" "it < 2 ^ 31" "from_hex digest = Some expected"
  shows "verify_password p (''pbkdf2_sha256$'' @ show_int it @ ''$'' @ to_hex salt @ ''$'' @ digest) \<longleftrightarrow>
         to_hex (pbkdf2_sha256 p salt it (length expected)) = digest"
proof -
  let ?n = "''pbkdf2_sha256''" and ?i = "show_int it" and ?x = "to_hex salt"
  let ?s = "?n @ CHR ''$'' # ?i @ CHR ''$'' # ?x @ CHR ''$'' # digest"
  have f: "find_from CHR ''$'' ?s 0 = Some (length ?n)"
    using find_from_at [of "CHR ''$''" ?n "[]" "?i @ CHR ''$'' # ?x @ CHR ''$'' # digest"] by simp
  have g: "find_from CHR ''$'' ?s (length ?n + 1) = Some (length ?n + 1 + length ?i)"
    using find_from_at [OF show_int_no_dollar, of "?n @ ''$''" it "?x @ CHR ''$'' # digest"] by simp
  have h: "find_from CHR ''$'' ?s (length ?n + 1 + length ?i + 1) =
      Some (length ?n + 1 + length ?i + 1 + length ?x)"
    using find_from_at [OF to_hex_no_dollar, of "?n @ ''$'' @ ?i @ ''$''" salt digest] by simp
  have sub: "substr ?s 0 (length ?n) = ?n"
    "substr ?s (length ?n + 1) (length ?n + 1 + length ?i - length ?n - 1) = ?i"
    "substr ?s (length ?n + 1 + length ?i + 1)
       (length ?n + 1 + length ?i + 1 + length ?x - (length ?n + 1 + length ?i) - 1) = ?x"
    "drop (length ?n + 1 + length ?i + 1 + length ?x + 1) ?s = digest"
    by (simp_all add: substr_def)
  have "verify_password p ?s \<longleftrightarrow> to_hex (pbkdf2_sha256 p salt it (length expected)) = digest"
    unfolding verify_password_def Let_def f after_def option.case g h prod.case sub
      stoi10_show [OF assms(1,2)] from_hex_to_hex assms(3) constant_time_equals_iff by simp
  then show ?thesis by simp
qed

text \<open>A freshly stored hash accepts exactly the passwords with the same derived key.\<close>

lemma verify_hash:
  assumes "- (2 ^ 31) \<le> it" "it < 2 ^ 31"
  shows "verify_password q (hash_password salt p it) \<longleftrightarrow>
         pbkdf2_sha256 q salt it kHashBytes = pbkdf2_sha256 p salt it kHashBytes"
  using verify_stored [OF assms from_hex_to_hex, of q salt "pbkdf2_sha256 p salt it kHashBytes"]
    to_hex_inj [of "pbkdf2_sha256 q salt it kHashBytes" "pbkdf2_sha256 p salt it kHashBytes"]
  by (auto simp: hash_password_def length_pbkdf2)

lemma hash_password_not_empty: "hash_password salt p it \<noteq> []"
  by (simp add: hash_password_def)

end
