(* ===== verification/Client_Readers.thy ===== *)
theory Client_Readers
  imports Snapshot_Reader Message_Parser Password_Hasher
begin

section \<open>The client's readers of server messages\<close>

text \<open>
  \<^verbatim>\<open>network/login_message_reader.cpp\<close>, \<^verbatim>\<open>network/matchmaking_message_reader.cpp\<close>,
  \<^verbatim>\<open>network/game_redirect_message_reader.cpp\<close>, \<^verbatim>\<open>network/game_result_message_reader.cpp\<close> and
  \<^verbatim>\<open>network/websocket_endpoint.cpp\<close>. Each reader takes the first line of a message, splits it at
  white space and answers \<open>None\<close> for what it does not recognise. The lemmas read back a line of
  words, so that what each reader makes of a message of the server is one rewriting step.
\<close>

subsection \<open>The first line\<close>

fun first_line :: "string \<Rightarrow> string" where
  "first_line [] = []"
| "first_line (ch # rest) =
     (if ch = CHR 0x0D then first_line rest
      else if ch = CHR 0x0A then [] else ch # first_line rest)"

definition split_tokens :: "string \<Rightarrow> string list" where
  "split_tokens line = words line"

subsection \<open>Login\<close>

datatype login_result_status = StatusOk | StatusFailed

record login_result =
  lres_status :: login_result_status
  lres_rating :: int
  lres_failure_reason :: string

definition read_login_message :: "string \<Rightarrow> login_result option" where
  "read_login_message s =
     (let tokens = split_tokens (first_line s)
      in if tokens = [] then None
         else if tokens ! 0 = ''login_ok'' \<and> length tokens \<ge> 2
         then map_option (\<lambda>rating. \<lparr>lres_status = StatusOk, lres_rating = rating, lres_failure_reason = ''''\<rparr>)
                (stoi10 (tokens ! 1))
         else if tokens ! 0 = ''login_failed'' \<and> length tokens \<ge> 2
         then Some \<lparr>lres_status = StatusFailed, lres_rating = 0,
                    lres_failure_reason = tokens ! 1 @ concat (map (\<lambda>t. '' '' @ t) (drop 2 tokens))\<rparr>
         else None)"

subsection \<open>Matchmaking\<close>

datatype matchmaking_state =
    MmIdle | MmSearching | MatchedWhite | MatchedBlack | GameStartingWhite | GameStartingBlack
  | MmPlaying | MmTimeout

definition read_matchmaking_message :: "string \<Rightarrow> matchmaking_state option" where
  "read_matchmaking_message s =
     (let tokens = split_tokens (first_line s);
          side = (\<lambda>white black. if length tokens \<ge> 2 \<and> tokens ! 1 = ''white'' then Some white
                    else if length tokens \<ge> 2 \<and> tokens ! 1 = ''black'' then Some black else None)
      in if tokens = [] then None
         else if tokens ! 0 = ''searching'' then Some MmSearching
         else if tokens ! 0 = ''search_timeout'' then Some MmTimeout
         else if tokens ! 0 = ''match_found'' then side MatchedWhite MatchedBlack
         else if tokens ! 0 = ''game_start'' then side GameStartingWhite GameStartingBlack
         else None)"

subsection \<open>Redirection to a game server\<close>

record game_redirect_info =
  gr_endpoint :: string
  gr_room_id :: nat
  gr_side :: piece_color

definition parse_side_token :: "string \<Rightarrow> piece_color option" where
  "parse_side_token token =
     (if token = ''white'' then Some White else if token = ''black'' then Some Black else None)"

text \<open>A room id is an unsigned 64-bit integer and wraps.\<close>

primrec room_id_loop :: "nat \<Rightarrow> string \<Rightarrow> nat option" where
  "room_id_loop value [] = Some value"
| "room_id_loop value (ch # token) =
     (if \<not> is_digit ch then None else room_id_loop ((value * 10 + digit_value ch) mod 2 ^ 64) token)"

definition parse_room_id_token :: "string \<Rightarrow> nat option" where
  "parse_room_id_token token = (if token = [] then None else room_id_loop 0 token)"

definition read_game_redirect_message :: "string \<Rightarrow> game_redirect_info option" where
  "read_game_redirect_message s =
     (let tokens = split_tokens (first_line s)
      in if length tokens \<noteq> 4 \<or> tokens ! 0 \<noteq> ''game_redirect'' then None
         else case (parse_side_token (tokens ! 3), parse_room_id_token (tokens ! 2)) of
                (Some side, Some room_id) \<Rightarrow>
                  if tokens ! 1 = [] then None
                  else Some \<lparr>gr_endpoint = tokens ! 1, gr_room_id = room_id, gr_side = side\<rparr>
              | _ \<Rightarrow> None)"

subsection \<open>The result of a game\<close>

record game_result =
  gres_won :: bool
  gres_reason :: string
  gres_rating :: int

definition read_game_result_message :: "string \<Rightarrow> game_result option" where
  "read_game_result_message s =
     (let tokens = split_tokens (first_line s)
      in if length tokens \<noteq> 4 \<or> tokens ! 0 \<noteq> ''game_result'' then None
         else if tokens ! 1 \<noteq> ''win'' \<and> tokens ! 1 \<noteq> ''loss'' then None
         else map_option (\<lambda>rating. \<lparr>gres_won = (tokens ! 1 = ''win''), gres_reason = tokens ! 2,
                                    gres_rating = rating\<rparr>) (stoi10 (tokens ! 3)))"

subsection \<open>Endpoints\<close>

record websocket_endpoint =
  we_host :: string
  we_port :: nat

definition strip_scheme :: "string \<Rightarrow> string" where
  "strip_scheme endpoint =
     (if take 5 endpoint = ''ws://'' then drop 5 endpoint
      else if take 6 endpoint = ''wss://'' then drop 6 endpoint else endpoint)"

primrec port_loop :: "nat \<Rightarrow> string \<Rightarrow> nat option" where
  "port_loop port_value [] = Some port_value"
| "port_loop port_value (ch # port_text) =
     (if \<not> is_digit ch then None
      else if port_value * 10 + digit_value ch > 65535 then None
      else port_loop (port_value * 10 + digit_value ch) port_text)"

text \<open>\<^verbatim>\<open>rfind(':')\<close>: the last colon; \<open>None\<close> is \<^verbatim>\<open>npos\<close>.\<close>

definition rfind :: "char \<Rightarrow> string \<Rightarrow> nat option" where
  "rfind ch s = (if ch \<in> set s then Some (length s - 1 - length (takeWhile (\<lambda>c. c \<noteq> ch) (rev s))) else None)"

definition parse_websocket_endpoint :: "string \<Rightarrow> websocket_endpoint option" where
  "parse_websocket_endpoint endpoint0 =
     (let endpoint = strip_scheme endpoint0
      in if endpoint = [] then None
         else case rfind CHR '':'' endpoint of
                None \<Rightarrow> None
              | Some colon \<Rightarrow>
                  if colon = 0 \<or> colon + 1 \<ge> length endpoint then None
                  else case port_loop 0 (drop (colon + 1) endpoint) of
                         None \<Rightarrow> None
                       | Some port_value \<Rightarrow>
                           if port_value = 0 then None
                           else Some \<lparr>we_host = take colon endpoint, we_port = port_value\<rparr>)"

subsection \<open>Lines of words are read back\<close>

lemma first_line_id: "CHR 0x0D \<notin> set s \<Longrightarrow> CHR 0x0A \<notin> set s \<Longrightarrow> first_line s = s"
  by (induction s) auto

lemma first_line_spec: "first_line s = filter (\<lambda>c. c \<noteq> CHR 0x0D) (takeWhile (\<lambda>c. c \<noteq> CHR 0x0A) s)"
  by (induction s) auto

lemma tokens_line:
  assumes "list_all is_word ts"
  shows "split_tokens (first_line (join CHR '' '' ts)) = ts"
proof -
  have "CHR 0x0D \<notin> set (line_text ts)" "CHR 0x0A \<notin> set (line_text ts)"
    using join_space [OF assms, of "CHR 0x0D"] join_space [OF assms, of "CHR 0x0A"] by (auto simp: is_space_def)
  then show ?thesis using words_line [OF assms] by (simp add: first_line_id split_tokens_def)
qed

lemma line_pairs:
  "a @ '' '' @ b = join CHR '' '' [a, b]"
  "a @ '' '' @ b @ '' '' @ c @ '' '' @ d = join CHR '' '' [a, b, c, d]"
  by simp_all

lemma room_id_loop_digits:
  assumes "list_all is_digit ds" "foldl (\<lambda>v c. v * 10 + digit_value c) v ds < 2 ^ 64"
  shows "room_id_loop v ds = Some (foldl (\<lambda>v c. v * 10 + digit_value c) v ds)"
  using assms
proof (induction ds arbitrary: v)
  case (Cons d ds)
  have "v * 10 + digit_value d < 2 ^ 64"
    using digits_mono [of "v * 10 + digit_value d" ds] Cons.prems(2) by simp
  then show ?case using Cons by simp
qed simp

lemma parse_room_id_show: "n < 2 ^ 64 \<Longrightarrow> parse_room_id_token (show_nat n) = Some n"
  using show_nat_digits [of n] room_id_loop_digits [of "show_nat n" 0]
  by (simp add: parse_room_id_token_def digits_value_def)

lemma show_int_word: "is_word (show_int i)"
  using show_nat_word by (auto simp: show_int_def is_word_def is_space_def)

lemma port_loop_digits:
  assumes "list_all is_digit ds" "foldl (\<lambda>v c. v * 10 + digit_value c) v ds \<le> 65535"
  shows "port_loop v ds = Some (foldl (\<lambda>v c. v * 10 + digit_value c) v ds)"
  using assms
proof (induction ds arbitrary: v)
  case (Cons d ds)
  have "v * 10 + digit_value d \<le> 65535"
    using digits_mono [of "v * 10 + digit_value d" ds] Cons.prems(2) by simp
  then show ?case using Cons by simp
qed simp

lemma endpoint_read_back:
  assumes h: "host \<noteq> []" and p: "0 < port" "port \<le> 65535" and s: "scheme \<in> {''ws://'', ''wss://''}"
  shows "parse_websocket_endpoint (scheme @ host @ '':'' @ show_nat port) = Some \<lparr>we_host = host, we_port = port\<rparr>"
proof -
  let ?e = "host @ '':'' @ show_nat port"
  have d: "show_nat port \<noteq> []" "list_all is_digit (show_nat port)" "digits_value (show_nat port) = port"
    using show_nat_digits [of port] by auto
  have strip: "strip_scheme (scheme @ ?e) = ?e" using s by (auto simp: strip_scheme_def)
  have "takeWhile (\<lambda>c. c \<noteq> CHR '':'') (rev ?e) = rev (show_nat port)"
    using d(2) by (subst rev_append) (auto simp: takeWhile_append list_all_iff is_digit_def)
  then have "rfind CHR '':'' ?e = Some (length host)" by (simp add: rfind_def)
  then show ?thesis
    using h p d port_loop_digits [of "show_nat port" 0]
    by (simp add: parse_websocket_endpoint_def strip [simplified] digits_value_def)
qed

end
