(* ===== verification/Player_Session.thy ===== *)
theory Player_Session
  imports Piece_Token
begin

section \<open>Players, sessions and who is online\<close>

text \<open>
  \<^verbatim>\<open>server/player.cpp\<close>, \<^verbatim>\<open>server/user/user.cpp\<close>, \<^verbatim>\<open>server/player_session.h/.cpp\<close> and
  \<^verbatim>\<open>server/session_registry.cpp\<close>. A session is the server's record of one connected client: its
  place in the state machine \<^verbatim>\<open>Connected\<close> / \<^verbatim>\<open>Searching\<close> / \<^verbatim>\<open>Playing\<close>, the logged-in user with a
  cached profile, the side and room of its game, and a pointer to its connection (an address, or
  none for \<^verbatim>\<open>nullptr\<close>). Members that dereference an empty optional fault.

  The lemmas: every operation keeps the user and the profile together and lets only logged-in
  clients search; \<^verbatim>\<open>Playing\<close> is never left.
\<close>

subsection \<open>Players and users\<close>

type_synonym user_id = nat

type_synonym room_id = nat

type_synonym player_id = nat

type_synonym conn_id = nat

record player =
  pl_id :: int
  pl_username :: string
  pl_rating :: int

record user =
  us_id :: user_id
  us_username :: string

subsection \<open>Sessions\<close>

datatype player_session_state = Connected | Searching | Playing

record player_session =
  ps_id :: nat
  ps_state :: player_session_state
  ps_user_id :: "user_id option"
  ps_player_profile :: "player option"
  ps_side :: "piece_color option"
  ps_room_id :: "room_id option"
  ps_connection :: "conn_id option"

definition new_session :: "nat \<Rightarrow> conn_id option \<Rightarrow> player_session" where
  "new_session i c =
     \<lparr>ps_id = i, ps_state = Connected, ps_user_id = None, ps_player_profile = None, ps_side = None,
      ps_room_id = None, ps_connection = c\<rparr>"

definition has_user :: "player_session \<Rightarrow> bool" where
  "has_user s = (ps_user_id s \<noteq> None)"

definition assign_user :: "user_id \<Rightarrow> string \<Rightarrow> int \<Rightarrow> player_session \<Rightarrow> player_session" where
  "assign_user uid username rating s =
     s\<lparr>ps_user_id := Some uid,
       ps_player_profile :=
         Some \<lparr>pl_id = to_int32 (int uid), pl_username = username, pl_rating = rating\<rparr>\<rparr>"

definition bind_player :: "player \<Rightarrow> player_session \<Rightarrow> player_session" where
  "bind_player p s = assign_user (to_size (pl_id p)) (pl_username p) (pl_rating p) s"

definition clear_user :: "player_session \<Rightarrow> player_session" where
  "clear_user s = s\<lparr>ps_user_id := None, ps_player_profile := None\<rparr>"

definition session_user_id :: "player_session \<Rightarrow> user_id result" where
  "session_user_id s = of_option UndefinedBehaviour (ps_user_id s)"

definition session_player :: "player_session \<Rightarrow> player result" where
  "session_player s = of_option UndefinedBehaviour (ps_player_profile s)"

definition session_rating :: "player_session \<Rightarrow> int result" where
  "session_rating s = bindR (session_player s) (\<lambda>p. Inr (pl_rating p))"

definition request_play :: "player_session \<Rightarrow> player_session" where
  "request_play s =
     (if ps_state s = Connected \<and> has_user s then s\<lparr>ps_state := Searching\<rparr> else s)"

definition cancel_search :: "player_session \<Rightarrow> player_session" where
  "cancel_search s = (if ps_state s = Searching then s\<lparr>ps_state := Connected\<rparr> else s)"

definition set_playing :: "player_session \<Rightarrow> player_session" where
  "set_playing s = s\<lparr>ps_state := Playing\<rparr>"

definition set_side :: "piece_color \<Rightarrow> player_session \<Rightarrow> player_session" where
  "set_side c s = s\<lparr>ps_side := Some c\<rparr>"

definition clear_side :: "player_session \<Rightarrow> player_session" where
  "clear_side s = s\<lparr>ps_side := None\<rparr>"

definition has_side :: "player_session \<Rightarrow> bool" where
  "has_side s = (ps_side s \<noteq> None)"

definition session_side :: "player_session \<Rightarrow> piece_color result" where
  "session_side s = of_option UndefinedBehaviour (ps_side s)"

definition assign_room :: "room_id \<Rightarrow> player_session \<Rightarrow> player_session" where
  "assign_room r s = s\<lparr>ps_room_id := Some r\<rparr>"

definition clear_room :: "player_session \<Rightarrow> player_session" where
  "clear_room s = s\<lparr>ps_room_id := None\<rparr>"

definition has_room :: "player_session \<Rightarrow> bool" where
  "has_room s = (ps_room_id s \<noteq> None)"

definition session_room_id :: "player_session \<Rightarrow> room_id result" where
  "session_room_id s = of_option UndefinedBehaviour (ps_room_id s)"

subsection \<open>The registry of online users\<close>

type_synonym session_registry = "string list"

definition is_online :: "string \<Rightarrow> session_registry \<Rightarrow> bool" where
  "is_online username reg = (username \<in> set reg)"

definition register_session :: "string \<Rightarrow> session_registry \<Rightarrow> bool \<times> session_registry" where
  "register_session username reg =
     (if username = [] \<or> is_online username reg then (False, reg) else (True, username # reg))"

definition unregister_session :: "string \<Rightarrow> session_registry \<Rightarrow> session_registry" where
  "unregister_session username reg = filter (\<lambda>u. u \<noteq> username) reg"

lemma is_online_simps [simp]:
  "is_online u (snd (register_session v reg)) \<longleftrightarrow> is_online u reg \<or> (u = v \<and> v \<noteq> [])"
  "is_online u (unregister_session v reg) \<longleftrightarrow> is_online u reg \<and> u \<noteq> v"
  by (auto simp: register_session_def unregister_session_def is_online_def)

lemma register_once: "fst (register_session v reg) \<longleftrightarrow> v \<noteq> [] \<and> \<not> is_online v reg"
  by (simp add: register_session_def)

lemma registry_distinct:
  "distinct reg \<Longrightarrow> distinct (snd (register_session v reg)) \<and> distinct (unregister_session v reg)"
  by (simp add: register_session_def unregister_session_def is_online_def)

subsection \<open>The session state machine\<close>

text \<open>
  \<open>session_step\<close>: the operations other components call on a session. \<open>session_ok\<close>: user and
  profile come together and carry the same id, and who searches is logged in.
\<close>

inductive session_step :: "player_session \<Rightarrow> player_session \<Rightarrow> bool" where
  assign: "session_step s (assign_user uid u r s)"
| bind: "session_step s (bind_player p s)"
| play: "session_step s (request_play s)"
| cancel: "session_step s (cancel_search s)"
| playing: "session_step s (set_playing s)"
| side: "session_step s (set_side c s)"
| no_side: "session_step s (clear_side s)"
| room: "session_step s (assign_room rid s)"
| no_room: "session_step s (clear_room s)"

inductive_cases session_stepE: "session_step s s'"

definition session_ok :: "player_session \<Rightarrow> bool" where
  "session_ok s \<longleftrightarrow>
     (case ps_user_id s of
        None \<Rightarrow> ps_player_profile s = None \<and> ps_state s \<noteq> Searching
      | Some uid \<Rightarrow> \<exists>p. ps_player_profile s = Some p \<and> pl_id p = to_int32 (int uid))"

lemmas session_defs =
  assign_user_def bind_player_def request_play_def cancel_search_def set_playing_def set_side_def
  clear_side_def assign_room_def clear_room_def

lemma session_ok_new: "session_ok (new_session i c)"
  by (simp add: session_ok_def new_session_def)

lemma session_step_ok: "session_step s s' \<Longrightarrow> session_ok s \<Longrightarrow> session_ok s'"
  by (induction rule: session_step.induct)
    (auto simp: session_ok_def session_defs has_user_def split: option.splits)

lemma session_step_frame:
  "session_step s s' \<Longrightarrow> ps_id s' = ps_id s \<and> ps_connection s' = ps_connection s"
  by (induction rule: session_step.induct) (auto simp: session_defs)

lemma session_step_playing: "session_step s s' \<Longrightarrow> ps_state s = Playing \<Longrightarrow> ps_state s' = Playing"
  by (induction rule: session_step.induct) (auto simp: session_defs)

lemma session_step_searching:
  "session_step s s' \<Longrightarrow> ps_state s \<noteq> Searching \<Longrightarrow> ps_state s' = Searching \<Longrightarrow>
     ps_state s = Connected \<and> has_user s"
  by (induction rule: session_step.induct) (auto simp: session_defs split: if_splits)

lemma session_ok_player:
  "session_ok s \<Longrightarrow> has_user s \<Longrightarrow> \<exists>p. session_player s = Inr p"
  by (auto simp: session_ok_def has_user_def session_player_def)

end
