(* ===== verification/Client_Connection.thy ===== *)
theory Client_Connection
  imports Player_Session
begin

section \<open>Connections, the WebSocket server and the session manager\<close>

text \<open>
  \<^verbatim>\<open>server/client_connection.cpp\<close>, \<^verbatim>\<open>server/websocket_server.cpp\<close>,
  \<^verbatim>\<open>server/session/client_session_manager.cpp\<close> and \<^verbatim>\<open>server/network/session_message_sink.cpp\<close>.
  The socket and the WebSocket stream (Boost.Asio, Boost.Beast) are not code of the repository: a
  stream is a value of a type parameter and what the code asks of it are the fields of the record
  \<open>transport\<close>, each returning its answer and the stream afterwards.

  Connections live in a list owned by the WebSocket server while sessions keep pointers to them,
  so the model has a store of connections by address and a dereference of an address that is no
  longer in the store is undefined behaviour.
\<close>

subsection \<open>The transport\<close>

datatype io_error = WouldBlock | Eof | ConnectionReset | WsClosed | OtherError

record 's transport =
  tp_available :: "'s \<Rightarrow> (io_error + nat) \<times> 's"
  tp_non_blocking :: "'s \<Rightarrow> bool"
  tp_set_non_blocking :: "bool \<Rightarrow> 's \<Rightarrow> io_error option \<times> 's"
  tp_peek :: "'s \<Rightarrow> (io_error option \<times> nat) \<times> 's"
  tp_read :: "'s \<Rightarrow> (io_error + string) \<times> 's"
  tp_write :: "string \<Rightarrow> 's \<Rightarrow> io_error option \<times> 's"
  tp_close :: "'s \<Rightarrow> 's"

subsection \<open>One connection\<close>

text \<open>The flag \<^verbatim>\<open>initial_snapshot_sent_\<close> of the class is never read or written.\<close>

record 's client_connection =
  cc_ws :: 's
  cc_buffered_bytes :: nat
  cc_open :: bool

definition new_connection :: "'s \<Rightarrow> 's client_connection" where
  "new_connection ws = \<lparr>cc_ws = ws, cc_buffered_bytes = 0, cc_open = True\<rparr>"

definition masked_frame_size :: "nat \<Rightarrow> nat" where
  "masked_frame_size payload_size =
     (2 + 4 + (if payload_size > 65535 then 8 else if payload_size > 125 then 2 else 0)) + payload_size"

text \<open>The peek of one byte, with the socket in non-blocking mode around it.\<close>

definition peek_disconnect ::
  "'s transport \<Rightarrow> bool \<Rightarrow> 's client_connection \<Rightarrow> bool \<times> 's client_connection" where
  "peek_disconnect tp was_non_blocking c =
     (let ((peek_ec, peeked), ws1) = tp_peek tp (cc_ws c);
          ws2 = (if was_non_blocking then ws1 else snd (tp_set_non_blocking tp False ws1));
          c2 = c\<lparr>cc_ws := ws2\<rparr>
      in if peek_ec = Some WouldBlock then (False, c2)
         else if peek_ec = Some Eof \<or> peek_ec = Some ConnectionReset \<or> (peeked = 0 \<and> peek_ec = None)
           then (True, c2\<lparr>cc_open := False\<rparr>)
         else if peek_ec \<noteq> None then (True, c2\<lparr>cc_open := False\<rparr>)
         else (False, c2))"

definition detect_peer_disconnect ::
  "'s transport \<Rightarrow> 's client_connection \<Rightarrow> bool \<times> 's client_connection" where
  "detect_peer_disconnect tp c =
     (if \<not> cc_open c then (True, c)
      else
        (let (avail, ws1) = tp_available tp (cc_ws c); c1 = c\<lparr>cc_ws := ws1\<rparr>
         in case avail of
              Inl _ \<Rightarrow> (True, c1\<lparr>cc_open := False\<rparr>)
            | Inr available_bytes \<Rightarrow>
                if available_bytes > 0 \<or> cc_buffered_bytes c > 0 then (False, c1)
                else if tp_non_blocking tp ws1 then peek_disconnect tp True c1
                else
                  (let (nb_ec, ws2) = tp_set_non_blocking tp True ws1; c2 = c1\<lparr>cc_ws := ws2\<rparr>
                   in if nb_ec \<noteq> None then (True, c2\<lparr>cc_open := False\<rparr>)
                      else peek_disconnect tp False c2)))"

definition probe_disconnect :: "'s transport \<Rightarrow> 's client_connection \<Rightarrow> 's client_connection" where
  "probe_disconnect tp c = snd (detect_peer_disconnect tp c)"

definition update_buffered_bytes ::
  "'s transport \<Rightarrow> nat \<Rightarrow> nat \<Rightarrow> 's client_connection \<Rightarrow> 's client_connection" where
  "update_buffered_bytes tp available_before_read consumed_bytes c =
     (let (remaining, ws1) = tp_available tp (cc_ws c);
          moved_into_beast =
            (case remaining of
               Inl _ \<Rightarrow> 0
             | Inr available_after_read \<Rightarrow>
                 if available_before_read > available_after_read
                 then available_before_read - available_after_read else 0);
          reachable = cc_buffered_bytes c + moved_into_beast
      in c\<lparr>cc_ws := ws1,
           cc_buffered_bytes := (if reachable > consumed_bytes then reachable - consumed_bytes else 0)\<rparr>)"

definition try_read ::
  "'s transport \<Rightarrow> 's client_connection \<Rightarrow> string option \<times> 's client_connection" where
  "try_read tp c =
     (if \<not> cc_open c then (None, c)
      else
        (let (avail, ws1) = tp_available tp (cc_ws c); c1 = c\<lparr>cc_ws := ws1\<rparr>
         in case avail of
              Inl _ \<Rightarrow> (None, c1\<lparr>cc_buffered_bytes := 0, cc_open := False\<rparr>)
            | Inr available_bytes \<Rightarrow>
                if available_bytes = 0 \<and> cc_buffered_bytes c = 0
                then (None, snd (detect_peer_disconnect tp c1))
                else
                  (let (res, ws2) = tp_read tp ws1; c2 = c1\<lparr>cc_ws := ws2\<rparr>
                   in case res of
                        Inl WouldBlock \<Rightarrow> (None, c2)
                      | Inl _ \<Rightarrow> (None, c2\<lparr>cc_buffered_bytes := 0, cc_open := False\<rparr>)
                      | Inr message \<Rightarrow>
                          (Some message,
                           update_buffered_bytes tp available_bytes
                             (masked_frame_size (length message)) c2))))"

definition try_send ::
  "'s transport \<Rightarrow> string \<Rightarrow> 's client_connection \<Rightarrow> bool \<times> 's client_connection" where
  "try_send tp message c =
     (let (gone, c1) = detect_peer_disconnect tp c
      in if gone then (False, c1)
         else
           (let (write_ec, ws2) = tp_write tp message (cc_ws c1); c2 = c1\<lparr>cc_ws := ws2\<rparr>
            in case write_ec of
                 Some WouldBlock \<Rightarrow> (False, c2)
               | Some _ \<Rightarrow> (False, c2\<lparr>cc_open := False\<rparr>)
               | None \<Rightarrow> (True, c2)))"

definition conn_send_message ::
  "'s transport \<Rightarrow> string \<Rightarrow> 's client_connection \<Rightarrow> bool \<times> 's client_connection" where
  "conn_send_message tp message c =
     (let (write_ec, ws1) = tp_write tp message (cc_ws c); c1 = c\<lparr>cc_ws := ws1\<rparr>
      in case write_ec of
           Some WouldBlock \<Rightarrow> (False, c1)
         | Some _ \<Rightarrow> (False, c1\<lparr>cc_open := False\<rparr>)
         | None \<Rightarrow> (True, c1\<lparr>cc_open := True\<rparr>))"

definition close_connection :: "'s transport \<Rightarrow> 's client_connection \<Rightarrow> 's client_connection" where
  "close_connection tp c =
     (if \<not> cc_open c then c else c\<lparr>cc_ws := tp_close tp (cc_ws c), cc_open := False\<rparr>)"

subsection \<open>Facts about one connection\<close>

text \<open>Probing, reading and \<^verbatim>\<open>try_send\<close> never reopen a connection.\<close>

lemma detect_closed: "\<not> cc_open c \<Longrightarrow> detect_peer_disconnect tp c = (True, c)"
  by (simp add: detect_peer_disconnect_def)

lemma peek_open: "fst (peek_disconnect tp b c) = (\<not> cc_open (snd (peek_disconnect tp b c)))"
  if "cc_open c"
  using that by (auto simp: peek_disconnect_def Let_def split: prod.splits)

lemma detect_open: "fst (detect_peer_disconnect tp c) = (\<not> cc_open (snd (detect_peer_disconnect tp c)))"
  by (auto simp: detect_peer_disconnect_def Let_def peek_open split: prod.splits sum.splits)

lemma never_reopened:
  assumes "\<not> cc_open c"
  shows "probe_disconnect tp c = c" "try_read tp c = (None, c)" "try_send tp m c = (False, c)"
    "close_connection tp c = c"
  using assms
  by (simp_all add: probe_disconnect_def detect_closed try_read_def try_send_def close_connection_def)

lemma delivered_open: "fst (try_send tp m c) \<Longrightarrow> cc_open (snd (try_send tp m c))"
  using detect_open [of tp c]
  by (auto simp: try_send_def Let_def split: prod.splits option.splits io_error.splits)

lemma update_buffered_open [simp]: "cc_open (update_buffered_bytes tp a k c) = cc_open c"
  by (simp add: update_buffered_bytes_def Let_def split: prod.splits)

text \<open>
  The byte accounting: if \<open>pending\<close> bytes were in the stream's own buffer and the read moved
  \<open>moved\<close> more there while others may have arrived on the socket, the counter stays a lower
  bound of what is pending after \<open>consumed\<close> bytes were delivered.
\<close>

lemma buffered_lower_bound:
  assumes "cc_buffered_bytes c \<le> pending" "consumed \<le> pending + moved"
    and "tp_available tp (cc_ws c) = (Inr after, ws)" "before \<le> after + moved"
  shows "cc_buffered_bytes (update_buffered_bytes tp before consumed c) \<le> pending + moved - consumed"
  using assms by (auto simp: update_buffered_bytes_def Let_def)

end
