(* ===== verification/Websocket_Client.thy ===== *)
theory Websocket_Client
  imports Client_Readers Client_Connection
begin

section \<open>The client's connection and its login\<close>

text \<open>
  \<^verbatim>\<open>network/websocket_client.cpp\<close>, \<^verbatim>\<open>network/network_input_handler.cpp\<close>,
  \<^verbatim>\<open>network/network_login_session.cpp\<close> and \<^verbatim>\<open>network/network_game_redirect_flow.cpp\<close>. The stream
  is the type parameter of the server's connections, asked through the same record \<open>transport\<close>:
  \<open>WouldBlock\<close> of a read or a write is any of the transient errors, of a peek it is
  \<^verbatim>\<open>would_block\<close>. Resolving, connecting and the handshake are one parameter \<open>dial\<close> on the state
  of the network. The code compiled for tests only (\<^verbatim>\<open>KFC_TEST_BUILD\<close>) is left out.

  The lemmas: a client that is not connected sends and receives nothing and changes nothing, only
  dialling connects it, and the login session sends \<^verbatim>\<open>play\<close> only after the server's \<^verbatim>\<open>login_ok\<close>.
\<close>

subsection \<open>The client\<close>

record 's websocket_client =
  wc_host :: string
  wc_port :: nat
  wc_ws :: "'s option"
  wc_buffered_bytes :: nat
  wc_connected :: bool

definition new_client :: "string \<Rightarrow> nat \<Rightarrow> 's websocket_client" where
  "new_client host port =
     \<lparr>wc_host = host, wc_port = port, wc_ws = None, wc_buffered_bytes = 0, wc_connected = False\<rparr>"

type_synonym ('s, 'n) dial = "string \<Rightarrow> nat \<Rightarrow> 'n \<Rightarrow> (io_error + 's) \<times> 'n"

definition client_connect ::
  "('s, 'n) dial \<Rightarrow> 's websocket_client \<times> 'n \<Rightarrow> ('s websocket_client \<times> 'n) result" where
  "client_connect dial = (\<lambda>(c, net).
     if wc_connected c then Inr (c, net)
     else case dial (wc_host c) (wc_port c) net of
            (Inl _, net') \<Rightarrow> Inl RuntimeError
          | (Inr ws, net') \<Rightarrow>
              Inr (c\<lparr>wc_ws := Some ws, wc_buffered_bytes := 0, wc_connected := True\<rparr>, net'))"

text \<open>The stream is closed and destroyed.\<close>

definition client_disconnect :: "'s websocket_client \<Rightarrow> 's websocket_client" where
  "client_disconnect c =
     (case wc_ws c of
        None \<Rightarrow> c\<lparr>wc_connected := False\<rparr>
      | Some _ \<Rightarrow> c\<lparr>wc_ws := None, wc_buffered_bytes := 0, wc_connected := False\<rparr>)"

definition connect_to_game_server ::
  "('s, 'n) dial \<Rightarrow> string \<Rightarrow> 's websocket_client \<times> 'n \<Rightarrow> ('s websocket_client \<times> 'n) result" where
  "connect_to_game_server dial endpoint = (\<lambda>(c, net).
     case parse_websocket_endpoint endpoint of
       None \<Rightarrow> Inl InvalidArgument
     | Some parsed \<Rightarrow>
         client_connect dial
           ((client_disconnect c)\<lparr>wc_host := we_host parsed, wc_port := we_port parsed\<rparr>, net))"

definition client_try_send ::
  "'s transport \<Rightarrow> string \<Rightarrow> 's websocket_client \<Rightarrow> (bool \<times> 's websocket_client) result" where
  "client_try_send tp message c =
     (case (wc_connected c, wc_ws c) of
        (True, Some ws) \<Rightarrow>
          (let (write_ec, ws1) = tp_write tp message ws; c1 = c\<lparr>wc_ws := Some ws1\<rparr>
           in if write_ec = Some WouldBlock then Inr (False, c1)
              else if write_ec = Some WsClosed \<or> write_ec = Some Eof
                then Inr (False, c1\<lparr>wc_connected := False\<rparr>)
              else if write_ec \<noteq> None then Inl RuntimeError
              else Inr (True, c1))
      | _ \<Rightarrow> Inr (False, c))"

definition unmasked_frame_size :: "nat \<Rightarrow> nat" where
  "unmasked_frame_size payload_size =
     (2 + (if payload_size > 65535 then 8 else if payload_size > 125 then 2 else 0)) + payload_size"

definition client_update_buffered ::
  "'s transport \<Rightarrow> nat \<Rightarrow> nat \<Rightarrow> 's \<Rightarrow> 's websocket_client \<Rightarrow> 's websocket_client" where
  "client_update_buffered tp available_before_read consumed_bytes ws c =
     (let (remaining, ws1) = tp_available tp ws;
          moved_into_beast =
            (case remaining of
               Inl _ \<Rightarrow> 0
             | Inr available_after_read \<Rightarrow>
                 if available_before_read > available_after_read
                 then available_before_read - available_after_read else 0);
          reachable = wc_buffered_bytes c + moved_into_beast
      in c\<lparr>wc_ws := Some ws1,
           wc_buffered_bytes := (if reachable > consumed_bytes then reachable - consumed_bytes else 0)\<rparr>)"

text \<open>The peek before a read when nothing is known to be pending: whether to go on, and the stream.\<close>

datatype peek_outcome = PeekData | PeekNothing | PeekGone

definition peek_byte :: "'s transport \<Rightarrow> bool \<Rightarrow> 's \<Rightarrow> peek_outcome \<times> 's" where
  "peek_byte tp was_non_blocking ws =
     (let ((peek_ec, peeked), ws1) = tp_peek tp ws;
          ws2 = (if was_non_blocking then ws1 else snd (tp_set_non_blocking tp False ws1))
      in (if peek_ec = Some WouldBlock then PeekNothing
          else if peek_ec = Some Eof \<or> peek_ec = Some ConnectionReset \<or> (peeked = 0 \<and> peek_ec = None)
            then PeekGone
          else if peek_ec \<noteq> None then PeekGone
          else PeekData, ws2))"

definition peek_pending :: "'s transport \<Rightarrow> 's \<Rightarrow> peek_outcome \<times> 's" where
  "peek_pending tp ws =
     (if tp_non_blocking tp ws then peek_byte tp True ws
      else
        (let (nb_ec, ws1) = tp_set_non_blocking tp True ws
         in if nb_ec \<noteq> None then (PeekGone, ws1) else peek_byte tp False ws1))"

definition client_read ::
  "'s transport \<Rightarrow> nat \<Rightarrow> 's \<Rightarrow> 's websocket_client \<Rightarrow> (string option \<times> 's websocket_client) result" where
  "client_read tp available_bytes ws c =
     (case tp_read tp ws of
        (Inl WouldBlock, ws1) \<Rightarrow> Inr (None, c\<lparr>wc_ws := Some ws1\<rparr>)
      | (Inl OtherError, ws1) \<Rightarrow> Inl RuntimeError
      | (Inl _, ws1) \<Rightarrow> Inr (None, c\<lparr>wc_ws := Some ws1, wc_buffered_bytes := 0, wc_connected := False\<rparr>)
      | (Inr message, ws1) \<Rightarrow>
          Inr (Some message,
               client_update_buffered tp available_bytes (unmasked_frame_size (length message)) ws1 c))"

definition try_receive_snapshot ::
  "'s transport \<Rightarrow> 's websocket_client \<Rightarrow> (string option \<times> 's websocket_client) result" where
  "try_receive_snapshot tp c =
     (case (wc_connected c, wc_ws c) of
        (True, Some ws) \<Rightarrow>
          (case tp_available tp ws of
             (Inl _, ws1) \<Rightarrow>
               Inr (None, c\<lparr>wc_ws := Some ws1, wc_buffered_bytes := 0, wc_connected := False\<rparr>)
           | (Inr available_bytes, ws1) \<Rightarrow>
               if available_bytes = 0 \<and> wc_buffered_bytes c = 0
               then (case peek_pending tp ws1 of
                       (PeekNothing, ws2) \<Rightarrow> Inr (None, c\<lparr>wc_ws := Some ws2\<rparr>)
                     | (PeekGone, ws2) \<Rightarrow> Inr (None, c\<lparr>wc_ws := Some ws2, wc_connected := False\<rparr>)
                     | (PeekData, ws2) \<Rightarrow> client_read tp available_bytes ws2 c)
               else client_read tp available_bytes ws1 c)
      | _ \<Rightarrow> Inr (None, c))"

subsection \<open>The login session\<close>

datatype network_login_phase = LoginConnected | LoginSent | LoginOk | PlayRequested | LoginFailed

record network_login_session =
  nls_phase :: network_login_phase
  nls_failure_reason :: string
  nls_rating :: int

definition new_login_session :: network_login_session where
  "new_login_session = \<lparr>nls_phase = LoginConnected, nls_failure_reason = '''', nls_rating = 0\<rparr>"

text \<open>The process id is the operating system's.\<close>

definition resolve_username :: "int \<Rightarrow> string \<Rightarrow> string" where
  "resolve_username pid username_input =
     (if username_input \<noteq> [] then username_input else ''Player'' @ show_int pid)"

definition session_send_login ::
  "'s transport \<Rightarrow> int \<Rightarrow> string \<Rightarrow> network_login_session \<times> 's websocket_client \<Rightarrow>
   (bool \<times> network_login_session \<times> 's websocket_client) result" where
  "session_send_login tp pid username_input = (\<lambda>(ls, c).
     if nls_phase ls \<noteq> LoginConnected then Inr (False, ls, c)
     else
       (let login_name = resolve_username pid username_input
        in bindR (client_try_send tp (send_login login_name login_name) c)
             (\<lambda>(sent, c'). Inr (if sent then (True, ls\<lparr>nls_phase := LoginSent\<rparr>, c') else (False, ls, c')))))"

definition session_handle_message :: "string \<Rightarrow> network_login_session \<Rightarrow> network_login_session" where
  "session_handle_message message ls =
     (if nls_phase ls \<noteq> LoginSent then ls
      else case read_login_message message of
             None \<Rightarrow> ls
           | Some res \<Rightarrow>
               if lres_status res = StatusOk
               then ls\<lparr>nls_rating := lres_rating res, nls_phase := LoginOk\<rparr>
               else ls\<lparr>nls_failure_reason := lres_failure_reason res, nls_phase := LoginFailed\<rparr>)"

definition try_send_play ::
  "'s transport \<Rightarrow> network_login_session \<times> 's websocket_client \<Rightarrow>
   (bool \<times> network_login_session \<times> 's websocket_client) result" where
  "try_send_play tp = (\<lambda>(ls, c).
     if nls_phase ls \<noteq> LoginOk then Inr (False, ls, c)
     else bindR (client_try_send tp send_play c)
       (\<lambda>(sent, c'). Inr (if sent then (True, ls\<lparr>nls_phase := PlayRequested\<rparr>, c') else (False, ls, c'))))"

definition session_reset :: "network_login_session \<Rightarrow> network_login_session" where
  "session_reset ls = ls\<lparr>nls_phase := LoginConnected, nls_failure_reason := '''', nls_rating := 0\<rparr>"

subsection \<open>Switching to the game server\<close>

record redirect_flow =
  rf_lobby_closed :: bool
  rf_game_connected :: bool
  rf_join_game_sent :: bool

text \<open>The flow, with the two clients it holds references to.\<close>

definition redirect_execute ::
  "'s transport \<Rightarrow> ('s, 'n) dial \<Rightarrow> game_redirect_info \<Rightarrow>
   's websocket_client \<times> 's websocket_client \<times> 'n \<Rightarrow>
   (redirect_flow \<times> 's websocket_client \<times> 's websocket_client \<times> 'n) result" where
  "redirect_execute tp dial redirect = (\<lambda>(lobby, game, net).
     let lobby1 = (if wc_connected lobby then client_disconnect lobby else lobby)
     in bindR (connect_to_game_server dial (gr_endpoint redirect) (game, net))
       (\<lambda>(game1, net1).
          if \<not> wc_connected game1
          then Inr (\<lparr>rf_lobby_closed = True, rf_game_connected = False, rf_join_game_sent = False\<rparr>,
                    lobby1, game1, net1)
          else bindR (client_try_send tp (send_join_game (gr_room_id redirect)) game1)
            (\<lambda>(sent, game2).
               Inr (\<lparr>rf_lobby_closed = True, rf_game_connected = True, rf_join_game_sent = sent\<rparr>,
                    lobby1, game2, net1))))"

subsection \<open>Facts about the client\<close>

definition client_inv :: "'s websocket_client \<Rightarrow> bool" where
  "client_inv c \<longleftrightarrow> (wc_connected c \<longrightarrow> wc_ws c \<noteq> None)"

lemma offline_client:
  assumes "\<not> wc_connected c"
  shows "client_try_send tp m c = Inr (False, c)" "try_receive_snapshot tp c = Inr (None, c)"
  using assms by (simp_all add: client_try_send_def try_receive_snapshot_def)

lemma sent_is_connected:
  "client_try_send tp m c = Inr (True, c') \<Longrightarrow> wc_connected c \<and> wc_connected c'"
  by (auto simp: client_try_send_def Let_def split: prod.splits option.splits bool.splits if_splits)

lemma received_is_connected:
  "try_receive_snapshot tp c = Inr (Some m, c') \<Longrightarrow> wc_connected c"
  by (auto simp: try_receive_snapshot_def split: bool.splits)

lemma client_inv_steps:
  assumes "client_inv c"
  shows "client_try_send tp m c = Inr (x, c') \<Longrightarrow> client_inv c'"
    "try_receive_snapshot tp c = Inr (y, c') \<Longrightarrow> client_inv c'"
    "client_connect dial (c, net) = Inr (c', net') \<Longrightarrow> client_inv c' \<and> wc_connected c'"
    "connect_to_game_server dial e (c, net) = Inr (c', net') \<Longrightarrow> client_inv c' \<and> wc_connected c'"
    "client_inv (client_disconnect c)"
proof -
  show "client_inv c'" if "client_try_send tp m c = Inr (x, c')"
    using assms that
    by (auto simp: client_try_send_def Let_def client_inv_def split: prod.splits option.splits bool.splits if_splits)
  show "client_inv c'" if "try_receive_snapshot tp c = Inr (y, c')"
    using assms that
    by (auto simp: try_receive_snapshot_def client_read_def client_update_buffered_def client_inv_def Let_def
        split: prod.splits option.splits bool.splits if_splits sum.splits peek_outcome.splits io_error.splits)
  have conn: "client_inv c' \<and> wc_connected c'"
    if "client_inv c0" "client_connect dial (c0, net) = Inr (c', net')" for c0
    using that by (auto simp: client_connect_def client_inv_def split: prod.splits if_splits sum.splits)
  then show "client_inv c' \<and> wc_connected c'" if "client_connect dial (c, net) = Inr (c', net')"
    using assms that by blast
  show "client_inv c' \<and> wc_connected c'" if r: "connect_to_game_server dial e (c, net) = Inr (c', net')"
  proof -
    obtain p :: websocket_endpoint where "client_connect dial ((client_disconnect c)\<lparr>wc_host := we_host p, wc_port := we_port p\<rparr>, net) =
        Inr (c', net')"
      using r by (auto simp: connect_to_game_server_def split: option.splits)
    then show ?thesis by (rule conn [rotated]) (simp add: client_inv_def client_disconnect_def split: option.splits)
  qed
  show "client_inv (client_disconnect c)"
    by (simp add: client_inv_def client_disconnect_def split: option.splits)
qed

text \<open>The byte accounting of the client is a lower bound of what is pending, as on the server.\<close>

lemma client_buffered_lower_bound:
  assumes "wc_buffered_bytes c \<le> pending" "consumed \<le> pending + moved"
    and "tp_available tp ws = (Inr left, ws')" "before \<le> left + moved"
  shows "wc_buffered_bytes (client_update_buffered tp before consumed ws c) \<le> pending + moved - consumed"
  using assms by (auto simp: client_update_buffered_def Let_def)

end
