(* ===== verification/Game_View.thy ===== *)
theory Game_View
  imports Snapshot_Reader Message_Parser
begin

section \<open>What a client sees of a running game\<close>

text \<open>
  The invariant that makes the view of a game trustworthy, on top of \<open>game_inv\<close>: the owner of a
  rest stands on the cell written in the rest or was captured since, no rest is over, and no live
  or scheduled piece has the sentinel kind \<^verbatim>\<open>Count\<close>. It holds in every reachable state. Its
  consequences: the snapshot of a reachable game is always readable, and the questions the client
  asks of the view have the answers the server gives about the game.
\<close>

subsection \<open>The invariant\<close>

definition view_inv :: "game_state \<Rightarrow> bool" where
  "view_inv g \<longleftrightarrow>
     (let ms = ra_scheduler (gs_arbiter g); b = gs_board g
      in rests_ok ms b \<and> (\<forall>x \<in> set (ms_active_rests ms). ra_clock_ms (gs_arbiter g) < ar_end_time_ms (snd x)) \<and>
         (\<forall>i. valid_id b i \<longrightarrow> pc_state (piece_of b i) \<noteq> Captured \<longrightarrow> pc_kind (piece_of b i) \<noteq> Count) \<and>
         (\<forall>m \<in> set (ms_pending_moves ms). pm_kind m \<noteq> Count) \<and>
         (\<forall>j \<in> set (ms_active_jumps ms). js_kind j \<noteq> Count))"

lemma evolves_playable:
  assumes "evolves b b'" "valid_id b i" "pc_state (piece_of b' i) \<noteq> Captured"
    and "pc_state (piece_of b i) \<noteq> Captured \<longrightarrow> pc_kind (piece_of b i) \<noteq> Count"
  shows "pc_kind (piece_of b' i) \<noteq> Count"
  using assms unfolding evolves_def by (metis piece_kind.distinct)

lemma rests_not_busy:
  assumes inv: "game_inv g" "view_inv g" and rc: "is_in_bounds (gs_board g) r c"
      "cell_at (gs_board g) r c = Some i" "\<not> busy g r c"
  shows "i \<notin> fst ` set (ms_active_rests (ra_scheduler (gs_arbiter g)))"
proof
  assume "i \<in> fst ` set (ms_active_rests (ra_scheduler (gs_arbiter g)))"
  then obtain rest where x: "(i, rest) \<in> set (ms_active_rests (ra_scheduler (gs_arbiter g)))" by auto
  moreover have "distinct (map fst (ms_active_rests (ra_scheduler (gs_arbiter g))))"
    using inv(1) by (simp add: game_inv_def arbiter_inv_def)
  ultimately have "arb_is_piece_resting (gs_arbiter g) i"
    using inv(2) by (auto simp: arb_is_piece_resting_def sched_is_piece_resting_def view_inv_def Let_def)
  then show False using rc by (simp add: busy_def)
qed

lemma rests_lifted:
  assumes inv: "game_inv g" "view_inv g" and rc: "is_in_bounds (gs_board g) r c"
      "cell_at (gs_board g) r c = Some i" "\<not> busy g r c"
  shows "rests_ok (ra_scheduler (gs_arbiter g)) (lifted (gs_board g) r c i)"
proof -
  note wf = game_inv_wf [OF inv(1)]
  have v: "valid_id (gs_board g) i" using wf_cell_valid [OF wf rc(1,2)] .
  have "rest_ok (lifted (gs_board g) r c i) (j, rest)"
    if x: "(j, rest) \<in> set (ms_active_rests (ra_scheduler (gs_arbiter g)))" for j rest
  proof -
    have "j \<noteq> i" using rests_not_busy [OF assms] x by force
    moreover have "rest_ok (gs_board g) (j, rest)"
      using inv(2) x by (auto simp: view_inv_def Let_def rests_ok_def)
    ultimately show ?thesis
      using rc v wf by (auto simp: rest_ok_def cell_at_lifted piece_of_lifted)
  qed
  then show ?thesis by (auto simp: rests_ok_def)
qed

lemma rests_schedule_flight [simp]:
  "rests_ok (schedule_move m ms) b = rests_ok ms b" "rests_ok (schedule_jump j ms) b = rests_ok ms b"
  by (simp_all add: schedule_move_def schedule_jump_def)

lemma view_inv_requests:
  assumes inv: "game_inv g" "view_inv g" and rc: "is_in_bounds (gs_board g) r c"
      "cell_at (gs_board g) r c = Some i" "\<not> busy g r c"
  shows "view_inv (g\<lparr>gs_board := lifted (gs_board g) r c i,
      gs_arbiter := request_move i col (pc_kind (piece_of (gs_board g) i)) src dst d (gs_arbiter g),
      gs_selected := s\<rparr>)"
    "view_inv (g\<lparr>gs_board := lifted (gs_board g) r c i,
      gs_arbiter := request_jump i col (pc_kind (piece_of (gs_board g) i)) cl d (gs_arbiter g),
      gs_selected := s\<rparr>)"
proof -
  have f: "valid_id (gs_board g) i" "pc_state (piece_of (gs_board g) i) = Idle"
    using flight_cell [OF game_inv_flight [OF inv(1)] rc(1,2)] by simp_all
  have k: "pc_kind (piece_of (gs_board g) i) \<noteq> Count"
    using inv(2) f by (simp add: view_inv_def Let_def)
  have p: "pc_kind (piece_of (lifted (gs_board g) r c i) j) \<noteq> Count"
    if "valid_id (gs_board g) j" "pc_state (piece_of (lifted (gs_board g) r c i) j) \<noteq> Captured" for j
    using evolves_playable [OF evolves_lifted [OF f] that] inv(2) that(1) by (simp add: view_inv_def Let_def)
  show "view_inv (g\<lparr>gs_board := lifted (gs_board g) r c i,
      gs_arbiter := request_move i col (pc_kind (piece_of (gs_board g) i)) src dst d (gs_arbiter g),
      gs_selected := s\<rparr>)"
    "view_inv (g\<lparr>gs_board := lifted (gs_board g) r c i,
      gs_arbiter := request_jump i col (pc_kind (piece_of (gs_board g) i)) cl d (gs_arbiter g),
      gs_selected := s\<rparr>)"
    using inv(2) p k rests_lifted [OF assms]
    by (auto simp: view_inv_def Let_def request_move_def request_jump_def) (auto simp: schedule_move_def schedule_jump_def)
qed

lemma view_inv_select [simp]:
  "view_inv (g\<lparr>gs_selected := s\<rparr>) = view_inv g" "view_inv (select r c g) = view_inv g"
  "view_inv (clear_selection g) = view_inv g"
  by (simp_all add: view_inv_def select_def clear_selection_def)

lemma view_inv_jump_at:
  assumes "game_inv g" "view_inv g"
  shows "ensures (jump_at r c g) view_inv"
proof -
  have "view_inv (g\<lparr>gs_board := lifted (gs_board g) r c i,
      gs_arbiter := request_jump i col (pc_kind (piece_of (gs_board g) i)) cl d (gs_arbiter g)\<rparr>)"
    if "is_in_bounds (gs_board g) r c" "cell_at (gs_board g) r c = Some i" "\<not> busy g r c" for i col cl d
    using view_inv_requests(2) [OF assms that, where s = "gs_selected g"] by (simp add: view_inv_def)
  then show ?thesis
    unfolding jump_at_ok [OF game_inv_wf [OF assms(1)]] using assms(2) by (auto split: option.splits)
qed

context game_policy
begin

lemma view_inv_step:
  assumes inv: "game_inv g" "view_inv g" and r: "gs_rules g = rules"
  shows "ensures (apply_action a g) view_inv"
proof (cases a)
  case (MoveSelected tr tc)
  have "view_inv (launched g src (tr, tc) i)" if "accepts_move g src (tr, tc) i" for src i
    unfolding launched_def using that by (intro view_inv_requests [OF inv]) (auto simp: accepts_move_def)
  with MoveSelected move_selected_to_ok [OF game_inv_wf [OF inv(1)] r, of "(tr, tc)"] inv
  show ?thesis by (auto split: option.splits)
next
  case JumpSelected
  with view_inv_jump_at [OF inv] inv show ?thesis
    by (auto simp: jump_selected_def split: option.splits elim!: ensures_mono)
next
  case (AdvanceClock ms)
  from add_clock_step [OF inv(1) r, of ms] have "ensures (add_clock ms g) view_inv"
  proof (rule ensures_mono)
    fix g' :: game_state
    let ?ms = "ra_scheduler (gs_arbiter g)" and ?ms' = "ra_scheduler (gs_arbiter g')"
    assume s: "game_step_ok g g' \<and> ra_clock_ms (gs_arbiter g') = ra_clock_ms (gs_arbiter g) + ms \<and>
           quiescent (ra_clock_ms (gs_arbiter g')) ?ms' \<and>
           set (ms_pending_moves ?ms') \<subseteq> set (ms_pending_moves ?ms) \<and>
           set (ms_active_jumps ?ms') \<subseteq> set (ms_active_jumps ?ms) \<and>
           (rests_ok ?ms (gs_board g) \<longrightarrow> rests_ok ?ms' (gs_board g'))"
    then have e: "evolves (gs_board g) (gs_board g')" by (simp add: game_step_ok_def)
    have "pc_kind (piece_of (gs_board g') i) \<noteq> Count"
      if "valid_id (gs_board g') i" "pc_state (piece_of (gs_board g') i) \<noteq> Captured" for i
      using evolves_playable [OF e _ that(2)] evolves_valid [OF e] that(1) inv(2)
      by (simp add: view_inv_def Let_def)
    then show "view_inv g'"
      using s inv(2) by (auto simp: view_inv_def Let_def quiescent_def split_def)
  qed
  with AdvanceClock show ?thesis by simp
qed (use inv view_inv_jump_at in simp_all)

lemma reachable_view_inv:
  assumes "reachable g0 g" "game_inv g0" "gs_rules g0 = rules" "view_inv g0"
  shows "view_inv g"
  using assms
proof (induction rule: reachable.induct)
  case (step g a g')
  have "game_step_ok g0 g" using reachable_ok [OF step.hyps(1) step.prems(1,2)] .
  then show ?case using step view_inv_step [of g a] by (simp add: game_step_ok_def)
qed

end

text \<open>A board read from tokens has no piece of the sentinel kind.\<close>

definition playable :: "board_model \<Rightarrow> bool" where
  "playable b \<longleftrightarrow> (\<forall>p \<in> set (pieces b). pc_kind p \<noteq> Count)"

lemma store_playable: "store_piece b p = Inr b' \<Longrightarrow> playable b \<Longrightarrow> pc_kind p \<noteq> Count \<Longrightarrow> playable b'"
  using set_update_subset_insert [of "pieces b" "pc_id p - 1" p]
  by (auto simp: store_piece_def playable_def split: if_splits)

lemma append_tokens_playable:
  "append_tokens r ts c (row, b, f) = Inr (row', b', f') \<Longrightarrow> playable b \<Longrightarrow> playable b'"
proof (induction ts arbitrary: c row b f)
  case (Cons t ts)
  show ?case
  proof (cases "is_empty_token t")
    case True
    with Cons.prems Cons.IH [of "c + 1" "row @ [None]" b f] show ?thesis by simp
  next
    case False
    then obtain d where d: "descriptor_from_token t = Some d"
      using Cons.prems(1) by (auto split: option.splits)
    then have "pd_kind d \<noteq> Count" by (simp add: descriptor_from_token_SomeD)
    moreover obtain p f1 b1 where p: "factory_create f (pd_color d) (pd_kind d)
        \<lparr>pos_row = int r, pos_col = int c\<rparr> Idle = (p, f1)" "store_piece b p = Inr b1"
      "append_tokens r ts (c + 1) (row @ [Some (pc_id (last (pieces b1)))], b1, f1) = Inr (row', b', f')"
      using Cons.prems(1) False d by (auto simp: bindR_Inr_iff split: prod.splits)
    ultimately have "playable b1" using store_playable [OF p(2)] Cons.prems(2) by (auto simp: factory_create_def)
    then show ?thesis by (rule Cons.IH [OF p(3)])
  qed
qed simp

lemma append_token_rows_playable:
  "append_token_rows rs r (b, f) = Inr (b', f') \<Longrightarrow> playable b \<Longrightarrow> playable b'"
proof (induction rs arbitrary: r b f)
  case (Cons ts rs)
  then obtain row b1 f1 where a: "append_tokens r ts 0 ([], b, f) = Inr (row, b1, f1)"
    "append_token_rows rs (r + 1) (b1\<lparr>cells := cells b1 @ [row]\<rparr>, f1) = Inr (b', f')"
    by (auto simp: append_token_row_def bindR_Inr_iff)
  have "playable (b1\<lparr>cells := cells b1 @ [row]\<rparr>)"
    using append_tokens_playable [OF a(1) Cons.prems(2)] by (simp add: playable_def)
  then show ?case by (rule Cons.IH [OF a(2)])
qed simp

lemma from_token_grid_playable: "from_token_grid ts = Inr b \<Longrightarrow> playable b"
  using append_token_rows_playable [of ts 0 empty_board 1 b]
  by (auto simp: from_token_grid_def bindR_Inr_iff playable_def empty_board_def)

lemma new_game_view_inv: "playable b \<Longrightarrow> view_inv (new_game b)"
  by (auto simp: view_inv_def Let_def new_game_def new_game_with_def new_arbiter_def empty_scheduler_def
      rests_ok_def playable_def piece_of_def valid_id_def)

subsection \<open>The snapshot of a reachable game is readable\<close>

text \<open>The sizes and the clock fit the reader's signed 64-bit integers, and the board has a row.\<close>

definition fits_wire :: "game_state \<Rightarrow> bool" where
  "fits_wire g \<longleftrightarrow>
     0 \<le> ra_clock_ms (gs_arbiter g) \<and> ra_clock_ms (gs_arbiter g) < 2 ^ 63 \<and> 0 < rows (gs_board g) \<and>
     rows (gs_board g) < 2 ^ 63 \<and> cols (gs_board g) < 2 ^ 63 \<and> length (pieces (gs_board g)) < 2 ^ 63"

lemma fits_bounds:
  assumes "fits_wire g"
  shows "is_in_bounds (gs_board g) r c \<Longrightarrow> size63 r \<and> size63 c" "valid_id (gs_board g) i \<Longrightarrow> size63 i"
  using assms by (auto simp: fits_wire_def is_in_bounds_iff valid_id_def size63_def)

lemma view_animations_fit:
  assumes inv: "game_inv g" "view_inv g" and fit: "fits_wire g"
  shows "animations_fit (game_animations_for_render g)"
proof -
  let ?ms = "ra_scheduler (gs_arbiter g)"
  have s: "sched_inv (ms_pending_moves ?ms) (ms_active_jumps ?ms) (gs_board g)"
    using inv(1) by (simp add: game_inv_def arbiter_inv_def)
  have id: "valid_id (gs_board g) i" if "i \<in> set (in_flight (ms_pending_moves ?ms) (ms_active_jumps ?ms))" for i
    using flight_valid [OF sched_flight [OF s] that] .
  note b = fits_bounds [OF fit]
  have m: "size63 (pm_piece_id m) \<and> size63 (fst (pm_start_pos m)) \<and> size63 (snd (pm_start_pos m)) \<and>
      size63 (fst (pm_end_pos m)) \<and> size63 (snd (pm_end_pos m)) \<and> pm_kind m \<noteq> Count"
    if "m \<in> set (ms_pending_moves ?ms)" for m
    using that s inv(2) id [of "pm_piece_id m"] b
    by (auto simp: sched_inv_def move_ok_def view_inv_def Let_def in_flight_def)
  have j: "size63 (js_piece_id j) \<and> size63 (fst (js_cell j)) \<and> size63 (snd (js_cell j)) \<and> js_kind j \<noteq> Count"
    if "j \<in> set (ms_active_jumps ?ms)" for j
    using that s inv(2) id [of "js_piece_id j"] b
    by (auto simp: sched_inv_def jump_ok_def view_inv_def Let_def in_flight_def)
  have r: "size63 (fst x) \<and> size63 (ar_row (snd x)) \<and> size63 (ar_col (snd x))"
    if "x \<in> set (ms_active_rests ?ms)" for x
  proof -
    have "rest_ok (gs_board g) x" using that inv(2) by (simp add: view_inv_def Let_def rests_ok_def)
    then show ?thesis using b by (cases x) (auto simp: rest_ok_def)
  qed
  show ?thesis
    using m j r
    by (auto simp: game_animations_for_render_def animations_for_render_def animations_at_def animations_fit_def
        list_all_iff move_fits_def jump_fits_def rest_fits_def progress_unit split_def)
qed

lemma view_cells_fit:
  assumes "wf_board (gs_board g)"
  shows "cells_fit (view_model g)"
  by (auto simp: cells_fit_def view_model_def board_cells_def view_of_def dest: descriptor_from_token_SomeD)

lemma view_model_fits:
  assumes "game_inv g" "view_inv g" "fits_wire g"
  shows "view_fits (view_model g)"
  using assms view_animations_fit [OF assms] view_cells_fit [OF game_inv_wf [OF assms(1)]] fits_bounds [OF assms(3)]
  by (auto simp: view_fits_def view_model_def fits_wire_def size63_def game_inv_def)

lemma snapshot_received:
  assumes "game_inv g" "view_inv g" "fits_wire g" "rows (gs_board g) * cols (gs_board g) \<le> capacity"
  shows "build g = Inr (view_model g)"
    "read_snapshot capacity (write_snapshot (view_model g)) = Inr (Some (received (view_model g)))"
  using build_ok [OF game_inv_wf [OF assms(1)]] read_snapshot_write [OF view_model_fits [OF assms(1-3)]] assms(4)
  by (simp_all add: view_model_def)

subsection \<open>Questions to the view\<close>

lemma view_frame [simp]:
  "bv_height (received v) = bv_height v" "bv_width (received v) = bv_width v"
  "bv_game_over (received v) = bv_game_over v" "bv_selection (received v) = bv_selection v"
  "bv_cells (received v) = bv_cells v"
  by (simp_all add: received_def)

lemma received_piece: "board_view_piece_at (received v) r c = board_view_piece_at v r c"
  by (simp add: received_def board_view_piece_at_def board_view_cell_at_def Let_def)

lemma view_model_fields [simp]:
  "bv_height (view_model g) = rows (gs_board g)" "bv_width (view_model g) = cols (gs_board g)"
  "bv_game_over (view_model g) = gs_game_over g" "bv_selection (view_model g) = gs_selected g"
  by (simp_all add: view_model_def)

lemma view_piece:
  "board_view_piece_at (view_model g) r c =
     (if is_in_bounds (gs_board g) r c then view_of (gs_board g) (r, c) else None)"
  using view_cell [of r g c] by (auto simp: board_view_piece_at_def is_in_bounds_iff)
    (simp_all add: board_view_cell_at_def)

lemma view_of_color: "map_option pv_color (view_of b (r, c)) = map_option (\<lambda>i. pc_color (piece_of b i)) (cell_at b r c)"
proof (cases "cell_at b r c")
  case None
  then show ?thesis by (simp add: view_of_def token_of_def token_defs)
next
  case (Some i)
  then show ?thesis
    using token_descriptor_color [of "pc_color (piece_of b i)" "pc_kind (piece_of b i)"]
    by (simp add: view_of_def token_of_def option.map_comp o_def)
qed

lemma view_origins:
  "board_view_is_move_origin (received (view_model g)) r c = is_piece_moving g r c"
  "board_view_is_jump_origin (received (view_model g)) r c = is_piece_jumping g r c"
  by (auto simp: board_view_is_move_origin_def board_view_is_jump_origin_def received_def received_animations_def
      view_model_def game_animations_for_render_def animations_for_render_def animations_at_def list_ex_iff
      is_piece_moving_def is_piece_jumping_def arb_is_piece_moving_def arb_is_piece_jumping_def
      sched_is_piece_moving_def sched_is_piece_jumping_def not_le)

text \<open>A rest whose owner was captured under it: its cell still looks resting to the client.\<close>

definition stale_rest :: "game_state \<Rightarrow> nat \<Rightarrow> nat \<Rightarrow> bool" where
  "stale_rest g r c \<longleftrightarrow>
     list_ex (\<lambda>(i, rest). ar_row rest = r \<and> ar_col rest = c \<and> pc_state (piece_of (gs_board g) i) = Captured)
       (ms_active_rests (ra_scheduler (gs_arbiter g)))"

definition resting_here :: "game_state \<Rightarrow> nat \<Rightarrow> nat \<Rightarrow> bool" where
  "resting_here g r c \<longleftrightarrow> is_in_bounds (gs_board g) r c \<and>
     (case cell_at (gs_board g) r c of None \<Rightarrow> False | Some i \<Rightarrow> arb_is_piece_resting (gs_arbiter g) i)"

lemma busy_alt: "busy g r c \<longleftrightarrow> is_piece_moving g r c \<or> is_piece_jumping g r c \<or> resting_here g r c"
  by (simp add: busy_def resting_here_def)

lemma view_resting:
  assumes inv: "game_inv g" "view_inv g"
  shows "board_view_is_resting_cell (received (view_model g)) r c \<longleftrightarrow> resting_here g r c \<or> stale_rest g r c"
proof -
  let ?R = "ms_active_rests (ra_scheduler (gs_arbiter g))" and ?b = "gs_board g"
  have now: "\<forall>x \<in> set ?R. ra_clock_ms (gs_arbiter g) < ar_end_time_ms (snd x)" and ok: "\<forall>x \<in> set ?R. rest_ok ?b x"
    using inv(2) by (auto simp: view_inv_def Let_def rests_ok_def)
  have "filter (\<lambda>(_, rest). \<not> ra_clock_ms (gs_arbiter g) \<ge> ar_end_time_ms rest) ?R = ?R"
    using now by (auto simp: filter_id_conv split_def)
  then have "board_view_is_resting_cell (received (view_model g)) r c \<longleftrightarrow>
      (\<exists>(i, rest) \<in> set ?R. ar_row rest = r \<and> ar_col rest = c)"
    by (force simp: board_view_is_resting_cell_def find_rest_at_def find_None_iff received_def
        received_animations_def view_model_def game_animations_for_render_def animations_for_render_def
        animations_at_def)
  also have "\<dots> \<longleftrightarrow> resting_here g r c \<or> stale_rest g r c"
  proof
    assume "\<exists>(i, rest) \<in> set ?R. ar_row rest = r \<and> ar_col rest = c"
    then obtain i rest where x: "(i, rest) \<in> set ?R" "ar_row rest = r" "ar_col rest = c" by auto
    have "map_of ?R i = Some rest"
      using inv(1) x(1) by (simp add: game_inv_def arbiter_inv_def)
    then have "arb_is_piece_resting (gs_arbiter g) i"
      using now x(1) by (auto simp: arb_is_piece_resting_def sched_is_piece_resting_def)
    moreover have "rest_ok ?b (i, rest)" using ok x(1) by blast
    ultimately show "resting_here g r c \<or> stale_rest g r c"
      using x by (auto simp: resting_here_def stale_rest_def list_ex_iff rest_ok_def)
  next
    assume "resting_here g r c \<or> stale_rest g r c"
    then show "\<exists>(i, rest) \<in> set ?R. ar_row rest = r \<and> ar_col rest = c"
    proof
      assume "resting_here g r c"
      then obtain i rest where i: "is_in_bounds ?b r c" "cell_at ?b r c = Some i" "map_of ?R i = Some rest"
        by (auto simp: resting_here_def arb_is_piece_resting_def sched_is_piece_resting_def split: option.splits)
      then have x: "(i, rest) \<in> set ?R" by (simp add: map_of_SomeD)
      then have "rest_ok ?b (i, rest)" using ok by blast
      moreover have "pc_state (piece_of ?b i) = Idle"
        using flight_cell [OF game_inv_flight [OF inv(1)] i(1,2)] by simp
      ultimately have "(r, c) = (ar_row rest, ar_col rest)"
        using wf_cell_unique [OF game_inv_wf [OF inv(1)] i(1) _ i(2)] by (auto simp: rest_ok_def)
      then show ?thesis using x by auto
    qed (auto simp: stale_rest_def list_ex_iff)
  qed
  finally show ?thesis .
qed

lemma server_answers:
  assumes "wf_board (gs_board g)"
  shows "is_selectable_piece g r c = Inr (color_on g r c \<noteq> None \<and> \<not> busy g r c)"
    "is_friendly_to_selection g r c =
       Inr (case gs_selected g of None \<Rightarrow> False
            | Some (sr, sc) \<Rightarrow> color_on g r c \<noteq> None \<and> \<not> busy g r c \<and> color_on g sr sc = color_on g r c)"
proof -
  show sel: "is_selectable_piece g r c = Inr (color_on g r c \<noteq> None \<and> \<not> busy g r c)"
    using assms
    by (auto simp: is_selectable_piece_def is_piece_def game_is_in_bounds_def is_piece_resting_ok color_on_def
        busy_def)
  have id: "pc_id (piece_of (gs_board g) i) \<noteq> kInvalidId"
    if "is_in_bounds (gs_board g) r c" "cell_at (gs_board g) r c = Some i" for r c i
    using wf_cell_valid [OF assms that] assms by (simp add: kInvalidId_def valid_id_def)
  show "is_friendly_to_selection g r c =
       Inr (case gs_selected g of None \<Rightarrow> False
            | Some (sr, sc) \<Rightarrow> color_on g r c \<noteq> None \<and> \<not> busy g r c \<and> color_on g sr sc = color_on g r c)"
    using assms id
    by (auto simp: is_friendly_to_selection_def sel color_on_def is_same_color_as_def piece_at_ok
        split: option.splits prod.splits)
qed

end
