(* ===== verification/Client_Gui.thy ===== *)
theory Client_Gui
  imports Websocket_Client Game_View
begin

section \<open>The graphical client\<close>

text \<open>
  \<^verbatim>\<open>main_gui.cpp\<close>: the questions asked of the received view, the input sinks, what a message does
  to the state of the client, the switch to the game server, the login handshake and the rounds of
  the two loops that wait for a game and play it. Drawing and the clock of the frames are not part of
  these definitions; what the renderer answers is an argument.

  An input sink sends through \<^verbatim>\<open>NetworkInputHandler\<close> and ignores whether the message was sent, so
  what it does is the list of messages it sends, in order.
\<close>

definition kServerPort :: nat where "kServerPort = 8765"
definition kDefaultBoardRows :: nat where "kDefaultBoardRows = 8"
definition kDefaultBoardCols :: nat where "kDefaultBoardCols = 8"

definition default_tokens :: "string list list" where
  "default_tokens =
     [[''bR'', ''bN'', ''bB'', ''bQ'', ''bK'', ''bB'', ''bN'', ''bR''],
      replicate 8 ''bP'', replicate 8 ''.'', replicate 8 ''.'', replicate 8 ''.'', replicate 8 ''.'',
      replicate 8 ''wP'',
      [''wR'', ''wN'', ''wB'', ''wQ'', ''wK'', ''wB'', ''wN'', ''wR'']]"

definition default_board :: "board_model result" where
  "default_board = from_token_grid default_tokens"

definition is_network_mode :: "string list \<Rightarrow> bool" where
  "is_network_mode argv = (length argv \<ge> 2 \<and> argv ! 1 = ''--network'')"

subsection \<open>Questions to the view\<close>

definition view_is_in_bounds :: "board_view_model \<Rightarrow> nat \<Rightarrow> nat \<Rightarrow> bool" where
  "view_is_in_bounds view row col = (row < bv_height view \<and> col < bv_width view)"

definition view_is_selectable_piece :: "board_view_model \<Rightarrow> nat \<Rightarrow> nat \<Rightarrow> bool" where
  "view_is_selectable_piece view row col =
     (if board_view_piece_at view row col = None then False
      else if board_view_is_move_origin view row col then False
      else if board_view_is_jump_origin view row col then False
      else \<not> board_view_is_resting_cell view row col)"

definition view_is_friendly_to_selection :: "board_view_model \<Rightarrow> nat \<Rightarrow> nat \<Rightarrow> bool" where
  "view_is_friendly_to_selection view row col =
     (case bv_selection view of
        None \<Rightarrow> False
      | Some (selected_row, selected_col) \<Rightarrow>
          if \<not> view_is_selectable_piece view row col then False
          else case (board_view_piece_at view selected_row selected_col, board_view_piece_at view row col) of
                 (Some selected_piece, Some cell_piece) \<Rightarrow> pv_color selected_piece = pv_color cell_piece
               | _ \<Rightarrow> False)"

subsection \<open>The input sinks\<close>

record login_screen_layout =
  ll_input_x :: int
  ll_input_y :: int
  ll_input_w :: int
  ll_input_h :: int
  ll_button_x :: int
  ll_button_y :: int
  ll_button_w :: int
  ll_button_h :: int

text \<open>\<^verbatim>\<open>LoginInputSink::on_pixel_click\<close>: the flag after the click.\<close>

definition login_click :: "login_screen_layout \<Rightarrow> int \<Rightarrow> int \<Rightarrow> bool \<Rightarrow> bool" where
  "login_click layout x y play_requested =
     (if x \<ge> ll_button_x layout \<and> x < ll_button_x layout + ll_button_w layout \<and>
         y \<ge> ll_button_y layout \<and> y < ll_button_y layout + ll_button_h layout
      then True else play_requested)"

record network_sink =
  nk_view :: board_view_model
  nk_layout :: board_layout
  nk_local_side :: "piece_color option"

definition sink_pixel_to_cell :: "network_sink \<Rightarrow> int \<Rightarrow> int \<Rightarrow> (nat \<times> nat) option" where
  "sink_pixel_to_cell k x y =
     (if bv_height (nk_view k) = 0 \<or> bv_width (nk_view k) = 0 then None
      else try_pixel_to_cell (nk_layout k) x y (bv_width (nk_view k)) (bv_height (nk_view k)))"

definition is_actionable_piece :: "network_sink \<Rightarrow> nat \<Rightarrow> nat \<Rightarrow> bool" where
  "is_actionable_piece k row col =
     (if \<not> view_is_selectable_piece (nk_view k) row col then False
      else case nk_local_side k of
             None \<Rightarrow> True
           | Some side \<Rightarrow>
               (case board_view_piece_at (nk_view k) row col of
                  None \<Rightarrow> False
                | Some piece \<Rightarrow> pv_color piece = side))"

definition sink_friendly_click :: "network_sink \<Rightarrow> nat \<times> nat \<Rightarrow> nat \<Rightarrow> nat \<Rightarrow> string list" where
  "sink_friendly_click k selected row col =
     (if selected = (row, col)
      then (if is_actionable_piece k row col then [send_jump row col, send_clear] else [])
      else if is_actionable_piece k row col then [send_select row col] else [])"

definition sink_move_attempt :: "network_sink \<Rightarrow> nat \<Rightarrow> nat \<Rightarrow> string list" where
  "sink_move_attempt k row col =
     (case bv_selection (nk_view k) of
        None \<Rightarrow> []
      | Some (from_row, from_col) \<Rightarrow>
          if board_view_is_move_origin (nk_view k) from_row from_col \<or>
             board_view_is_jump_origin (nk_view k) from_row from_col \<or>
             board_view_is_resting_cell (nk_view k) from_row from_col then []
          else [send_move row col])"

definition sink_click :: "network_sink \<Rightarrow> int \<Rightarrow> int \<Rightarrow> string list" where
  "sink_click k x y =
     (if bv_game_over (nk_view k) then []
      else case sink_pixel_to_cell k x y of
             None \<Rightarrow> []
           | Some (row, col) \<Rightarrow>
               if \<not> view_is_in_bounds (nk_view k) row col then []
               else case bv_selection (nk_view k) of
                      None \<Rightarrow> if is_actionable_piece k row col then [send_select row col] else []
                    | Some selected \<Rightarrow>
                        if view_is_friendly_to_selection (nk_view k) row col
                        then sink_friendly_click k selected row col
                        else sink_move_attempt k row col)"

definition sink_jump :: "network_sink \<Rightarrow> int \<Rightarrow> int \<Rightarrow> string list" where
  "sink_jump k x y =
     (if bv_game_over (nk_view k) then []
      else case sink_pixel_to_cell k x y of
             None \<Rightarrow> []
           | Some (row, col) \<Rightarrow>
               if \<not> view_is_in_bounds (nk_view k) row col then []
               else if board_view_piece_at (nk_view k) row col = None then []
               else if \<not> is_actionable_piece k row col then []
               else if board_view_is_move_origin (nk_view k) row col \<or>
                       board_view_is_jump_origin (nk_view k) row col \<or>
                       board_view_is_resting_cell (nk_view k) row col then []
               else [send_jump row col, send_clear])"

text \<open>Sending the messages of a click; a send that throws ends the program.\<close>

definition send_messages ::
  "'s transport \<Rightarrow> string list \<Rightarrow> 's websocket_client \<Rightarrow> 's websocket_client result" where
  "send_messages tp messages c =
     foldR (\<lambda>message c. bindR (client_try_send tp message c) (\<lambda>(_, c'). Inr c')) messages c"

definition on_pixel_click ::
  "'s transport \<Rightarrow> network_sink \<Rightarrow> int \<Rightarrow> int \<Rightarrow> 's websocket_client \<Rightarrow> 's websocket_client result" where
  "on_pixel_click tp k x y game = send_messages tp (sink_click k x y) game"

definition on_pixel_jump ::
  "'s transport \<Rightarrow> network_sink \<Rightarrow> int \<Rightarrow> int \<Rightarrow> 's websocket_client \<Rightarrow> 's websocket_client result" where
  "on_pixel_jump tp k x y game = send_messages tp (sink_jump k x y) game"

subsection \<open>Messages of the server\<close>

record network_gui_state =
  ng_matchmaking :: matchmaking_state
  ng_local_side :: "piece_color option"
  ng_redirect :: "game_redirect_info option"
  ng_using_game_connection :: bool

definition new_gui_state :: network_gui_state where
  "new_gui_state =
     \<lparr>ng_matchmaking = MmIdle, ng_local_side = None, ng_redirect = None, ng_using_game_connection = False\<rparr>"

fun matchmaking_local_side :: "matchmaking_state \<Rightarrow> piece_color option" where
  "matchmaking_local_side MatchedWhite = Some White"
| "matchmaking_local_side GameStartingWhite = Some White"
| "matchmaking_local_side MatchedBlack = Some Black"
| "matchmaking_local_side GameStartingBlack = Some Black"
| "matchmaking_local_side _ = None"

fun matchmaking_overlay_text :: "matchmaking_state \<Rightarrow> string option" where
  "matchmaking_overlay_text MmIdle = None"
| "matchmaking_overlay_text MmSearching = Some ''Searching for opponent...''"
| "matchmaking_overlay_text MatchedWhite = Some ''Match found - You are White''"
| "matchmaking_overlay_text MatchedBlack = Some ''Match found - You are Black''"
| "matchmaking_overlay_text GameStartingWhite = Some ''Game starting - You are White''"
| "matchmaking_overlay_text GameStartingBlack = Some ''Game starting - You are Black''"
| "matchmaking_overlay_text MmPlaying = None"
| "matchmaking_overlay_text MmTimeout = Some ''No players available''"

definition empty_waiting_board_view :: board_view_model where
  "empty_waiting_board_view =
     empty_view\<lparr>bv_height := kDefaultBoardRows, bv_width := kDefaultBoardCols,
                bv_cells := replicate (kDefaultBoardRows * kDefaultBoardCols) None\<rparr>"

type_synonym gui = "board_view_model option \<times> network_gui_state"

definition handle_network_message :: "nat \<Rightarrow> string \<Rightarrow> gui \<Rightarrow> gui result" where
  "handle_network_message capacity message = (\<lambda>(latest_view, st).
     bindR (read_snapshot capacity message)
       (\<lambda>view. case view of
          Some _ \<Rightarrow> Inr (view, st\<lparr>ng_matchmaking := MmPlaying\<rparr>)
        | None \<Rightarrow>
            (case read_matchmaking_message message of
               Some matchmaking \<Rightarrow>
                 (let st1 = st\<lparr>ng_matchmaking := matchmaking\<rparr>
                  in Inr (latest_view,
                       case matchmaking_local_side matchmaking of
                         None \<Rightarrow> st1
                       | Some side \<Rightarrow> st1\<lparr>ng_local_side := Some side\<rparr>))
             | None \<Rightarrow>
                 (case read_game_redirect_message message of
                    None \<Rightarrow> Inr (latest_view, st)
                  | Some redirect \<Rightarrow>
                      (let st1 = st\<lparr>ng_redirect := Some redirect\<rparr>
                       in Inr (latest_view,
                            if ng_local_side st1 = None then st1\<lparr>ng_local_side := Some (gr_side redirect)\<rparr>
                            else st1))))))"

text \<open>The loop ends when there is no message; a server that never stops sending keeps it busy.\<close>

partial_function (option) drain_network_messages ::
  "'s transport \<Rightarrow> nat \<Rightarrow> 's websocket_client \<Rightarrow> gui \<Rightarrow> ('s websocket_client \<times> gui) result option" where
  "drain_network_messages tp capacity client ui =
     (case try_receive_snapshot tp client of
        Inl e \<Rightarrow> Some (Inl e)
      | Inr (None, client') \<Rightarrow> Some (Inr (client', ui))
      | Inr (Some message, client') \<Rightarrow>
          (case handle_network_message capacity message ui of
             Inl e \<Rightarrow> Some (Inl e)
           | Inr ui' \<Rightarrow> drain_network_messages tp capacity client' ui'))"

subsection \<open>The switch to the game connection\<close>

record ('s, 'n) gui_app =
  ga_lobby :: "'s websocket_client"
  ga_game :: "'s websocket_client"
  ga_net :: 'n
  ga_gui :: gui

definition maybe_switch_to_game_connection ::
  "'s transport \<Rightarrow> ('s, 'n) dial \<Rightarrow> ('s, 'n) gui_app \<Rightarrow> (bool \<times> ('s, 'n) gui_app) result" where
  "maybe_switch_to_game_connection tp dial app =
     (case ng_redirect (snd (ga_gui app)) of
        None \<Rightarrow> Inr (False, app)
      | Some redirect \<Rightarrow>
          if ng_using_game_connection (snd (ga_gui app)) then Inr (False, app)
          else bindR (redirect_execute tp dial redirect (ga_lobby app, ga_game app, ga_net app))
            (\<lambda>(flow, lobby, game, net).
               let app1 = app\<lparr>ga_lobby := lobby, ga_game := game, ga_net := net\<rparr>
               in if \<not> rf_join_game_sent flow then Inr (False, app1)
                  else Inr (True, app1\<lparr>ga_gui := (fst (ga_gui app),
                         (snd (ga_gui app))\<lparr>ng_using_game_connection := True\<rparr>)\<rparr>)))"

definition drain_lobby ::
  "'s transport \<Rightarrow> nat \<Rightarrow> ('s, 'n) gui_app \<Rightarrow> ('s, 'n) gui_app result option" where
  "drain_lobby tp capacity app =
     map_option (\<lambda>m. bindR m (\<lambda>(c, ui). Inr (app\<lparr>ga_lobby := c, ga_gui := ui\<rparr>)))
       (drain_network_messages tp capacity (ga_lobby app) (ga_gui app))"

definition drain_game ::
  "'s transport \<Rightarrow> nat \<Rightarrow> ('s, 'n) gui_app \<Rightarrow> ('s, 'n) gui_app result option" where
  "drain_game tp capacity app =
     map_option (\<lambda>m. bindR m (\<lambda>(c, ui). Inr (app\<lparr>ga_game := c, ga_gui := ui\<rparr>)))
       (drain_network_messages tp capacity (ga_game app) (ga_gui app))"

text \<open>The polling of a round of the loop that waits for the first snapshot.\<close>

definition waiting_round ::
  "'s transport \<Rightarrow> ('s, 'n) dial \<Rightarrow> nat \<Rightarrow> ('s, 'n) gui_app \<Rightarrow> ('s, 'n) gui_app result option" where
  "waiting_round tp dial capacity app =
     (case drain_lobby tp capacity app of
        None \<Rightarrow> None
      | Some (Inl e) \<Rightarrow> Some (Inl e)
      | Some (Inr app1) \<Rightarrow>
          (case maybe_switch_to_game_connection tp dial app1 of
             Inl e \<Rightarrow> Some (Inl e)
           | Inr (switched, app2) \<Rightarrow>
               if switched \<or> ng_using_game_connection (snd (ga_gui app2)) then drain_game tp capacity app2
               else Some (Inr app2)))"

text \<open>The polling of a round of the loop that plays.\<close>

definition playing_round ::
  "'s transport \<Rightarrow> ('s, 'n) dial \<Rightarrow> nat \<Rightarrow> ('s, 'n) gui_app \<Rightarrow> ('s, 'n) gui_app result option" where
  "playing_round tp dial capacity app =
     (if ng_using_game_connection (snd (ga_gui app)) then drain_game tp capacity app
      else case drain_lobby tp capacity app of
             None \<Rightarrow> None
           | Some (Inl e) \<Rightarrow> Some (Inl e)
           | Some (Inr app1) \<Rightarrow>
               (case maybe_switch_to_game_connection tp dial app1 of
                  Inl e \<Rightarrow> Some (Inl e)
                | Inr (switched, app2) \<Rightarrow>
                    if switched then drain_game tp capacity app2 else Some (Inr app2)))"

subsection \<open>The login handshake\<close>

text \<open>
  One element of \<open>frames\<close> per round of the loop: \<open>None\<close> when no frame is due, else whether the
  renderer says to continue. The answer is \<open>None\<close> while the loop is still waiting.
\<close>

definition login_settled ::
  "'s transport \<Rightarrow> network_login_session \<times> 's websocket_client \<Rightarrow>
   (bool option \<times> network_login_session \<times> 's websocket_client) result" where
  "login_settled tp = (\<lambda>(ls, c).
     if nls_phase ls = LoginFailed then Inr (Some False, ls, c)
     else bindR (try_send_play tp (ls, c)) (\<lambda>(sent, s). Inr (Some sent, s)))"

fun wait_for_login_handshake ::
  "'s transport \<Rightarrow> bool option list \<Rightarrow> network_login_session \<times> 's websocket_client \<Rightarrow>
   (bool option \<times> network_login_session \<times> 's websocket_client) result" where
  "wait_for_login_handshake tp frames (ls, c) =
     (if nls_phase ls \<noteq> LoginSent then login_settled tp (ls, c)
      else case frames of
             [] \<Rightarrow> Inr (None, ls, c)
           | frame # rest \<Rightarrow>
               bindR (try_receive_snapshot tp c)
                 (\<lambda>(message, c1).
                    let ls1 = (case message of None \<Rightarrow> ls | Some m \<Rightarrow> session_handle_message m ls)
                    in if frame = Some False then Inr (Some False, ls1, client_disconnect c1)
                       else wait_for_login_handshake tp rest (ls1, c1)))"

end
