(* ===== verification/Session_Manager.thy ===== *)
theory Session_Manager
  imports Client_Connection "HOL-Library.AList"
begin

section \<open>The connection store and the sessions\<close>

text \<open>
  \<^verbatim>\<open>WebSocketServer\<close> owns the connections, \<^verbatim>\<open>ClientSessionManager\<close> the sessions that point to
  them, \<^verbatim>\<open>SessionMessageSink\<close> sends to a session by id. A connection is named by its address in
  the list that owns it; addresses are never reused, so a pointer to an erased connection is an
  address that is not in the store. Accepting is driven by the outcome \<open>accept_result\<close> of the
  acceptor and the handshake.

  \<open>prune_sessions_exact\<close> shows what the removal of disconnected clients does: it erases the closed
  connections first and then reads them through the sessions.
\<close>

subsection \<open>State\<close>

record 's client_plane =
  cp_clients :: "(conn_id \<times> 's client_connection) list"
  cp_next_address :: conn_id
  cp_max_clients :: nat
  cp_sessions :: "player_session list"
  cp_next_session_id :: nat
  cp_registry :: session_registry

definition conn_ref :: "(conn_id \<times> 's client_connection) list \<Rightarrow> conn_id option \<Rightarrow> 's client_connection result" where
  "conn_ref clients ptr =
     (case ptr of
        None \<Rightarrow> Inl UndefinedBehaviour
      | Some a \<Rightarrow> of_option UndefinedBehaviour (map_of clients a))"

definition put_conn :: "conn_id \<Rightarrow> 's client_connection \<Rightarrow> 's client_plane \<Rightarrow> 's client_plane" where
  "put_conn a c p = p\<lparr>cp_clients := map (\<lambda>(b, d). (b, if b = a then c else d)) (cp_clients p)\<rparr>"

subsection \<open>The WebSocket server\<close>

datatype 's accept_result = NoClient | AcceptFailed | HandshakeFailed | NewClient 's

definition try_accept :: "'s accept_result \<Rightarrow> 's client_plane \<Rightarrow> 's client_plane result" where
  "try_accept res p =
     (if length (cp_clients p) \<ge> cp_max_clients p then Inr p
      else case res of
             NoClient \<Rightarrow> Inr p
           | AcceptFailed \<Rightarrow> Inl RuntimeError
           | HandshakeFailed \<Rightarrow> Inl RuntimeError
           | NewClient ws \<Rightarrow>
               Inr (p\<lparr>cp_clients := cp_clients p @ [(cp_next_address p, new_connection ws)],
                      cp_next_address := cp_next_address p + 1\<rparr>))"

definition prune_disconnected :: "'s transport \<Rightarrow> 's client_plane \<Rightarrow> 's client_plane" where
  "prune_disconnected tp p =
     p\<lparr>cp_clients := filter (\<lambda>(a, c). cc_open c)
         (map (\<lambda>(a, c). (a, probe_disconnect tp c)) (cp_clients p))\<rparr>"

definition broadcast :: "'s transport \<Rightarrow> string \<Rightarrow> 's client_plane \<Rightarrow> 's client_plane" where
  "broadcast tp message p =
     p\<lparr>cp_clients := map (\<lambda>(a, c). (a, snd (try_send tp message c))) (cp_clients p)\<rparr>"

subsection \<open>The session manager\<close>

definition find_session :: "player_id \<Rightarrow> 's client_plane \<Rightarrow> player_session option" where
  "find_session pid p = List.find (\<lambda>s. ps_id s = pid) (cp_sessions p)"

text \<open>A write through a pointer to a session in the list.\<close>

definition update_session ::
  "nat \<Rightarrow> (player_session \<Rightarrow> player_session) \<Rightarrow> 's client_plane \<Rightarrow> 's client_plane" where
  "update_session i f p =
     p\<lparr>cp_sessions := map (\<lambda>s. if ps_id s = i then f s else s) (cp_sessions p)\<rparr>"

definition accept_new_clients :: "'s accept_result \<Rightarrow> 's client_plane \<Rightarrow> 's client_plane result" where
  "accept_new_clients res p =
     (if length (cp_clients p) \<ge> cp_max_clients p then Inr p
      else bindR (try_accept res p)
        (\<lambda>p'. if length (cp_clients p') \<le> length (cp_clients p) then Inr p'
              else Inr (p'\<lparr>cp_sessions := cp_sessions p' @
                             [new_session (cp_next_session_id p') (Some (fst (last (cp_clients p'))))],
                           cp_next_session_id := cp_next_session_id p' + 1\<rparr>)))"

text \<open>
  The second loop of \<^verbatim>\<open>prune_sessions\<close>: the sessions kept so far, the registry and the state the
  disconnect handler works on.
\<close>

fun prune_loop ::
  "(player_session \<Rightarrow> 'q \<Rightarrow> 'q) \<Rightarrow> (conn_id \<times> 's client_connection) list \<Rightarrow> player_session list \<Rightarrow>
   player_session list \<times> session_registry \<times> 'q \<Rightarrow>
   (player_session list \<times> session_registry \<times> 'q) result" where
  "prune_loop h clients [] acc = Inr acc"
| "prune_loop h clients (s # ss) (kept, reg, q) =
     bindR (conn_ref clients (ps_connection s))
       (\<lambda>c. if cc_open c then prune_loop h clients ss (kept @ [s], reg, q)
            else bindR (if has_user s
                        then bindR (session_player s) (\<lambda>p. Inr (unregister_session (pl_username p) reg))
                        else Inr reg)
              (\<lambda>reg'. prune_loop h clients ss (kept, reg', h s q)))"

definition prune_sessions ::
  "'s transport \<Rightarrow> (player_session \<Rightarrow> 'q \<Rightarrow> 'q) \<Rightarrow> 's client_plane \<times> 'q \<Rightarrow> ('s client_plane \<times> 'q) result" where
  "prune_sessions tp h = (\<lambda>(p, q).
     let p1 = prune_disconnected tp p
     in bindR (prune_loop h (cp_clients p1) (cp_sessions p1) ([], cp_registry p1, q))
          (\<lambda>(kept, reg, q'). Inr (p1\<lparr>cp_sessions := kept, cp_registry := reg\<rparr>, q')))"

subsection \<open>The message sink\<close>

definition sink_send ::
  "'s transport \<Rightarrow> player_id \<Rightarrow> string \<Rightarrow> 's client_plane \<Rightarrow> (bool \<times> 's client_plane) result" where
  "sink_send tp pid message p =
     (case find_session pid p of
        None \<Rightarrow> Inr (False, p)
      | Some s \<Rightarrow>
          (case ps_connection s of
             None \<Rightarrow> Inr (False, p)
           | Some a \<Rightarrow>
               bindR (conn_ref (cp_clients p) (Some a))
                 (\<lambda>c. let (ok, c') = try_send tp message c in Inr (ok, put_conn a c' p))))"

definition sink_send_message ::
  "'s transport \<Rightarrow> player_id \<Rightarrow> string \<Rightarrow> 's client_plane \<Rightarrow> (bool \<times> 's client_plane) result" where
  "sink_send_message tp pid message p =
     (case find_session pid p of
        None \<Rightarrow> Inr (False, p)
      | Some s \<Rightarrow>
          (case ps_connection s of
             None \<Rightarrow> Inr (False, p)
           | Some a \<Rightarrow>
               bindR (conn_ref (cp_clients p) (Some a))
                 (\<lambda>c. let (ok, c') = conn_send_message tp message c in Inr (ok, put_conn a c' p))))"

subsection \<open>Consistent planes\<close>

text \<open>
  \<open>plane_ok\<close>: addresses and session ids are distinct and were handed out by the counters, and every
  session is well-formed and points to a connection of the store.
\<close>

definition plane_ok :: "'s client_plane \<Rightarrow> bool" where
  "plane_ok p \<longleftrightarrow>
     distinct (map fst (cp_clients p)) \<and> (\<forall>a \<in> set (map fst (cp_clients p)). a < cp_next_address p) \<and>
     distinct (map ps_id (cp_sessions p)) \<and> (\<forall>s \<in> set (cp_sessions p). ps_id s < cp_next_session_id p) \<and>
     (\<forall>s \<in> set (cp_sessions p). session_ok s \<and> (\<exists>a \<in> set (map fst (cp_clients p)). ps_connection s = Some a))"

lemma map_fst_put [simp]: "map fst (cp_clients (put_conn a c p)) = map fst (cp_clients p)"
  by (simp add: put_conn_def o_def case_prod_beta)

lemma put_conn_frame [simp]:
  "cp_sessions (put_conn a c p) = cp_sessions p" "cp_registry (put_conn a c p) = cp_registry p"
  "cp_next_address (put_conn a c p) = cp_next_address p"
  "cp_next_session_id (put_conn a c p) = cp_next_session_id p"
  "cp_max_clients (put_conn a c p) = cp_max_clients p"
  by (simp_all add: put_conn_def)

lemma plane_ok_put: "plane_ok p \<Longrightarrow> plane_ok (put_conn a c p)"
  by (simp add: plane_ok_def del: map_map set_map)

lemma map_of_put:
  "map_of (cp_clients (put_conn a c p)) b =
     (if b = a \<and> map_of (cp_clients p) a \<noteq> None then Some c else map_of (cp_clients p) b)"
proof -
  have "map_of (map (\<lambda>(b, d). (b, if b = a then c else d)) xs) b =
      (if b = a \<and> map_of xs a \<noteq> None then Some c else map_of xs b)" for xs :: "(nat \<times> 'a client_connection) list"
    by (induction xs) auto
  then show ?thesis by (simp add: put_conn_def)
qed

lemma find_session_Some:
  "find_session pid p = Some s \<Longrightarrow> s \<in> set (cp_sessions p) \<and> ps_id s = pid"
  by (auto simp: find_session_def find_Some_iff)

lemma plane_conn:
  assumes "plane_ok p" "s \<in> set (cp_sessions p)"
  obtains a c where "ps_connection s = Some a" "map_of (cp_clients p) a = Some c"
    "conn_ref (cp_clients p) (ps_connection s) = Inr c"
proof -
  obtain a where a: "a \<in> fst ` set (cp_clients p)" "ps_connection s = Some a"
    using assms unfolding plane_ok_def by (metis set_map)
  then obtain c where "map_of (cp_clients p) a = Some c"
    by (cases "map_of (cp_clients p) a") (auto simp: map_of_eq_None_iff)
  with a show ?thesis by (intro that) (simp_all add: conn_ref_def)
qed

lemma sink_send_ok:
  assumes "plane_ok p"
  shows "ensures (sink_send tp pid m p) (\<lambda>(ok, p'). plane_ok p' \<and> cp_sessions p' = cp_sessions p \<and>
           cp_registry p' = cp_registry p)"
proof (cases "find_session pid p")
  case (Some s)
  then obtain a c where "ps_connection s = Some a" "conn_ref (cp_clients p) (Some a) = Inr c"
    using plane_conn [OF assms, of s] find_session_Some by metis
  then show ?thesis
    using Some assms by (auto simp: sink_send_def plane_ok_put split: prod.splits)
qed (simp add: sink_send_def assms)

lemma sink_send_message_ok:
  assumes "plane_ok p"
  shows "ensures (sink_send_message tp pid m p) (\<lambda>(ok, p'). plane_ok p' \<and> cp_sessions p' = cp_sessions p \<and>
           cp_registry p' = cp_registry p)"
proof (cases "find_session pid p")
  case (Some s)
  then obtain a c where "ps_connection s = Some a" "conn_ref (cp_clients p) (Some a) = Inr c"
    using plane_conn [OF assms, of s] find_session_Some by metis
  then show ?thesis
    using Some assms by (auto simp: sink_send_message_def plane_ok_put split: prod.splits)
qed (simp add: sink_send_message_def assms)

definition with_client :: "'s \<Rightarrow> 's client_plane \<Rightarrow> 's client_plane" where
  "with_client ws p =
     p\<lparr>cp_clients := cp_clients p @ [(cp_next_address p, new_connection ws)],
       cp_next_address := cp_next_address p + 1,
       cp_sessions := cp_sessions p @ [new_session (cp_next_session_id p) (Some (cp_next_address p))],
       cp_next_session_id := cp_next_session_id p + 1\<rparr>"

lemma accept_new_clients_eq:
  "accept_new_clients res p =
     (if length (cp_clients p) \<ge> cp_max_clients p then Inr p
      else case res of
             NoClient \<Rightarrow> Inr p
           | AcceptFailed \<Rightarrow> Inl RuntimeError
           | HandshakeFailed \<Rightarrow> Inl RuntimeError
           | NewClient ws \<Rightarrow> Inr (with_client ws p))"
  by (simp add: accept_new_clients_def try_accept_def with_client_def split: accept_result.splits)

lemma with_client_ok:
  assumes "plane_ok p"
  shows "plane_ok (with_client ws p)"
proof -
  have p: "distinct (map fst (cp_clients p))" "\<forall>a \<in> fst ` set (cp_clients p). a < cp_next_address p"
    "distinct (map ps_id (cp_sessions p))" "\<forall>s \<in> set (cp_sessions p). ps_id s < cp_next_session_id p"
    "\<forall>s \<in> set (cp_sessions p). session_ok s \<and> (\<exists>a \<in> fst ` set (cp_clients p). ps_connection s = Some a)"
    using assms by (simp_all add: plane_ok_def)
  then have "cp_next_address p \<notin> fst ` set (cp_clients p)"
    "cp_next_session_id p \<notin> ps_id ` set (cp_sessions p)" by auto
  with p show ?thesis
    by (simp add: plane_ok_def with_client_def session_ok_new less_SucI) (simp add: new_session_def)
qed

lemma accept_plane_ok:
  assumes "plane_ok p" "accept_new_clients res p = Inr p'"
  shows "plane_ok p' \<and> length (cp_clients p') \<le> max (length (cp_clients p)) (cp_max_clients p)"
  using assms with_client_ok [OF assms(1)]
  by (auto simp: accept_new_clients_eq with_client_def split: if_splits accept_result.splits)

lemma update_session_ok:
  assumes "plane_ok p" "\<And>s. session_ok s \<Longrightarrow> session_ok (f s)"
    and "\<And>s. ps_id (f s) = ps_id s \<and> ps_connection (f s) = ps_connection s"
  shows "plane_ok (update_session i f p)"
proof -
  have ids: "map ps_id (cp_sessions (update_session i f p)) = map ps_id (cp_sessions p)"
    using assms(3) by (simp add: update_session_def)
  then have "\<forall>s \<in> set (cp_sessions (update_session i f p)). ps_id s < cp_next_session_id p"
    using assms(1,3) by (auto simp: plane_ok_def update_session_def)
  moreover have "\<forall>s \<in> set (cp_sessions (update_session i f p)).
      session_ok s \<and> (\<exists>a \<in> set (map fst (cp_clients p)). ps_connection s = Some a)"
    using assms unfolding plane_ok_def by (auto simp: update_session_def)
  moreover have "cp_clients (update_session i f p) = cp_clients p"
    "cp_next_address (update_session i f p) = cp_next_address p"
    "cp_next_session_id (update_session i f p) = cp_next_session_id p"
    by (simp_all add: update_session_def)
  ultimately show ?thesis
    using assms(1) ids unfolding plane_ok_def by simp
qed

subsection \<open>Pruning reads freed connections\<close>

text \<open>The client of a session is found gone when the probe closes its connection.\<close>

definition found_gone :: "'s transport \<Rightarrow> 's client_plane \<Rightarrow> player_session \<Rightarrow> bool" where
  "found_gone tp p s =
     (case ps_connection s of
        None \<Rightarrow> False
      | Some a \<Rightarrow> (case map_of (cp_clients p) a of
                    None \<Rightarrow> False
                  | Some c \<Rightarrow> \<not> cc_open (probe_disconnect tp c)))"

lemma map_of_pruned:
  assumes "distinct (map fst (cp_clients p))"
  shows "map_of (cp_clients (prune_disconnected tp p)) a =
    (case map_of (cp_clients p) a of
       None \<Rightarrow> None
     | Some c \<Rightarrow> if cc_open (probe_disconnect tp c) then Some (probe_disconnect tp c) else None)"
proof -
  have "distinct (map fst xs) \<Longrightarrow>
      map_of (filter (\<lambda>(a, c). cc_open c) (map (\<lambda>(a, c). (a, probe_disconnect tp c)) xs)) a =
      (case map_of xs a of
         None \<Rightarrow> None
       | Some c \<Rightarrow> if cc_open (probe_disconnect tp c) then Some (probe_disconnect tp c) else None)" for xs
  proof (induction xs)
    case (Cons x xs)
    have "map_of xs (fst x) = None" using Cons.prems by (simp add: map_of_eq_None_iff)
    then show ?case using Cons by (cases x) (auto split: option.splits)
  qed simp
  then show ?thesis using assms by (simp add: prune_disconnected_def)
qed

lemma prune_loop_eq:
  assumes "plane_ok p" "set ss \<subseteq> set (cp_sessions p)"
  shows "prune_loop h (cp_clients (prune_disconnected tp p)) ss (kept, reg, q) =
    (if \<exists>s \<in> set ss. found_gone tp p s then Inl UndefinedBehaviour else Inr (kept @ ss, reg, q))"
  using assms(2)
proof (induction ss arbitrary: kept)
  case (Cons s ss)
  obtain a c where s: "ps_connection s = Some a" "map_of (cp_clients p) a = Some c"
    using plane_conn [OF assms(1), of s] Cons.prems by (metis list.set_intros(1) subset_iff)
  moreover have "distinct (map fst (cp_clients p))" using assms(1) by (simp add: plane_ok_def)
  ultimately have "conn_ref (cp_clients (prune_disconnected tp p)) (ps_connection s) =
      (if found_gone tp p s then Inl UndefinedBehaviour else Inr (probe_disconnect tp c))"
    and "\<not> found_gone tp p s \<Longrightarrow> cc_open (probe_disconnect tp c)"
    by (simp_all add: conn_ref_def map_of_pruned found_gone_def)
  then show ?case using Cons by auto
qed simp

lemma prune_sessions_exact:
  assumes "plane_ok p"
  shows "prune_sessions tp h (p, q) =
    (if \<exists>s \<in> set (cp_sessions p). found_gone tp p s then Inl UndefinedBehaviour
     else Inr (prune_disconnected tp p, q))"
proof -
  have [simp]: "cp_sessions (prune_disconnected tp p) = cp_sessions p"
    "cp_registry (prune_disconnected tp p) = cp_registry p"
    by (simp_all add: prune_disconnected_def)
  show ?thesis
    using prune_loop_eq [OF assms, of "cp_sessions p" h tp "[]" "cp_registry p" q]
    by (simp add: prune_sessions_def Let_def)
qed

end
