(* ===== verification/Runtime_Store.thy ===== *)
theory Runtime_Store
  imports Player_Session "HOL-Library.AList" "HOL-Library.Char_ord" "HOL-Library.List_Lexorder"
    "HOL-Library.Product_Lexorder"
begin

section \<open>The runtime store and the allocation of games to servers\<close>

text \<open>
  \<^verbatim>\<open>app/in_memory_runtime_store.cpp\<close> (which room a user plays in, which servers are alive, the
  persisted matchmaking queues), \<^verbatim>\<open>server/game/runtime_store_game_server_registry.cpp\<close> (the live
  servers, least loaded first), \<^verbatim>\<open>server/game/remote_game_allocator.cpp\<close> (asking them in turn) and the
  requests and answers of game creation. Unordered maps are association lists. The wall clock
  \<^verbatim>\<open>current_epoch_seconds\<close> is an argument \<open>now\<close>; the HTTP request to a game server is a parameter.
  The counters and log lines of \<^verbatim>\<open>app/observability\<close> are left out here and everywhere.

  The lemmas: the registry's answer is sorted, complete and does not depend on the order in which
  the hash map is walked; the allocator returns the answer of the first server that gives one.
\<close>

subsection \<open>Records\<close>

record queued_player =
  qp_player_id :: player_id
  qp_user_id :: user_id
  qp_elo :: int
  qp_enqueue_epoch_seconds :: int

record game_server_record =
  gsr_server_id :: string
  gsr_endpoint :: string
  gsr_allocation_endpoint :: string
  gsr_region :: string
  gsr_active_rooms :: nat
  gsr_status :: string
  gsr_last_heartbeat :: int

record game_server_location =
  loc_server_id :: string
  loc_endpoint :: string
  loc_room_id :: room_id

record server_metrics =
  sm_active_rooms :: nat
  sm_connected_sessions :: nat
  sm_matchmaking_queue :: nat
  sm_server_uptime_seconds :: int
  sm_last_tick_duration_ms :: int
  sm_server_id :: string
  sm_region :: string
  sm_endpoint :: string
  sm_allocation_endpoint :: string
  sm_redis_enabled :: bool
  sm_redis_connected :: bool

record game_creation_request =
  rq_white_user_id :: user_id
  rq_black_user_id :: user_id
  rq_db_game_id :: "int option"

record game_creation_response =
  rp_room_id :: room_id
  rp_game_server_id :: string
  rp_endpoint :: "string option"

subsection \<open>The in-memory store\<close>

record player_location_entry =
  ple_room_id :: room_id
  ple_server_id :: string
  ple_endpoint :: string

record game_server_entry =
  gse_endpoint :: string
  gse_allocation_endpoint :: string
  gse_region :: string
  gse_active_rooms :: nat
  gse_status :: string
  gse_last_heartbeat :: int

record in_memory_runtime_store =
  rs_player_locations :: "(user_id \<times> player_location_entry) list"
  rs_game_servers :: "(string \<times> game_server_entry) list"
  rs_matchmaking_queues :: "(string \<times> queued_player list) list"

definition empty_runtime_store :: in_memory_runtime_store where
  "empty_runtime_store =
     \<lparr>rs_player_locations = [], rs_game_servers = [], rs_matchmaking_queues = []\<rparr>"

definition store_is_available :: "in_memory_runtime_store \<Rightarrow> bool" where
  "store_is_available st = False"

definition register_room ::
  "room_id \<Rightarrow> user_id \<Rightarrow> user_id \<Rightarrow> string \<Rightarrow> string \<Rightarrow> in_memory_runtime_store \<Rightarrow> in_memory_runtime_store" where
  "register_room rid white black server_id endpoint st =
     (let entry = \<lparr>ple_room_id = rid, ple_server_id = server_id, ple_endpoint = endpoint\<rparr>
      in st\<lparr>rs_player_locations :=
              AList.update black entry (AList.update white entry (rs_player_locations st))\<rparr>)"

definition unregister_room ::
  "room_id \<Rightarrow> user_id \<Rightarrow> user_id \<Rightarrow> in_memory_runtime_store \<Rightarrow> in_memory_runtime_store" where
  "unregister_room rid white black st =
     st\<lparr>rs_player_locations := AList.delete black (AList.delete white (rs_player_locations st))\<rparr>"

definition publish_server_heartbeat ::
  "int \<Rightarrow> string \<Rightarrow> string \<Rightarrow> server_metrics \<Rightarrow> in_memory_runtime_store \<Rightarrow> in_memory_runtime_store" where
  "publish_server_heartbeat now server_id region metrics st =
     (let entry = \<lparr>gse_endpoint = sm_endpoint metrics,
                   gse_allocation_endpoint = sm_allocation_endpoint metrics,
                   gse_region = region, gse_active_rooms = sm_active_rooms metrics,
                   gse_status = ''healthy'', gse_last_heartbeat = now\<rparr>
      in st\<lparr>rs_game_servers := AList.update server_id entry (rs_game_servers st)\<rparr>)"

definition deregister_server :: "string \<Rightarrow> in_memory_runtime_store \<Rightarrow> in_memory_runtime_store" where
  "deregister_server server_id st =
     st\<lparr>rs_game_servers := AList.delete server_id (rs_game_servers st)\<rparr>"

definition find_player_location :: "user_id \<Rightarrow> in_memory_runtime_store \<Rightarrow> game_server_location option" where
  "find_player_location uid st =
     (case map_of (rs_player_locations st) uid of
        None \<Rightarrow> None
      | Some e \<Rightarrow> Some \<lparr>loc_server_id = ple_server_id e, loc_endpoint = ple_endpoint e,
                        loc_room_id = ple_room_id e\<rparr>)"

definition server_record :: "string \<Rightarrow> game_server_entry \<Rightarrow> game_server_record" where
  "server_record server_id e =
     \<lparr>gsr_server_id = server_id, gsr_endpoint = gse_endpoint e,
      gsr_allocation_endpoint = gse_allocation_endpoint e, gsr_region = gse_region e,
      gsr_active_rooms = gse_active_rooms e, gsr_status = gse_status e,
      gsr_last_heartbeat = gse_last_heartbeat e\<rparr>"

definition list_game_servers :: "in_memory_runtime_store \<Rightarrow> game_server_record list" where
  "list_game_servers st = map (\<lambda>(server_id, e). server_record server_id e) (rs_game_servers st)"

definition get_game_server :: "string \<Rightarrow> in_memory_runtime_store \<Rightarrow> game_server_record option" where
  "get_game_server server_id st =
     (case map_of (rs_game_servers st) server_id of
        None \<Rightarrow> None
      | Some e \<Rightarrow> Some (server_record server_id e))"

definition set_matchmaking_queue ::
  "string \<Rightarrow> queued_player list \<Rightarrow> in_memory_runtime_store \<Rightarrow> in_memory_runtime_store" where
  "set_matchmaking_queue region queue st =
     st\<lparr>rs_matchmaking_queues := AList.update region queue (rs_matchmaking_queues st)\<rparr>"

definition list_matchmaking_queue :: "string \<Rightarrow> in_memory_runtime_store \<Rightarrow> queued_player list" where
  "list_matchmaking_queue region st =
     (case map_of (rs_matchmaking_queues st) region of None \<Rightarrow> [] | Some q \<Rightarrow> q)"

subsection \<open>The registry of game servers\<close>

definition is_live_server :: "int \<Rightarrow> int \<Rightarrow> game_server_record \<Rightarrow> bool" where
  "is_live_server now ttl server =
     (if gsr_status server \<noteq> ''healthy'' then False
      else if gsr_allocation_endpoint server = [] then False
      else if gsr_last_heartbeat server \<le> 0 then False
      else now - gsr_last_heartbeat server \<le> ttl)"

text \<open>
  \<^verbatim>\<open>std::sort\<close> by number of rooms, then by id: the ids of a map are distinct, so the order is total
  on its entries and the result the same as a stable sort's. Characters compare by code.
\<close>

definition load_key :: "game_server_record \<Rightarrow> nat \<times> string" where
  "load_key server = (gsr_active_rooms server, gsr_server_id server)"

definition list_available_servers :: "int \<Rightarrow> int \<Rightarrow> in_memory_runtime_store \<Rightarrow> game_server_record list" where
  "list_available_servers now ttl st =
     sort_key load_key (filter (is_live_server now ttl) (list_game_servers st))"

definition get_server :: "int \<Rightarrow> int \<Rightarrow> string \<Rightarrow> in_memory_runtime_store \<Rightarrow> game_server_record option" where
  "get_server now ttl server_id st =
     (case get_game_server server_id st of
        None \<Rightarrow> None
      | Some server \<Rightarrow> if is_live_server now ttl server then Some server else None)"

subsection \<open>The remote allocator\<close>

text \<open>
  \<open>post\<close> stands for \<^verbatim>\<open>GameAllocationHttpClient::allocate\<close>: the request to one server and the answer,
  if any, over the state \<open>'n\<close> of the network. The loop stops after \<open>max_retry_count\<close> attempts.
\<close>

definition filled_response :: "game_server_record \<Rightarrow> game_creation_response \<Rightarrow> game_creation_response" where
  "filled_response server response =
     (let result = (if rp_game_server_id response = []
                    then response\<lparr>rp_game_server_id := gsr_server_id server\<rparr> else response)
      in if rp_endpoint result = None \<or> rp_endpoint result = Some []
         then result\<lparr>rp_endpoint := Some (gsr_endpoint server)\<rparr> else result)"

fun allocate_loop ::
  "(string \<Rightarrow> game_creation_request \<Rightarrow> 'n \<Rightarrow> game_creation_response option \<times> 'n) \<Rightarrow> nat \<Rightarrow>
   game_creation_request \<Rightarrow> nat \<Rightarrow> game_server_record list \<Rightarrow> 'n \<Rightarrow> game_creation_response result \<times> 'n" where
  "allocate_loop post max_retry_count request attempts [] net = (Inl RuntimeError, net)"
| "allocate_loop post max_retry_count request attempts (server # servers) net =
     (if attempts \<ge> max_retry_count then (Inl RuntimeError, net)
      else case post (gsr_allocation_endpoint server) request net of
             (None, net') \<Rightarrow> allocate_loop post max_retry_count request (attempts + 1) servers net'
           | (Some response, net') \<Rightarrow> (Inr (filled_response server response), net'))"

definition remote_allocate_game ::
  "(string \<Rightarrow> game_creation_request \<Rightarrow> 'n \<Rightarrow> game_creation_response option \<times> 'n) \<Rightarrow> nat \<Rightarrow> int \<Rightarrow> int \<Rightarrow>
   in_memory_runtime_store \<Rightarrow> game_creation_request \<Rightarrow> 'n \<Rightarrow> game_creation_response result \<times> 'n" where
  "remote_allocate_game post max_retry_count now ttl st request net =
     (let candidates = list_available_servers now ttl st
      in if candidates = [] then (Inl RuntimeError, net)
         else allocate_loop post max_retry_count request 0 candidates net)"

subsection \<open>Laws of the store\<close>

lemma find_location_register:
  "find_player_location uid (register_room rid w b sid ep st) =
     (if uid = w \<or> uid = b
      then Some \<lparr>loc_server_id = sid, loc_endpoint = ep, loc_room_id = rid\<rparr>
      else find_player_location uid st)"
  by (simp add: find_player_location_def register_room_def Let_def update_conv')

lemma find_location_unregister:
  "find_player_location uid (unregister_room rid w b st) =
     (if uid = w \<or> uid = b then None else find_player_location uid st)"
  by (simp add: find_player_location_def unregister_room_def delete_conv')

lemma queue_set_list:
  "list_matchmaking_queue r (set_matchmaking_queue r' q st) =
     (if r = r' then q else list_matchmaking_queue r st)"
  by (simp add: list_matchmaking_queue_def set_matchmaking_queue_def update_conv')

text \<open>
  \<open>store_ok\<close>: each server has one entry.
\<close>

definition store_ok :: "in_memory_runtime_store \<Rightarrow> bool" where
  "store_ok st \<longleftrightarrow> distinct (map fst (rs_game_servers st))"

lemma store_ok_ops:
  "store_ok empty_runtime_store"
  "store_ok st \<Longrightarrow> store_ok (register_room rid w b sid ep st)"
  "store_ok st \<Longrightarrow> store_ok (unregister_room rid w b st)"
  "store_ok st \<Longrightarrow> store_ok (publish_server_heartbeat now sid reg m st)"
  "store_ok st \<Longrightarrow> store_ok (deregister_server sid st)"
  "store_ok st \<Longrightarrow> store_ok (set_matchmaking_queue reg q st)"
  by (simp_all add: store_ok_def empty_runtime_store_def register_room_def unregister_room_def
      publish_server_heartbeat_def deregister_server_def set_matchmaking_queue_def Let_def
      distinct_update distinct_delete)

lemma map_ids [simp]: "map gsr_server_id (list_game_servers st) = map fst (rs_game_servers st)"
  by (simp add: list_game_servers_def server_record_def case_prod_beta)

lemma load_key_inj: "store_ok st \<Longrightarrow> inj_on load_key (set (list_game_servers st))"
proof -
  assume "store_ok st"
  then have "distinct (map gsr_server_id (list_game_servers st))" by (simp add: store_ok_def)
  then have "inj_on gsr_server_id (set (list_game_servers st))" unfolding distinct_map by simp
  then show ?thesis by (simp add: inj_on_def load_key_def)
qed

lemma set_available:
  "set (list_available_servers now ttl st) = {s \<in> set (list_game_servers st). is_live_server now ttl s}"
  by (simp add: list_available_servers_def)

lemma sorted_available: "sorted (map load_key (list_available_servers now ttl st))"
  by (simp add: list_available_servers_def)

text \<open>The walk of the hash map does not matter.\<close>

lemma available_order_independent:
  assumes "store_ok st" "store_ok st'" "set (rs_game_servers st) = set (rs_game_servers st')"
  shows "list_available_servers now ttl st = list_available_servers now ttl st'"
proof -
  let ?l = "list_available_servers now ttl"
  have same: "set (?l st) = set (?l st')"
    using assms(3) by (simp add: set_available list_game_servers_def)
  have inj: "inj_on load_key (set (?l s))" and "distinct (?l s)" if "store_ok s" for s
  proof -
    show "inj_on load_key (set (?l s))"
      using load_key_inj [OF that] by (rule inj_on_subset) (auto simp: set_available)
    have "distinct (map gsr_server_id (list_game_servers s))" using that by (simp add: store_ok_def)
    then have "distinct (list_game_servers s)" unfolding distinct_map by simp
    then show "distinct (?l s)" by (simp add: list_available_servers_def)
  qed
  then have "distinct (map load_key (?l s))" if "store_ok s" for s
    using that by (simp add: distinct_map)
  with same inj [OF assms(1)] assms show ?thesis
    by (intro map_sorted_distinct_set_unique [of load_key]) (simp_all add: sorted_available)
qed

text \<open>
  The allocator asks the candidates in order, up to the limit, and answers with the first response.
  \<open>asked post request cs net\<close> is the network after all of \<open>cs\<close> were asked, \<open>answer\<close> what the k-th
  candidate says when those before it were asked first.
\<close>

primrec asked ::
  "(string \<Rightarrow> game_creation_request \<Rightarrow> 'n \<Rightarrow> game_creation_response option \<times> 'n) \<Rightarrow>
   game_creation_request \<Rightarrow> game_server_record list \<Rightarrow> 'n \<Rightarrow> 'n" where
  "asked post request [] net = net"
| "asked post request (s # ss) net = asked post request ss (snd (post (gsr_allocation_endpoint s) request net))"

definition answer ::
  "(string \<Rightarrow> game_creation_request \<Rightarrow> 'n \<Rightarrow> game_creation_response option \<times> 'n) \<Rightarrow>
   game_creation_request \<Rightarrow> game_server_record list \<Rightarrow> 'n \<Rightarrow> nat \<Rightarrow> game_creation_response option" where
  "answer post request cs net k =
     fst (post (gsr_allocation_endpoint (cs ! k)) request (asked post request (take k cs) net))"

lemma allocate_loop_refused:
  assumes "\<forall>k < min (m - a) (length cs). answer post request cs net k = None"
  shows "allocate_loop post m request a cs net =
     (Inl RuntimeError, asked post request (take (m - a) cs) net)"
  using assms
proof (induction cs arbitrary: a net)
  case (Cons c cs)
  show ?case
  proof (cases "a \<ge> m")
    case False
    obtain r net' where p: "post (gsr_allocation_endpoint c) request net = (r, net')" by force
    have "answer post request (c # cs) net 0 = None" using Cons.prems False by auto
    then have "r = None" using p by (simp add: answer_def)
    moreover have "\<forall>k < min (m - (a + 1)) (length cs). answer post request cs net' k = None"
    proof (intro allI impI)
      fix k assume "k < min (m - (a + 1)) (length cs)"
      then have "answer post request (c # cs) net (Suc k) = None" using Cons.prems by auto
      then show "answer post request cs net' k = None" using p by (simp add: answer_def)
    qed
    moreover have "m - a = Suc (m - (a + 1))" using False by simp
    ultimately show ?thesis using Cons.IH [of "a + 1" net'] p False by simp
  qed simp
qed simp

lemma allocate_loop_first:
  assumes "k < m - a" "k < length cs" "answer post request cs net k = Some response"
    "\<forall>j < k. answer post request cs net j = None"
  shows "allocate_loop post m request a cs net =
     (Inr (filled_response (cs ! k) response), asked post request (take (Suc k) cs) net)"
  using assms
proof (induction cs arbitrary: a net k)
  case (Cons c cs)
  obtain r net' where p: "post (gsr_allocation_endpoint c) request net = (r, net')" by force
  show ?case
  proof (cases k)
    case 0
    then show ?thesis using Cons.prems p by (simp add: answer_def)
  next
    case (Suc i)
    have "answer post request (c # cs) net 0 = None" using Cons.prems(4) Suc by blast
    then have "r = None" using p by (simp add: answer_def)
    have step: "answer post request cs net' j = answer post request (c # cs) net (Suc j)" for j
      using p by (simp add: answer_def)
    have "allocate_loop post m request (a + 1) cs net' =
        (Inr (filled_response (cs ! i) response), asked post request (take (Suc i) cs) net')"
      using Cons.prems Suc by (intro Cons.IH) (auto simp: step)
    then show ?thesis using p \<open>r = None\<close> Suc Cons.prems(1) by simp
  qed
qed simp

end
