(* ===== verification/Matchmaking.thy ===== *)
theory Matchmaking
  imports Session_Manager Runtime_Store
begin

section \<open>Matchmaking queues\<close>

text \<open>
  The two queues of the repository: \<^verbatim>\<open>server/matchmaking/matchmaking_queue.cpp\<close>, which holds pointers
  to sessions of the same process, and \<^verbatim>\<open>matchmaking/player_matchmaking_queue.cpp\<close>, which holds
  player records and writes itself to the runtime store after every change.

  Both promise the same thing, stated once in the locale \<open>waiting_line\<close>: a newcomer is paired with
  the compatible player who has waited longest, or joins the end of the line. Its lemmas (nobody
  compatible is overtaken, no two compatible players are left waiting, nobody is lost) hold for
  both by interpretation.

  A pointer to a session is the session's id; time points of the steady clock are integers in
  nanoseconds, the timeout is in milliseconds.
\<close>

subsection \<open>The queue of sessions\<close>

record waiting_entry =
  we_session :: nat
  we_enqueue_time :: int

record matchmaking_queue =
  mq_max_rating_difference :: int
  mq_queue_timeout :: int
  mq_waiting :: "waiting_entry list"

definition deref_session :: "'s client_plane \<Rightarrow> nat \<Rightarrow> player_session result" where
  "deref_session p i = of_option UndefinedBehaviour (find_session i p)"

definition is_eligible :: "'s client_plane \<Rightarrow> player_session \<Rightarrow> bool result" where
  "is_eligible p s =
     (if \<not> has_user s then Inr False
      else case ps_connection s of
             None \<Rightarrow> Inr False
           | Some a \<Rightarrow> bindR (conn_ref (cp_clients p) (Some a)) (\<lambda>c. Inr (cc_open c)))"

definition mq_are_compatible :: "int \<Rightarrow> player_session \<Rightarrow> player_session \<Rightarrow> bool result" where
  "mq_are_compatible max_rating_difference a b =
     bindR (session_rating a) (\<lambda>ra. bindR (session_rating b) (\<lambda>rb.
       Inr (\<bar>ra - rb\<bar> \<le> max_rating_difference)))"

definition mq_remove :: "nat \<Rightarrow> matchmaking_queue \<Rightarrow> matchmaking_queue" where
  "mq_remove i q = q\<lparr>mq_waiting := filter (\<lambda>e. we_session e \<noteq> i) (mq_waiting q)\<rparr>"

text \<open>
  The loop of \<^verbatim>\<open>enqueue\<close> over the entries: the entry taken and the others in their order.
\<close>

fun enqueue_loop ::
  "'s client_plane \<Rightarrow> int \<Rightarrow> player_session \<Rightarrow> waiting_entry list \<Rightarrow> waiting_entry list \<Rightarrow>
   (nat \<times> waiting_entry list) option result" where
  "enqueue_loop p d s seen [] = Inr None"
| "enqueue_loop p d s seen (e # es) =
     bindR (deref_session p (we_session e))
       (\<lambda>t. bindR (is_eligible p t)
       (\<lambda>eligible. if \<not> eligible then enqueue_loop p d s (seen @ [e]) es
          else bindR (mq_are_compatible d s t)
            (\<lambda>compatible. if compatible then Inr (Some (we_session e, seen @ es))
               else enqueue_loop p d s (seen @ [e]) es)))"

definition mq_enqueue ::
  "'s client_plane \<Rightarrow> nat \<Rightarrow> int \<Rightarrow> matchmaking_queue \<Rightarrow> ((nat \<times> nat) option \<times> matchmaking_queue) result" where
  "mq_enqueue p i now q =
     bindR (deref_session p i)
       (\<lambda>s. bindR (is_eligible p s)
       (\<lambda>eligible. if \<not> eligible then Inr (None, q)
          else bindR (enqueue_loop p (mq_max_rating_difference q) s [] (mq_waiting q))
            (\<lambda>found. case found of
               Some (white, rest) \<Rightarrow> Inr (Some (white, i), q\<lparr>mq_waiting := rest\<rparr>)
             | None \<Rightarrow> Inr (None, q\<lparr>mq_waiting := mq_waiting q @
                                    [\<lparr>we_session = i, we_enqueue_time = now\<rparr>]\<rparr>))))"

definition mq_check_timeouts ::
  "'s client_plane \<Rightarrow> int \<Rightarrow> matchmaking_queue \<Rightarrow> (nat list \<times> matchmaking_queue) result" where
  "mq_check_timeouts p now q =
     bindR (foldR (\<lambda>e (timed_out, kept).
              bindR (deref_session p (we_session e))
                (\<lambda>t. bindR (is_eligible p t)
                (\<lambda>eligible.
                   if eligible \<and> now - we_enqueue_time e \<ge> mq_queue_timeout q * 1000000
                   then Inr (timed_out @ [we_session e], kept)
                   else Inr (timed_out, kept @ [e])))) (mq_waiting q) ([], []))
       (\<lambda>(timed_out, kept). Inr (timed_out, q\<lparr>mq_waiting := kept\<rparr>))"

definition mq_waiting_count :: "matchmaking_queue \<Rightarrow> nat" where
  "mq_waiting_count q = length (mq_waiting q)"

subsection \<open>The persisted queue of players\<close>

record player_matchmaking_queue =
  pq_region :: string
  pq_max_rating_difference :: int
  pq_queue_timeout :: int
  pq_waiting :: "queued_player list"

definition new_player_queue ::
  "in_memory_runtime_store \<Rightarrow> string \<Rightarrow> int \<Rightarrow> int \<Rightarrow> player_matchmaking_queue" where
  "new_player_queue st region max_rating_difference queue_timeout =
     \<lparr>pq_region = region, pq_max_rating_difference = max_rating_difference,
      pq_queue_timeout = queue_timeout, pq_waiting = list_matchmaking_queue region st\<rparr>"

definition persist_queue :: "player_matchmaking_queue \<Rightarrow> in_memory_runtime_store \<Rightarrow> in_memory_runtime_store" where
  "persist_queue q st = set_matchmaking_queue (pq_region q) (pq_waiting q) st"

definition pq_remove ::
  "player_id \<Rightarrow> player_matchmaking_queue \<times> in_memory_runtime_store \<Rightarrow>
   player_matchmaking_queue \<times> in_memory_runtime_store" where
  "pq_remove pid = (\<lambda>(q, st).
     let q' = q\<lparr>pq_waiting := filter (\<lambda>e. qp_player_id e \<noteq> pid) (pq_waiting q)\<rparr>
     in (q', persist_queue q' st))"

definition pq_are_compatible :: "int \<Rightarrow> queued_player \<Rightarrow> queued_player \<Rightarrow> bool" where
  "pq_are_compatible max_rating_difference a b = (\<bar>qp_elo a - qp_elo b\<bar> \<le> max_rating_difference)"

text \<open>The loop of \<^verbatim>\<open>try_pair\<close>.\<close>

fun try_pair_loop ::
  "int \<Rightarrow> queued_player \<Rightarrow> queued_player list \<Rightarrow> queued_player list \<Rightarrow>
   (queued_player \<times> queued_player list) option" where
  "try_pair_loop d incoming seen [] = None"
| "try_pair_loop d incoming seen (e # es) =
     (if pq_are_compatible d incoming e then Some (e, seen @ es)
      else try_pair_loop d incoming (seen @ [e]) es)"

definition try_pair ::
  "queued_player \<Rightarrow> player_matchmaking_queue \<times> in_memory_runtime_store \<Rightarrow>
   (queued_player \<times> queued_player) option \<times> player_matchmaking_queue \<times> in_memory_runtime_store" where
  "try_pair incoming = (\<lambda>(q, st).
     case try_pair_loop (pq_max_rating_difference q) incoming [] (pq_waiting q) of
       Some (white, rest) \<Rightarrow>
         (let q' = q\<lparr>pq_waiting := rest\<rparr> in (Some (white, incoming), q', persist_queue q' st))
     | None \<Rightarrow> (None, q, st))"

definition pq_enqueue ::
  "queued_player \<Rightarrow> player_matchmaking_queue \<times> in_memory_runtime_store \<Rightarrow>
   player_matchmaking_queue \<times> in_memory_runtime_store" where
  "pq_enqueue player = (\<lambda>(q, st).
     let q' = q\<lparr>pq_waiting := pq_waiting q @ [player]\<rparr> in (q', persist_queue q' st))"

text \<open>The timeout is compared in whole seconds; \<^verbatim>\<open>/\<close> truncates.\<close>

definition pq_expired :: "int \<Rightarrow> player_matchmaking_queue \<Rightarrow> queued_player \<Rightarrow> bool" where
  "pq_expired now q e =
     (now - qp_enqueue_epoch_seconds e \<ge> sgn (pq_queue_timeout q) * (\<bar>pq_queue_timeout q\<bar> div 1000))"

definition pq_check_timeouts ::
  "int \<Rightarrow> player_matchmaking_queue \<times> in_memory_runtime_store \<Rightarrow>
   player_id list \<times> player_matchmaking_queue \<times> in_memory_runtime_store" where
  "pq_check_timeouts now = (\<lambda>(q, st).
     let timed_out = map qp_player_id (filter (pq_expired now q) (pq_waiting q));
         q' = q\<lparr>pq_waiting := filter (\<lambda>e. \<not> pq_expired now q e) (pq_waiting q)\<rparr>
     in (timed_out, q', if timed_out \<noteq> [] then persist_queue q' st else st))"

definition pq_waiting_count :: "player_matchmaking_queue \<Rightarrow> nat" where
  "pq_waiting_count q = length (pq_waiting q)"

subsection \<open>What a matchmaking queue promises\<close>

text \<open>
  The specification of a newcomer's arrival: the first compatible player of the line leaves it with
  the newcomer, or the newcomer joins the end.
\<close>

definition line_spec :: "('x \<Rightarrow> 'x \<Rightarrow> bool) \<Rightarrow> 'x \<Rightarrow> 'x list \<Rightarrow> 'x option \<times> 'x list" where
  "line_spec fits x ws =
     (case List.extract (fits x) ws of
        None \<Rightarrow> (None, ws @ [x])
      | Some (ys, y, zs) \<Rightarrow> (Some y, ys @ zs))"

text \<open>\<open>settled fits ws\<close>: no two of the line are compatible.\<close>

definition settled :: "('x \<Rightarrow> 'x \<Rightarrow> bool) \<Rightarrow> 'x list \<Rightarrow> bool" where
  "settled fits ws = sorted_wrt (\<lambda>a b. \<not> fits a b \<and> \<not> fits b a) ws"

lemma line_spec_settled:
  assumes "settled fits ws" "\<forall>y \<in> set ws. fits y x = fits x y"
  shows "settled fits (snd (line_spec fits x ws)) \<and> set (snd (line_spec fits x ws)) \<subseteq> insert x (set ws)"
proof (cases "List.extract (fits x) ws")
  case None
  moreover from this have "\<forall>y \<in> set ws. \<not> fits x y" by (simp add: extract_None_iff)
  ultimately show ?thesis
    using assms by (auto simp: line_spec_def settled_def sorted_wrt_append)
next
  case (Some t)
  obtain ys y zs where t: "t = (ys, y, zs)" by (cases t)
  then have "ws = ys @ y # zs" using Some by (auto simp: extract_Some_iff)
  then show ?thesis
    using assms Some t by (auto simp: line_spec_def settled_def sorted_wrt_append)
qed

locale waiting_line =
  fixes inv :: "'q \<Rightarrow> bool" and valid :: "'q \<Rightarrow> 'x \<Rightarrow> bool"
    and waiting :: "'q \<Rightarrow> 'x list" and key :: "'x \<Rightarrow> 'k"
    and fits :: "'q \<Rightarrow> 'x \<Rightarrow> 'x \<Rightarrow> bool"
    and enter :: "'x \<Rightarrow> 'q \<Rightarrow> ('k option \<times> 'q) result"
  assumes enter_spec:
      "inv q \<Longrightarrow> valid q x \<Longrightarrow> ensures (enter x q) (\<lambda>(r, q'). inv q' \<and>
         fits q' = fits q \<and> valid q' = valid q \<and>
         r = map_option key (fst (line_spec (fits q) x (waiting q))) \<and>
         waiting q' = snd (line_spec (fits q) x (waiting q)))"
    and fits_sym: "valid q x \<Longrightarrow> valid q y \<Longrightarrow> fits q x y = fits q y x"
begin

text \<open>The partner is the compatible player who has waited longest; nobody else moves.\<close>

lemma paired_with_first:
  assumes "inv q" "valid q x" "enter x q = Inr (Some k, q')"
  shows "\<exists>ys y zs. waiting q = ys @ y # zs \<and> k = key y \<and> fits q x y \<and>
           (\<forall>z \<in> set ys. \<not> fits q x z) \<and> waiting q' = ys @ zs"
proof -
  obtain ys y zs where e: "List.extract (fits q x) (waiting q) = Some (ys, y, zs)"
    using enter_spec [OF assms(1,2)] assms(3)
    by (cases "List.extract (fits q x) (waiting q)") (auto simp: line_spec_def)
  moreover from this have "k = key y" "waiting q' = ys @ zs"
    using enter_spec [OF assms(1,2)] assms(3) by (simp_all add: line_spec_def)
  moreover have "waiting q = ys @ y # zs" "fits q x y" "\<forall>z \<in> set ys. \<not> fits q x z"
    using e by (auto simp: extract_Some_iff)
  ultimately show ?thesis by blast
qed

lemma joins_the_end:
  assumes "inv q" "valid q x" "enter x q = Inr (None, q')"
  shows "(\<forall>y \<in> set (waiting q). \<not> fits q x y) \<and> waiting q' = waiting q @ [x]"
proof -
  have none: "List.extract (fits q x) (waiting q) = None"
    using enter_spec [OF assms(1,2)] assms(3)
    by (cases "List.extract (fits q x) (waiting q)") (auto simp: line_spec_def)
  then have "\<forall>y \<in> set (waiting q). \<not> fits q x y" by (simp add: extract_None_iff)
  then show ?thesis
    using enter_spec [OF assms(1,2)] assms(3) none by (simp add: line_spec_def)
qed

lemma enter_settled:
  assumes "inv q" "valid q x" "settled (fits q) (waiting q)" "\<forall>y \<in> set (waiting q). valid q y"
  shows "ensures (enter x q) (\<lambda>(r, q'). inv q' \<and> fits q' = fits q \<and> valid q' = valid q \<and>
     settled (fits q') (waiting q') \<and> (\<forall>y \<in> set (waiting q'). valid q' y))"
proof -
  have "settled (fits q) (snd (line_spec (fits q) x (waiting q)))"
    "set (snd (line_spec (fits q) x (waiting q))) \<subseteq> insert x (set (waiting q))"
    using line_spec_settled [OF assms(3), of x] fits_sym assms(2,4) by auto
  then show ?thesis
    using enter_spec [OF assms(1,2)] assms(2,4) by (fastforce simp: ensures_iff)
qed

text \<open>Whoever enters one after the other: no two compatible players are left waiting.\<close>

lemma run_settled:
  assumes "inv q" "\<forall>x \<in> set xs. valid q x" "settled (fits q) (waiting q)"
    "\<forall>y \<in> set (waiting q). valid q y"
  shows "ensures (foldR (\<lambda>x t. bindR (enter x t) (\<lambda>(r, t'). Inr t')) xs q)
     (\<lambda>q'. inv q' \<and> settled (fits q) (waiting q'))"
proof -
  let ?I = "\<lambda>t. inv t \<and> fits t = fits q \<and> valid t = valid q \<and> settled (fits t) (waiting t) \<and>
     (\<forall>y \<in> set (waiting t). valid t y)"
  have "ensures (foldR (\<lambda>x t. bindR (enter x t) (\<lambda>(r, t'). Inr t')) xs q) ?I"
  proof (rule ensures_foldR_inv)
    fix x t assume "x \<in> set xs" "?I t"
    then have "ensures (enter x t) (\<lambda>(r, q'). inv q' \<and> fits q' = fits t \<and> valid q' = valid t \<and>
        settled (fits q') (waiting q') \<and> (\<forall>y \<in> set (waiting q'). valid q' y))"
      using assms(2) by (intro enter_settled) auto
    then show "ensures (bindR (enter x t) (\<lambda>(r, t'). Inr t')) ?I"
      using \<open>?I t\<close> by (auto simp: ensures_iff)
  qed (use assms in auto)
  then show ?thesis by (rule ensures_mono) auto
qed

end

subsection \<open>Both queues keep the promise\<close>

text \<open>The pure loops agree with the specification.\<close>

lemma try_pair_loop_extract:
  "try_pair_loop d x seen ws =
     map_option (\<lambda>(ys, y, zs). (y, seen @ ys @ zs)) (List.extract (pq_are_compatible d x) ws)"
  by (induction ws arbitrary: seen) (simp_all add: extract_Nil_code extract_Cons_code split: option.splits)

text \<open>
  The queue of players: the newcomer tries the line and joins it if nobody fits, with the store
  along; the part of \<^verbatim>\<open>RemoteMatchmakingService::enter_queue\<close> after the removal.
\<close>

definition pq_arrive ::
  "queued_player \<Rightarrow> player_matchmaking_queue \<times> in_memory_runtime_store \<Rightarrow>
   (queued_player option \<times> player_matchmaking_queue \<times> in_memory_runtime_store) result" where
  "pq_arrive incoming qs =
     (case try_pair incoming qs of
        (Some (white, black), qs') \<Rightarrow> Inr (Some white, qs')
      | (None, qs') \<Rightarrow> Inr (None, pq_enqueue incoming qs'))"

text \<open>The store holds the queue as it is in memory.\<close>

definition persisted :: "player_matchmaking_queue \<times> in_memory_runtime_store \<Rightarrow> bool" where
  "persisted = (\<lambda>(q, st). list_matchmaking_queue (pq_region q) st = pq_waiting q)"

lemma persisted_persist [simp]: "persisted (q, persist_queue q st)"
  by (simp add: persisted_def persist_queue_def queue_set_list)

lemma persisted_ops:
  "persisted (pq_remove pid qs)"
  "persisted (pq_enqueue x qs)"
  "persisted qs \<Longrightarrow> persisted (snd (try_pair x qs))"
  "persisted qs \<Longrightarrow> persisted (snd (pq_check_timeouts now qs))"
  "persisted (new_player_queue st region d t, st)"
proof -
  show "persisted qs \<Longrightarrow> persisted (snd (pq_check_timeouts now qs))"
  proof (cases qs)
    case (Pair q st)
    assume "persisted qs"
    moreover have "filter (\<lambda>e. \<not> pq_expired now q e) (pq_waiting q) = pq_waiting q"
      if "filter (pq_expired now q) (pq_waiting q) = []"
      using that by (simp add: filter_empty_conv)
    ultimately show ?thesis
      using Pair by (auto simp: pq_check_timeouts_def Let_def persisted_def persist_queue_def queue_set_list)
  qed
qed (auto simp: pq_remove_def pq_enqueue_def try_pair_def new_player_queue_def persisted_def
    persist_queue_def queue_set_list Let_def split: prod.splits option.splits)

text \<open>A service that restarts reads back the queue it had.\<close>

lemma restart_restores:
  "persisted (q, st) \<Longrightarrow>
     new_player_queue st (pq_region q) (pq_max_rating_difference q) (pq_queue_timeout q) = q"
  by (simp add: persisted_def new_player_queue_def)

interpretation player_line: waiting_line persisted "\<lambda>_ _. True" "\<lambda>(q, st). pq_waiting q" id
  "\<lambda>(q, st). pq_are_compatible (pq_max_rating_difference q)" pq_arrive
proof unfold_locales
  fix qs :: "player_matchmaking_queue \<times> in_memory_runtime_store" and x
  assume "persisted qs"
  then show "ensures (pq_arrive x qs) (\<lambda>(r, q'). persisted q' \<and>
      (case q' of (q, st) \<Rightarrow> pq_are_compatible (pq_max_rating_difference q)) =
      (case qs of (q, st) \<Rightarrow> pq_are_compatible (pq_max_rating_difference q)) \<and>
      (\<lambda>_. True) = (\<lambda>_. True) \<and>
      r = map_option id (fst (line_spec (case qs of (q, st) \<Rightarrow> pq_are_compatible (pq_max_rating_difference q)) x
            (case qs of (q, st) \<Rightarrow> pq_waiting q))) \<and>
      (case q' of (q, st) \<Rightarrow> pq_waiting q) =
        snd (line_spec (case qs of (q, st) \<Rightarrow> pq_are_compatible (pq_max_rating_difference q)) x
            (case qs of (q, st) \<Rightarrow> pq_waiting q)))"
    by (cases qs) (auto simp: pq_arrive_def try_pair_def try_pair_loop_extract line_spec_def
        pq_enqueue_def Let_def split: option.splits prod.splits)
qed (auto simp: pq_are_compatible_def)

text \<open>
  The queue of sessions, on a given plane: who counts as eligible, with which rating, and which
  queues refer to logged-in sessions only.
\<close>

definition eligible_id :: "'s client_plane \<Rightarrow> nat \<Rightarrow> bool" where
  "eligible_id p i =
     (case find_session i p of
        None \<Rightarrow> False
      | Some s \<Rightarrow> has_user s \<and>
          (case ps_connection s of
             None \<Rightarrow> False
           | Some a \<Rightarrow> (case map_of (cp_clients p) a of None \<Rightarrow> False | Some c \<Rightarrow> cc_open c)))"

definition rating_id :: "'s client_plane \<Rightarrow> nat \<Rightarrow> int" where
  "rating_id p i =
     (case find_session i p of
        None \<Rightarrow> 0
      | Some s \<Rightarrow> (case ps_player_profile s of None \<Rightarrow> 0 | Some pl \<Rightarrow> pl_rating pl))"

definition known_user :: "'s client_plane \<Rightarrow> nat \<Rightarrow> bool" where
  "known_user p i = (\<exists>s. find_session i p = Some s \<and> has_user s)"

definition queue_ok :: "'s client_plane \<Rightarrow> matchmaking_queue \<Rightarrow> bool" where
  "queue_ok p q \<longleftrightarrow> plane_ok p \<and> (\<forall>e \<in> set (mq_waiting q). known_user p (we_session e))"

lemma known_user_deref:
  assumes "plane_ok p" "known_user p i"
  obtains s where "deref_session p i = Inr s" "find_session i p = Some s" "has_user s"
    "is_eligible p s = Inr (eligible_id p i)" "session_rating s = Inr (rating_id p i)" "session_ok s"
proof -
  obtain s where s: "find_session i p = Some s" "has_user s" using assms(2) by (auto simp: known_user_def)
  then have in_p: "s \<in> set (cp_sessions p)" using find_session_Some by blast
  then have ok: "session_ok s" using assms(1) by (simp add: plane_ok_def)
  obtain a c where "ps_connection s = Some a" "map_of (cp_clients p) a = Some c"
    "conn_ref (cp_clients p) (ps_connection s) = Inr c"
    using plane_conn [OF assms(1) in_p] .
  then have "is_eligible p s = Inr (eligible_id p i)"
    using s by (simp add: is_eligible_def eligible_id_def)
  moreover have "session_rating s = Inr (rating_id p i)"
    using session_ok_player [OF ok s(2)] s(1)
    by (auto simp: session_rating_def session_player_def rating_id_def of_option_def split: option.splits)
  ultimately show ?thesis using s ok by (intro that) (simp_all add: deref_session_def)
qed

definition mq_fits :: "'s client_plane \<Rightarrow> int \<Rightarrow> waiting_entry \<Rightarrow> waiting_entry \<Rightarrow> bool" where
  "mq_fits p d a b \<longleftrightarrow>
     eligible_id p (we_session b) \<and> \<bar>rating_id p (we_session a) - rating_id p (we_session b)\<bar> \<le> d"

lemma enqueue_loop_extract:
  assumes "plane_ok p" "\<forall>e \<in> set ws. known_user p (we_session e)" "session_rating s = Inr r"
    "rating_id p (we_session x) = r"
  shows "enqueue_loop p d s seen ws =
    Inr (map_option (\<lambda>(ys, y, zs). (we_session y, seen @ ys @ zs)) (List.extract (mq_fits p d x) ws))"
  using assms(2)
proof (induction ws arbitrary: seen)
  case (Cons e es)
  obtain t where "deref_session p (we_session e) = Inr t"
    "is_eligible p t = Inr (eligible_id p (we_session e))"
    "session_rating t = Inr (rating_id p (we_session e))"
    using known_user_deref [OF assms(1), of "we_session e"] Cons.prems by (metis list.set_intros(1))
  then show ?case
    using Cons assms(3,4)
    by (auto simp: mq_are_compatible_def mq_fits_def extract_Cons_code split: option.splits)
qed (simp add: extract_Nil_code)

definition mq_arrive ::
  "'s client_plane \<Rightarrow> waiting_entry \<Rightarrow> matchmaking_queue \<Rightarrow> (nat option \<times> matchmaking_queue) result" where
  "mq_arrive p x q =
     bindR (mq_enqueue p (we_session x) (we_enqueue_time x) q) (\<lambda>(r, q'). Inr (map_option fst r, q'))"

lemma mq_enqueue_spec:
  assumes "queue_ok p q" "eligible_id p (we_session x)"
  shows "mq_enqueue p (we_session x) (we_enqueue_time x) q =
    (case line_spec (mq_fits p (mq_max_rating_difference q)) x (mq_waiting q) of
       (r, ws) \<Rightarrow> Inr (map_option (\<lambda>y. (we_session y, we_session x)) r, q\<lparr>mq_waiting := ws\<rparr>))"
proof -
  have "known_user p (we_session x)"
    using assms(2) by (auto simp: eligible_id_def known_user_def split: option.splits)
  then obtain s where s: "deref_session p (we_session x) = Inr s"
    "is_eligible p s = Inr (eligible_id p (we_session x))"
    "session_rating s = Inr (rating_id p (we_session x))"
    using known_user_deref assms(1) unfolding queue_ok_def by metis
  then show ?thesis
    using assms enqueue_loop_extract [of p "mq_waiting q" s "rating_id p (we_session x)" x
        "mq_max_rating_difference q" "[]"]
    by (auto simp: mq_enqueue_def queue_ok_def line_spec_def split: option.splits)
qed

interpretation session_line: waiting_line "queue_ok p" "\<lambda>_ x. eligible_id p (we_session x)" mq_waiting
  we_session "\<lambda>q. mq_fits p (mq_max_rating_difference q)" "mq_arrive p" for p
proof unfold_locales
  fix q :: matchmaking_queue and x :: waiting_entry
  assume q: "queue_ok p q" and x: "eligible_id p (we_session x)"
  then have "known_user p (we_session x)"
    by (auto simp: eligible_id_def known_user_def split: option.splits)
  then show "ensures (mq_arrive p x q) (\<lambda>(r, q'). queue_ok p q' \<and>
      mq_fits p (mq_max_rating_difference q') = mq_fits p (mq_max_rating_difference q) \<and>
      (\<lambda>x. eligible_id p (we_session x)) = (\<lambda>x. eligible_id p (we_session x)) \<and>
      r = map_option we_session (fst (line_spec (mq_fits p (mq_max_rating_difference q)) x (mq_waiting q))) \<and>
      mq_waiting q' = snd (line_spec (mq_fits p (mq_max_rating_difference q)) x (mq_waiting q)))"
    using q x
    by (auto simp: mq_arrive_def mq_enqueue_spec line_spec_def queue_ok_def extract_Some_iff
        option.map_comp o_def split: option.splits)
qed (auto simp: mq_fits_def)

text \<open>Timeouts take exactly the eligible entries that have waited long enough, in their order.\<close>

definition overdue :: "'s client_plane \<Rightarrow> int \<Rightarrow> matchmaking_queue \<Rightarrow> waiting_entry \<Rightarrow> bool" where
  "overdue p now q e \<longleftrightarrow>
     eligible_id p (we_session e) \<and> now - we_enqueue_time e \<ge> mq_queue_timeout q * 1000000"

lemma mq_check_timeouts_spec:
  assumes "queue_ok p q"
  shows "mq_check_timeouts p now q =
    Inr (map we_session (filter (overdue p now q) (mq_waiting q)),
         q\<lparr>mq_waiting := filter (\<lambda>e. \<not> overdue p now q e) (mq_waiting q)\<rparr>)"
proof -
  have loop: "foldR (\<lambda>e (timed_out, kept).
      bindR (deref_session p (we_session e))
        (\<lambda>t. bindR (is_eligible p t)
        (\<lambda>eligible.
           if eligible \<and> now - we_enqueue_time e \<ge> mq_queue_timeout q * 1000000
           then Inr (timed_out @ [we_session e], kept)
           else Inr (timed_out, kept @ [e])))) ws (xs, ys) =
    Inr (xs @ map we_session (filter (overdue p now q) ws), ys @ filter (\<lambda>e. \<not> overdue p now q e) ws)"
    if "\<forall>e \<in> set ws. known_user p (we_session e)" for ws xs ys
    using that
  proof (induction ws arbitrary: xs ys)
    case (Cons e es)
    obtain t where "deref_session p (we_session e) = Inr t"
      "is_eligible p t = Inr (eligible_id p (we_session e))"
      using known_user_deref [of p "we_session e"] assms Cons.prems
      by (metis list.set_intros(1) queue_ok_def)
    then show ?case using Cons by (simp add: overdue_def)
  qed simp
  show ?thesis
    using loop [of "mq_waiting q" "[]" "[]"] assms by (simp add: mq_check_timeouts_def queue_ok_def)
qed

end
