(* ===== verification/Room.thy ===== *)
theory Room
  imports Snapshot_Writer Game_Input Player_Session "HOL-Library.AList"
begin

section \<open>Rooms\<close>

text \<open>
  \<^verbatim>\<open>server/room/room.cpp\<close>, \<^verbatim>\<open>server/room/room_manager.cpp\<close> and \<^verbatim>\<open>server/room/game_player.h\<close>: a room is
  a match with its two players; the manager numbers rooms and drops the inactive ones. The
  unordered map of rooms is an association list. The lemmas: a manager keeps room numbers unique
  and every match consistent, and it never gives a number twice.
\<close>

subsection \<open>One room\<close>

record game_player =
  gp_user_id :: user_id
  gp_side :: piece_color
  gp_player_id :: player_id

record room =
  rm_id :: room_id
  rm_default_board :: board_model
  rm_match :: game_state
  rm_active :: bool
  rm_white_player :: "game_player option"
  rm_black_player :: "game_player option"
  rm_db_game_id :: "int option"

definition new_room :: "room_id \<Rightarrow> board_model \<Rightarrow> room" where
  "new_room i board =
     \<lparr>rm_id = i, rm_default_board = board, rm_match = new_game board, rm_active = False,
      rm_white_player = None, rm_black_player = None, rm_db_game_id = None\<rparr>"

definition activate :: "game_player \<Rightarrow> game_player \<Rightarrow> room \<Rightarrow> room" where
  "activate white black r =
     r\<lparr>rm_white_player := Some white, rm_black_player := Some black, rm_active := True\<rparr>"

definition rebind :: "user_id \<Rightarrow> player_id \<Rightarrow> game_player option \<Rightarrow> game_player option" where
  "rebind uid pid gp =
     (case gp of
        None \<Rightarrow> None
      | Some p \<Rightarrow> Some (if gp_user_id p = uid then p\<lparr>gp_player_id := pid\<rparr> else p))"

definition rebind_player :: "user_id \<Rightarrow> player_id \<Rightarrow> room \<Rightarrow> room" where
  "rebind_player uid pid r =
     r\<lparr>rm_white_player := rebind uid pid (rm_white_player r),
       rm_black_player := rebind uid pid (rm_black_player r)\<rparr>"

definition set_db_game_id :: "int \<Rightarrow> room \<Rightarrow> room" where
  "set_db_game_id i r = r\<lparr>rm_db_game_id := Some i\<rparr>"

definition reset_room :: "room \<Rightarrow> room" where
  "reset_room r =
     r\<lparr>rm_active := False, rm_white_player := None, rm_black_player := None, rm_db_game_id := None,
       rm_match := new_game (rm_default_board r)\<rparr>"

definition room_tick :: "int \<Rightarrow> room \<Rightarrow> room result" where
  "room_tick delta_ms r = bindR (match_tick delta_ms (rm_match r)) (\<lambda>m. Inr (r\<lparr>rm_match := m\<rparr>))"

definition room_submit_action :: "game_action \<Rightarrow> room \<Rightarrow> room result" where
  "room_submit_action a r = bindR (submit_action a (rm_match r)) (\<lambda>m. Inr (r\<lparr>rm_match := m\<rparr>))"

definition generate_snapshot :: "room \<Rightarrow> string result" where
  "generate_snapshot r = bindR (build (rm_match r)) (\<lambda>view. Inr (write_snapshot view))"

definition room_is_game_over :: "room \<Rightarrow> bool" where
  "room_is_game_over r = gs_game_over (rm_match r)"

definition plays_for :: "user_id \<Rightarrow> game_player option \<Rightarrow> bool" where
  "plays_for uid gp = (case gp of None \<Rightarrow> False | Some p \<Rightarrow> gp_user_id p = uid)"

definition contains_player :: "user_id \<Rightarrow> room \<Rightarrow> bool" where
  "contains_player uid r = (plays_for uid (rm_white_player r) \<or> plays_for uid (rm_black_player r))"

subsection \<open>The room manager\<close>

record room_manager =
  mg_default_board :: board_model
  mg_next_id :: room_id
  mg_rooms :: "(room_id \<times> room) list"

definition new_manager :: "board_model \<Rightarrow> room_manager" where
  "new_manager board = \<lparr>mg_default_board = board, mg_next_id = 1, mg_rooms = []\<rparr>"

definition find_room :: "room_id \<Rightarrow> room_manager \<Rightarrow> room option" where
  "find_room i mg = map_of (mg_rooms mg) i"

text \<open>\<^verbatim>\<open>emplace\<close> leaves an existing entry.\<close>

definition create_room :: "room_manager \<Rightarrow> room_id \<times> room_manager" where
  "create_room mg =
     (let i = mg_next_id mg; mg1 = mg\<lparr>mg_next_id := i + 1\<rparr>
      in (i, case find_room i mg1 of
               Some _ \<Rightarrow> mg1
             | None \<Rightarrow> mg1\<lparr>mg_rooms := (i, new_room i (mg_default_board mg1)) # mg_rooms mg1\<rparr>))"

definition remove_room :: "room_id \<Rightarrow> room_manager \<Rightarrow> room_manager" where
  "remove_room i mg = mg\<lparr>mg_rooms := AList.delete i (mg_rooms mg)\<rparr>"

text \<open>A write through the pointer \<^verbatim>\<open>find_room\<close> returns.\<close>

definition put_room :: "room_id \<Rightarrow> room \<Rightarrow> room_manager \<Rightarrow> room_manager" where
  "put_room i r mg = mg\<lparr>mg_rooms := map (\<lambda>(j, s). (j, if j = i then r else s)) (mg_rooms mg)\<rparr>"

definition tick_all :: "int \<Rightarrow> room_manager \<Rightarrow> room_manager result" where
  "tick_all delta_ms mg =
     bindR (foldR (\<lambda>(i, r) acc.
              if rm_active r \<and> \<not> room_is_game_over r
              then bindR (room_tick delta_ms r) (\<lambda>r'. Inr (acc @ [(i, r')]))
              else Inr (acc @ [(i, r)])) (mg_rooms mg) [])
       (\<lambda>rs. Inr (mg\<lparr>mg_rooms := rs\<rparr>))"

definition remove_inactive_rooms :: "room_manager \<Rightarrow> room_manager" where
  "remove_inactive_rooms mg = mg\<lparr>mg_rooms := filter (\<lambda>(i, r). rm_active r) (mg_rooms mg)\<rparr>"

definition active_rooms :: "room_manager \<Rightarrow> room_id list" where
  "active_rooms mg = map fst (filter (\<lambda>(i, r). rm_active r) (mg_rooms mg))"

definition active_room_count :: "room_manager \<Rightarrow> nat" where
  "active_room_count mg = length (filter (\<lambda>(i, r). rm_active r) (mg_rooms mg))"

subsection \<open>Consistent rooms\<close>

text \<open>
  \<open>room_ok\<close>: the match is a consistent game under the standard rules, and an active room has two
  players, White's on the white side. \<open>manager_ok\<close>: room numbers are distinct, were handed out by
  the counter and are the rooms' own.
\<close>

definition room_ok :: "room \<Rightarrow> bool" where
  "room_ok r \<longleftrightarrow>
     flight_inv (rm_default_board r) [] \<and> game_inv (rm_match r) \<and> gs_rules (rm_match r) = standard \<and>
     (rm_active r \<longrightarrow>
        (\<exists>w b. rm_white_player r = Some w \<and> rm_black_player r = Some b \<and> gp_side w = White \<and> gp_side b = Black))"

definition manager_ok :: "room_manager \<Rightarrow> bool" where
  "manager_ok mg \<longleftrightarrow>
     flight_inv (mg_default_board mg) [] \<and> distinct (map fst (mg_rooms mg)) \<and>
     (\<forall>(i, r) \<in> set (mg_rooms mg). i < mg_next_id mg \<and> rm_id r = i \<and> room_ok r)"

lemma new_game_standard [simp]: "gs_rules (new_game b) = standard"
  by (simp add: new_game_def new_game_with_def)

lemma new_room_ok: "flight_inv b [] \<Longrightarrow> room_ok (new_room i b)"
  by (simp add: room_ok_def new_room_def) (simp add: new_game_def new_game_inv)

lemma reset_room_ok: "room_ok r \<Longrightarrow> room_ok (reset_room r)"
  by (simp add: room_ok_def reset_room_def) (simp add: new_game_def new_game_inv)

lemma activate_ok: "room_ok r \<Longrightarrow> gp_side w = White \<Longrightarrow> gp_side b = Black \<Longrightarrow> room_ok (activate w b r)"
  by (simp add: room_ok_def activate_def)

lemma rebind_ok: "room_ok r \<Longrightarrow> room_ok (rebind_player uid pid r)"
  by (auto simp: room_ok_def rebind_player_def rebind_def)

lemma room_submit_ok:
  assumes "room_ok r"
  shows "ensures (room_submit_action a r) (\<lambda>r'. room_ok r' \<and> rm_id r' = rm_id r \<and>
     rm_active r' = rm_active r \<and> rm_white_player r' = rm_white_player r \<and>
     rm_black_player r' = rm_black_player r \<and> rm_db_game_id r' = rm_db_game_id r \<and>
     rm_default_board r' = rm_default_board r \<and> game_step_ok (rm_match r) (rm_match r'))"
proof -
  have "game_inv (rm_match r)" "gs_rules (rm_match r) = standard"
    using assms by (simp_all add: room_ok_def)
  then have "ensures (apply_action a (rm_match r)) (game_step_ok (rm_match r))"
    by (rule std_policy.action_step)
  then show ?thesis
    using assms by (auto simp: room_submit_action_def submit_action_def ensures_iff room_ok_def game_step_ok_def)
qed

lemma room_tick_ok:
  assumes "room_ok r"
  shows "ensures (room_tick d r) (\<lambda>r'. room_ok r' \<and> rm_id r' = rm_id r \<and>
     rm_active r' = rm_active r \<and> rm_white_player r' = rm_white_player r \<and>
     rm_black_player r' = rm_black_player r \<and> rm_db_game_id r' = rm_db_game_id r \<and>
     rm_default_board r' = rm_default_board r \<and> game_step_ok (rm_match r) (rm_match r'))"
  using room_submit_ok [OF assms, of "AdvanceClock d"]
  by (simp add: room_tick_def match_tick_def room_submit_action_def submit_action_def)

lemma generate_snapshot_ok:
  assumes "room_ok r"
  shows "generate_snapshot r = Inr (write_snapshot (view_model (rm_match r)))"
proof -
  have "wf_board (gs_board (rm_match r))"
    using assms by (simp add: room_ok_def game_inv_wf)
  then show ?thesis by (simp add: generate_snapshot_def build_ok)
qed

lemma new_manager_ok: "flight_inv b [] \<Longrightarrow> manager_ok (new_manager b)"
  by (simp add: manager_ok_def new_manager_def)

lemma manager_find:
  assumes "manager_ok mg" "find_room i mg = Some r"
  shows "room_ok r" "rm_id r = i" "i < mg_next_id mg"
proof -
  have "(i, r) \<in> set (mg_rooms mg)" using assms(2) by (simp add: find_room_def map_of_SomeD)
  then show "room_ok r" "rm_id r = i" "i < mg_next_id mg"
    using assms(1) unfolding manager_ok_def by blast+
qed

lemma create_room_ok:
  assumes "manager_ok mg" "create_room mg = (i, mg')"
  shows "manager_ok mg'" "find_room i mg = None" "find_room i mg' = Some (new_room i (mg_default_board mg))"
    "\<And>j. j \<noteq> i \<Longrightarrow> find_room j mg' = find_room j mg" "mg_next_id mg' = mg_next_id mg + 1" "i = mg_next_id mg"
proof -
  have none: "mg_next_id mg \<notin> fst ` set (mg_rooms mg)"
    using assms(1) by (auto simp: manager_ok_def)
  then have "find_room (mg_next_id mg) mg = None"
    by (auto simp: find_room_def map_of_eq_None_iff)
  then have eq: "i = mg_next_id mg" "find_room i mg = None"
    "mg' = mg\<lparr>mg_next_id := i + 1, mg_rooms := (i, new_room i (mg_default_board mg)) # mg_rooms mg\<rparr>"
    using assms(2) by (auto simp: create_room_def Let_def find_room_def)
  then show "find_room i mg = None" "mg_next_id mg' = mg_next_id mg + 1" "i = mg_next_id mg"
    "find_room i mg' = Some (new_room i (mg_default_board mg))"
    "\<And>j. j \<noteq> i \<Longrightarrow> find_room j mg' = find_room j mg"
    by (simp_all add: find_room_def)
  show "manager_ok mg'"
    using assms(1) none eq new_room_ok [of "mg_default_board mg" i]
    by (auto simp: manager_ok_def) (simp add: new_room_def)
qed

lemma manager_ok_subset:
  assumes "manager_ok mg"
  shows "manager_ok (mg\<lparr>mg_rooms := filter P (mg_rooms mg)\<rparr>)"
  using assms by (auto simp: manager_ok_def distinct_map_filter)

lemma remove_inactive_ok: "manager_ok mg \<Longrightarrow> manager_ok (remove_inactive_rooms mg)"
  unfolding remove_inactive_rooms_def by (rule manager_ok_subset)

lemma put_room_ok:
  assumes "manager_ok mg" "room_ok r" "rm_id r = i"
  shows "manager_ok (put_room i r mg)"
proof -
  have "map fst (mg_rooms (put_room i r mg)) = map fst (mg_rooms mg)"
    by (simp add: put_room_def o_def case_prod_beta)
  moreover have "\<forall>(j, s) \<in> set (mg_rooms (put_room i r mg)). j < mg_next_id mg \<and> rm_id s = j \<and> room_ok s"
    using assms by (auto simp: manager_ok_def put_room_def)
  moreover have "mg_default_board (put_room i r mg) = mg_default_board mg"
    "mg_next_id (put_room i r mg) = mg_next_id mg"
    by (simp_all add: put_room_def)
  ultimately show ?thesis using assms(1) by (simp add: manager_ok_def)
qed

lemma find_put_room:
  "find_room j (put_room i r mg) =
     (if j = i \<and> find_room i mg \<noteq> None then Some r else find_room j mg)"
proof -
  have "map_of (map (\<lambda>(j, s). (j, if j = i then r else s)) xs) j =
      (if j = i \<and> map_of xs i \<noteq> None then Some r else map_of xs j)" for xs :: "(nat \<times> room) list"
    by (induction xs) auto
  then show ?thesis by (simp add: find_room_def put_room_def)
qed

lemma put_room_frame [simp]:
  "mg_next_id (put_room i r mg) = mg_next_id mg" "mg_default_board (put_room i r mg) = mg_default_board mg"
  by (simp_all add: put_room_def)

end
