(* ===== verification/User_Service.thy ===== *)
theory User_Service
  imports Password_Hasher Player_Session Float32 "HOL-Library.AList"
begin

section \<open>Users, authentication and ratings\<close>

text \<open>
  \<^verbatim>\<open>server/database/in_memory_user_repository.cpp\<close>, \<^verbatim>\<open>server/authentication_service.cpp\<close> and
  \<^verbatim>\<open>server/rating_service.cpp\<close>. \<^verbatim>\<open>IUserRepository\<close> is an abstract class: what the services call of it
  is the record \<open>user_repository_ops\<close>, its contract is the locale \<open>user_repository\<close>, and the
  in-memory repository is the interpretation. The lemmas about logging in are proved in the locale
  from the contract.
\<close>

subsection \<open>The repository interface\<close>

record user_credentials =
  uc_id :: user_id
  uc_username :: string
  uc_rating :: int
  uc_password_hash :: string

record 'r user_repository_ops =
  ur_find_credentials_by_username :: "string \<Rightarrow> 'r \<Rightarrow> user_credentials option"
  ur_find_profile_by_id :: "user_id \<Rightarrow> 'r \<Rightarrow> player option"
  ur_create_user_with_password :: "string \<Rightarrow> int \<Rightarrow> string \<Rightarrow> 'r \<Rightarrow> player option \<times> 'r"
  ur_update_rating :: "user_id \<Rightarrow> int \<Rightarrow> 'r \<Rightarrow> bool \<times> 'r"

subsection \<open>The in-memory repository\<close>

record stored_user =
  su_user :: user
  su_rating :: int
  su_password_hash :: string

record in_memory_user_repository =
  iu_users :: "(user_id \<times> stored_user) list"
  iu_by_username :: "(string \<times> user_id) list"
  iu_next_id :: user_id

definition empty_user_repository :: in_memory_user_repository where
  "empty_user_repository = \<lparr>iu_users = [], iu_by_username = [], iu_next_id = 1\<rparr>"

definition insert_user :: "user_id \<Rightarrow> stored_user \<Rightarrow> in_memory_user_repository \<Rightarrow> in_memory_user_repository" where
  "insert_user i su r =
     r\<lparr>iu_users := AList.update i su (iu_users r),
       iu_by_username := AList.update (us_username (su_user su)) i (iu_by_username r)\<rparr>"

definition create_user_with_id ::
  "user_id \<Rightarrow> string \<Rightarrow> in_memory_user_repository \<Rightarrow> user_id \<times> in_memory_user_repository" where
  "create_user_with_id i username r =
     (i, insert_user i \<lparr>su_user = \<lparr>us_id = i, us_username = username\<rparr>, su_rating = 1000,
                        su_password_hash = ''''\<rparr> r)"

definition create_user :: "string \<Rightarrow> in_memory_user_repository \<Rightarrow> user_id \<times> in_memory_user_repository" where
  "create_user username r =
     create_user_with_id (iu_next_id r) username (r\<lparr>iu_next_id := iu_next_id r + 1\<rparr>)"

definition find_by_id :: "user_id \<Rightarrow> in_memory_user_repository \<Rightarrow> user option" where
  "find_by_id i r = map_option su_user (map_of (iu_users r) i)"

definition find_by_username :: "string \<Rightarrow> in_memory_user_repository \<Rightarrow> user option" where
  "find_by_username username r =
     (case map_of (iu_by_username r) username of None \<Rightarrow> None | Some i \<Rightarrow> find_by_id i r)"

text \<open>
  \<^verbatim>\<open>users_.at(user->id())\<close> throws when the stored user carries another id than its key; here that is
  \<open>None\<close>, and \<open>repo_ok\<close> below rules it out.
\<close>

definition find_credentials_by_username ::
  "string \<Rightarrow> in_memory_user_repository \<Rightarrow> user_credentials option" where
  "find_credentials_by_username username r =
     (case find_by_username username r of
        None \<Rightarrow> None
      | Some u \<Rightarrow>
          (case map_of (iu_users r) (us_id u) of
             None \<Rightarrow> None
           | Some stored \<Rightarrow>
               Some \<lparr>uc_id = us_id u, uc_username = us_username u, uc_rating = su_rating stored,
                     uc_password_hash = su_password_hash stored\<rparr>))"

definition find_profile_by_id :: "user_id \<Rightarrow> in_memory_user_repository \<Rightarrow> player option" where
  "find_profile_by_id i r =
     (case map_of (iu_users r) i of
        None \<Rightarrow> None
      | Some stored \<Rightarrow>
          Some \<lparr>pl_id = to_int32 (int (us_id (su_user stored))),
                pl_username = us_username (su_user stored), pl_rating = su_rating stored\<rparr>)"

definition create_user_with_password ::
  "string \<Rightarrow> int \<Rightarrow> string \<Rightarrow> in_memory_user_repository \<Rightarrow> player option \<times> in_memory_user_repository" where
  "create_user_with_password username rating password_hash r =
     (if find_by_username username r \<noteq> None then (None, r)
      else (let i = iu_next_id r
            in (Some \<lparr>pl_id = to_int32 (int i), pl_username = username, pl_rating = rating\<rparr>,
                insert_user i \<lparr>su_user = \<lparr>us_id = i, us_username = username\<rparr>, su_rating = rating,
                               su_password_hash = password_hash\<rparr> (r\<lparr>iu_next_id := i + 1\<rparr>))))"

definition update_rating ::
  "user_id \<Rightarrow> int \<Rightarrow> in_memory_user_repository \<Rightarrow> bool \<times> in_memory_user_repository" where
  "update_rating i rating r =
     (case map_of (iu_users r) i of
        None \<Rightarrow> (False, r)
      | Some stored \<Rightarrow> (True, r\<lparr>iu_users := AList.update i (stored\<lparr>su_rating := rating\<rparr>) (iu_users r)\<rparr>))"

definition in_memory_ops :: "in_memory_user_repository user_repository_ops" where
  "in_memory_ops =
     \<lparr>ur_find_credentials_by_username = find_credentials_by_username,
      ur_find_profile_by_id = find_profile_by_id,
      ur_create_user_with_password = create_user_with_password,
      ur_update_rating = update_rating\<rparr>"

subsection \<open>Authentication\<close>

record authentication_result =
  ar_success :: bool
  ar_player :: "player option"
  ar_failure_reason :: string

definition auth_failure :: "string \<Rightarrow> authentication_result" where
  "auth_failure reason = \<lparr>ar_success = False, ar_player = None, ar_failure_reason = reason\<rparr>"

definition auth_success :: "player \<Rightarrow> authentication_result" where
  "auth_success p = \<lparr>ar_success = True, ar_player = Some p, ar_failure_reason = ''''\<rparr>"

definition kDefaultIterations :: int where
  "kDefaultIterations = 10000"

text \<open>\<open>salt\<close> is what \<^verbatim>\<open>std::random_device\<close> delivers to \<^verbatim>\<open>hash_password\<close>.\<close>

definition authenticate ::
  "'r user_repository_ops \<Rightarrow> byte list \<Rightarrow> string \<Rightarrow> string \<Rightarrow> 'r \<Rightarrow> authentication_result \<times> 'r" where
  "authenticate repo salt username password r =
     (if username = [] then (auth_failure ''invalid_username'', r)
      else if password = [] then (auth_failure ''missing_password'', r)
      else case ur_find_credentials_by_username repo username r of
             Some existing \<Rightarrow>
               if uc_password_hash existing = [] then (auth_failure ''invalid_password'', r)
               else if \<not> verify_password password (uc_password_hash existing)
                 then (auth_failure ''invalid_password'', r)
               else (auth_success \<lparr>pl_id = to_int32 (int (uc_id existing)),
                                   pl_username = uc_username existing, pl_rating = uc_rating existing\<rparr>, r)
           | None \<Rightarrow>
               (case ur_create_user_with_password repo username 1000
                       (hash_password salt password kDefaultIterations) r of
                  (Some created, r') \<Rightarrow> (auth_success created, r')
                | (None, r') \<Rightarrow>
                    if ur_find_credentials_by_username repo username r' \<noteq> None
                    then (auth_failure ''username_taken'', r')
                    else (auth_failure ''create_failed'', r')))"

subsection \<open>Ratings\<close>

text \<open>
  \<open>pow10 d\<close> stands for the double \<^verbatim>\<open>std::pow(10.0, d / 400.0)\<close> of the C mathematics library; the
  rest of the arithmetic is rounded to double precision as the code's expressions are.
  \<^verbatim>\<open>std::lround\<close> rounds half away from zero.
\<close>

record rating_change =
  rc_winner_new_rating :: int
  rc_loser_new_rating :: int

definition kDefaultKFactor :: int where
  "kDefaultKFactor = 25"

definition kMinRating :: int where
  "kMinRating = 0"

definition lround :: "rat \<Rightarrow> int" where
  "lround x = (if x < 0 then - \<lfloor>- x + 1 / 2\<rfloor> else \<lfloor>x + 1 / 2\<rfloor>)"

definition clamp_rating :: "int \<Rightarrow> int" where
  "clamp_rating rating = (if rating < kMinRating then kMinRating else rating)"

definition expected_score :: "(int \<Rightarrow> rat) \<Rightarrow> int \<Rightarrow> int \<Rightarrow> rat" where
  "expected_score pow10 player_rating opponent_rating =
     f64 (1 / f64 (1 + pow10 (opponent_rating - player_rating)))"

definition calculate_ratings :: "(int \<Rightarrow> rat) \<Rightarrow> int \<Rightarrow> int \<Rightarrow> int \<Rightarrow> rating_change" where
  "calculate_ratings pow10 k_factor winner_rating loser_rating =
     (let winner_expected = expected_score pow10 winner_rating loser_rating;
          loser_expected = expected_score pow10 loser_rating winner_rating
      in \<lparr>rc_winner_new_rating =
            clamp_rating (winner_rating +
              lround (f64 (of_int k_factor * f64 (1 - winner_expected)))),
          rc_loser_new_rating =
            clamp_rating (loser_rating +
              lround (f64 (of_int k_factor * f64 (0 - loser_expected))))\<rparr>)"

subsection \<open>The contract of a repository and what authentication makes of it\<close>

text \<open>
  \<open>storable u\<close>: the repository can hold the name \<open>u\<close>, and \<open>room r\<close>: it has an id left. A repository in
  memory holds every name and never runs out; a database is bounded in both.
\<close>

locale user_repository =
  fixes repo :: "'r user_repository_ops" and invar :: "'r \<Rightarrow> bool"
    and storable :: "string \<Rightarrow> bool" and room :: "'r \<Rightarrow> bool"
  assumes found_name:
      "invar r \<Longrightarrow> storable u \<Longrightarrow> ur_find_credentials_by_username repo u r = Some c \<Longrightarrow> uc_username c = u"
    and create_refused:
      "invar r \<Longrightarrow> storable u \<Longrightarrow> int32 rt \<Longrightarrow> storable h \<Longrightarrow>
       ur_find_credentials_by_username repo u r \<noteq> None \<or> \<not> room r \<Longrightarrow>
       \<exists>r'. ur_create_user_with_password repo u rt h r = (None, r') \<and> invar r' \<and>
          (\<forall>v. storable v \<longrightarrow> ur_find_credentials_by_username repo v r' = ur_find_credentials_by_username repo v r)"
    and create_fresh:
      "invar r \<Longrightarrow> storable u \<Longrightarrow> int32 rt \<Longrightarrow> storable h \<Longrightarrow>
       ur_find_credentials_by_username repo u r = None \<Longrightarrow> room r \<Longrightarrow>
       \<exists>i r'. ur_create_user_with_password repo u rt h r =
            (Some \<lparr>pl_id = to_int32 (int i), pl_username = u, pl_rating = rt\<rparr>, r') \<and>
          invar r' \<and>
          (\<forall>v. storable v \<longrightarrow> ur_find_credentials_by_username repo v r' =
             (if v = u then Some \<lparr>uc_id = i, uc_username = u, uc_rating = rt, uc_password_hash = h\<rparr>
              else ur_find_credentials_by_username repo v r))"
    and update_keeps:
      "invar r \<Longrightarrow> int32 (int i) \<Longrightarrow> int32 x \<Longrightarrow> invar (snd (ur_update_rating repo i x r))"
    and update_found:
      "invar r \<Longrightarrow> int32 (int i) \<Longrightarrow> int32 x \<Longrightarrow> storable u \<Longrightarrow>
       ur_find_credentials_by_username repo u (snd (ur_update_rating repo i x r)) =
         map_option (\<lambda>c. if uc_id c = i then c\<lparr>uc_rating := x\<rparr> else c)
           (ur_find_credentials_by_username repo u r)"
begin

lemma authenticate_known:
  assumes "invar r" "storable u" "u \<noteq> []" "p \<noteq> []" "ur_find_credentials_by_username repo u r = Some c"
  shows "authenticate repo salt u p r =
    (if uc_password_hash c \<noteq> [] \<and> verify_password p (uc_password_hash c)
     then (auth_success \<lparr>pl_id = to_int32 (int (uc_id c)), pl_username = u, pl_rating = uc_rating c\<rparr>, r)
     else (auth_failure ''invalid_password'', r))"
  using assms found_name [OF assms(1,2,5)] by (simp add: authenticate_def)

lemma authenticate_new:
  assumes "invar r" "storable u" "u \<noteq> []" "p \<noteq> []" "ur_find_credentials_by_username repo u r = None"
    "storable (hash_password salt p kDefaultIterations)" "room r"
  shows "\<exists>i r'. authenticate repo salt u p r =
      (auth_success \<lparr>pl_id = to_int32 (int i), pl_username = u, pl_rating = 1000\<rparr>, r') \<and> invar r' \<and>
      (\<forall>v. storable v \<longrightarrow> ur_find_credentials_by_username repo v r' =
         (if v = u then Some \<lparr>uc_id = i, uc_username = u, uc_rating = 1000,
                              uc_password_hash = hash_password salt p kDefaultIterations\<rparr>
          else ur_find_credentials_by_username repo v r))"
  using assms create_fresh [OF assms(1,2) int32_1000 assms(6,5,7)]
  by (auto simp: authenticate_def)

text \<open>A repository that is full turns newcomers away and is not harmed by it.\<close>

lemma authenticate_full:
  assumes "invar r" "storable u" "u \<noteq> []" "p \<noteq> []" "ur_find_credentials_by_username repo u r = None"
    "storable (hash_password salt p kDefaultIterations)" "\<not> room r"
  shows "\<exists>r'. authenticate repo salt u p r = (auth_failure ''create_failed'', r') \<and> invar r' \<and>
      (\<forall>v. storable v \<longrightarrow> ur_find_credentials_by_username repo v r' = ur_find_credentials_by_username repo v r)"
  using assms create_refused [OF assms(1,2) int32_1000 assms(6)]
  by (auto simp: authenticate_def)

lemma authenticate_invar:
  assumes "invar r" "storable u" "storable (hash_password salt p kDefaultIterations)"
  shows "invar (snd (authenticate repo salt u p r))"
  using assms authenticate_known [of r u p _ salt] authenticate_new [of r u p salt]
    authenticate_full [of r u p salt]
  by (cases "u = [] \<or> p = []"; cases "ur_find_credentials_by_username repo u r"; cases "room r")
    (auto simp: authenticate_def)

text \<open>
  Registering and logging in again: whoever comes back with a password gets in exactly if it
  derives the registered key; in particular with the password that was registered.
\<close>

lemma login_after_registration:
  assumes "invar r" "storable u" "u \<noteq> []" "p \<noteq> []" "q \<noteq> []" "ur_find_credentials_by_username repo u r = None"
    "storable (hash_password salt p kDefaultIterations)" "room r"
  shows "\<exists>player r'. authenticate repo salt u p r = (auth_success player, r') \<and> invar r' \<and>
     pl_username player = u \<and> pl_rating player = 1000 \<and>
     authenticate repo salt' u q r' =
       (if pbkdf2_sha256 q salt kDefaultIterations kHashBytes = pbkdf2_sha256 p salt kDefaultIterations kHashBytes
        then (auth_success player, r') else (auth_failure ''invalid_password'', r'))"
proof -
  obtain i r' where a: "authenticate repo salt u p r =
      (auth_success \<lparr>pl_id = to_int32 (int i), pl_username = u, pl_rating = 1000\<rparr>, r')" "invar r'"
    "ur_find_credentials_by_username repo u r' =
       Some \<lparr>uc_id = i, uc_username = u, uc_rating = 1000,
             uc_password_hash = hash_password salt p kDefaultIterations\<rparr>"
    using authenticate_new [OF assms(1,2,3,4,6,7,8)] assms(2) by auto
  have "verify_password q (hash_password salt p kDefaultIterations) \<longleftrightarrow>
      pbkdf2_sha256 q salt kDefaultIterations kHashBytes = pbkdf2_sha256 p salt kDefaultIterations kHashBytes"
    by (rule verify_hash) (simp_all add: kDefaultIterations_def)
  then show ?thesis
    using a authenticate_known [OF a(2) assms(2,3,5) a(3), of salt'] hash_password_not_empty by auto
qed

text \<open>A rating update does not touch passwords, so it locks nobody out.\<close>

lemma update_keeps_login:
  assumes "invar r" "storable u" "int32 (int i)" "int32 x" "ar_success (fst (authenticate repo salt u p r))"
    "ur_find_credentials_by_username repo u r \<noteq> None"
  shows "ar_success (fst (authenticate repo salt' u p (snd (ur_update_rating repo i x r))))"
proof -
  have np: "u \<noteq> []" "p \<noteq> []"
    using assms(5) by (auto simp: authenticate_def auth_failure_def split: if_splits)
  obtain c where c: "ur_find_credentials_by_username repo u r = Some c" using assms(6) by auto
  let ?c = "if uc_id c = i then c\<lparr>uc_rating := x\<rparr> else c"
  have "ur_find_credentials_by_username repo u (snd (ur_update_rating repo i x r)) = Some ?c"
    by (simp add: update_found [OF assms(1,3,4,2)] c)
  note known = authenticate_known [OF assms(1,2) np c, of salt]
    authenticate_known [OF update_keeps [OF assms(1,3,4)] assms(2) np this, of salt']
  have "uc_password_hash ?c = uc_password_hash c" by simp
  with known assms(5) show ?thesis
    by (simp add: auth_success_def auth_failure_def split: if_split_asm)
qed

end

subsection \<open>The in-memory repository keeps the contract\<close>

definition repo_ok :: "in_memory_user_repository \<Rightarrow> bool" where
  "repo_ok r \<longleftrightarrow>
     (\<forall>i su. map_of (iu_users r) i = Some su \<longrightarrow>
        us_id (su_user su) = i \<and> i < iu_next_id r \<and>
        map_of (iu_by_username r) (us_username (su_user su)) = Some i) \<and>
     (\<forall>u i. map_of (iu_by_username r) u = Some i \<longrightarrow>
        (\<exists>su. map_of (iu_users r) i = Some su \<and> us_username (su_user su) = u))"

lemma repo_ok_empty: "repo_ok empty_user_repository"
  by (simp add: repo_ok_def empty_user_repository_def)

lemma repo_ok_found:
  assumes "repo_ok r"
  shows "find_credentials_by_username u r =
    (case map_of (iu_by_username r) u of
       None \<Rightarrow> None
     | Some i \<Rightarrow> map_option (\<lambda>su. \<lparr>uc_id = i, uc_username = u, uc_rating = su_rating su,
                                  uc_password_hash = su_password_hash su\<rparr>) (map_of (iu_users r) i))"
  using assms
  by (force simp: repo_ok_def find_credentials_by_username_def find_by_username_def find_by_id_def
      split: option.splits)

lemma find_by_username_None:
  "repo_ok r \<Longrightarrow> find_by_username u r = None \<longleftrightarrow> map_of (iu_by_username r) u = None"
  by (force simp: repo_ok_def find_by_username_def find_by_id_def split: option.splits)

lemma create_user_ok:
  assumes "repo_ok r" "map_of (iu_by_username r) u = None"
  shows "repo_ok (snd (create_user_with_password u rt h r))"
proof -
  let ?su = "\<lparr>su_user = \<lparr>us_id = iu_next_id r, us_username = u\<rparr>, su_rating = rt, su_password_hash = h\<rparr>"
  let ?r = "insert_user (iu_next_id r) ?su (r\<lparr>iu_next_id := Suc (iu_next_id r)\<rparr>)"
  have users: "map_of (iu_users ?r) i = (if i = iu_next_id r then Some ?su else map_of (iu_users r) i)"
    "map_of (iu_by_username ?r) v = (if v = u then Some (iu_next_id r) else map_of (iu_by_username r) v)"
    for i v by (simp_all add: insert_user_def update_conv')
  have old: "us_id (su_user su) = i" "i < iu_next_id r" "us_username (su_user su) \<noteq> u"
    "map_of (iu_by_username r) (us_username (su_user su)) = Some i"
    if "map_of (iu_users r) i = Some su" for i su
    using assms that by (auto simp: repo_ok_def)
  have next_id: "iu_next_id ?r = iu_next_id r + 1" by (simp add: insert_user_def)
  have "us_id (su_user su) = i \<and> i < iu_next_id ?r \<and>
      map_of (iu_by_username ?r) (us_username (su_user su)) = Some i"
    if "map_of (iu_users ?r) i = Some su" for i su
  proof (cases "i = iu_next_id r")
    case True
    with that have "su = ?su" by (simp add: users)
    then show ?thesis using True unfolding users next_id by simp
  next
    case False
    with that have "map_of (iu_users r) i = Some su" by (simp add: users)
    from old [OF this] show ?thesis unfolding users next_id by simp
  qed
  moreover have "\<exists>su. map_of (iu_users ?r) i = Some su \<and> us_username (su_user su) = v"
    if "map_of (iu_by_username ?r) v = Some i" for v i
  proof (cases "v = u")
    case True
    with that have "i = iu_next_id r" by (simp add: users)
    then show ?thesis unfolding users using True by simp
  next
    case False
    with that have "map_of (iu_by_username r) v = Some i" by (simp add: users)
    with assms(1) obtain su where su: "map_of (iu_users r) i = Some su" "us_username (su_user su) = v"
      unfolding repo_ok_def by blast
    from old(2) [OF su(1)] su show ?thesis unfolding users by simp
  qed
  ultimately have "repo_ok ?r" unfolding repo_ok_def by blast
  then show ?thesis
    using assms find_by_username_None [of r u] by (simp add: create_user_with_password_def Let_def)
qed

lemma update_rating_ok: "repo_ok r \<Longrightarrow> repo_ok (snd (update_rating i x r))"
proof (cases "map_of (iu_users r) i")
  case (Some su)
  assume ok: "repo_ok r"
  have "map_of (iu_users (snd (update_rating i x r))) j =
      (if j = i then Some (su\<lparr>su_rating := x\<rparr>) else map_of (iu_users r) j)" for j
    using Some by (simp add: update_rating_def update_conv')
  moreover have "iu_by_username (snd (update_rating i x r)) = iu_by_username r"
    "iu_next_id (snd (update_rating i x r)) = iu_next_id r"
    using Some by (simp_all add: update_rating_def)
  moreover have "us_id (su_user su) = i \<and> i < iu_next_id r \<and>
      map_of (iu_by_username r) (us_username (su_user su)) = Some i"
    using ok Some by (simp add: repo_ok_def)
  moreover have "us_username (su_user su) = u" if "map_of (iu_by_username r) u = Some i" for u
    using ok Some that unfolding repo_ok_def by (metis option.inject)
  ultimately show ?thesis using ok by (simp add: repo_ok_def)
qed (simp add: update_rating_def)

lemma update_rating_found:
  assumes "repo_ok r"
  shows "find_credentials_by_username u (snd (update_rating i x r)) =
    map_option (\<lambda>c. if uc_id c = i then c\<lparr>uc_rating := x\<rparr> else c) (find_credentials_by_username u r)"
proof -
  have "iu_by_username (snd (update_rating i x r)) = iu_by_username r"
    by (simp add: update_rating_def split: option.splits)
  moreover have "map_of (iu_users (snd (update_rating i x r))) j =
      map_option (\<lambda>su. if j = i then su\<lparr>su_rating := x\<rparr> else su) (map_of (iu_users r) j)" for j
    by (cases "map_of (iu_users r) j") (auto simp: update_rating_def update_conv' split: option.splits)
  ultimately show ?thesis
    unfolding repo_ok_found [OF update_rating_ok [OF assms]] repo_ok_found [OF assms]
    by (simp add: option.map_comp o_def split: option.splits) (auto intro!: option.map_cong0)
qed

interpretation in_memory: user_repository in_memory_ops repo_ok "\<lambda>_. True" "\<lambda>_. True"
proof unfold_locales
  fix r u c
  assume "repo_ok r" "ur_find_credentials_by_username in_memory_ops u r = Some c"
  then show "uc_username c = u"
    by (auto simp: in_memory_ops_def repo_ok_found split: option.splits)
next
  fix r u rt h
  assume ok: "repo_ok r" and "ur_find_credentials_by_username in_memory_ops u r \<noteq> None \<or> \<not> True"
  then have "find_by_username u r \<noteq> None"
    by (auto simp: in_memory_ops_def find_credentials_by_username_def split: option.splits)
  then show "\<exists>r'. ur_create_user_with_password in_memory_ops u rt h r = (None, r') \<and> repo_ok r' \<and>
      (\<forall>v. True \<longrightarrow> ur_find_credentials_by_username in_memory_ops v r' = ur_find_credentials_by_username in_memory_ops v r)"
    using ok by (simp add: in_memory_ops_def create_user_with_password_def)
next
  fix r u rt h
  assume ok: "repo_ok r" and none: "ur_find_credentials_by_username in_memory_ops u r = None"
  then have n: "map_of (iu_by_username r) u = None"
    by (force simp: in_memory_ops_def repo_ok_found repo_ok_def split: option.splits)
  let ?p = "\<lparr>pl_id = to_int32 (int (iu_next_id r)), pl_username = u, pl_rating = rt\<rparr>"
  let ?r = "snd (create_user_with_password u rt h r)"
  have ok': "repo_ok ?r" using ok n by (rule create_user_ok)
  have c: "create_user_with_password u rt h r = (Some ?p, ?r)"
    using ok n find_by_username_None [of r u] by (simp add: create_user_with_password_def Let_def)
  have r: "?r = insert_user (iu_next_id r) \<lparr>su_user = \<lparr>us_id = iu_next_id r, us_username = u\<rparr>,
      su_rating = rt, su_password_hash = h\<rparr> (r\<lparr>iu_next_id := iu_next_id r + 1\<rparr>)"
    using ok n find_by_username_None [of r u] by (simp add: create_user_with_password_def Let_def)
  have "find_credentials_by_username v ?r =
      (if v = u then Some \<lparr>uc_id = iu_next_id r, uc_username = u, uc_rating = rt, uc_password_hash = h\<rparr>
       else find_credentials_by_username v r)" for v
  proof -
    have "i < iu_next_id r" if "map_of (iu_by_username r) v = Some i" for i
      using ok that unfolding repo_ok_def by blast
    then show ?thesis
      unfolding repo_ok_found [OF ok'] repo_ok_found [OF ok] unfolding r
      by (auto simp: insert_user_def update_conv' split: option.splits)
  qed
  with c ok' show "\<exists>i r'. ur_create_user_with_password in_memory_ops u rt h r =
      (Some \<lparr>pl_id = to_int32 (int i), pl_username = u, pl_rating = rt\<rparr>, r') \<and> repo_ok r' \<and>
      (\<forall>v. True \<longrightarrow> ur_find_credentials_by_username in_memory_ops v r' =
         (if v = u then Some \<lparr>uc_id = i, uc_username = u, uc_rating = rt, uc_password_hash = h\<rparr>
          else ur_find_credentials_by_username in_memory_ops v r))"
    unfolding in_memory_ops_def by (intro exI [of _ "iu_next_id r"] exI [of _ ?r]) simp
qed (simp_all add: in_memory_ops_def update_rating_ok update_rating_found)

subsection \<open>Bounds of a rating change\<close>

lemma expected_unit:
  assumes "\<And>d. 0 < pow10 d"
  shows "0 \<le> expected_score pow10 a b" "expected_score pow10 a b \<le> 1"
proof -
  have p: "0 < pow10 (b - a)" using assms .
  then have "1 \<le> f64 (1 + pow10 (b - a))"
    using fround_mono [of 1 "1 + pow10 (b - a)" 52] by (simp add: f64_def)
  then show "0 \<le> expected_score pow10 a b" "expected_score pow10 a b \<le> 1"
    unfolding expected_score_def f64_def
    by (auto intro!: fround_nonneg fround_le_1 simp: divide_le_eq_1)
qed

lemma lround_mono: "x \<le> y \<Longrightarrow> lround x \<le> lround y"
proof (cases "x < 0"; cases "y < 0")
  assume "x \<le> y" "x < 0" "\<not> y < 0"
  then have "0 \<le> \<lfloor>- x + 1 / 2\<rfloor>" "0 \<le> \<lfloor>y + 1 / 2\<rfloor>" by (simp_all add: zero_le_floor)
  then have "- \<lfloor>- x + 1 / 2\<rfloor> \<le> \<lfloor>y + 1 / 2\<rfloor>" by linarith
  then show ?thesis using \<open>x < 0\<close> \<open>\<not> y < 0\<close> unfolding lround_def by simp
qed (auto simp: lround_def intro!: floor_mono)

lemma lround_of_int: "lround (of_int n) = n"
proof -
  have "\<lfloor>of_int m + 1 / (2 :: rat)\<rfloor> = m" for m by (simp add: floor_unique)
  from this [of n] this [of "- n"] show ?thesis by (simp add: lround_def)
qed

text \<open>The points gained and lost are between zero and the factor.\<close>

definition gain :: "(int \<Rightarrow> rat) \<Rightarrow> int \<Rightarrow> int \<Rightarrow> int \<Rightarrow> int" where
  "gain pow10 k w l = lround (f64 (of_int k * f64 (1 - expected_score pow10 w l)))"

definition loss :: "(int \<Rightarrow> rat) \<Rightarrow> int \<Rightarrow> int \<Rightarrow> int \<Rightarrow> int" where
  "loss pow10 k l w = lround (f64 (of_int k * f64 (expected_score pow10 l w)))"

lemma lround_uminus: "lround (- x) = - lround x"
  using floor_unique [of 0 "1 / 2 :: rat"] by (auto simp: lround_def)

lemma calculate_ratings_eq:
  "calculate_ratings pow10 k w l =
     \<lparr>rc_winner_new_rating = clamp_rating (w + gain pow10 k w l),
      rc_loser_new_rating = clamp_rating (l - loss pow10 k l w)\<rparr>"
  by (simp add: calculate_ratings_def gain_def loss_def Let_def f64_def fround_minus lround_uminus)

lemma points_between:
  assumes "0 \<le> x" "x \<le> 1" "0 \<le> k" "k < 2 ^ 53"
  shows "0 \<le> lround (f64 (of_int k * f64 x)) \<and> lround (f64 (of_int k * f64 x)) \<le> k"
proof -
  have "0 \<le> f64 x" "f64 x \<le> 1"
    using assms by (simp_all add: f64_def fround_nonneg fround_le_1)
  then have "0 \<le> of_int k * f64 x" "of_int k * f64 x \<le> of_int k"
    using assms(3) mult_left_mono [of "f64 x" 1 "of_int k"] by simp_all
  then have "0 \<le> f64 (of_int k * f64 x)" "f64 (of_int k * f64 x) \<le> f64 (of_int k)"
    unfolding f64_def by (simp_all add: fround_nonneg fround_mono)
  moreover have "f64 (of_int k) = of_int k"
    using fround_of_nat [of "nat k" 52] assms(3,4) by (simp add: f64_def)
  ultimately show ?thesis
    using lround_mono [of 0 "f64 (of_int k * f64 x)"] lround_mono [of "f64 (of_int k * f64 x)" "of_int k"]
      lround_of_int [of 0] by (simp add: lround_of_int)
qed

lemma rating_change_bounds:
  assumes "\<And>d. 0 < pow10 d" "0 \<le> k" "k < 2 ^ 53"
  shows "0 \<le> gain pow10 k w l \<and> gain pow10 k w l \<le> k \<and> 0 \<le> loss pow10 k l w \<and> loss pow10 k l w \<le> k"
  using points_between [of "1 - expected_score pow10 w l" k] points_between [of "expected_score pow10 l w" k]
    expected_unit [of pow10, OF assms(1)] assms(2,3)
  by (simp add: gain_def loss_def)

text \<open>Beating a stronger opponent pays at least as much.\<close>

lemma gain_mono:
  assumes "\<And>d. 0 < pow10 d" "mono pow10" "0 \<le> k" "l \<le> l'"
  shows "gain pow10 k w l \<le> gain pow10 k w l'"
proof -
  have "pow10 (l - w) \<le> pow10 (l' - w)" using assms(2,4) by (simp add: monoD)
  then have "f64 (1 + pow10 (l - w)) \<le> f64 (1 + pow10 (l' - w))"
    unfolding f64_def using assms(1) [of "l - w"] by (intro fround_mono) auto
  moreover have "0 < f64 (1 + pow10 (l - w))"
    unfolding f64_def using assms(1) [of "l - w"] by (intro fround_positive) auto
  ultimately have "expected_score pow10 w l' \<le> expected_score pow10 w l"
    unfolding expected_score_def by (auto intro!: f64_mono frac_le)
  moreover have "0 \<le> 1 - expected_score pow10 w l" using expected_unit [OF assms(1)] by simp
  ultimately have "f64 (1 - expected_score pow10 w l) \<le> f64 (1 - expected_score pow10 w l')"
    "0 \<le> f64 (1 - expected_score pow10 w l)"
    by (auto intro!: f64_mono f64_nonneg)
  then have "f64 (of_int k * f64 (1 - expected_score pow10 w l)) \<le>
      f64 (of_int k * f64 (1 - expected_score pow10 w l'))"
    using assms(3) by (auto intro!: f64_mono [of "of_int k * _"] mult_left_mono)
  then show ?thesis unfolding gain_def by (rule lround_mono)
qed

end
