(* ===== verification/Game_Service.thy ===== *)
theory Game_Service
  imports Matchmaking Room User_Service
begin

section \<open>Gateways, the game host, match creation and game results\<close>

text \<open>
  What happens between the lobby and a running game: \<^verbatim>\<open>server/gateway/local_game_gateway.cpp\<close> and
  \<^verbatim>\<open>gateway_notification_handler.cpp\<close> (messages to the two players), \<^verbatim>\<open>server/game/local_game_host.cpp\<close>
  and \<^verbatim>\<open>game_allocation_handler.cpp\<close> (rooms), \<^verbatim>\<open>server/match/match_lifecycle_handler.cpp\<close> and
  \<^verbatim>\<open>server/matchmaking/matchmaking_service.cpp\<close> with \<^verbatim>\<open>matchmaking/local_matchmaking_join_client.cpp\<close>
  (a search that ends in a match or a timeout), \<^verbatim>\<open>server/game_result/game_result_handler.cpp\<close> with
  \<^verbatim>\<open>server/gateway/local_game_completion_gateway.cpp\<close> (the end of a game).

  The objects these classes refer to are the fields of the record \<open>server\<close>; what stays fixed (the
  transport, the repositories' operations, the configuration) is the record \<open>server_env\<close>. The game
  repository is SQL behind an interface and stands as the operations of \<open>game_repository_ops\<close>.
  Pointers to sessions are session ids, pointers to rooms room ids.
\<close>

subsection \<open>The server's state\<close>

record 'd game_repository_ops =
  gro_create_game :: "int \<Rightarrow> int \<Rightarrow> 'd \<Rightarrow> int option \<times> 'd"
  gro_finish_game :: "int \<Rightarrow> int \<Rightarrow> 'd \<Rightarrow> bool \<times> 'd"
  gro_finish_game_without_winner :: "int \<Rightarrow> 'd \<Rightarrow> bool \<times> 'd"

record ('s, 'r, 'd) server =
  sv_plane :: "'s client_plane"
  sv_queue :: matchmaking_queue
  sv_rooms :: room_manager
  sv_users :: 'r
  sv_games :: 'd
  sv_store :: in_memory_runtime_store

record ('s, 'r, 'd) server_env =
  se_transport :: "'s transport"
  se_users :: "'r user_repository_ops"
  se_games :: "'d game_repository_ops"
  se_pow10 :: "int \<Rightarrow> rat"
  se_server_id :: string
  se_endpoint :: string
  se_region :: string

subsection \<open>The gateway to the players\<close>

definition side_token :: "piece_color \<Rightarrow> string" where
  "side_token side = (if side = White then ''white'' else ''black'')"

text \<open>Sending with the result ignored.\<close>

definition send_to :: "'s transport \<Rightarrow> player_id \<Rightarrow> string \<Rightarrow> 's client_plane \<Rightarrow> 's client_plane result" where
  "send_to tp pid message p = bindR (sink_send tp pid message p) (\<lambda>(ok, p'). Inr p')"

definition notify_match_found ::
  "'s transport \<Rightarrow> player_id \<Rightarrow> player_id \<Rightarrow> 's client_plane \<Rightarrow> 's client_plane result" where
  "notify_match_found tp white black p =
     bindR (send_to tp white ''match_found white'' p) (send_to tp black ''match_found black'')"

definition notify_game_start ::
  "'s transport \<Rightarrow> player_id \<Rightarrow> player_id \<Rightarrow> 's client_plane \<Rightarrow> 's client_plane result" where
  "notify_game_start tp white black p =
     bindR (send_to tp white ''game_start white'' p) (send_to tp black ''game_start black'')"

definition notify_search_timeout ::
  "'s transport \<Rightarrow> player_id \<Rightarrow> 's client_plane \<Rightarrow> 's client_plane result" where
  "notify_search_timeout tp player p = send_to tp player ''search_timeout'' p"

record gateway_game_redirect_info =
  gi_room_id :: room_id
  gi_server_id :: string
  gi_endpoint :: string
  gi_side :: piece_color

definition redirect_message :: "gateway_game_redirect_info \<Rightarrow> string" where
  "redirect_message info =
     ''game_redirect '' @ gi_endpoint info @ '' '' @ show_nat (gi_room_id info) @ '' '' @
     side_token (gi_side info)"

definition send_game_redirect ::
  "'s transport \<Rightarrow> player_id \<Rightarrow> gateway_game_redirect_info \<Rightarrow> 's client_plane \<Rightarrow> 's client_plane result" where
  "send_game_redirect tp player info p = send_to tp player (redirect_message info) p"

subsection \<open>The handler of the matchmaker's notifications\<close>

record match_notification =
  mn_white_player_id :: player_id
  mn_white_user_id :: user_id
  mn_black_player_id :: player_id
  mn_black_user_id :: user_id
  mn_room_id :: room_id
  mn_server_id :: string
  mn_endpoint :: string

definition redirect_of :: "match_notification \<Rightarrow> piece_color \<Rightarrow> gateway_game_redirect_info" where
  "redirect_of n side =
     \<lparr>gi_room_id = mn_room_id n, gi_server_id = mn_server_id n, gi_endpoint = mn_endpoint n, gi_side = side\<rparr>"

definition handler_match_found ::
  "'s transport \<Rightarrow> match_notification \<Rightarrow> 's client_plane \<Rightarrow> 's client_plane result" where
  "handler_match_found tp n p =
     (let w = mn_white_player_id n; b = mn_black_player_id n
      in if find_session w p = None \<or> find_session b p = None then Inr p
         else
           (let p1 = update_session b set_playing (update_session w set_playing p);
                p2 = update_session b (set_side Black) (update_session w (set_side White) p1);
                p3 = update_session b (assign_room (mn_room_id n))
                       (update_session w (assign_room (mn_room_id n)) p2)
            in bindR (notify_match_found tp w b p3)
              (\<lambda>p4. bindR (notify_game_start tp w b p4)
              (\<lambda>p5. bindR (send_game_redirect tp w (redirect_of n White) p5)
              (\<lambda>p6. send_game_redirect tp b (redirect_of n Black) p6)))))"

definition handler_search_timeout ::
  "'s transport \<Rightarrow> player_id \<Rightarrow> 's client_plane \<Rightarrow> 's client_plane result" where
  "handler_search_timeout tp pid p =
     notify_search_timeout tp pid
       (if find_session pid p \<noteq> None then update_session pid cancel_search p else p)"

subsection \<open>The game host\<close>

definition find_session_by_user_id :: "user_id \<Rightarrow> 's client_plane \<Rightarrow> player_session option" where
  "find_session_by_user_id uid p =
     List.find (\<lambda>s. has_user s \<and> ps_user_id s = Some uid) (cp_sessions p)"

definition to_game_player :: "user_id \<Rightarrow> piece_color \<Rightarrow> player_id \<Rightarrow> game_player" where
  "to_game_player uid side pid = \<lparr>gp_user_id = uid, gp_side = side, gp_player_id = pid\<rparr>"

text \<open>The plane is absent before \<^verbatim>\<open>bind_session_manager\<close>; a user with no session gets the player id 0.\<close>

definition host_player :: "'s client_plane option \<Rightarrow> user_id \<Rightarrow> piece_color \<Rightarrow> game_player" where
  "host_player plane uid side =
     (let session = (case plane of None \<Rightarrow> None | Some p \<Rightarrow> find_session_by_user_id uid p)
      in to_game_player uid side (case session of None \<Rightarrow> 0 | Some s \<Rightarrow> ps_id s))"

definition host_create_room ::
  "string \<Rightarrow> string \<Rightarrow> 's client_plane option \<Rightarrow> game_creation_request \<Rightarrow> room_manager \<Rightarrow>
   (game_creation_response \<times> room_manager) result" where
  "host_create_room game_server_id endpoint plane request mg =
     (let white = host_player plane (rq_white_user_id request) White;
          black = host_player plane (rq_black_user_id request) Black;
          (room_id, mg1) = create_room mg
      in bindR (of_option UndefinedBehaviour (find_room room_id mg1))
        (\<lambda>room.
           (let room1 = activate white black room;
                room2 = (case rq_db_game_id request of None \<Rightarrow> room1 | Some g \<Rightarrow> set_db_game_id g room1)
            in Inr (\<lparr>rp_room_id = room_id, rp_game_server_id = game_server_id, rp_endpoint = Some endpoint\<rparr>,
                    put_room room_id room2 mg1))))"

definition local_allocate_game ::
  "('s, 'r, 'd) server_env \<Rightarrow> game_creation_request \<Rightarrow> ('s, 'r, 'd) server \<Rightarrow>
   (game_creation_response \<times> ('s, 'r, 'd) server) result" where
  "local_allocate_game env request sv =
     bindR (host_create_room (se_server_id env) (se_endpoint env) (Some (sv_plane sv)) request (sv_rooms sv))
       (\<lambda>(response, mg). Inr (response, sv\<lparr>sv_rooms := mg\<rparr>))"

definition allocation_allocate ::
  "string \<Rightarrow> string \<Rightarrow> string \<Rightarrow> string \<Rightarrow> 's client_plane option \<Rightarrow> game_creation_request \<Rightarrow>
   room_manager \<times> in_memory_runtime_store \<Rightarrow>
   (game_creation_response \<times> room_manager \<times> in_memory_runtime_store) result" where
  "allocation_allocate host_id host_endpoint server_id endpoint plane request = (\<lambda>(mg, st).
     bindR (host_create_room host_id host_endpoint plane request mg)
       (\<lambda>(response, mg').
          (let r1 = (if rp_endpoint response = None \<or> rp_endpoint response = Some []
                     then response\<lparr>rp_endpoint := Some endpoint\<rparr> else response);
               r2 = (if rp_game_server_id r1 = [] then r1\<lparr>rp_game_server_id := server_id\<rparr> else r1)
           in bindR (of_option UndefinedBehaviour (rp_endpoint r2))
             (\<lambda>ep. Inr (r2, mg', register_room (rp_room_id r2) (rq_white_user_id request)
                                   (rq_black_user_id request) (rp_game_server_id r2) ep st)))))"

subsection \<open>Creating a match\<close>

text \<open>
  \<^verbatim>\<open>MatchLifecycleHandler\<close> with its gateway and matchmaking service bound, as the monolithic server
  binds them; the allocator is an argument.
\<close>

record resolved_routing =
  rr_room_id :: room_id
  rr_server_id :: string
  rr_endpoint :: string

definition resolve_routing ::
  "string \<Rightarrow> in_memory_runtime_store \<Rightarrow> game_creation_response \<Rightarrow> user_id \<Rightarrow> resolved_routing" where
  "resolve_routing own_server_id st response uid =
     (let server_id = (if rp_game_server_id response = [] then own_server_id else rp_game_server_id response)
      in case rp_endpoint response of
           Some (c # cs) \<Rightarrow>
             \<lparr>rr_room_id = rp_room_id response, rr_server_id = server_id, rr_endpoint = c # cs\<rparr>
         | _ \<Rightarrow>
             (case find_player_location uid st of
                Some location \<Rightarrow>
                  \<lparr>rr_room_id = rp_room_id response,
                   rr_server_id = (if server_id = [] then loc_server_id location else server_id),
                   rr_endpoint = loc_endpoint location\<rparr>
              | None \<Rightarrow>
                  \<lparr>rr_room_id = rp_room_id response, rr_server_id = server_id, rr_endpoint = []\<rparr>))"

definition routed :: "resolved_routing \<Rightarrow> piece_color \<Rightarrow> gateway_game_redirect_info" where
  "routed r side =
     \<lparr>gi_room_id = rr_room_id r, gi_server_id = rr_server_id r, gi_endpoint = rr_endpoint r, gi_side = side\<rparr>"

definition send_game_redirects ::
  "('s, 'r, 'd) server_env \<Rightarrow> nat \<Rightarrow> nat \<Rightarrow> game_creation_response \<Rightarrow> ('s, 'r, 'd) server \<Rightarrow>
   ('s, 'r, 'd) server result" where
  "send_game_redirects env white black response sv =
     bindR (deref_session (sv_plane sv) white)
       (\<lambda>w. bindR (session_user_id w)
       (\<lambda>uid.
          (let routing = resolve_routing (se_server_id env) (sv_store sv) response uid
           in bindR (send_game_redirect (se_transport env) white (routed routing White) (sv_plane sv))
             (\<lambda>p1. bindR (send_game_redirect (se_transport env) black (routed routing Black) p1)
             (\<lambda>p2. Inr (sv\<lparr>sv_plane := p2\<rparr>))))))"

definition seat_players :: "nat \<Rightarrow> nat \<Rightarrow> 's client_plane \<Rightarrow> 's client_plane" where
  "seat_players white black p =
     update_session black (set_side Black) (update_session white (set_side White)
       (update_session black set_playing (update_session white set_playing p)))"

text \<open>What \<^verbatim>\<open>create_match\<close> does with the allocator's answer.\<close>

definition publish_match ::
  "('s, 'r, 'd) server_env \<Rightarrow> nat \<Rightarrow> nat \<Rightarrow> player \<Rightarrow> player \<Rightarrow> user_id \<Rightarrow>
   game_creation_response \<Rightarrow> ('s, 'r, 'd) server \<Rightarrow> (room_id \<times> ('s, 'r, 'd) server) result" where
  "publish_match env white black wp bp wu response sv =
     (let room_id = rp_room_id response;
          p = update_session black (assign_room room_id)
                (update_session white (assign_room room_id) (sv_plane sv));
          routing_server_id = (if rp_game_server_id response = [] then se_server_id env
                               else rp_game_server_id response);
          routing_endpoint =
            rr_endpoint (resolve_routing (se_server_id env) (sv_store sv) response wu);
          store = register_room room_id (to_size (pl_id wp)) (to_size (pl_id bp))
                    routing_server_id routing_endpoint (sv_store sv)
      in bindR (send_game_redirects env white black response (sv\<lparr>sv_plane := p, sv_store := store\<rparr>))
           (\<lambda>sv'. Inr (room_id, sv')))"

definition create_match ::
  "('s, 'r, 'd) server_env \<Rightarrow>
   (game_creation_request \<Rightarrow> ('s, 'r, 'd) server \<Rightarrow> (game_creation_response \<times> ('s, 'r, 'd) server) result) \<Rightarrow>
   nat \<Rightarrow> nat \<Rightarrow> ('s, 'r, 'd) server \<Rightarrow> (room_id \<times> ('s, 'r, 'd) server) result" where
  "create_match env alloc white black sv =
     (let p1 = seat_players white black (sv_plane sv)
      in bindR (deref_session p1 white) (\<lambda>w. bindR (deref_session p1 black) (\<lambda>b.
         bindR (session_player w) (\<lambda>wp. bindR (session_player b) (\<lambda>bp.
         bindR (session_user_id w) (\<lambda>wu. bindR (session_user_id b) (\<lambda>bu.
           (let (db_game_id, games) = gro_create_game (se_games env) (pl_id wp) (pl_id bp) (sv_games sv)
            in bindR (alloc \<lparr>rq_white_user_id = wu, rq_black_user_id = bu, rq_db_game_id = db_game_id\<rparr>
                        (sv\<lparr>sv_plane := p1, sv_games := games\<rparr>))
                 (\<lambda>(response, sv'). publish_match env white black wp bp wu response sv')))))))))"

record match_created =
  mc_white :: nat
  mc_black :: nat
  mc_room_id :: room_id

definition notify_match_created ::
  "('s, 'r, 'd) server_env \<Rightarrow> match_created \<Rightarrow> ('s, 'r, 'd) server \<Rightarrow> ('s, 'r, 'd) server result" where
  "notify_match_created env m sv =
     bindR (notify_match_found (se_transport env) (mc_white m) (mc_black m) (sv_plane sv))
       (\<lambda>p1. bindR (notify_game_start (se_transport env) (mc_white m) (mc_black m) p1)
       (\<lambda>p2. Inr (sv\<lparr>sv_plane := p2\<rparr>)))"

subsection \<open>Searching for an opponent\<close>

definition service_enqueue ::
  "('s, 'r, 'd) server_env \<Rightarrow>
   (game_creation_request \<Rightarrow> ('s, 'r, 'd) server \<Rightarrow> (game_creation_response \<times> ('s, 'r, 'd) server) result) \<Rightarrow>
   nat \<Rightarrow> int \<Rightarrow> ('s, 'r, 'd) server \<Rightarrow> (match_created option \<times> ('s, 'r, 'd) server) result" where
  "service_enqueue env alloc i now sv =
     bindR (mq_enqueue (sv_plane sv) i now (sv_queue sv))
       (\<lambda>(paired, q). case paired of
          None \<Rightarrow> Inr (None, sv\<lparr>sv_queue := q\<rparr>)
        | Some (white, black) \<Rightarrow>
            bindR (create_match env alloc white black (sv\<lparr>sv_queue := q\<rparr>))
              (\<lambda>(room_id, sv').
                 Inr (Some \<lparr>mc_white = white, mc_black = black, mc_room_id = room_id\<rparr>, sv')))"

record match_request =
  mr_player_id :: player_id
  mr_user_id :: user_id
  mr_elo :: int
  mr_region :: string

datatype match_join_status = Queued | JoinError

record match_response =
  mp_status :: match_join_status
  mp_message :: string

definition local_join ::
  "('s, 'r, 'd) server_env \<Rightarrow>
   (game_creation_request \<Rightarrow> ('s, 'r, 'd) server \<Rightarrow> (game_creation_response \<times> ('s, 'r, 'd) server) result) \<Rightarrow>
   match_request \<Rightarrow> int \<Rightarrow> ('s, 'r, 'd) server \<Rightarrow> (match_response option \<times> ('s, 'r, 'd) server) result" where
  "local_join env alloc request now sv =
     (case find_session (mr_player_id request) (sv_plane sv) of
        None \<Rightarrow> Inr (Some \<lparr>mp_status = JoinError, mp_message = ''session_not_found''\<rparr>, sv)
      | Some s \<Rightarrow>
          bindR (service_enqueue env alloc (ps_id s) now sv)
            (\<lambda>(created, sv'). case created of
               Some m \<Rightarrow> bindR (notify_match_created env m sv')
                 (\<lambda>sv''. Inr (Some \<lparr>mp_status = Queued, mp_message = ''matched''\<rparr>, sv''))
             | None \<Rightarrow> Inr (Some \<lparr>mp_status = Queued, mp_message = ''queued''\<rparr>, sv')))"

definition local_leave :: "player_id \<Rightarrow> ('s, 'r, 'd) server \<Rightarrow> ('s, 'r, 'd) server" where
  "local_leave pid sv =
     (case find_session pid (sv_plane sv) of
        None \<Rightarrow> sv
      | Some s \<Rightarrow> sv\<lparr>sv_queue := mq_remove (ps_id s) (sv_queue sv)\<rparr>)"

definition on_session_disconnected :: "player_session \<Rightarrow> matchmaking_queue \<Rightarrow> matchmaking_queue" where
  "on_session_disconnected s q = (if ps_state s = Searching then mq_remove (ps_id s) q else q)"

definition process_timeouts ::
  "('s, 'r, 'd) server_env \<Rightarrow> int \<Rightarrow> ('s, 'r, 'd) server \<Rightarrow> ('s, 'r, 'd) server result" where
  "process_timeouts env now sv =
     bindR (mq_check_timeouts (sv_plane sv) now (sv_queue sv))
       (\<lambda>(timed_out, q). foldR (\<lambda>i t.
          bindR (deref_session (sv_plane t) i)
            (\<lambda>s. bindR (notify_search_timeout (se_transport env) (ps_id s) (sv_plane t))
            (\<lambda>p. Inr (t\<lparr>sv_plane := update_session i cancel_search p\<rparr>))))
          timed_out (sv\<lparr>sv_queue := q\<rparr>))"

subsection \<open>The end of a game\<close>

datatype finish_reason = KingCapture | Resign | Disconnect

fun finish_reason_token :: "finish_reason \<Rightarrow> string" where
  "finish_reason_token KingCapture = ''checkmate''"
| "finish_reason_token Resign = ''resign''"
| "finish_reason_token Disconnect = ''opponent_disconnect''"

definition create_game_result_message :: "bool \<Rightarrow> finish_reason \<Rightarrow> int \<Rightarrow> string" where
  "create_game_result_message won reason rating =
     ''game_result '' @ (if won then ''win'' else ''loss'') @ '' '' @ finish_reason_token reason @ '' '' @
     show_int rating @ [CHR 0x0A]"

definition is_player_connected :: "'s client_plane \<Rightarrow> player_id \<Rightarrow> bool result" where
  "is_player_connected p pid =
     (case find_session pid p of
        None \<Rightarrow> Inr False
      | Some s \<Rightarrow>
          (case ps_connection s of
             None \<Rightarrow> Inr False
           | Some a \<Rightarrow> bindR (conn_ref (cp_clients p) (Some a)) (\<lambda>c. Inr (cc_open c))))"

definition send_result ::
  "'s transport \<Rightarrow> player_id \<Rightarrow> string \<Rightarrow> 's client_plane \<Rightarrow> 's client_plane result" where
  "send_result tp pid message p =
     bindR (is_player_connected p pid)
       (\<lambda>ok. if ok then bindR (sink_send_message tp pid message p) (\<lambda>(sent, p'). Inr p') else Inr p)"

definition notify_game_finished ::
  "'s transport \<Rightarrow> player_id \<Rightarrow> player_id \<Rightarrow> piece_color \<Rightarrow> finish_reason \<Rightarrow> rating_change \<Rightarrow>
   's client_plane \<Rightarrow> 's client_plane result" where
  "notify_game_finished tp white black winner_color reason change p =
     (let white_won = (winner_color = White);
          white_message = create_game_result_message white_won reason
            (if white_won then rc_winner_new_rating change else rc_loser_new_rating change);
          black_message = create_game_result_message (\<not> white_won) reason
            (if white_won then rc_loser_new_rating change else rc_winner_new_rating change)
      in bindR (send_result tp white white_message p) (send_result tp black black_message))"

record finished_player_state =
  fp_player_id :: player_id
  fp_user_id :: user_id
  fp_username :: string
  fp_rating :: int
  fp_has_user :: bool

definition cleanup_finished_player ::
  "finished_player_state \<Rightarrow> 's client_plane \<Rightarrow> 's client_plane result" where
  "cleanup_finished_player player p =
     (case find_session (fp_player_id player) p of
        None \<Rightarrow> Inr p
      | Some s \<Rightarrow>
          (let i = ps_id s;
               p1 = update_session i clear_room (update_session i clear_side p);
               p2 = (if fp_has_user player
                     then update_session i (assign_user (fp_user_id player) (fp_username player)
                            (fp_rating player)) p1
                     else p1)
           in bindR (deref_session p2 i)
             (\<lambda>t. bindR (session_player t)
             (\<lambda>pl. Inr (p2\<lparr>cp_registry := unregister_session (pl_username pl) (cp_registry p2)\<rparr>)))))"

definition cleanup_finished_players ::
  "finished_player_state \<Rightarrow> finished_player_state \<Rightarrow> 's client_plane \<Rightarrow> 's client_plane result" where
  "cleanup_finished_players white black p =
     bindR (cleanup_finished_player white p) (cleanup_finished_player black)"

definition find_player_by_color :: "room \<Rightarrow> piece_color \<Rightarrow> game_player option" where
  "find_player_by_color r color = (if color = White then rm_white_player r else rm_black_player r)"

definition update_ratings_for_result ::
  "('s, 'r, 'd) server_env \<Rightarrow> room \<Rightarrow> piece_color \<Rightarrow> int \<Rightarrow> ('s, 'r, 'd) server \<Rightarrow>
   rating_change option \<times> ('s, 'r, 'd) server" where
  "update_ratings_for_result env r winner_color game_id sv =
     (case (find_player_by_color r winner_color,
            find_player_by_color r (if winner_color = White then Black else White)) of
        (Some winner, Some loser) \<Rightarrow>
          (case (ur_find_profile_by_id (se_users env) (gp_user_id winner) (sv_users sv),
                 ur_find_profile_by_id (se_users env) (gp_user_id loser) (sv_users sv)) of
             (Some winner_profile, Some loser_profile) \<Rightarrow>
               (let change = calculate_ratings (se_pow10 env) kDefaultKFactor
                               (pl_rating winner_profile) (pl_rating loser_profile);
                    u1 = snd (ur_update_rating (se_users env) (gp_user_id winner)
                                (rc_winner_new_rating change) (sv_users sv));
                    u2 = snd (ur_update_rating (se_users env) (gp_user_id loser)
                                (rc_loser_new_rating change) u1);
                    games = snd (gro_finish_game (se_games env) game_id
                                   (to_int32 (int (gp_user_id winner))) (sv_games sv))
                in (Some change, sv\<lparr>sv_users := u2, sv_games := games\<rparr>))
           | _ \<Rightarrow> (None, sv))
      | _ \<Rightarrow> (None, sv))"

definition build_finished_player_state ::
  "('s, 'r, 'd) server_env \<Rightarrow> 'r \<Rightarrow> game_player \<Rightarrow> finished_player_state" where
  "build_finished_player_state env users player =
     (case ur_find_profile_by_id (se_users env) (gp_user_id player) users of
        Some profile \<Rightarrow>
          \<lparr>fp_player_id = gp_player_id player, fp_user_id = gp_user_id player,
           fp_username = pl_username profile, fp_rating = pl_rating profile, fp_has_user = True\<rparr>
      | None \<Rightarrow>
          \<lparr>fp_player_id = gp_player_id player, fp_user_id = gp_user_id player,
           fp_username = [], fp_rating = 0, fp_has_user = False\<rparr>)"

definition no_player_state :: finished_player_state where
  "no_player_state =
     \<lparr>fp_player_id = 0, fp_user_id = 0, fp_username = [], fp_rating = 0, fp_has_user = False\<rparr>"

definition cleanup_finished_room ::
  "('s, 'r, 'd) server_env \<Rightarrow> room_id \<Rightarrow> ('s, 'r, 'd) server \<Rightarrow> ('s, 'r, 'd) server result" where
  "cleanup_finished_room env rid sv =
     (case find_room rid (sv_rooms sv) of
        None \<Rightarrow> Inr sv
      | Some r \<Rightarrow>
          (let state = (\<lambda>gp. case gp of
                          None \<Rightarrow> no_player_state
                        | Some player \<Rightarrow> build_finished_player_state env (sv_users sv) player);
               store = (case (rm_white_player r, rm_black_player r) of
                          (Some w, Some b) \<Rightarrow>
                            unregister_room rid (gp_user_id w) (gp_user_id b) (sv_store sv)
                        | _ \<Rightarrow> sv_store sv)
           in bindR (cleanup_finished_players (state (rm_white_player r)) (state (rm_black_player r))
                       (sv_plane sv))
             (\<lambda>p. Inr (sv\<lparr>sv_plane := p, sv_store := store,
                          sv_rooms := put_room rid (reset_room r) (sv_rooms sv)\<rparr>))))"

definition record_result ::
  "('s, 'r, 'd) server_env \<Rightarrow> room \<Rightarrow> piece_color option \<Rightarrow> finish_reason \<Rightarrow> ('s, 'r, 'd) server \<Rightarrow>
   rating_change option \<times> ('s, 'r, 'd) server" where
  "record_result env r winner_color reason sv =
     (case rm_db_game_id r of
        None \<Rightarrow> (None, sv)
      | Some game_id \<Rightarrow>
          (case winner_color of
             Some color \<Rightarrow> update_ratings_for_result env r color game_id sv
           | None \<Rightarrow>
               (None,
                if reason = Disconnect
                then sv\<lparr>sv_games := snd (gro_finish_game_without_winner (se_games env) game_id (sv_games sv))\<rparr>
                else sv)))"

definition finish ::
  "('s, 'r, 'd) server_env \<Rightarrow> room_id \<Rightarrow> piece_color option \<Rightarrow> finish_reason \<Rightarrow> ('s, 'r, 'd) server \<Rightarrow>
   ('s, 'r, 'd) server result" where
  "finish env rid winner_color reason sv =
     (case find_room rid (sv_rooms sv) of
        None \<Rightarrow> Inr sv
      | Some r \<Rightarrow>
          (case (rm_white_player r, rm_black_player r) of
             (Some white, Some black) \<Rightarrow>
               (let (change, sv1) = record_result env r winner_color reason sv
                in bindR (case (winner_color, change) of
                            (Some color, Some ch) \<Rightarrow>
                              bindR (notify_game_finished (se_transport env) (gp_player_id white)
                                       (gp_player_id black) color reason ch (sv_plane sv1))
                                (\<lambda>p. Inr (sv1\<lparr>sv_plane := p\<rparr>))
                          | _ \<Rightarrow> Inr sv1)
                  (cleanup_finished_room env rid))
           | _ \<Rightarrow> Inr sv))"

end
