(* ===== verification/Server_Loop.thy ===== *)
theory Server_Loop
  imports Game_Service Message_Parser
begin

section \<open>Message handlers and the server's tick\<close>

text \<open>
  One round of the monolithic server: \<^verbatim>\<open>server/lobby/lobby_message_handler.cpp\<close> (log in, play),
  \<^verbatim>\<open>server/game/game_join_handler.cpp\<close>, \<^verbatim>\<open>server/network/game_input_dispatcher.cpp\<close> and
  \<^verbatim>\<open>server/room/active_room_processor.cpp\<close> (the rooms), composed by \<^verbatim>\<open>GatewayServer::tick_once\<close>,
  \<^verbatim>\<open>GameServerRuntime::tick_once\<close> and \<^verbatim>\<open>GameServer::tick_once\<close>. What the outside world supplies in a
  round (the acceptor's outcome, clock readings, salts) is the record \<open>tick_input\<close>. A range-for over
  the sessions visits the ids the list holds; the handlers never add or remove sessions.
\<close>

subsection \<open>Access to a session's connection\<close>

definition conn_op ::
  "player_session \<Rightarrow> ('s client_connection \<Rightarrow> 'a \<times> 's client_connection) \<Rightarrow> 's client_plane \<Rightarrow>
   ('a \<times> 's client_plane) result" where
  "conn_op s f p =
     (case ps_connection s of
        None \<Rightarrow> Inl UndefinedBehaviour
      | Some a \<Rightarrow> bindR (conn_ref (cp_clients p) (Some a))
          (\<lambda>c. let (x, c') = f c in Inr (x, put_conn a c' p)))"

definition session_open :: "'s client_plane \<Rightarrow> player_session \<Rightarrow> bool result" where
  "session_open p s = bindR (conn_ref (cp_clients p) (ps_connection s)) (\<lambda>c. Inr (cc_open c))"

definition reply ::
  "('s, 'r, 'd) server_env \<Rightarrow> player_session \<Rightarrow> string \<Rightarrow> ('s, 'r, 'd) server \<Rightarrow> ('s, 'r, 'd) server result" where
  "reply env s message sv =
     bindR (conn_op s (try_send (se_transport env) message) (sv_plane sv))
       (\<lambda>(ok, p). Inr (sv\<lparr>sv_plane := p\<rparr>))"

definition on_plane :: "('s client_plane \<Rightarrow> 's client_plane) \<Rightarrow> ('s, 'r, 'd) server \<Rightarrow> ('s, 'r, 'd) server" where
  "on_plane f sv = sv\<lparr>sv_plane := f (sv_plane sv)\<rparr>"

subsection \<open>The lobby\<close>

definition bind_authenticated_user :: "nat \<Rightarrow> player \<Rightarrow> 's client_plane \<Rightarrow> 's client_plane" where
  "bind_authenticated_user i pl p =
     update_session i (assign_user (to_size (pl_id pl)) (pl_username pl) (pl_rating pl)) p"

definition lobby_login ::
  "('s, 'r, 'd) server_env \<Rightarrow> byte list \<Rightarrow> player_session \<Rightarrow> string \<Rightarrow> ('s, 'r, 'd) server \<Rightarrow>
   ('s, 'r, 'd) server result" where
  "lobby_login env salt s message sv =
     (case parse_login_message message of
        None \<Rightarrow> Inr sv
      | Some request \<Rightarrow>
          if is_online (lr_username request) (cp_registry (sv_plane sv))
          then reply env s ''login_failed already_connected'' sv
          else
            (let (auth, users) = authenticate (se_users env) salt (lr_username request)
                                   (lr_password request) (sv_users sv);
                 sv1 = sv\<lparr>sv_users := users\<rparr>
             in if \<not> ar_success auth then reply env s (''login_failed '' @ ar_failure_reason auth) sv1
                else bindR (of_option UndefinedBehaviour (ar_player auth))
                  (\<lambda>pl. reply env s (''login_ok '' @ show_int (pl_rating pl))
                     (on_plane (\<lambda>p. p\<lparr>cp_registry := snd (register_session (pl_username pl) (cp_registry p))\<rparr>)
                       (on_plane (bind_authenticated_user (ps_id s) pl) sv1)))))"

text \<open>\<open>join\<close> is \<^verbatim>\<open>IMatchmakingJoinClient::join\<close>.\<close>

definition lobby_play ::
  "('s, 'r, 'd) server_env \<Rightarrow>
   (match_request \<Rightarrow> int \<Rightarrow> ('s, 'r, 'd) server \<Rightarrow> (match_response option \<times> ('s, 'r, 'd) server) result) \<Rightarrow>
   int \<Rightarrow> nat \<Rightarrow> ('s, 'r, 'd) server \<Rightarrow> ('s, 'r, 'd) server result" where
  "lobby_play env join_client now i sv =
     (let sv1 = on_plane (update_session i request_play) sv
      in bindR (deref_session (sv_plane sv1) i)
        (\<lambda>s. if ps_state s \<noteq> Searching then Inr sv1
           else bindR (session_user_id s) (\<lambda>uid. bindR (session_rating s) (\<lambda>rating.
             bindR (join_client \<lparr>mr_player_id = ps_id s, mr_user_id = uid, mr_elo = rating,
                          mr_region = se_region env\<rparr> now sv1)
               (\<lambda>(response, sv2).
                  if (case response of None \<Rightarrow> True | Some r \<Rightarrow> mp_status r = JoinError)
                  then reply env s ''search_failed'' (on_plane (update_session i cancel_search) sv2)
                  else reply env s ''searching'' sv2)))))"

definition lobby_session ::
  "('s, 'r, 'd) server_env \<Rightarrow>
   (match_request \<Rightarrow> int \<Rightarrow> ('s, 'r, 'd) server \<Rightarrow> (match_response option \<times> ('s, 'r, 'd) server) result) \<Rightarrow>
   byte list \<Rightarrow> int \<Rightarrow> nat \<Rightarrow> ('s, 'r, 'd) server \<Rightarrow> ('s, 'r, 'd) server result" where
  "lobby_session env join_client salt now i sv =
     bindR (deref_session (sv_plane sv) i)
       (\<lambda>s. if ps_state s = Playing then Inr sv
          else bindR (session_open (sv_plane sv) s)
            (\<lambda>is_open. if \<not> is_open then Inr sv
               else bindR (conn_op s (try_read (se_transport env)) (sv_plane sv))
                 (\<lambda>(raw, p).
                    (let sv1 = sv\<lparr>sv_plane := p\<rparr>
                     in case raw of
                          None \<Rightarrow> Inr sv1
                        | Some message \<Rightarrow>
                            if ps_state s = Searching then Inr sv1
                            else if \<not> has_user s then lobby_login env salt s message sv1
                            else if parse_play_message message then lobby_play env join_client now i sv1
                            else Inr sv1))))"

definition session_ids :: "('s, 'r, 'd) server \<Rightarrow> nat list" where
  "session_ids sv = map ps_id (cp_sessions (sv_plane sv))"

definition lobby_process ::
  "('s, 'r, 'd) server_env \<Rightarrow>
   (match_request \<Rightarrow> int \<Rightarrow> ('s, 'r, 'd) server \<Rightarrow> (match_response option \<times> ('s, 'r, 'd) server) result) \<Rightarrow>
   (nat \<Rightarrow> byte list) \<Rightarrow> (nat \<Rightarrow> int) \<Rightarrow> ('s, 'r, 'd) server \<Rightarrow> ('s, 'r, 'd) server result" where
  "lobby_process env join_client salt now sv =
     foldR (\<lambda>i. lobby_session env join_client (salt i) (now i) i) (session_ids sv) sv"

subsection \<open>Joining a game\<close>

definition take_seat :: "nat \<Rightarrow> room_id \<Rightarrow> piece_color \<Rightarrow> 's client_plane \<Rightarrow> 's client_plane" where
  "take_seat i rid side p =
     update_session i (set_side side) (update_session i set_playing (update_session i (assign_room rid) p))"

definition join_room ::
  "('s, 'r, 'd) server_env \<Rightarrow> player_session \<Rightarrow> room_id \<Rightarrow> ('s, 'r, 'd) server \<Rightarrow> ('s, 'r, 'd) server result" where
  "join_room env s rid sv =
     (case find_room rid (sv_rooms sv) of
        None \<Rightarrow> reply env s ''join_failed room_not_found'' sv
      | Some r \<Rightarrow>
          if \<not> rm_active r then reply env s ''join_failed room_not_found'' sv
          else if \<not> has_user s then reply env s ''join_failed not_authenticated'' sv
          else bindR (session_user_id s)
            (\<lambda>uid. case (rm_white_player r, rm_black_player r) of
               (Some white, Some black) \<Rightarrow>
                 if gp_user_id white = uid
                 then reply env s ''join_ok white'' (on_plane (take_seat (ps_id s) rid White) sv)
                 else if gp_user_id black = uid
                 then reply env s ''join_ok black'' (on_plane (take_seat (ps_id s) rid Black) sv)
                 else reply env s ''join_failed not_a_player'' sv
             | _ \<Rightarrow> reply env s ''join_failed room_not_ready'' sv))"

definition join_session ::
  "('s, 'r, 'd) server_env \<Rightarrow> nat \<Rightarrow> ('s, 'r, 'd) server \<Rightarrow> ('s, 'r, 'd) server result" where
  "join_session env i sv =
     bindR (deref_session (sv_plane sv) i)
       (\<lambda>s. bindR (session_open (sv_plane sv) s)
       (\<lambda>is_open. if \<not> is_open \<or> has_room s then Inr sv
          else bindR (conn_op s (try_read (se_transport env)) (sv_plane sv))
            (\<lambda>(raw, p).
               (let sv1 = sv\<lparr>sv_plane := p\<rparr>
                in case raw of
                     None \<Rightarrow> Inr sv1
                   | Some message \<Rightarrow>
                       (case parse_join_game_message message of
                          None \<Rightarrow> Inr sv1
                        | Some rid \<Rightarrow> join_room env s rid sv1)))))"

definition join_process ::
  "('s, 'r, 'd) server_env \<Rightarrow> ('s, 'r, 'd) server \<Rightarrow> ('s, 'r, 'd) server result" where
  "join_process env sv = foldR (join_session env) (session_ids sv) sv"

subsection \<open>The input dispatcher\<close>

definition probe_player :: "'s transport \<Rightarrow> player_id \<Rightarrow> 's client_plane \<Rightarrow> 's client_plane result" where
  "probe_player tp pid p =
     (case find_session pid p of
        None \<Rightarrow> Inr p
      | Some s \<Rightarrow>
          if ps_connection s = None then Inr p
          else bindR (conn_op s (\<lambda>c. ((), probe_disconnect tp c)) p) (\<lambda>(u, p'). Inr p'))"

definition with_player :: "game_player option \<Rightarrow> (game_player \<Rightarrow> 'a \<Rightarrow> 'a result) \<Rightarrow> 'a \<Rightarrow> 'a result" where
  "with_player gp f x = (case gp of None \<Rightarrow> Inr x | Some g \<Rightarrow> f g x)"

definition probe_room :: "'s transport \<Rightarrow> room \<Rightarrow> 's client_plane \<Rightarrow> 's client_plane result" where
  "probe_room tp r p =
     bindR (with_player (rm_white_player r) (\<lambda>g. probe_player tp (gp_player_id g)) p)
       (with_player (rm_black_player r) (\<lambda>g. probe_player tp (gp_player_id g)))"

definition disconnected_player_color :: "'s client_plane \<Rightarrow> room \<Rightarrow> piece_color option result" where
  "disconnected_player_color p r =
     (case (rm_white_player r, rm_black_player r) of
        (Some white, Some black) \<Rightarrow>
          bindR (is_player_connected p (gp_player_id white)) (\<lambda>white_connected.
          bindR (is_player_connected p (gp_player_id black)) (\<lambda>black_connected.
            Inr (if white_connected \<and> black_connected then None
                 else if \<not> white_connected \<and> black_connected then Some White
                 else if white_connected \<and> \<not> black_connected then Some Black
                 else None)))
      | _ \<Rightarrow> Inr None)"

definition both_room_players_disconnected :: "'s client_plane \<Rightarrow> room \<Rightarrow> bool result" where
  "both_room_players_disconnected p r =
     (case (rm_white_player r, rm_black_player r) of
        (Some white, Some black) \<Rightarrow>
          bindR (is_player_connected p (gp_player_id white)) (\<lambda>white_connected.
            if white_connected then Inr False
            else bindR (is_player_connected p (gp_player_id black)) (\<lambda>black_connected.
              Inr (\<not> black_connected)))
      | _ \<Rightarrow> Inr True)"

datatype room_player_input = ActionInput piece_color game_action | ResignInput piece_color

definition poll_player_input ::
  "'s transport \<Rightarrow> room \<Rightarrow> game_player \<Rightarrow> 's client_plane \<times> room_player_input list \<Rightarrow>
   ('s client_plane \<times> room_player_input list) result" where
  "poll_player_input tp r player = (\<lambda>(p, inputs).
     case find_session (gp_player_id player) p of
       None \<Rightarrow> Inr (p, inputs)
     | Some s \<Rightarrow>
         if ps_connection s = None \<or> ps_state s \<noteq> Playing \<or> \<not> has_room s then Inr (p, inputs)
         else bindR (conn_op s (try_read tp) p)
           (\<lambda>(raw, p').
              Inr (p', case raw of
                         None \<Rightarrow> inputs
                       | Some message \<Rightarrow>
                           if parse_resign_message message
                           then (if contains_player (gp_user_id player) r
                                 then inputs @ [ResignInput (gp_side player)] else inputs)
                           else (case parse_message message of
                                   None \<Rightarrow> inputs
                                 | Some a \<Rightarrow> inputs @ [ActionInput (gp_side player) a]))))"

definition poll_room_inputs ::
  "'s transport \<Rightarrow> room \<Rightarrow> 's client_plane \<Rightarrow> ('s client_plane \<times> room_player_input list) result" where
  "poll_room_inputs tp r p =
     bindR (with_player (rm_white_player r) (poll_player_input tp r) (p, []))
       (with_player (rm_black_player r) (poll_player_input tp r))"

subsection \<open>The room processor\<close>

definition opponent_color :: "piece_color \<Rightarrow> piece_color" where
  "opponent_color c = (if c = White then Black else White)"

fun apply_room_inputs ::
  "('s, 'r, 'd) server_env \<Rightarrow> room_id \<Rightarrow> room_player_input list \<Rightarrow> ('s, 'r, 'd) server \<Rightarrow>
   ('s, 'r, 'd) server result" where
  "apply_room_inputs env rid [] sv = Inr sv"
| "apply_room_inputs env rid (ResignInput side # inputs) sv =
     finish env rid (Some (opponent_color side)) Resign sv"
| "apply_room_inputs env rid (ActionInput side a # inputs) sv =
     bindR (of_option UndefinedBehaviour (find_room rid (sv_rooms sv)))
       (\<lambda>r. bindR (is_action_allowed side (rm_match r) a)
       (\<lambda>allowed. bindR (if allowed
            then bindR (room_submit_action a r) (\<lambda>r'. Inr (sv\<lparr>sv_rooms := put_room rid r' (sv_rooms sv)\<rparr>))
            else Inr sv)
          (apply_room_inputs env rid inputs)))"

definition send_snapshot ::
  "('s, 'r, 'd) server_env \<Rightarrow> player_id \<Rightarrow> string \<Rightarrow> 's client_plane \<Rightarrow> 's client_plane result" where
  "send_snapshot env pid snapshot p =
     bindR (is_player_connected p pid)
       (\<lambda>ok. if ok then send_to (se_transport env) pid snapshot p else Inr p)"

definition tick_room ::
  "('s, 'r, 'd) server_env \<Rightarrow> int \<Rightarrow> room_id \<Rightarrow> game_player \<Rightarrow> game_player \<Rightarrow> ('s, 'r, 'd) server \<Rightarrow>
   ('s, 'r, 'd) server result" where
  "tick_room env elapsed rid white black sv =
     bindR (of_option UndefinedBehaviour (find_room rid (sv_rooms sv)))
       (\<lambda>r. bindR (room_tick elapsed r)
       (\<lambda>r'. bindR (generate_snapshot r')
       (\<lambda>snapshot. bindR (send_snapshot env (gp_player_id white) snapshot (sv_plane sv))
       (\<lambda>p1. bindR (send_snapshot env (gp_player_id black) snapshot p1)
       (\<lambda>p2. Inr (sv\<lparr>sv_plane := p2, sv_rooms := put_room rid r' (sv_rooms sv)\<rparr>))))))"

definition kTargetFrameMs :: int where
  "kTargetFrameMs = 16"

text \<open>The inputs of a room that is still running, and the end of the game when a king fell.\<close>

definition play_room ::
  "('s, 'r, 'd) server_env \<Rightarrow> room_id \<Rightarrow> ('s, 'r, 'd) server \<Rightarrow> ('s, 'r, 'd) server result" where
  "play_room env rid sv =
     bindR (of_option UndefinedBehaviour (find_room rid (sv_rooms sv)))
       (\<lambda>r. bindR (if rm_active r \<and> \<not> room_is_game_over r
            then bindR (poll_room_inputs (se_transport env) r (sv_plane sv))
                   (\<lambda>(p, inputs). apply_room_inputs env rid inputs (sv\<lparr>sv_plane := p\<rparr>))
            else Inr sv)
       (\<lambda>sv1. bindR (of_option UndefinedBehaviour (find_room rid (sv_rooms sv1)))
       (\<lambda>r1. if room_is_game_over r1
          then bindR (winning_color (rm_match r1)) (\<lambda>winner. finish env rid winner KingCapture sv1)
          else Inr sv1)))"

text \<open>The flag records whether \<^verbatim>\<open>last_tick\<close> was written.\<close>

definition process_room ::
  "('s, 'r, 'd) server_env \<Rightarrow> int \<Rightarrow> room_id \<Rightarrow> ('s, 'r, 'd) server \<times> bool \<Rightarrow>
   (('s, 'r, 'd) server \<times> bool) result" where
  "process_room env elapsed rid = (\<lambda>(sv, ticked).
     bindR (of_option UndefinedBehaviour (find_room rid (sv_rooms sv)))
       (\<lambda>r. case (rm_white_player r, rm_black_player r) of
          (Some white, Some black) \<Rightarrow>
            bindR (probe_room (se_transport env) r (sv_plane sv)) (\<lambda>p.
              (let sv1 = sv\<lparr>sv_plane := p\<rparr>
               in bindR (both_room_players_disconnected p r) (\<lambda>both.
                  if both then bindR (finish env rid None Disconnect sv1) (\<lambda>sv2. Inr (sv2, ticked))
                  else bindR (disconnected_player_color p r) (\<lambda>gone.
                    case gone of
                      Some c \<Rightarrow> bindR (finish env rid (Some (opponent_color c)) Disconnect sv1)
                                  (\<lambda>sv2. Inr (sv2, ticked))
                    | None \<Rightarrow>
                        if elapsed \<ge> kTargetFrameMs \<and> \<not> room_is_game_over r
                        then bindR (tick_room env elapsed rid white black sv1)
                               (\<lambda>sv2. bindR (play_room env rid sv2) (\<lambda>sv3. Inr (sv3, True)))
                        else bindR (play_room env rid sv1) (\<lambda>sv3. Inr (sv3, ticked))))))
        | _ \<Rightarrow> Inr (sv, ticked)))"

definition process_active_rooms ::
  "('s, 'r, 'd) server_env \<Rightarrow> int \<Rightarrow> ('s, 'r, 'd) server \<Rightarrow> (('s, 'r, 'd) server \<times> bool) result" where
  "process_active_rooms env elapsed sv =
     (if active_rooms (sv_rooms sv) = [] then Inr (sv, False)
      else foldR (process_room env elapsed) (active_rooms (sv_rooms sv)) (sv, False))"

subsection \<open>One round of the server\<close>

text \<open>
  Clock readings are nanoseconds of the steady clock (0 is a time point never set); \<open>in_epoch\<close> is the
  wall clock in seconds. \<^verbatim>\<open>started_at_\<close> is set only by the \<^verbatim>\<open>run\<close> of a gateway or of a game server
  runtime, which the monolithic server does not call, so it is a field here and 0 there.
\<close>

record 's tick_input =
  in_accept :: "'s accept_result"
  in_salt :: "nat \<Rightarrow> byte list"
  in_join_time :: "nat \<Rightarrow> int"
  in_timeout_time :: int
  in_gateway_time :: int
  in_runtime_time :: int
  in_rooms_done_time :: int
  in_epoch :: int

record loop_state =
  lp_started_at :: int
  lp_last_tick :: int
  lp_last_heartbeat_at :: int
  lp_last_tick_duration_ms :: int

record ('s, 'r, 'd) tick_config =
  tc_env :: "('s, 'r, 'd) server_env"
  tc_gateway_server_id :: string
  tc_allocation_endpoint :: string
  tc_heartbeat_interval :: int
  tc_redis_enabled :: bool

definition quot :: "int \<Rightarrow> int \<Rightarrow> int" where
  "quot a b = (if a < 0 then - ((- a) div b) else a div b)"

definition elapsed_ms :: "int \<Rightarrow> int \<Rightarrow> int" where
  "elapsed_ms now last_tick = quot (now - last_tick) 1000000"

definition uptime_seconds :: "loop_state \<Rightarrow> int \<Rightarrow> int" where
  "uptime_seconds lp now = (if lp_started_at lp \<noteq> 0 then quot (now - lp_started_at lp) 1000000000 else 0)"

definition gateway_metrics ::
  "('s, 'r, 'd) tick_config \<Rightarrow> int \<Rightarrow> loop_state \<Rightarrow> ('s, 'r, 'd) server \<Rightarrow> server_metrics" where
  "gateway_metrics cfg now lp sv =
     \<lparr>sm_active_rooms = 0, sm_connected_sessions = length (cp_sessions (sv_plane sv)),
      sm_matchmaking_queue = 0, sm_server_uptime_seconds = uptime_seconds lp now,
      sm_last_tick_duration_ms = lp_last_tick_duration_ms lp,
      sm_server_id = tc_gateway_server_id cfg, sm_region = se_region (tc_env cfg),
      sm_endpoint = se_endpoint (tc_env cfg), sm_allocation_endpoint = '''',
      sm_redis_enabled = tc_redis_enabled cfg,
      sm_redis_connected = (tc_redis_enabled cfg \<and> store_is_available (sv_store sv))\<rparr>"

definition runtime_metrics ::
  "('s, 'r, 'd) tick_config \<Rightarrow> int \<Rightarrow> loop_state \<Rightarrow> ('s, 'r, 'd) server \<Rightarrow> server_metrics" where
  "runtime_metrics cfg now lp sv =
     \<lparr>sm_active_rooms = active_room_count (sv_rooms sv),
      sm_connected_sessions = length (cp_sessions (sv_plane sv)),
      sm_matchmaking_queue = 0, sm_server_uptime_seconds = uptime_seconds lp now,
      sm_last_tick_duration_ms = lp_last_tick_duration_ms lp,
      sm_server_id = se_server_id (tc_env cfg), sm_region = se_region (tc_env cfg),
      sm_endpoint = se_endpoint (tc_env cfg), sm_allocation_endpoint = tc_allocation_endpoint cfg,
      sm_redis_enabled = tc_redis_enabled cfg,
      sm_redis_connected = (tc_redis_enabled cfg \<and> store_is_available (sv_store sv))\<rparr>"

definition maybe_publish_heartbeat ::
  "('s, 'r, 'd) tick_config \<Rightarrow> int \<Rightarrow> int \<Rightarrow> string \<Rightarrow> (loop_state \<Rightarrow> ('s, 'r, 'd) server \<Rightarrow> server_metrics) \<Rightarrow>
   loop_state \<times> ('s, 'r, 'd) server \<Rightarrow> loop_state \<times> ('s, 'r, 'd) server" where
  "maybe_publish_heartbeat cfg now epoch server_id metrics = (\<lambda>(lp, sv).
     if lp_last_heartbeat_at lp \<noteq> 0 \<and>
        now - lp_last_heartbeat_at lp < tc_heartbeat_interval cfg * 1000000000 then (lp, sv)
     else (lp\<lparr>lp_last_heartbeat_at := now\<rparr>,
           sv\<lparr>sv_store := publish_server_heartbeat epoch server_id (se_region (tc_env cfg))
                           (metrics lp sv) (sv_store sv)\<rparr>))"

text \<open>
  \<^verbatim>\<open>GatewayServer::tick_once\<close> of the monolithic server: the handlers, then the clock, the pruning and
  the heartbeat.
\<close>

definition gateway_handlers ::
  "('s, 'r, 'd) server_env \<Rightarrow> 's tick_input \<Rightarrow> ('s, 'r, 'd) server \<Rightarrow> ('s, 'r, 'd) server result" where
  "gateway_handlers env inp sv =
     bindR (accept_new_clients (in_accept inp) (sv_plane sv))
       (\<lambda>p. bindR (lobby_process env (local_join env (local_allocate_game env)) (in_salt inp)
                     (in_join_time inp) (sv\<lparr>sv_plane := p\<rparr>))
              (process_timeouts env (in_timeout_time inp)))"

definition gateway_tick ::
  "('s, 'r, 'd) tick_config \<Rightarrow> 's tick_input \<Rightarrow> loop_state \<times> ('s, 'r, 'd) server \<Rightarrow>
   (loop_state \<times> ('s, 'r, 'd) server) result" where
  "gateway_tick cfg inp = (\<lambda>(lp, sv).
     bindR (gateway_handlers (tc_env cfg) inp sv)
       (\<lambda>sv1.
          (let now = in_gateway_time inp;
               lp1 = lp\<lparr>lp_last_tick_duration_ms := elapsed_ms now (lp_last_tick lp), lp_last_tick := now\<rparr>
           in bindR (prune_sessions (se_transport (tc_env cfg)) on_session_disconnected
                       (sv_plane sv1, sv_queue sv1))
             (\<lambda>(p, q). Inr (maybe_publish_heartbeat cfg now (in_epoch inp) (tc_gateway_server_id cfg)
                          (gateway_metrics cfg now) (lp1, sv1\<lparr>sv_plane := p, sv_queue := q\<rparr>))))))"

text \<open>
  \<^verbatim>\<open>GameServerRuntime::tick_once\<close>; \<open>manage\<close> is \<^verbatim>\<open>manage_connections_\<close>, set in a game server of its own,
  which has no disconnect handler.
\<close>

definition runtime_tick ::
  "('s, 'r, 'd) tick_config \<Rightarrow> bool \<Rightarrow> 's tick_input \<Rightarrow> loop_state \<times> ('s, 'r, 'd) server \<Rightarrow>
   (loop_state \<times> ('s, 'r, 'd) server) result" where
  "runtime_tick cfg manage inp = (\<lambda>(lp, sv).
     let env = tc_env cfg
     in bindR (if manage then accept_new_clients (in_accept inp) (sv_plane sv) else Inr (sv_plane sv))
       (\<lambda>p. bindR (join_process env (sv\<lparr>sv_plane := p\<rparr>))
       (\<lambda>sv1.
          (let now = in_runtime_time inp;
               elapsed = elapsed_ms now (lp_last_tick lp);
               lp1 = lp\<lparr>lp_last_tick_duration_ms := elapsed\<rparr>
           in bindR (process_active_rooms env elapsed sv1)
             (\<lambda>(sv2, ticked).
                (let lp2 = (if ticked then lp1\<lparr>lp_last_tick := in_rooms_done_time inp\<rparr> else lp1);
                     sv3 = sv2\<lparr>sv_rooms := remove_inactive_rooms (sv_rooms sv2)\<rparr>
                 in bindR (if manage
                           then prune_sessions (se_transport env) (\<lambda>s q. q) (sv_plane sv3, sv_queue sv3)
                           else Inr (sv_plane sv3, sv_queue sv3))
                   (\<lambda>(p', q). Inr (maybe_publish_heartbeat cfg now (in_epoch inp) (se_server_id env)
                                (runtime_metrics cfg now) (lp2, sv3\<lparr>sv_plane := p', sv_queue := q\<rparr>)))))))))"

text \<open>\<^verbatim>\<open>GameServer::tick_once\<close>.\<close>

definition monolith_tick ::
  "('s, 'r, 'd) tick_config \<Rightarrow> 's tick_input \<Rightarrow> (loop_state \<times> loop_state) \<times> ('s, 'r, 'd) server \<Rightarrow>
   ((loop_state \<times> loop_state) \<times> ('s, 'r, 'd) server) result" where
  "monolith_tick cfg inp = (\<lambda>((gl, rl), sv).
     bindR (gateway_tick cfg inp (gl, sv))
       (\<lambda>(gl', sv1). bindR (runtime_tick cfg False inp (rl, sv1))
       (\<lambda>(rl', sv2). Inr ((gl', rl'), sv2))))"

end
