(* ===== verification/Client_Play.thy ===== *)
theory Client_Play
  imports Client_Gui Server_Loop
begin

section \<open>Playing over the network\<close>

text \<open>
  The client plays by what it sees, the server decides by what is. The lemmas connect the two: the
  client's questions to the received view have the server's answers (up to rests whose owner was
  captured), and the messages of a click, read and authorised by the server, do to the game what the
  same click does in the offline program.
\<close>

lemma bindR_return: "bindR m Inr = m"
  by (cases m) simp_all

subsection \<open>The client's questions\<close>

lemma view_color:
  "map_option pv_color (board_view_piece_at (received (view_model g)) r c) = color_on g r c"
  using view_of_color [of "gs_board g" r c] by (simp add: received_piece view_piece color_on_def)

lemma view_piece_none: "board_view_piece_at (received (view_model g)) r c = None \<longleftrightarrow> color_on g r c = None"
  using view_color [of g r c] by (metis option.map_disc_iff)

lemma view_selectable:
  assumes "game_inv g" "view_inv g"
  shows "view_is_selectable_piece (received (view_model g)) r c \<longleftrightarrow>
    color_on g r c \<noteq> None \<and> \<not> busy g r c \<and> \<not> stale_rest g r c"
  using view_resting [OF assms, of r c] view_piece_none [of g r c]
  by (auto simp: view_is_selectable_piece_def view_origins busy_alt)

lemma view_friendly:
  assumes "game_inv g" "view_inv g"
  shows "view_is_friendly_to_selection (received (view_model g)) r c \<longleftrightarrow>
    (case gs_selected g of None \<Rightarrow> False
     | Some (sr, sc) \<Rightarrow> color_on g r c \<noteq> None \<and> \<not> busy g r c \<and> \<not> stale_rest g r c \<and> color_on g sr sc = color_on g r c)"
proof -
  let ?v = "received (view_model g)"
  have "(case (board_view_piece_at ?v sr sc, board_view_piece_at ?v r c) of
      (Some selected_piece, Some cell_piece) \<Rightarrow> pv_color selected_piece = pv_color cell_piece
    | _ \<Rightarrow> False) \<longleftrightarrow> color_on g r c \<noteq> None \<and> color_on g sr sc = color_on g r c" for sr sc
    using view_color [of g r c, symmetric] view_color [of g sr sc, symmetric]
    by (cases "board_view_piece_at ?v sr sc"; cases "board_view_piece_at ?v r c")
      (auto)
  then show ?thesis
    using view_selectable [OF assms, of r c]
    by (auto simp: view_is_friendly_to_selection_def split: option.splits)
qed

definition seat_sink :: "game_state \<Rightarrow> board_layout \<Rightarrow> piece_color \<Rightarrow> network_sink" where
  "seat_sink g l side =
     \<lparr>nk_view = received (view_model g), nk_layout = l, nk_local_side = Some side\<rparr>"

lemma actionable:
  assumes "game_inv g" "view_inv g"
  shows "is_actionable_piece (seat_sink g l side) r c \<longleftrightarrow>
    color_on g r c = Some side \<and> \<not> busy g r c \<and> \<not> stale_rest g r c"
proof -
  have "(case board_view_piece_at (received (view_model g)) r c of None \<Rightarrow> False | Some piece \<Rightarrow> pv_color piece = side)
    \<longleftrightarrow> color_on g r c = Some side"
    using view_color [of g r c]
    by (cases "board_view_piece_at (received (view_model g)) r c") (auto)
  then show ?thesis
    using view_selectable [OF assms, of r c] by (auto simp: is_actionable_piece_def seat_sink_def)
qed

subsection \<open>What the server makes of the messages\<close>

text \<open>One input of a player in a room, as in \<^verbatim>\<open>RoomProcessor\<close>.\<close>

definition room_action :: "piece_color \<Rightarrow> game_action \<Rightarrow> game_state \<Rightarrow> game_state result" where
  "room_action side a g =
     bindR (is_action_allowed side g a) (\<lambda>allowed. if allowed then submit_action a g else Inr g)"

definition room_messages :: "piece_color \<Rightarrow> string list \<Rightarrow> game_state \<Rightarrow> game_state result" where
  "room_messages side messages g = foldR (room_action side) (List.map_filter parse_message messages) g"

text \<open>The room processor applies the inputs of one player exactly so, and touches only that room.\<close>

lemma apply_room_inputs_actions:
  assumes "find_room rid (sv_rooms sv) = Some r" "foldR (room_action side) acts (rm_match r) = Inr g"
  shows "\<exists>rooms. apply_room_inputs env rid (map (ActionInput side) acts) sv = Inr (sv\<lparr>sv_rooms := rooms\<rparr>) \<and>
    find_room rid rooms = Some (r\<lparr>rm_match := g\<rparr>)"
  using assms
proof (induction acts arbitrary: sv r)
  case Nil
  then show ?case by (intro exI [of _ "sv_rooms sv"]) simp
next
  case (Cons a acts)
  then obtain g1 where g1: "room_action side a (rm_match r) = Inr g1" "foldR (room_action side) acts g1 = Inr g"
    by (auto simp: bindR_Inr_iff)
  then obtain ok where ok: "is_action_allowed side (rm_match r) a = Inr ok"
    "(if ok then submit_action a (rm_match r) else Inr (rm_match r)) = Inr g1"
    by (auto simp: room_action_def bindR_Inr_iff)
  show ?case
  proof (cases ok)
    case True
    let ?sv = "sv\<lparr>sv_rooms := put_room rid (r\<lparr>rm_match := g1\<rparr>) (sv_rooms sv)\<rparr>"
    have f: "find_room rid (sv_rooms ?sv) = Some (r\<lparr>rm_match := g1\<rparr>)"
      using Cons.prems(1) by (simp add: find_put_room)
    obtain rooms where "apply_room_inputs env rid (map (ActionInput side) acts) ?sv = Inr (?sv\<lparr>sv_rooms := rooms\<rparr>)"
      "find_room rid rooms = Some (r\<lparr>rm_match := g\<rparr>)"
      using Cons.IH [OF f, of] g1(2) by auto
    then show ?thesis using Cons.prems(1) ok True by (auto simp: room_submit_action_def intro!: exI [of _ rooms])
  next
    case False
    then show ?thesis using Cons.IH [OF Cons.prems(1)] g1 ok Cons.prems(1) by simp
  qed
qed

lemma room_action_own:
  assumes "wf_board (gs_board g)"
  shows "room_action side (Select r c) g = Inr (if color_on g r c = Some side then select r c g else g)"
    "room_action side (JumpAt r c) g = (if color_on g r c = Some side then jump_at r c g else Inr g)"
    "room_action side (MoveSelected r c) g =
       (case gs_selected g of None \<Rightarrow> Inr g
        | Some (sr, sc) \<Rightarrow> if color_on g sr sc = Some side then move_selected_to r c g else Inr g)"
  using piece_color_at_ok [OF assms]
  by (auto simp: room_action_def is_action_allowed_def submit_action_def split: option.splits)

lemma room_action_clear: "room_action side ClearSelection = (\<lambda>g. Inr (clear_selection g))"
  by (rule ext) (simp add: room_action_def is_action_allowed_def submit_action_def)

lemma room_messages_sends:
  assumes "r < 2 ^ 64" "c < 2 ^ 64"
  shows "room_messages side [] g = Inr g"
    "room_messages side [send_select r c] g = room_action side (Select r c) g"
    "room_messages side [send_move r c] g = room_action side (MoveSelected r c) g"
    "room_messages side [send_jump r c, send_clear] g =
       bindR (room_action side (JumpAt r c) g) (room_action side ClearSelection)"
proof -
  have nil: "foldR f [] = Inr" for f :: "game_action \<Rightarrow> game_state \<Rightarrow> game_state result" by (rule ext) simp
  have one: "foldR f [x] = f x" for f :: "game_action \<Rightarrow> game_state \<Rightarrow> game_state result" and x
    by (rule ext) (simp add: nil bindR_return)
  show "room_messages side [] g = Inr g"
    "room_messages side [send_select r c] g = room_action side (Select r c) g"
    "room_messages side [send_move r c] g = room_action side (MoveSelected r c) g"
    "room_messages side [send_jump r c, send_clear] g =
       bindR (room_action side (JumpAt r c) g) (room_action side ClearSelection)"
    using client_round_trip [OF assms] by (simp_all add: room_messages_def map_filter_simps one nil)
qed

subsection \<open>A click over the network\<close>

text \<open>Whose piece a click is about: the selected one, or the clicked one when nothing is selected.\<close>

definition click_owner :: "board_layout \<Rightarrow> int \<Rightarrow> int \<Rightarrow> game_state \<Rightarrow> piece_color option" where
  "click_owner l x y g =
     (case pixel_to_cell l g x y of
        None \<Rightarrow> None
      | Some (row, col) \<Rightarrow>
          (case gs_selected g of
             None \<Rightarrow> color_on g row col
           | Some (selected_row, selected_col) \<Rightarrow> color_on g selected_row selected_col))"

lemma sink_pixel: "sink_pixel_to_cell (seat_sink g l side) x y = pixel_to_cell l g x y"
  by (simp add: sink_pixel_to_cell_def seat_sink_def pixel_to_cell_def)

lemma color_on_bounds: "color_on g r c \<noteq> None \<Longrightarrow> is_in_bounds (gs_board g) r c"
  by (auto simp: color_on_def split: if_splits)

lemma handle_click_alt:
  assumes "wf_board (gs_board g)" "\<not> gs_game_over g" "pixel_to_cell l g x y = Some (r, c)"
    and "is_in_bounds (gs_board g) r c"
  shows "handle_click l x y g =
    (case gs_selected g of
       None \<Rightarrow> Inr (if color_on g r c \<noteq> None \<and> \<not> busy g r c then select r c g else g)
     | Some (sr, sc) \<Rightarrow>
         if color_on g r c \<noteq> None \<and> \<not> busy g r c \<and> color_on g sr sc = color_on g r c
         then (if (sr, sc) = (r, c) then bindR (jump_at r c g) (\<lambda>g'. Inr (clear_selection g')) else Inr (select r c g))
         else if busy g sr sc then Inr g else move_selected_to r c g)"
  using assms is_piece_resting_ok [OF assms(1)]
  by (auto simp: handle_click_def game_is_in_bounds_def server_answers handle_select_def handle_friendly_click_def
      handle_move_attempt_def jump_selected_def busy_def split: option.splits prod.splits if_splits)

lemma network_click:
  assumes inv: "game_inv g" "view_inv g" and fit: "fits_wire g"
    and stale: "\<forall>r c. pixel_to_cell l g x y = Some (r, c) \<longrightarrow> \<not> stale_rest g r c"
      "\<forall>r c. gs_selected g = Some (r, c) \<longrightarrow> \<not> stale_rest g r c"
  shows "room_messages side (sink_click (seat_sink g l side) x y) g =
    (if click_owner l x y g = Some side then handle_click l x y g else Inr g)"
proof (cases "\<not> gs_game_over g \<and> (\<exists>r c. pixel_to_cell l g x y = Some (r, c) \<and> is_in_bounds (gs_board g) r c)")
  case False
  then show ?thesis
    by (auto simp: sink_click_def seat_sink_def sink_pixel [unfolded seat_sink_def] handle_click_def
        room_messages_def map_filter_simps view_is_in_bounds_def game_is_in_bounds_def is_in_bounds_iff
        split: option.splits)
next
  case True
  then obtain r c where px: "pixel_to_cell l g x y = Some (r, c)" and b: "is_in_bounds (gs_board g) r c"
    and over: "\<not> gs_game_over g" by blast
  note wf = game_inv_wf [OF inv(1)]
  let ?k = "seat_sink g l side"
  have s64: "r < 2 ^ 64" "c < 2 ^ 64"
    using b fit by (auto simp: fits_wire_def is_in_bounds_iff)
  have k: "nk_view ?k = received (view_model g)" by (simp add: seat_sink_def)
  note local = handle_click_alt [OF wf over px b]
  note msgs = room_messages_sends [OF s64] room_action_own [OF wf] room_action_clear
  note ask = actionable [OF inv] view_friendly [OF inv] view_origins view_resting [OF inv]
  have clean: "\<not> stale_rest g r c" using stale(1) px by blast
  have click: "sink_click ?k x y =
      (case gs_selected g of
         None \<Rightarrow> if color_on g r c = Some side \<and> \<not> busy g r c then [send_select r c] else []
       | Some selected \<Rightarrow>
           if view_is_friendly_to_selection (received (view_model g)) r c
           then sink_friendly_click ?k selected r c else sink_move_attempt ?k r c)"
    using over b clean
    by (simp add: sink_click_def sink_pixel px k view_is_in_bounds_def is_in_bounds_iff actionable [OF inv]
        split: option.splits)
  show ?thesis
  proof (cases "gs_selected g")
    case None
    then show ?thesis using msgs click by (simp add: click_owner_def px local)
  next
    case (Some sel)
    obtain sr sc where sel: "sel = (sr, sc)" by force
    have "\<not> stale_rest g sr sc" using stale(2) Some sel by blast
    then have attempt: "sink_move_attempt ?k r c = (if busy g sr sc then [] else [send_move r c])"
      by (simp add: sink_move_attempt_def k Some sel ask busy_alt)
    have own: "click_owner l x y g = color_on g sr sc" by (simp add: click_owner_def px Some sel)
    show ?thesis
    proof (cases "color_on g r c \<noteq> None \<and> \<not> busy g r c \<and> color_on g sr sc = color_on g r c")
      case True
      then show ?thesis
        using msgs clean
        by (auto simp: click Some sel ask sink_friendly_click_def local own)
    next
      case False
      then show ?thesis using msgs clean by (auto simp: click Some sel ask local own attempt)
    qed
  qed
qed

lemma network_jump:
  assumes inv: "game_inv g" "view_inv g" and fit: "fits_wire g" and px: "pixel_to_cell l g x y = Some (r, c)"
    and clean: "\<not> stale_rest g r c"
  shows "room_messages side (sink_jump (seat_sink g l side) x y) g =
    (if color_on g r c = Some side then handle_jump l x y g else Inr g)"
proof -
  note wf = game_inv_wf [OF inv(1)]
  let ?k = "seat_sink g l side"
  have k: "nk_view ?k = received (view_model g)" by (simp add: seat_sink_def)
  have click: "sink_jump ?k x y =
      (if \<not> gs_game_over g \<and> color_on g r c = Some side \<and> \<not> busy g r c then [send_jump r c, send_clear] else [])"
  proof (cases "is_in_bounds (gs_board g) r c")
    case True
    then show ?thesis
      using clean view_piece_none [of g r c]
      by (auto simp: sink_jump_def sink_pixel px k view_is_in_bounds_def is_in_bounds_iff actionable [OF inv]
          view_origins view_resting [OF inv] busy_alt)
  next
    case False
    then have "color_on g r c = None" using color_on_bounds by blast
    with False show ?thesis
      by (auto simp: sink_jump_def sink_pixel px k view_is_in_bounds_def is_in_bounds_iff actionable [OF inv])
  qed
  have s64: "r < 2 ^ 64 \<and> c < 2 ^ 64" if "color_on g r c = Some side"
    using color_on_bounds [of g r c] that fit by (auto simp: fits_wire_def is_in_bounds_iff)
  have "handle_jump l x y g =
      (if gs_game_over g \<or> busy g r c then Inr g else bindR (jump_at r c g) (\<lambda>g'. Inr (clear_selection g')))"
    if "color_on g r c = Some side"
    using color_on_bounds [of g r c] that
    by (auto simp: handle_jump_def px game_is_in_bounds_def is_piece_resting_ok [OF wf] busy_def)
  then show ?thesis
    using s64 room_messages_sends(1) [of 0 0] room_messages_sends(4) room_action_own(2) [OF wf] room_action_clear
    by (auto simp: click)
qed

subsection \<open>The messages of the server\<close>

text \<open>A line of words that is not the word \<^verbatim>\<open>snapshot\<close> is not a snapshot.\<close>

lemma not_a_snapshot:
  assumes "list_all is_word ts" "2 \<le> length ts \<or> ts = [t] \<and> t \<noteq> ''snapshot''"
  shows "read_snapshot capacity (line_text ts) = Inr None"
proof -
  have no: "CHR 0x0A \<notin> set (line_text ts)" "CHR 0x0D \<notin> set (line_text ts)"
    using join_space [OF assms(1), of "CHR 0x0A"] join_space [OF assms(1), of "CHR 0x0D"] by (auto simp: is_space_def)
  have w: "words (line_text ts) = ts" using words_line [OF assms(1)] .
  have "words [] = []" by (subst words.simps) (simp add: extract_word_def)
  then have "line_text ts \<noteq> []" using w assms(2) by force
  then have "split_lines (line_text ts) = [line_text ts]"
  proof -
    have "filter (\<lambda>c. c \<noteq> CHR 0x0D) (line_text ts) = line_text ts"
      using no(2) by (intro filter_True) auto
    then show ?thesis
      using get_lines_from_append [OF no(1), of "[]" "[]"] \<open>line_text ts \<noteq> []\<close>
      by (simp add: split_lines_def get_lines_def)
  qed
  moreover have one: "words ''snapshot'' = [''snapshot'']"
    using words_line [of "[''snapshot'']"] by (simp add: is_word_def is_space_def)
  have "line_text ts \<noteq> ''snapshot''"
  proof
    assume "line_text ts = ''snapshot''"
    then have "ts = [''snapshot'']" using w one by simp
    then show False using assms(2) by auto
  qed
  ultimately show ?thesis by (simp add: read_snapshot_def)
qed

lemma first_line_newline: "CHR 0x0A \<notin> set s \<Longrightarrow> first_line (s @ CHR 0x0A # t) = first_line s"
  by (induction s) auto

lemma side_token_word: "is_word (side_token side)"
  by (cases side) (simp_all add: side_token_def is_word_def is_space_def)

lemma message_words:
  "is_word ''searching''" "is_word ''search_timeout''" "is_word ''match_found''" "is_word ''game_start''"
  "is_word ''game_redirect''" "is_word ''game_result''" "is_word ''login_ok''" "is_word ''login_failed''"
  "is_word ''win''" "is_word ''loss''" "is_word (finish_reason_token reason)"
proof -
  show "is_word (finish_reason_token reason)" by (cases reason) (simp_all add: is_word_def is_space_def)
qed (simp_all add: is_word_def is_space_def)

fun matched :: "piece_color \<Rightarrow> matchmaking_state" where
  "matched White = MatchedWhite" | "matched Black = MatchedBlack"

fun starting :: "piece_color \<Rightarrow> matchmaking_state" where
  "starting White = GameStartingWhite" | "starting Black = GameStartingBlack"

lemma login_messages_read:
  assumes "- (2 ^ 31) \<le> rating" "rating < 2 ^ 31" "is_word reason"
  shows "read_login_message (''login_ok '' @ show_int rating) =
      Some \<lparr>lres_status = StatusOk, lres_rating = rating, lres_failure_reason = ''''\<rparr>"
    "read_login_message (''login_failed '' @ reason) =
      Some \<lparr>lres_status = StatusFailed, lres_rating = 0, lres_failure_reason = reason\<rparr>"
  using tokens_line [of "[''login_ok'', show_int rating]"] tokens_line [of "[''login_failed'', reason]"]
    message_words show_int_word [of rating] assms stoi10_show [OF assms(1,2)]
  by (simp_all add: read_login_message_def)

lemma lobby_messages_handled:
  "handle_network_message capacity ''searching'' (v, st) = Inr (v, st\<lparr>ng_matchmaking := MmSearching\<rparr>)"
  "handle_network_message capacity ''search_timeout'' (v, st) = Inr (v, st\<lparr>ng_matchmaking := MmTimeout\<rparr>)"
  "handle_network_message capacity (''match_found '' @ side_token side) (v, st) =
     Inr (v, st\<lparr>ng_matchmaking := matched side, ng_local_side := Some side\<rparr>)"
  "handle_network_message capacity (''game_start '' @ side_token side) (v, st) =
     Inr (v, st\<lparr>ng_matchmaking := starting side, ng_local_side := Some side\<rparr>)"
proof -
  show "handle_network_message capacity ''searching'' (v, st) = Inr (v, st\<lparr>ng_matchmaking := MmSearching\<rparr>)"
    using not_a_snapshot [of "[''searching'']" "''searching''" capacity] tokens_line [of "[''searching'']"] message_words
    by (simp add: handle_network_message_def read_matchmaking_message_def)
  show "handle_network_message capacity ''search_timeout'' (v, st) = Inr (v, st\<lparr>ng_matchmaking := MmTimeout\<rparr>)"
    using not_a_snapshot [of "[''search_timeout'']" "''search_timeout''" capacity]
      tokens_line [of "[''search_timeout'']"] message_words
    by (simp add: handle_network_message_def read_matchmaking_message_def)
  show "handle_network_message capacity (''match_found '' @ side_token side) (v, st) =
     Inr (v, st\<lparr>ng_matchmaking := matched side, ng_local_side := Some side\<rparr>)"
    using not_a_snapshot [of "[''match_found'', side_token side]" _ capacity]
      tokens_line [of "[''match_found'', side_token side]"] message_words side_token_word [of side]
    by (cases side) (simp_all add: handle_network_message_def read_matchmaking_message_def side_token_def)
  show "handle_network_message capacity (''game_start '' @ side_token side) (v, st) =
     Inr (v, st\<lparr>ng_matchmaking := starting side, ng_local_side := Some side\<rparr>)"
    using not_a_snapshot [of "[''game_start'', side_token side]" _ capacity]
      tokens_line [of "[''game_start'', side_token side]"] message_words side_token_word [of side]
    by (cases side) (simp_all add: handle_network_message_def read_matchmaking_message_def side_token_def)
qed

lemma redirect_handled:
  assumes "is_word (gi_endpoint info)" "gi_room_id info < 2 ^ 64"
  shows "handle_network_message capacity (redirect_message info) (v, st) =
    Inr (v, st\<lparr>ng_redirect := Some \<lparr>gr_endpoint = gi_endpoint info, gr_room_id = gi_room_id info, gr_side = gi_side info\<rparr>,
               ng_local_side := (if ng_local_side st = None then Some (gi_side info) else ng_local_side st)\<rparr>)"
proof -
  let ?ts = "[''game_redirect'', gi_endpoint info, show_nat (gi_room_id info), side_token (gi_side info)]"
  have m: "redirect_message info = line_text ?ts" by (simp add: redirect_message_def)
  have w: "list_all is_word ?ts" using assms message_words side_token_word show_nat_word by simp
  have t: "split_tokens (first_line (line_text ?ts)) = ?ts" by (rule tokens_line [OF w])
  have "read_game_redirect_message (line_text ?ts) =
      Some \<lparr>gr_endpoint = gi_endpoint info, gr_room_id = gi_room_id info, gr_side = gi_side info\<rparr>"
    unfolding read_game_redirect_message_def t Let_def
    using assms(1) parse_room_id_show [OF assms(2)]
    by (cases "gi_side info") (simp_all add: parse_side_token_def side_token_def is_word_def)
  moreover have "read_matchmaking_message (line_text ?ts) = None"
    unfolding read_matchmaking_message_def t Let_def by simp
  moreover have "read_snapshot capacity (line_text ?ts) = Inr None"
    by (rule not_a_snapshot [OF w]) simp
  ultimately show ?thesis
    unfolding m handle_network_message_def by (cases st) (auto simp: Let_def simp del: join.simps)
qed

lemma result_read:
  assumes "- (2 ^ 31) \<le> rating" "rating < 2 ^ 31"
  shows "read_game_result_message (create_game_result_message won reason rating) =
    Some \<lparr>gres_won = won, gres_reason = finish_reason_token reason, gres_rating = rating\<rparr>"
proof -
  let ?ts = "[''game_result'', if won then ''win'' else ''loss'', finish_reason_token reason, show_int rating]"
  have w: "list_all is_word ?ts" using message_words show_int_word [of rating] by simp
  have m: "create_game_result_message won reason rating = line_text ?ts @ [CHR 0x0A]"
    by (simp add: create_game_result_message_def)
  have "CHR 0x0A \<notin> set (line_text ?ts)"
    using join_space [OF w, of "CHR 0x0A"] by (auto simp: is_space_def)
  then have "first_line (line_text ?ts @ [CHR 0x0A]) = first_line (line_text ?ts)"
    by (rule first_line_newline)
  then have "split_tokens (first_line (create_game_result_message won reason rating)) = ?ts"
    unfolding m using tokens_line [OF w] by simp
  then show ?thesis
    using stoi10_show [OF assms] by (simp add: read_game_result_message_def)
qed

end
