(* ===== verification/Game_Theorems.thy ===== *)
theory Game_Theorems
  imports Game_State
begin

section \<open>Properties of the game core\<close>

text \<open>
  The properties of the board, the rules and the realtime engine, stated on the model's
  definitions. Each is followed, where it has hypotheses, by an application to a concrete game.
\<close>

subsection \<open>Small games used by the witnesses\<close>

definition demo_tokens :: "string list list" where
  "demo_tokens = [[''bK'', ''.'', ''.''], [''.'', ''.'', ''.''], [''wR'', ''.'', ''wK'']]"

definition demo_board :: board_model where
  "demo_board =
     \<lparr>cells = [[Some 1, None, None], [None, None, None], [Some 2, None, Some 3]],
      pieces =
        [\<lparr>pc_id = 1, pc_color = Black, pc_kind = King, pc_cell = \<lparr>pos_row = 0, pos_col = 0\<rparr>, pc_state = Idle\<rparr>,
         \<lparr>pc_id = 2, pc_color = White, pc_kind = Rook, pc_cell = \<lparr>pos_row = 2, pos_col = 0\<rparr>, pc_state = Idle\<rparr>,
         \<lparr>pc_id = 3, pc_color = White, pc_kind = King, pc_cell = \<lparr>pos_row = 2, pos_col = 2\<rparr>, pc_state = Idle\<rparr>]\<rparr>"

lemma demo_valid: "list_all (list_all is_valid_token) demo_tokens"
  by code_simp

lemma demo_from_tokens: "from_token_grid demo_tokens = Inr demo_board"
  by code_simp

lemma demo_flight: "flight_inv demo_board []"
  using from_token_grid_ok [OF demo_valid, of 3] by (simp add: demo_from_tokens) (simp add: demo_tokens_def)

lemma demo_game_inv: "game_inv (new_game demo_board)"
  unfolding new_game_def using demo_flight by (rule new_game_inv)

subsection \<open>Safety and conservation\<close>



text \<open>
  C2. Conservation of pieces: in every reachable state each piece is in exactly one of three
  situations: idle and on the grid, moving and scheduled (once) as a move or a jump, or captured
  and neither.
\<close>

theorem pieces_conserved:
  assumes "flight_inv b []" "reachable (new_game b) g"
  shows "distinct (scheduled g) \<and> length (pieces (gs_board g)) = length (pieces b) \<and>
         (\<forall>i. valid_id (gs_board g) i \<longrightarrow>
            (case pc_state (piece_of (gs_board g) i) of
               Idle \<Rightarrow> on_grid (gs_board g) i \<and> i \<notin> set (scheduled g)
             | Moving \<Rightarrow> \<not> on_grid (gs_board g) i \<and> i \<in> set (scheduled g)
             | Captured \<Rightarrow> \<not> on_grid (gs_board g) i \<and> i \<notin> set (scheduled g)))"
proof -
  have ok: "game_step_ok (new_game b) g"
    using assms std_policy.reachable_ok [OF assms(2)] new_game_inv [OF assms(1)]
    by (simp add: new_game_def new_game_with_def)
  then have "flight_inv (gs_board g) (scheduled g)"
    by (intro game_inv_flight) (simp add: game_step_ok_def)
  then show ?thesis
    using ok
    by (auto simp: flight_inv_def placement_ok_def game_step_ok_def evolves_def
        new_game_def new_game_with_def split: piece_state.splits)
qed

theorem pieces_conserved_witness:
  "pc_state (piece_of (gs_board (new_game demo_board)) 2) = Idle \<and>
   on_grid (gs_board (new_game demo_board)) 2 \<and> 2 \<notin> set (scheduled (new_game demo_board))"
proof -
  have "valid_id (gs_board (new_game demo_board)) 2"
    and "pc_state (piece_of (gs_board (new_game demo_board)) 2) = Idle"
    by (simp_all add: new_game_def new_game_with_def valid_id_def piece_of_def demo_board_def)
  then show ?thesis
    using pieces_conserved [OF demo_flight reachable.start] by auto
qed

text \<open>
  C3. History is monotone: from any state to any later one, the game stays over once it is over,
  captured pieces stay captured, colours never change and only pawns change kind.
\<close>

theorem history_monotone:
  assumes "game_inv g0" "gs_rules g0 = standard" "reachable g0 g" "valid_id (gs_board g0) i"
  shows "(gs_game_over g0 \<longrightarrow> gs_game_over g) \<and>
         (pc_state (piece_of (gs_board g0) i) = Captured \<longrightarrow> pc_state (piece_of (gs_board g) i) = Captured) \<and>
         pc_color (piece_of (gs_board g) i) = pc_color (piece_of (gs_board g0) i) \<and>
         (pc_kind (piece_of (gs_board g0) i) \<noteq> Pawn \<longrightarrow>
            pc_kind (piece_of (gs_board g) i) = pc_kind (piece_of (gs_board g0) i))"
  using std_policy.reachable_ok [OF assms(3,1,2)] assms(4) by (auto simp: game_step_ok_def evolves_def)

theorem history_monotone_witness:
  "pc_color (piece_of (gs_board (select 2 0 (new_game demo_board))) 2) = White"
proof -
  have "reachable (new_game demo_board) (select 2 0 (new_game demo_board))"
    by (rule reachable.step [OF reachable.start, where a = "Select 2 0"]) simp
  from history_monotone [OF demo_game_inv _ this, of 2] show ?thesis
    by (simp add: new_game_def new_game_with_def valid_id_def piece_of_def demo_board_def)
qed

subsection \<open>Time\<close>



text \<open>
  C5. The settlement of one due move refines its specification \<open>arrival\<close>: a move that is no longer
  legal on the current board goes back to its start cell; one that meets an enemy jumper is
  captured; any other lands, captures an enemy on its cell, may promote, ends the game when the
  lost piece is a king, and starts a long rest.
\<close>

theorem settle_refines_arrival:
  assumes "sched_inv (m # ps) js b"
  shows "settle_due_move standard clk m (sch, b, over, changed) =
           Inr (arrival standard clk m (sch, b, over, changed))"
  using assms by (intro std_policy.settle_due_move_ok) (auto simp: sched_inv_def)

definition demo_launch :: game_state where
  "demo_launch = launched (select 2 0 (new_game demo_board)) (2, 0) (0, 0) 2"

lemma demo_accepts: "accepts_move (select 2 0 (new_game demo_board)) (2, 0) (0, 0) 2"
  unfolding accepts_move_def by code_simp

lemma demo_selected_inv: "game_inv (select 2 0 (new_game demo_board))"
  using demo_game_inv by (rule game_inv_select)

lemma demo_selected_simps:
  "gs_rules (select 2 0 (new_game demo_board)) = standard"
  "gs_board (select 2 0 (new_game demo_board)) = demo_board"
  "gs_selected (select 2 0 (new_game demo_board)) = Some (2, 0)"
  "gs_arbiter (select 2 0 (new_game demo_board)) = new_arbiter"
  "\<not> gs_game_over (select 2 0 (new_game demo_board))"
  "ms_pending_moves (ra_scheduler new_arbiter) = []"
  "ms_active_jumps (ra_scheduler new_arbiter) = []"
  "ms_active_rests (ra_scheduler new_arbiter) = []"
  "ra_clock_ms new_arbiter = 0"
  by (simp_all add: select_def new_game_def new_game_with_def new_arbiter_def empty_scheduler_def
      game_is_in_bounds_def is_in_bounds_def demo_board_def)

lemma demo_moves_step: "game_step_ok (new_game demo_board) demo_launch"
  and demo_launch_eq: "move_selected_to 0 0 (select 2 0 (new_game demo_board)) = Inr demo_launch"
proof -
  let ?g = "select 2 0 (new_game demo_board)"
  show eq: "move_selected_to 0 0 ?g = Inr demo_launch"
    using std_policy.move_selected_to_ok [OF game_inv_wf [OF demo_selected_inv], of "(0, 0)"] demo_accepts
    by (simp add: demo_selected_simps demo_launch_def cell_at_def, simp add: demo_board_def)
  have "game_step_ok ?g demo_launch"
    using std_policy.move_step [OF demo_selected_inv demo_selected_simps(1), of 0 0] by (simp add: eq)
  moreover have "game_step_ok (new_game demo_board) ?g"
    using std_policy.action_step [OF demo_game_inv, of "Select 2 0"]
    by (simp add: new_game_def new_game_with_def)
  ultimately show "game_step_ok (new_game demo_board) demo_launch"
    by (rule game_step_ok_trans [rotated])
qed

theorem settle_refines_arrival_witness:
  "let m = launched_move (select 2 0 (new_game demo_board)) (2, 0) (0, 0) 2;
       s = (ra_scheduler (gs_arbiter demo_launch), gs_board demo_launch, False, False)
   in settle_due_move standard 1000 m s = Inr (arrival standard 1000 m s)"
proof -
  let ?m = "launched_move (select 2 0 (new_game demo_board)) (2, 0) (0, 0) 2"
  have "ms_pending_moves (ra_scheduler (gs_arbiter demo_launch)) = [?m]"
    by (simp add: demo_launch_def launched_def request_move_def schedule_move_def launched_move_def
        demo_selected_simps)
  moreover have "ms_active_jumps (ra_scheduler (gs_arbiter demo_launch)) = []"
    by (simp add: demo_launch_def launched_def request_move_def demo_selected_simps)
  ultimately have "sched_inv [?m] [] (gs_board demo_launch)"
    using demo_moves_step by (simp add: game_step_ok_def game_inv_def arbiter_inv_def)
  from settle_refines_arrival [OF this] show ?thesis
    by (simp add: Let_def)
qed

text \<open>
  C6. A whole move. In a state with nothing in flight, an accepted request followed by the time the
  move takes puts the piece, promoted if it is a pawn on its last row, on the requested cell; the
  cell it left is empty, every other cell is as before, an enemy that stood on the target is
  captured, and the game is over afterwards exactly if it was before or that enemy was a king.
\<close>

theorem accepted_move_arrives:
  assumes inv: "game_inv g" and r: "gs_rules g = standard"
    and idle: "ms_pending_moves (ra_scheduler (gs_arbiter g)) = []"
      "ms_active_jumps (ra_scheduler (gs_arbiter g)) = []"
    and sel: "gs_selected g = Some src" and a: "accepts_move g src dst i"
  shows "\<exists>g'. foldR apply_action
      [MoveSelected (fst dst) (snd dst),
       AdvanceClock (compute_move_duration g (fst src) (snd src) (fst dst) (snd dst) (is_capture g i dst))] g
      = Inr g' \<and>
    (\<forall>r c. is_in_bounds (gs_board g) r c \<longrightarrow>
       cell_at (gs_board g') r c =
         (if (r, c) = dst then Some i else if (r, c) = src then None else cell_at (gs_board g) r c)) \<and>
    piece_of (gs_board g') i =
      (promote_pawn_to_queen (piece_of (gs_board g) i) (fst dst) (rows (gs_board g)))
        \<lparr>pc_cell := \<lparr>pos_row = int (fst dst), pos_col = int (snd dst)\<rparr>, pc_state := Idle\<rparr> \<and>
    (\<forall>j. enemy_at (gs_board g) i dst = Some j \<longrightarrow> pc_state (piece_of (gs_board g') j) = Captured) \<and>
    gs_game_over g' = (gs_game_over g \<or>
      (\<exists>j. enemy_at (gs_board g) i dst = Some j \<and> pc_kind (piece_of (gs_board g) j) = King))"
proof -
  let ?b = "gs_board g" and ?g' = "landed_game g src dst i"
  let ?b1 = "lifted ?b (fst src) (snd src) i"
  note wf = game_inv_wf [OF inv]
  have src: "is_in_bounds ?b (fst src) (snd src)" "cell_at ?b (fst src) (snd src) = Some i"
    and dst: "is_in_bounds ?b (fst dst) (snd dst)"
    using a by (auto simp: accepts_move_def)
  have v: "valid_id ?b i" using wf_cell_valid [OF wf src] .
  have wf1: "wf_board ?b1"
    using flight_lifted [OF game_inv_flight [OF inv] src] by simp
  have ib: "pc_id (arrived standard ?b1 i dst) = i"
    using wf1 v by simp
  have promote: "promote_pawn_to_queen (p\<lparr>pc_state := s\<rparr>) x y = (promote_pawn_to_queen p x y)\<lparr>pc_state := s\<rparr>"
    for p s x y
    by (simp add: promote_pawn_to_queen_def is_white_def is_black_def Let_def)
  have board: "gs_board ?g' = land ?b1 (fst dst) (snd dst) (arrived standard ?b1 i dst)"
    by (simp add: landed_game_def Let_def r)
  have cells: "cell_at (gs_board ?g') r0 c0 =
      (if (r0, c0) = dst then Some i else if (r0, c0) = src then None else cell_at ?b r0 c0)" for r0 c0
    unfolding board using wf wf1 src dst ib
    by (cases dst; cases src) (auto simp: cell_at_land cell_at_lifted)
  have piece: "piece_of (gs_board ?g') i =
      (promote_pawn_to_queen (piece_of ?b i) (fst dst) (rows ?b))
        \<lparr>pc_cell := \<lparr>pos_row = int (fst dst), pos_col = int (snd dst)\<rparr>, pc_state := Idle\<rparr>"
    using wf1 dst v ib
    by (simp add: board piece_of_land) (simp add: arrived_def standard_def piece_of_lifted v promote)
  have enemy: "pc_state (piece_of (gs_board ?g') j) = Captured" if "enemy_at ?b i dst = Some j" for j
  proof -
    have j: "cell_at ?b (fst dst) (snd dst) = Some j" "j \<noteq> i" "dst \<noteq> src"
      using that accepts_moves [OF r a] by (auto simp: enemy_at_def split: option.splits if_splits)
    then have "cell_at ?b1 (fst dst) (snd dst) = Some j" "valid_id ?b j"
      using wf src dst wf_cell_valid [OF wf dst] by (auto simp: cell_at_lifted prod_eq_iff)
    then show ?thesis
      using wf1 dst v ib j by (simp add: board piece_of_land)
  qed
  have "gs_game_over ?g' = (gs_game_over g \<or>
      (\<exists>j. enemy_at ?b i dst = Some j \<and> pc_kind (piece_of ?b j) = King))"
    by (simp add: landed_game_def Let_def r standard_def king_capture_ends_game_def split: option.splits)
  then show ?thesis
    using whole_move [OF assms] cells piece enemy by blast
qed

theorem accepted_move_arrives_witness:
  "\<exists>g'. foldR apply_action [MoveSelected 0 0, AdvanceClock 1000] (select 2 0 (new_game demo_board)) = Inr g' \<and>
     cell_at (gs_board g') 0 0 = Some 2 \<and> gs_game_over g'"
proof -
  let ?g = "select 2 0 (new_game demo_board)"
  have d: "compute_move_duration ?g 2 0 0 0 (is_capture ?g 2 (0, 0)) = 1000"
    and e: "enemy_at (gs_board ?g) 2 (0, 0) = Some 1" and k: "pc_kind (piece_of (gs_board ?g) 1) = King"
    and b: "is_in_bounds (gs_board ?g) 0 0"
    unfolding is_capture_def by code_simp+
  from accepted_move_arrives [OF demo_selected_inv _ _ _ _ demo_accepts] show ?thesis
    using e k b d by (fastforce simp: demo_selected_simps)
qed

text \<open>
  C7. Two moves of the same colour in flight never head for the same cell, in every reachable state.
\<close>

theorem friendly_destinations_distinct:
  assumes "flight_inv b []" "reachable (new_game b) g"
    and "m \<in> set (ms_pending_moves (ra_scheduler (gs_arbiter g)))"
      "m' \<in> set (ms_pending_moves (ra_scheduler (gs_arbiter g)))" "m \<noteq> m'"
    and "pm_color m = pm_color m'"
  shows "pm_end_pos m \<noteq> pm_end_pos m'"
proof -
  have "claims_inv g"
    using std_timed.reachable_claims [OF assms(2)] new_game_inv [OF assms(1)] new_game_claims
    by (simp add: new_game_def new_game_with_def)
  with assms(3-6) show ?thesis
    by (auto simp: claims_inv_def Let_def)
qed

definition demo_two :: "game_state result" where
  "demo_two = foldR apply_action [Select 2 0, MoveSelected 1 0, Select 2 2, MoveSelected 1 2] (new_game demo_board)"

lemma foldR_reachable:
  assumes "foldR apply_action as g = Inr g'" "reachable g0 g"
  shows "reachable g0 g'"
  using assms by (induction as arbitrary: g) (auto simp: bindR_Inr_iff intro: reachable.step)

theorem friendly_destinations_distinct_witness:
  "\<exists>g m m'. demo_two = Inr g \<and> ms_pending_moves (ra_scheduler (gs_arbiter g)) = [m, m'] \<and>
     pm_color m = pm_color m' \<and> pm_end_pos m \<noteq> pm_end_pos m'"
proof -
  have "\<not> isl demo_two"
    by code_simp
  then obtain g where g: "demo_two = Inr g"
    by (metis sum.collapse(2))
  have "case demo_two of Inl _ \<Rightarrow> False | Inr g \<Rightarrow>
      (case ms_pending_moves (ra_scheduler (gs_arbiter g)) of
         [m, m'] \<Rightarrow> m \<noteq> m' \<and> pm_color m = pm_color m' | _ \<Rightarrow> False)"
    by code_simp
  then obtain m m' where m: "ms_pending_moves (ra_scheduler (gs_arbiter g)) = [m, m']"
    "m \<noteq> m'" "pm_color m = pm_color m'"
    by (auto simp: g split: list.splits)
  have "reachable (new_game demo_board) g"
    using foldR_reachable [OF g [unfolded demo_two_def] reachable.start] .
  from friendly_destinations_distinct [OF demo_flight this] m show ?thesis
    by (auto simp: g)
qed

text \<open>
  C8. Cooldown is enforced: a piece that is moving, jumping or resting accepts neither a move nor a
  jump; the request leaves the state as it was.
\<close>

theorem busy_piece_refuses:
  assumes "game_inv g" "gs_rules g = standard" "gs_selected g = Some src" "busy g (fst src) (snd src)"
  shows "move_selected_to tr tc g = Inr g \<and> jump_at (fst src) (snd src) g = Inr g"
  using std_policy.move_selected_to_ok [OF game_inv_wf [OF assms(1)] assms(2), of "(tr, tc)"]
    jump_at_ok [OF game_inv_wf [OF assms(1)], of "fst src" "snd src"] assms(3,4)
  by (auto simp: accepts_move_def split: option.splits)

definition demo_rested :: game_state where
  "demo_rested = select 0 0 (landed_game (select 2 0 (new_game demo_board)) (2, 0) (0, 0) 2)"

lemma demo_rested_reach: "reachable (new_game demo_board) demo_rested"
proof -
  let ?g = "select 2 0 (new_game demo_board)"
  have "foldR apply_action [MoveSelected 0 0,
      AdvanceClock (compute_move_duration ?g 2 0 0 0 (is_capture ?g 2 (0, 0))), Select 0 0] ?g = Inr demo_rested"
    using whole_move [OF demo_selected_inv _ _ _ _ demo_accepts]
    by (simp add: demo_selected_simps bindR_Inr_iff demo_rested_def) blast
  moreover have "reachable (new_game demo_board) ?g"
    by (rule reachable.step [OF reachable.start, where a = "Select 2 0"]) simp
  ultimately show ?thesis
    by (rule foldR_reachable)
qed

theorem busy_piece_refuses_witness:
  "move_selected_to 1 0 demo_rested = Inr demo_rested \<and> jump_at 0 0 demo_rested = Inr demo_rested"
proof -
  have "game_step_ok (new_game demo_board) demo_rested"
    using std_policy.reachable_ok [OF demo_rested_reach demo_game_inv]
    by (simp add: new_game_def new_game_with_def)
  moreover have "gs_selected demo_rested = Some (0, 0)" "busy demo_rested 0 0"
    by code_simp+
  ultimately show ?thesis
    using busy_piece_refuses [of demo_rested "(0, 0)" 1 0]
    by (simp add: game_step_ok_def new_game_def new_game_with_def)
qed



text \<open>
  The rest times are truncated to 32 bits: a piece that arrives at clock 2147483647 ms (after
  about 24.8 days) gets a rest that is already over, so it may move again at once.
\<close>

theorem rest_wraps:
  "sched_is_piece_resting
     (schedule_rest i Long (to_int32 (2 ^ 31 - 1))
        (to_int32 (2 ^ 31 - 1 + gr_long_rest_duration_ms standard)) r c sch) (2 ^ 31 - 1) i = False"
proof -
  have "to_int32 (2 ^ 31 - 1 + gr_long_rest_duration_ms standard) = - 2147479149"
    by (simp add: standard_def kLongRestDurationMs_def to_int32_def)
  then show ?thesis
    using rest_of_schedule [of i Long] by (simp add: sched_is_piece_resting_def rest_of_def)
qed

subsection \<open>Captures and the verdict\<close>

text \<open>
  A king can be lost without ending the game: when a piece jumps and its own king steps onto
  the cell below it, the landing jumper captures the king, and the game goes on with no white king.
\<close>

theorem king_lost_without_game_over:
  "\<exists>b g. from_token_grid [[''wK'', ''wR''], [''.'', ''bK'']] = Inr b \<and>
     foldR apply_action [JumpAt 0 1, Select 0 0, MoveSelected 0 1, AdvanceClock 1000] (new_game b) = Inr g \<and>
     \<not> gs_game_over g \<and> pc_kind (piece_of (gs_board g) 1) = King \<and>
     pc_color (piece_of (gs_board g) 1) = White \<and> pc_state (piece_of (gs_board g) 1) = Captured"
proof -
  have "case bindR (from_token_grid [[''wK'', ''wR''], [''.'', ''bK'']])
      (\<lambda>b. foldR apply_action [JumpAt 0 1, Select 0 0, MoveSelected 0 1, AdvanceClock 1000] (new_game b)) of
        Inl _ \<Rightarrow> False
      | Inr g \<Rightarrow> \<not> gs_game_over g \<and> pc_kind (piece_of (gs_board g) 1) = King \<and>
          pc_color (piece_of (gs_board g) 1) = White \<and> pc_state (piece_of (gs_board g) 1) = Captured"
    by code_simp
  then show ?thesis
    by (auto simp: bindR_Inr_iff split: sum.splits dest!: bindR_Inr_iff [THEN iffD1, OF sym])
qed

text \<open>
  C10. The winner is the colour whose king alone stands on the board of a finished game; there is
  none while the game runs, and none when both kings or no king stand on the board.
\<close>

theorem winner_is_last_king:
  assumes "game_inv g"
  shows "\<exists>w. winning_color g = Inr w \<and>
    (\<forall>c. w = Some c \<longleftrightarrow> gs_game_over g \<and> king_on_board (gs_board g) c \<and>
          \<not> king_on_board (gs_board g) (opposite c))"
proof -
  have "c = White \<or> c = Black" for c by (cases c) auto
  then show ?thesis
    using winning_color_ok [OF game_inv_wf [OF assms]] by (auto simp: opposite_def)
qed

theorem winner_is_last_king_witness:
  "\<exists>w. winning_color (new_game demo_board) = Inr w \<and> w \<noteq> Some White"
  using winner_is_last_king [OF demo_game_inv] by (auto simp: new_game_def new_game_with_def)

subsection \<open>Rules and routes\<close>

text \<open>
  C11. Legality of kings, queens, rooks, bishops and knights, declaratively: both cells on the board
  and distinct, the geometry of the kind, a free path for the pieces that slide, and a destination
  that is free or held by the opponent. The test always returns.
\<close>

theorem legality_of_pieces:
  assumes "wf_board b" "k \<notin> {Pawn, Count}"
  shows "is_legal_move b k sr sc er ec =
           Inr (contains b sr sc \<and> contains b er ec \<and> (sr, sc) \<noteq> (er, ec) \<and>
                geometry k (er - sr) (ec - sc) \<and>
                (k \<in> {Queen, Rook, Bishop} \<longrightarrow>
                   list_all (\<lambda>(r, c). cell_at b (nat r) (nat c) = None) (between sr sc er ec)) \<and>
                (color_at b er ec = None \<or>
                 (\<exists>c. color_at b sr sc = Some c \<and> color_at b er ec = Some (opposite c))))"
  using legal_geometric [OF assms(1), of k] assms(2)
  by (auto simp: slides_def path_free_def dest_free_or_enemy_def)

theorem legality_of_pieces_witness:
  "is_legal_move demo_board Rook 2 0 0 0 = Inr True \<and> is_legal_move demo_board Rook 2 0 2 2 = Inr False"
proof -
  have wf: "wf_board demo_board" using demo_flight by simp
  have "contains demo_board 2 0" "contains demo_board 0 0" "contains demo_board 2 2"
    "between 2 0 0 0 = [(1, 0)]" "cell_at demo_board 1 0 = None"
    "color_at demo_board 2 0 = Some White" "color_at demo_board 0 0 = Some Black"
    "color_at demo_board 2 2 = Some White"
    by code_simp+
  then show ?thesis
    using legality_of_pieces [OF wf, of Rook] by (simp add: opposite_def)
qed

text \<open>
  C12. Legality of pawns, declaratively: one step forward onto a free cell, two from the home row of
  a board with at least four rows when both cells are free, one diagonal step forward onto an enemy.
\<close>

theorem legality_of_pawns:
  assumes "wf_board b"
  shows "is_legal_move b Pawn sr sc er ec =
           Inr (contains b sr sc \<and> contains b er ec \<and>
                (\<exists>c. color_at b sr sc = Some c \<and>
                  (ec = sc \<and> er = sr + forward c \<and> color_at b er ec = None \<or>
                   ec = sc \<and> er = sr + 2 * forward c \<and> 4 \<le> rows b \<and> sr = pawn_home b c \<and>
                     color_at b er ec = None \<and> color_at b (sr + forward c) sc = None \<or>
                   \<bar>ec - sc\<bar> = 1 \<and> er = sr + forward c \<and> color_at b er ec = Some (opposite c))))"
  using legal_pawn [OF assms] by (auto simp: pawn_move_spec_def)

theorem legality_of_pawns_witness: "is_legal_move demo_board Pawn 2 0 1 0 = Inr True"
proof -
  have wf: "wf_board demo_board" using demo_flight by simp
  have "contains demo_board 2 0" "contains demo_board 1 0" "color_at demo_board 2 0 = Some White"
    "color_at demo_board 1 0 = None" "1 = 2 + forward White"
    by code_simp+
  then show ?thesis
    unfolding legality_of_pawns [OF wf] by auto
qed

text \<open>
  Two moves in flight conflict exactly if their segments meet, or both are horizontal with
  overlapping column ranges, or both vertical with overlapping row ranges; the rows (columns) of
  the two need not be the same, so parallel moves on distant rows conflict too.
\<close>

theorem common_route_exact:
  "has_common_route a b = Inr (common_route a b) \<and>
   (fst (pm_start_pos a) = fst (pm_end_pos a) \<longrightarrow> fst (pm_start_pos b) = fst (pm_end_pos b) \<longrightarrow>
      (common_route a b \<longleftrightarrow> share_cell a b \<or>
         span_overlap (snd (pm_start_pos a)) (snd (pm_end_pos a))
           (snd (pm_start_pos b)) (snd (pm_end_pos b))))"
  by (auto simp: has_common_route_eq common_route_def)

definition demo_move :: "piece_color \<Rightarrow> cell \<Rightarrow> cell \<Rightarrow> pending_move" where
  "demo_move c src dst =
     \<lparr>pm_piece_id = 1, pm_color = c, pm_kind = Rook, pm_start_pos = src, pm_end_pos = dst,
      pm_start_time = 0, pm_arrival_time = 3000\<rparr>"

theorem common_route_exact_witness:
  "has_common_route (demo_move White (0, 0) (0, 3)) (demo_move Black (7, 3) (7, 6)) = Inr True"
  using common_route_exact [of "demo_move White (0, 0) (0, 3)" "demo_move Black (7, 3) (7, 6)"]
  by (simp add: demo_move_def span_overlap_def)

text \<open>
  C13. The walk over the cells between two squares visits exactly those cells, in order, on a row, a
  column or a diagonal, and never ends on any other pair of squares.
\<close>

theorem path_walk_exact:
  assumes "\<And>r c y. \<exists>z. visitor r c y = Inr z"
  shows "for_each_cell_on_path sr sc er ec visitor x =
     (if straight sr sc er ec then foldR (\<lambda>(r, c). visitor r c) (between sr sc er ec) x
      else Inl Diverges)"
  using for_each_cell_on_path_straight for_each_cell_on_path_diverges [OF _ assms] by auto

theorem path_walk_exact_witness:
  "for_each_cell_on_path 0 0 1 2 (\<lambda>r c n. Inr (n + 1)) (0::nat) = Inl Diverges \<and>
   for_each_cell_on_path 0 0 0 3 (\<lambda>r c n. Inr (n + 1)) (0::nat) = Inr 2"
proof -
  have d: "\<not> straight 0 0 1 2" "straight 0 0 0 3" "between 0 0 0 3 = [(0, 1), (0, 2)]"
    by code_simp+
  show ?thesis
    using d by (simp add: path_walk_exact)
qed

text \<open>
  The progress reported for an animation, computed in single precision, is between zero and
  one and never decreases as the clock advances.
\<close>

theorem progress_in_unit_and_monotone:
  "0 \<le> compute_animation_progress clk s a \<and> compute_animation_progress clk s a \<le> 1 \<and>
   compute_animation_progress clk s a \<le> compute_animation_progress (clk + int n) s a"
  using progress_unit progress_mono [of clk "clk + int n"] by auto

text \<open>
  Reading a rectangular grid of valid tokens and printing its cells gives the grid back.
\<close>

theorem token_grid_round_trip:
  assumes "list_all (list_all is_valid_token) ts" "\<forall>row \<in> set ts. length row = w" "ts \<noteq> []"
  shows "\<exists>b. from_token_grid ts = Inr b \<and> rows b = length ts \<and> cols b = w \<and>
    (\<forall>r < length ts. \<forall>c < w. token_at b r c = Inr (ts ! r ! c))"
proof -
  obtain b where b: "from_token_grid ts = Inr b" "flight_inv b []" "grid_tokens b = ts"
    "rows b = length ts" "cols b = w"
    using from_token_grid_ok [OF assms(1,2)] assms(3) by (auto simp: ensures_iff)
  have "token_at b r c = Inr (ts ! r ! c)" if "r < length ts" "c < w" for r c
  proof -
    have rc: "r < rows b" "c < cols b" using that b(4,5) by simp_all
    then have "grid_tokens b ! r ! c = token_of b r c" by (simp add: grid_tokens_def)
    with b(2,3) rc show ?thesis by (simp add: is_in_bounds_iff)
  qed
  with b show ?thesis by blast
qed

theorem token_grid_round_trip_witness:
  "\<exists>b. from_token_grid demo_tokens = Inr b \<and> token_at b 2 0 = Inr ''wR''"
proof -
  have "\<forall>row \<in> set demo_tokens. length row = 3" "demo_tokens \<noteq> []"
    by (simp_all add: demo_tokens_def)
  from token_grid_round_trip [OF demo_valid this] obtain b where b: "from_token_grid demo_tokens = Inr b"
    "\<forall>r < length demo_tokens. \<forall>c < 3. token_at b r c = Inr (demo_tokens ! r ! c)"
    by blast
  have "2 < length demo_tokens" "demo_tokens ! 2 ! 0 = ''wR''"
    by (simp_all add: demo_tokens_def)
  moreover from b(2) [rule_format, OF this(1), of 0] have "token_at b 2 0 = Inr (demo_tokens ! 2 ! 0)"
    by (simp only: zero_less_numeral)
  ultimately show ?thesis
    using b(1) by (intro exI [of _ b]) (simp only:)
qed

end
