(* ===== verification/IO_Theorems.thy ===== *)
theory IO_Theorems
  imports Message_Parser Game_Theorems
begin

section \<open>Properties of boards on paper, clicks and messages\<close>

text \<open>
  The properties of the program's edges: the command-line program, the board reader and writer,
  the translation of pixels to cells, the click handler, the client's messages and the server's
  authorisation of actions. Each follows from lemmas of \<open>Board_IO\<close>, \<open>Game_Input\<close> and
  \<open>Message_Parser\<close>; the witnesses are evaluated on the boards of \<open>Game_Theorems\<close>.
\<close>

subsection \<open>The command-line program\<close>


text \<open>
  C15. The board reader accepts exactly the rectangular grids of valid tokens: it then stores that
  grid, with every piece idle on its own cell, and otherwise it reports an error and leaves the
  board it was given.
\<close>

theorem board_reader_exact:
  "ensures (parse_board_rows lines b)
     (\<lambda>(err, b'). if good_grid (grid_of lines)
        then err = Ok \<and> flight_inv b' [] \<and> grid_tokens b' = grid_of lines \<and> rows b' = length lines
        else err \<noteq> Ok \<and> b' = b)"
  using parse_board_rows_ok [of lines b] by (rule ensures_mono) (auto split: if_splits)

text \<open>
  C16. Printing a well-formed board and reading the text back gives a board that the code's own
  equality accepts.
\<close>

theorem board_print_read:
  assumes "wf_board b" "0 < cols b"
  shows "\<exists>out. board_writer b = Inr out \<and>
     ensures (parse_board_rows (get_lines out) b0)
       (\<lambda>(err, b'). err = Ok \<and> flight_inv b' [] \<and> board_eq b b' = Inr True)"
  using assms by (rule print_parse)

theorem board_print_read_witness:
  "\<exists>out. board_writer demo_board = Inr out \<and>
     ensures (parse_board_rows (get_lines out) empty_board)
       (\<lambda>(err, b'). err = Ok \<and> flight_inv b' [] \<and> board_eq demo_board b' = Inr True)"
  by (rule board_print_read)
    (use flight_wf [OF demo_flight] in \<open>simp_all add: demo_board_def cols_def\<close>)

subsection \<open>Clicks\<close>

text \<open>
  C17. Pixels and cells agree: every pixel of the square drawn for a cell is taken back to that
  cell, and a pixel that is taken to a cell lies in the square drawn for it.
\<close>

theorem pixel_cell_exact:
  assumes "l = calculate_layout W H (int w) (int h)" "0 < W" "0 < H" "0 < bl_cell_size l"
    "row < h" "col < w"
  shows "try_pixel_to_cell l x y w h = Some (row, col) \<longleftrightarrow>
    cell_origin_x l col \<le> x \<and> x < cell_origin_x l col + bl_cell_size l \<and>
    cell_origin_y l row \<le> y \<and> y < cell_origin_y l row + bl_cell_size l"
proof
  assume "try_pixel_to_cell l x y w h = Some (row, col)"
  then show "cell_origin_x l col \<le> x \<and> x < cell_origin_x l col + bl_cell_size l \<and>
    cell_origin_y l row \<le> y \<and> y < cell_origin_y l row + bl_cell_size l"
    by (auto dest: pixel_in_cell)
next
  assume "cell_origin_x l col \<le> x \<and> x < cell_origin_x l col + bl_cell_size l \<and>
    cell_origin_y l row \<le> y \<and> y < cell_origin_y l row + bl_cell_size l"
  then show "try_pixel_to_cell l x y w h = Some (row, col)"
    using pixel_of_cell [OF assms, of "x - cell_origin_x l col" "y - cell_origin_y l row"] by simp
qed

theorem pixel_cell_exact_witness:
  "try_pixel_to_cell (calculate_layout 800 800 8 8) 650 120 8 8 = Some (1, 6)"
proof -
  have l: "calculate_layout 800 800 8 8 =
      \<lparr>bl_board_x = 0, bl_board_y = 0, bl_cell_size = 100, bl_board_width_pixels = 800, bl_board_height_pixels = 800\<rparr>"
    by code_simp
  show ?thesis
    using pixel_cell_exact [of "calculate_layout 800 800 8 8" 800 800 8 8 1 6 650 120]
    by (simp add: l cell_origin_x_def cell_origin_y_def)
qed

text \<open>
  A click is never more than one action of the game: in a consistent game it returns, and the
  state it leaves is the old one or the one a single player action gives.
\<close>

theorem click_is_one_action:
  assumes "game_inv g" "gs_rules g = standard"
  shows "ensures (handle_click l x y g) (\<lambda>g'. g' = g \<or> (\<exists>a. apply_action a g = Inr g'))"
  using handle_click_plays [OF assms]
proof (rule ensures_mono)
  fix g'
  assume "plays 1 g g'"
  then obtain acts where "length acts \<le> 1" "foldR apply_action acts g = Inr g'"
    by (auto simp: plays_def)
  then show "g' = g \<or> (\<exists>a. apply_action a g = Inr g')"
    by (cases acts) (auto simp: bindR_Inr_iff)
qed

theorem click_is_one_action_witness:
  "ensures (handle_click (bootstrap_default_layout (new_game demo_board)) 50 250 (new_game demo_board))
     (\<lambda>g'. g' = new_game demo_board \<or> (\<exists>a. apply_action a (new_game demo_board) = Inr g'))"
  by (rule click_is_one_action [OF demo_game_inv]) (simp add: new_game_def new_game_with_def)

subsection \<open>Messages\<close>

text \<open>
  The server understands its client: each game message the client writes is parsed to the
  action it stands for, whatever the coordinates.
\<close>

theorem client_messages_understood:
  assumes "r < 2 ^ 64" "c < 2 ^ 64"
  shows "parse_message (send_select r c) = Some (Select r c) \<and>
         parse_message (send_move r c) = Some (MoveSelected r c) \<and>
         parse_message (send_jump r c) = Some (JumpAt r c) \<and>
         parse_message send_clear = Some ClearSelection"
  using client_round_trip [OF assms] by simp

theorem client_messages_understood_witness:
  "parse_message (send_select 6 3) = Some (Select 6 3) \<and>
   parse_message (send_move 6 3) = Some (MoveSelected 6 3) \<and>
   parse_message (send_jump 6 3) = Some (JumpAt 6 3) \<and>
   parse_message send_clear = Some ClearSelection"
  by (rule client_messages_understood) simp_all

text \<open>
  Logging in and joining: the login message for a user name and password without white space
  parses back to them (the password may be empty), and the join message to its room number.
\<close>

theorem lobby_messages_understood:
  assumes "is_word u" "p = [] \<or> is_word p" "n < 2 ^ 64"
  shows "parse_login_message (send_login u p) = Some \<lparr>lr_username = u, lr_password = p\<rparr> \<and>
         parse_join_game_message (send_join_game n) = Some n"
  using login_round_trip [OF assms(1,2)] join_round_trip [OF assms(3)] by simp

theorem lobby_messages_understood_witness:
  "parse_login_message (send_login ''ann'' ''secret'') =
     Some \<lparr>lr_username = ''ann'', lr_password = ''secret''\<rparr> \<and>
   parse_join_game_message (send_join_game 17) = Some 17"
proof -
  have "is_word ''ann''" "is_word ''secret''" by code_simp+
  then show ?thesis by (intro lobby_messages_understood) simp_all
qed

text \<open>
  C18. Authorisation: an action the server allows to a player leaves every piece of the opponent as
  it is - colour, kind, place and state; only the clock can harm it.
\<close>

theorem allowed_actions_spare_opponent:
  assumes "game_inv g" "gs_rules g = standard"
    and "is_action_allowed side g a = Inr True" "apply_action a g = Inr g'"
    and "valid_id (gs_board g) i" "pc_color (piece_of (gs_board g) i) \<noteq> side"
  shows "piece_of (gs_board g') i = piece_of (gs_board g) i"
  using assms by (rule allowed_action_spares_enemy)

theorem allowed_actions_spare_opponent_witness:
  "piece_of (gs_board (select 2 0 (new_game demo_board))) 1 = piece_of (gs_board (new_game demo_board)) 1"
proof -
  have "is_action_allowed White (new_game demo_board) (Select 2 0) = Inr True"
    by code_simp
  moreover have "pc_color (piece_of (gs_board (new_game demo_board)) 1) \<noteq> White"
    "valid_id (gs_board (new_game demo_board)) 1"
    by (simp_all add: new_game_def new_game_with_def valid_id_def piece_of_def demo_board_def)
  ultimately show ?thesis
    by (intro allowed_actions_spare_opponent [OF demo_game_inv, where side = White and a = "Select 2 0"])
      (simp_all add: new_game_def new_game_with_def)
qed

end
