(* ===== verification/Server_Theorems.thy ===== *)
theory Server_Theorems
  imports IO_Theorems User_Service Room Session_Manager
begin

section \<open>Properties of the server\<close>

text \<open>
  The properties of the parts a client talks to: passwords and accounts, ratings, sessions and
  connections. Each is followed by a witness that applies it to a concrete input where it has
  hypotheses.
\<close>

subsection \<open>Passwords and accounts\<close>

lemma absorbed_updates:
  "absorbed ctx d \<Longrightarrow> absorbed (fold sha256_update chunks ctx) (d @ concat chunks)"
  by (induction chunks arbitrary: ctx d) (use absorbed_update in fastforce)+

text \<open>
  C19. The streaming SHA-256 of \<^verbatim>\<open>password_hasher.cpp\<close> computes the digest of the standard: feeding
  a context any sequence of chunks, whatever their sizes, and finishing gives the fold of the
  compression function over the 64-byte blocks of the padded concatenation, 32 bytes long; the
  64-byte buffer, the byte index and the bit counter of the code never get out of step.
\<close>

theorem sha256_streaming:
  "sha256_final (fold sha256_update chunks (sha256_init fresh_context)) = sha256_spec (concat chunks) \<and>
   length (sha256_spec (concat chunks)) = 32"
proof -
  have "sha256_final (fold sha256_update chunks (sha256_init fresh_context)) = sha256_spec (concat chunks)"
    using absorbed_updates [OF absorbed_init, of chunks] by (auto intro: sha256_final_spec)
  then show ?thesis by (metis length_sha256_final)
qed

text \<open>
  C20. Registering an unknown name with a password succeeds on every consistent repository, with
  the starting rating 1000, and a later login under that name succeeds, as the same player, exactly
  if its password derives the registered key; a wrong password leaves the repository as it is.
\<close>

theorem register_then_login:
  assumes "repo_ok r" "u \<noteq> []" "p \<noteq> []" "q \<noteq> []" "find_credentials_by_username u r = None"
  shows "\<exists>player r'. authenticate in_memory_ops salt u p r = (auth_success player, r') \<and> repo_ok r' \<and>
     pl_username player = u \<and> pl_rating player = 1000 \<and>
     authenticate in_memory_ops salt' u q r' =
       (if pbkdf2_sha256 q salt kDefaultIterations kHashBytes = pbkdf2_sha256 p salt kDefaultIterations kHashBytes
        then (auth_success player, r') else (auth_failure ''invalid_password'', r'))"
  using assms by (intro in_memory.login_after_registration) (simp_all add: in_memory_ops_def)

theorem register_then_login_witness:
  "\<exists>player r'. authenticate in_memory_ops [1, 2] ''gili'' ''secret'' empty_user_repository = (auth_success player, r') \<and>
     pl_username player = ''gili'' \<and> authenticate in_memory_ops [7] ''gili'' ''secret'' r' = (auth_success player, r')"
  using register_then_login [OF repo_ok_empty, of "''gili''" "''secret''" "''secret''" "[1, 2]" "[7]"]
  by (auto simp: find_credentials_by_username_def find_by_username_def empty_user_repository_def)

text \<open>
  C21. What a login answers, on every branch: an empty name or password is refused first, a known
  name with no stored hash or a hash that does not verify gives \<open>invalid_password\<close>, everything else
  succeeds. The answers \<open>username_taken\<close> and \<open>create_failed\<close> never occur with the in-memory
  repository, and a refusal never changes it.
\<close>

theorem authenticate_outcome:
  assumes "repo_ok r"
  shows "ar_failure_reason (fst (authenticate in_memory_ops salt u p r)) =
      (if u = [] then ''invalid_username''
       else if p = [] then ''missing_password''
       else case find_credentials_by_username u r of
              None \<Rightarrow> ''''
            | Some c \<Rightarrow> if uc_password_hash c = [] \<or> \<not> verify_password p (uc_password_hash c)
                        then ''invalid_password'' else '''') \<and>
    ar_success (fst (authenticate in_memory_ops salt u p r)) =
      (ar_failure_reason (fst (authenticate in_memory_ops salt u p r)) = '''') \<and>
    (ar_success (fst (authenticate in_memory_ops salt u p r)) \<or>
       snd (authenticate in_memory_ops salt u p r) = r) \<and>
    repo_ok (snd (authenticate in_memory_ops salt u p r))"
proof -
  have find: "ur_find_credentials_by_username in_memory_ops u r = find_credentials_by_username u r"
    by (simp add: in_memory_ops_def)
  consider "u = [] \<or> p = []" | c where "u \<noteq> []" "p \<noteq> []" "find_credentials_by_username u r = Some c"
    | "u \<noteq> []" "p \<noteq> []" "find_credentials_by_username u r = None" by fastforce
  then show ?thesis
  proof cases
    case 1
    then show ?thesis using assms by (auto simp: authenticate_def auth_failure_def)
  next
    case 2
    then show ?thesis
      using assms in_memory.authenticate_known [OF assms TrueI, of u p c salt] find
      by (simp add: auth_failure_def auth_success_def)
  next
    case 3
    then show ?thesis
      using in_memory.authenticate_new [OF assms TrueI, of u p salt] find by (auto simp: auth_success_def)
  qed
qed

theorem authenticate_outcome_witness:
  "ar_failure_reason (fst (authenticate in_memory_ops [1] ''ana'' ''pw''
     (snd (create_user ''ana'' empty_user_repository)))) = ''invalid_password''"
proof -
  have "repo_ok (snd (create_user ''ana'' empty_user_repository))"
    by (auto simp: repo_ok_def create_user_def create_user_with_id_def insert_user_def
        empty_user_repository_def Let_def)
  from authenticate_outcome [OF this, of "[1]" "''ana''" "''pw''"] show ?thesis
    by (simp add: create_user_def create_user_with_id_def insert_user_def empty_user_repository_def
        find_credentials_by_username_def find_by_username_def find_by_id_def Let_def)
qed

text \<open>
  A stored hash with an empty digest accepts every password: the derived key is as long as the
  digest it is compared with. Nothing in the service stores such a hash, but the check itself does
  not refuse it.
\<close>

theorem empty_digest_accepts_all: "verify_password p ''pbkdf2_sha256$1$$''"
proof -
  have "show_int 1 = ''1''" "to_hex [] = []" "from_hex [] = Some []"
    by code_simp+
  then show ?thesis
    using verify_stored [of 1 "[]" "[]" p "[]"] length_pbkdf2 [of p "[]" 1 0] by simp
qed



subsection \<open>Sessions and connections\<close>



text \<open>A plane with no client yet, and a transport whose peer has reset the connection.\<close>

definition empty_plane :: "unit client_plane" where
  "empty_plane =
     \<lparr>cp_clients = [], cp_next_address = 0, cp_max_clients = 2, cp_sessions = [],
      cp_next_session_id = 0, cp_registry = []\<rparr>"

definition gone_transport :: "unit transport" where
  "gone_transport =
     \<lparr>tp_available = (\<lambda>s. (Inl ConnectionReset, s)), tp_non_blocking = (\<lambda>s. True),
      tp_set_non_blocking = (\<lambda>b s. (None, s)), tp_peek = (\<lambda>s. ((Some ConnectionReset, 0), s)),
      tp_read = (\<lambda>s. (Inl ConnectionReset, s)), tp_write = (\<lambda>m s. (Some ConnectionReset, s)),
      tp_close = (\<lambda>s. s)\<rparr>"

text \<open>
  C24. Pruning on a consistent plane either removes nothing but the probe's effects, when every
  session's client is still there, or reads a freed connection: \<^verbatim>\<open>prune_sessions\<close> erases the closed
  connections of the WebSocket server and then dereferences the pointers its sessions keep to them,
  so a client that is found gone makes the loop undefined.
\<close>

theorem prune_reads_freed_connection:
  assumes "plane_ok p"
  shows "prune_sessions tp h (p, q) =
    (if \<exists>s \<in> set (cp_sessions p). found_gone tp p s then Inl UndefinedBehaviour
     else Inr (prune_disconnected tp p, q))"
  using assms by (rule prune_sessions_exact)

theorem prune_reads_freed_connection_witness:
  "prune_sessions (gone_transport :: unit transport) (\<lambda>_ n. Suc n) (with_client () empty_plane, 0 :: nat) =
     Inl UndefinedBehaviour"
proof -
  have "plane_ok (with_client () empty_plane)"
    by (rule with_client_ok) (simp add: plane_ok_def empty_plane_def)
  from prune_reads_freed_connection [OF this, of gone_transport] show ?thesis
    by (simp add: found_gone_def with_client_def empty_plane_def gone_transport_def new_session_def
        new_connection_def probe_disconnect_def detect_peer_disconnect_def)
qed

end
