(* ===== verification/Server_Safety.thy ===== *)
theory Server_Safety
  imports Server_Loop
begin

section \<open>The server's invariant\<close>

text \<open>
  \<open>server_ok\<close> collects what the handlers rely on: consistent connections and sessions, consistent
  rooms, players of rooms that are logged-in sessions, and a matchmaking queue of distinct logged-in
  sessions that are not idle in the lobby. The lemmas show, handler by handler, that none of them
  faults and all of them keep it.

  \<open>plane_keeps\<close> is the order in which planes evolve: connections and sessions stay, a session keeps
  its connection and its user. \<open>plane_quiet\<close> is the special case of sending and reading.
\<close>

subsection \<open>Evolution of the plane\<close>

definition plane_keeps :: "'s client_plane \<Rightarrow> 's client_plane \<Rightarrow> bool" where
  "plane_keeps p p' \<longleftrightarrow>
     plane_ok p' \<and> fst ` set (cp_clients p) \<subseteq> fst ` set (cp_clients p') \<and>
     (\<forall>i s. find_session i p = Some s \<longrightarrow>
        (\<exists>s'. find_session i p' = Some s' \<and> ps_connection s' = ps_connection s \<and> (has_user s \<longrightarrow> has_user s')))"

definition plane_quiet :: "'s client_plane \<Rightarrow> 's client_plane \<Rightarrow> bool" where
  "plane_quiet p p' \<longleftrightarrow>
     plane_ok p' \<and> map fst (cp_clients p') = map fst (cp_clients p) \<and> cp_sessions p' = cp_sessions p \<and>
     cp_registry p' = cp_registry p"

definition waiting_user :: "'s client_plane \<Rightarrow> nat \<Rightarrow> bool" where
  "waiting_user p i \<longleftrightarrow> (\<exists>s. find_session i p = Some s \<and> has_user s \<and> ps_state s \<noteq> Connected)"

lemma plane_keeps_refl: "plane_ok p \<Longrightarrow> plane_keeps p p"
  by (auto simp: plane_keeps_def)

lemma plane_keeps_trans:
  assumes "plane_keeps p q" "plane_keeps q r"
  shows "plane_keeps p r"
proof -
  have "\<exists>s'. find_session i r = Some s' \<and> ps_connection s' = ps_connection s \<and> (has_user s \<longrightarrow> has_user s')"
    if s: "find_session i p = Some s" for i s
  proof -
    obtain t where t: "find_session i q = Some t" "ps_connection t = ps_connection s"
      "has_user s \<longrightarrow> has_user t"
      using assms(1) s unfolding plane_keeps_def by blast
    obtain u where "find_session i r = Some u" "ps_connection u = ps_connection t"
      "has_user t \<longrightarrow> has_user u"
      using assms(2) t(1) unfolding plane_keeps_def by blast
    with t show ?thesis by auto
  qed
  moreover have "fst ` set (cp_clients p) \<subseteq> fst ` set (cp_clients q)"
    "fst ` set (cp_clients q) \<subseteq> fst ` set (cp_clients r)" "plane_ok r"
    using assms unfolding plane_keeps_def by simp_all
  moreover from this have "fst ` set (cp_clients p) \<subseteq> fst ` set (cp_clients r)" by (simp only: subset_trans)
  ultimately show ?thesis unfolding plane_keeps_def by simp
qed

lemma plane_keeps_ok: "plane_keeps p p' \<Longrightarrow> plane_ok p'"
  by (simp add: plane_keeps_def)

lemma quiet_find: "plane_quiet p p' \<Longrightarrow> find_session i p' = find_session i p"
  by (simp add: plane_quiet_def find_session_def)

lemma quiet_keeps: "plane_quiet p p' \<Longrightarrow> plane_keeps p p'"
proof -
  assume q: "plane_quiet p p'"
  then have "fst ` set (cp_clients p') = fst ` set (cp_clients p)"
    unfolding plane_quiet_def by (metis set_map)
  with q show ?thesis by (auto simp: plane_keeps_def quiet_find plane_quiet_def)
qed

lemma quiet_refl: "plane_ok p \<Longrightarrow> plane_quiet p p"
  by (simp add: plane_quiet_def)

lemma quiet_trans: "plane_quiet p q \<Longrightarrow> plane_quiet q r \<Longrightarrow> plane_quiet p r"
  by (simp add: plane_quiet_def)

lemma quiet_waiting: "plane_quiet p p' \<Longrightarrow> waiting_user p' i = waiting_user p i"
  by (simp add: waiting_user_def quiet_find)

lemma keeps_known: "plane_keeps p p' \<Longrightarrow> known_user p i \<Longrightarrow> known_user p' i"
  unfolding plane_keeps_def known_user_def by metis

lemma waiting_known: "waiting_user p i \<Longrightarrow> known_user p i"
  by (auto simp: waiting_user_def known_user_def)

text \<open>A session whose connection is in the store; a handler's copy of a session stays linked.\<close>

definition linked :: "'s client_plane \<Rightarrow> player_session \<Rightarrow> bool" where
  "linked p s \<longleftrightarrow> (\<exists>a \<in> fst ` set (cp_clients p). ps_connection s = Some a)"

lemma linked_keeps: "plane_keeps p p' \<Longrightarrow> linked p s \<Longrightarrow> linked p' s"
  unfolding linked_def plane_keeps_def by blast

lemma found_linked: "plane_ok p \<Longrightarrow> find_session i p = Some s \<Longrightarrow> linked p s"
  using find_session_Some [of i p s] by (auto simp: plane_ok_def linked_def)

lemma linked_conn:
  assumes "linked p s"
  obtains a c where "ps_connection s = Some a" "conn_ref (cp_clients p) (Some a) = Inr c"
proof -
  obtain a where "a \<in> fst ` set (cp_clients p)" "ps_connection s = Some a"
    using assms by (auto simp: linked_def)
  moreover from this obtain c where "map_of (cp_clients p) a = Some c"
    by (cases "map_of (cp_clients p) a") (auto simp: map_of_eq_None_iff)
  ultimately show ?thesis by (intro that [of a c]) (simp_all add: conn_ref_def)
qed

lemma put_quiet: "plane_ok p \<Longrightarrow> plane_quiet p (put_conn a c p)"
  by (simp add: plane_quiet_def plane_ok_put)

lemma conn_op_quiet:
  assumes "plane_ok p" "linked p s"
  shows "ensures (conn_op s f p) (\<lambda>(x, p'). plane_quiet p p')"
proof -
  obtain a c where "ps_connection s = Some a" "conn_ref (cp_clients p) (Some a) = Inr c"
    using linked_conn [OF assms(2)] .
  then show ?thesis using assms(1) by (simp add: conn_op_def put_quiet split: prod.splits)
qed

lemma session_open_returns: "linked p s \<Longrightarrow> \<exists>b. session_open p s = Inr b"
  by (erule linked_conn) (simp add: session_open_def)

lemma sink_send_quiet:
  assumes "plane_ok p"
  shows "ensures (sink_send tp pid m p) (\<lambda>(ok, p'). plane_quiet p p')"
    "ensures (sink_send_message tp pid m p) (\<lambda>(ok, p'). plane_quiet p p')"
proof -
  have "ensures (sink_send tp pid m p) (\<lambda>(ok, p'). plane_quiet p p') \<and>
      ensures (sink_send_message tp pid m p) (\<lambda>(ok, p'). plane_quiet p p')"
  proof (cases "find_session pid p")
    case (Some s)
    then obtain a c where "ps_connection s = Some a" "conn_ref (cp_clients p) (Some a) = Inr c"
      using linked_conn [OF found_linked [OF assms]] by metis
    then show ?thesis
      using Some assms
      by (simp add: sink_send_def sink_send_message_def put_quiet split: prod.splits)
  qed (simp add: sink_send_def sink_send_message_def assms quiet_refl)
  then show "ensures (sink_send tp pid m p) (\<lambda>(ok, p'). plane_quiet p p')"
    "ensures (sink_send_message tp pid m p) (\<lambda>(ok, p'). plane_quiet p p')" by simp_all
qed

lemma send_to_quiet: "plane_ok p \<Longrightarrow> ensures (send_to tp pid m p) (plane_quiet p)"
  using sink_send_quiet(1) [of p tp pid m] by (auto simp: send_to_def elim!: ensures_mono)

lemma quiet_ok: "plane_quiet p p' \<Longrightarrow> plane_ok p'"
  by (simp add: plane_quiet_def)

lemma send_two_quiet:
  assumes "plane_ok p"
  shows "ensures (bindR (send_to tp i m p) (send_to tp j n)) (plane_quiet p)"
  using send_to_quiet [OF assms, of tp i m]
  by (auto intro!: ensures_mono [OF send_to_quiet] elim!: ensures_mono dest: quiet_ok quiet_trans)

lemma is_player_connected_returns: "plane_ok p \<Longrightarrow> ensures (is_player_connected p pid) (\<lambda>_. True)"
proof (cases "find_session pid p")
  case (Some s)
  assume "plane_ok p"
  then obtain a c where "ps_connection s = Some a" "conn_ref (cp_clients p) (Some a) = Inr c"
    using linked_conn [OF found_linked [OF _ Some]] by metis
  then show ?thesis using Some by (simp add: is_player_connected_def)
qed (simp add: is_player_connected_def)

subsection \<open>Updates of sessions\<close>

text \<open>\<open>advances f\<close>: an operation on sessions that never sends a busy session back to the lobby.\<close>

definition steps :: "(player_session \<Rightarrow> player_session) \<Rightarrow> bool" where
  "steps f \<longleftrightarrow> (\<forall>s. session_step s (f s))"

definition advances :: "(player_session \<Rightarrow> player_session) \<Rightarrow> bool" where
  "advances f \<longleftrightarrow> steps f \<and> (\<forall>s. ps_state s \<noteq> Connected \<longrightarrow> ps_state (f s) \<noteq> Connected)"

lemma advances_ops:
  "advances (assign_user uid u r)" "advances request_play" "advances set_playing"
  "advances (set_side c)" "advances clear_side" "advances (assign_room rid)" "advances clear_room"
  by (auto simp: advances_def steps_def session_step.intros)
    (auto simp: session_defs split: if_splits)

lemma steps_cancel: "steps cancel_search"
  by (simp add: steps_def session_step.cancel)

lemma steps_frame: "steps f \<Longrightarrow> ps_id (f s) = ps_id s \<and> ps_connection (f s) = ps_connection s"
  using session_step_frame by (auto simp: steps_def)

lemma step_has_user: "session_step s s' \<Longrightarrow> has_user s \<Longrightarrow> has_user s'"
  by (induction rule: session_step.induct) (auto simp: session_defs has_user_def)

lemma find_update:
  assumes "steps f"
  shows "find_session j (update_session i f p) = map_option (\<lambda>s. if j = i then f s else s) (find_session j p)"
proof -
  have "List.find (\<lambda>s. ps_id s = j) (map (\<lambda>s. if ps_id s = i then f s else s) xs) =
      map_option (\<lambda>s. if j = i then f s else s) (List.find (\<lambda>s. ps_id s = j) xs)" for xs
    using steps_frame [OF assms] by (induction xs) auto
  then show ?thesis by (simp add: find_session_def update_session_def)
qed

lemma update_clients [simp]:
  "cp_clients (update_session i f p) = cp_clients p" "cp_registry (update_session i f p) = cp_registry p"
  by (simp_all add: update_session_def)

lemma update_ok: "plane_ok p \<Longrightarrow> steps f \<Longrightarrow> plane_ok (update_session i f p)"
  using steps_frame [of f] session_step_ok
  by (intro update_session_ok) (auto simp: steps_def)

lemma update_keeps:
  assumes "plane_ok p" "steps f"
  shows "plane_keeps p (update_session i f p)"
  using assms steps_frame [OF assms(2)] step_has_user update_ok [OF assms, of i]
  by (auto simp: plane_keeps_def find_update [OF assms(2)] steps_def)

lemma advance_waiting:
  assumes "advances f" "waiting_user p j"
  shows "waiting_user (update_session i f p) j"
proof -
  obtain s where s: "find_session j p = Some s" "has_user s" "ps_state s \<noteq> Connected"
    using assms(2) by (auto simp: waiting_user_def)
  moreover have "has_user (f s)" "ps_state (f s) \<noteq> Connected" "steps f"
    using assms(1) s step_has_user [of s "f s"] by (auto simp: advances_def steps_def)
  ultimately show ?thesis by (simp add: waiting_user_def find_update)
qed

lemma cancel_waiting: "waiting_user p j \<Longrightarrow> j \<noteq> i \<Longrightarrow> waiting_user (update_session i cancel_search p) j"
  by (auto simp: waiting_user_def find_update steps_cancel)

lemma registry_ok: "plane_ok (p\<lparr>cp_registry := reg\<rparr>) = plane_ok p"
  "find_session i (p\<lparr>cp_registry := reg\<rparr>) = find_session i p"
  by (simp_all add: plane_ok_def find_session_def)

lemma registry_keeps: "plane_ok p \<Longrightarrow> plane_keeps p (p\<lparr>cp_registry := reg\<rparr>)"
  by (auto simp: plane_keeps_def registry_ok)

lemma registry_waiting: "waiting_user (p\<lparr>cp_registry := reg\<rparr>) i = waiting_user p i"
  by (simp add: waiting_user_def registry_ok)

subsection \<open>The invariant\<close>

definition waiting_ids :: "matchmaking_queue \<Rightarrow> nat set" where
  "waiting_ids q = we_session ` set (mq_waiting q)"

definition line_ok :: "'s client_plane \<Rightarrow> matchmaking_queue \<Rightarrow> bool" where
  "line_ok p q \<longleftrightarrow> distinct (map we_session (mq_waiting q)) \<and> (\<forall>i \<in> waiting_ids q. waiting_user p i)"

definition seats_ok :: "'s client_plane \<Rightarrow> room_manager \<Rightarrow> bool" where
  "seats_ok p mg \<longleftrightarrow>
     (\<forall>i r g. find_room i mg = Some r \<longrightarrow> rm_white_player r = Some g \<or> rm_black_player r = Some g \<longrightarrow>
        known_user p (gp_player_id g))"

definition server_ok :: "('s, 'r, 'd) server \<Rightarrow> bool" where
  "server_ok sv \<longleftrightarrow>
     plane_ok (sv_plane sv) \<and> line_ok (sv_plane sv) (sv_queue sv) \<and> manager_ok (sv_rooms sv) \<and>
     seats_ok (sv_plane sv) (sv_rooms sv)"

definition server_keeps :: "('s, 'r, 'd) server \<Rightarrow> ('s, 'r, 'd) server \<Rightarrow> bool" where
  "server_keeps sv sv' \<longleftrightarrow>
     server_ok sv' \<and> plane_keeps (sv_plane sv) (sv_plane sv') \<and>
     (\<forall>i. find_room i (sv_rooms sv) \<noteq> None \<longrightarrow> find_room i (sv_rooms sv') \<noteq> None)"

lemma line_ok_plane:
  "line_ok p q \<Longrightarrow> (\<And>i. i \<in> waiting_ids q \<Longrightarrow> waiting_user p i \<Longrightarrow> waiting_user p' i) \<Longrightarrow> line_ok p' q"
  by (auto simp: line_ok_def)

lemma seats_ok_plane: "seats_ok p mg \<Longrightarrow> plane_keeps p p' \<Longrightarrow> seats_ok p' mg"
  unfolding seats_ok_def using keeps_known by blast

lemma server_ok_plane:
  assumes "server_ok sv" "plane_keeps (sv_plane sv) p'"
    "\<And>i. i \<in> waiting_ids (sv_queue sv) \<Longrightarrow> waiting_user (sv_plane sv) i \<Longrightarrow> waiting_user p' i"
  shows "server_keeps sv (sv\<lparr>sv_plane := p'\<rparr>)"
  using assms line_ok_plane [of "sv_plane sv" "sv_queue sv" p'] seats_ok_plane [of "sv_plane sv" "sv_rooms sv" p']
  by (simp add: server_keeps_def server_ok_def plane_keeps_ok)

lemma server_keeps_refl: "server_ok sv \<Longrightarrow> server_keeps sv sv"
  by (simp add: server_keeps_def plane_keeps_refl server_ok_def)

lemma server_keeps_trans: "server_keeps a b \<Longrightarrow> server_keeps b c \<Longrightarrow> server_keeps a c"
  by (auto simp: server_keeps_def intro: plane_keeps_trans)

lemma keeps_then: "server_keeps a b \<Longrightarrow> ensures m (server_keeps b) \<Longrightarrow> ensures m (server_keeps a)"
  by (erule ensures_mono) (rule server_keeps_trans)

lemma keeps_server_ok: "server_keeps a b \<Longrightarrow> server_ok b"
  by (simp add: server_keeps_def)

lemma keeps_room:
  assumes "server_keeps sv t" "find_room i (sv_rooms sv) = Some r"
  obtains r' where "find_room i (sv_rooms t) = Some r'"
proof -
  have "find_room i (sv_rooms t) \<noteq> None" using assms unfolding server_keeps_def by simp
  then show ?thesis using that by blast
qed

lemma server_quiet:
  assumes "server_ok sv" "plane_quiet (sv_plane sv) p'"
  shows "server_keeps sv (sv\<lparr>sv_plane := p'\<rparr>)"
  using assms by (intro server_ok_plane quiet_keeps) (simp_all add: quiet_waiting)

lemma server_advance:
  assumes "server_ok sv" "advances f"
  shows "server_keeps sv (on_plane (update_session i f) sv)"
  unfolding on_plane_def
  using assms by (intro server_ok_plane update_keeps advance_waiting) (auto simp: server_ok_def advances_def)

lemma server_env_frame:
  "server_ok (sv\<lparr>sv_users := u\<rparr>) = server_ok sv" "server_ok (sv\<lparr>sv_games := g\<rparr>) = server_ok sv"
  "server_ok (sv\<lparr>sv_store := st\<rparr>) = server_ok sv"
  by (simp_all add: server_ok_def)

lemma reply_keeps:
  assumes "server_ok sv" "linked (sv_plane sv) s"
  shows "ensures (reply env s m sv) (\<lambda>sv'. server_keeps sv sv' \<and> (\<exists>p'. sv' = sv\<lparr>sv_plane := p'\<rparr> \<and>
           plane_quiet (sv_plane sv) p'))"
proof -
  have "plane_ok (sv_plane sv)" using assms(1) by (simp add: server_ok_def)
  from conn_op_quiet [OF this assms(2), of "try_send (se_transport env) m"]
  show ?thesis
    unfolding reply_def ensures_bindR
    by (rule ensures_mono) (auto intro: server_quiet [OF assms(1)])
qed

subsection \<open>Creating rooms and matches\<close>

lemma find_session_self: "plane_ok p \<Longrightarrow> s \<in> set (cp_sessions p) \<Longrightarrow> find_session (ps_id s) p = Some s"
proof -
  assume "plane_ok p" "s \<in> set (cp_sessions p)"
  moreover have "distinct (map ps_id xs) \<Longrightarrow> s \<in> set xs \<Longrightarrow> List.find (\<lambda>t. ps_id t = ps_id s) xs = Some s" for xs
    by (induction xs) (auto simp: rev_image_eqI)
  ultimately show ?thesis by (simp add: find_session_def plane_ok_def)
qed

lemma host_player_known:
  assumes "plane_ok p" "find_session i p = Some s" "ps_user_id s = Some uid"
  shows "known_user p (gp_player_id (host_player (Some p) uid c)) \<and>
    gp_user_id (host_player (Some p) uid c) = uid \<and> gp_side (host_player (Some p) uid c) = c"
proof -
  have "s \<in> set (cp_sessions p)" "has_user s"
    using assms(2,3) find_session_Some by (auto simp: has_user_def)
  then have "find_session_by_user_id uid p \<noteq> None"
    using assms(3) by (auto simp: find_session_by_user_id_def find_None_iff)
  then obtain t where t: "find_session_by_user_id uid p = Some t" by blast
  then have "t \<in> set (cp_sessions p)" "has_user t"
    by (auto simp: find_session_by_user_id_def dest!: find_Some_in)
  then have "known_user p (ps_id t)" using find_session_self [OF assms(1)] by (auto simp: known_user_def)
  with t show ?thesis by (simp add: host_player_def to_game_player_def Let_def)
qed

definition hosted_room :: "'s client_plane option \<Rightarrow> game_creation_request \<Rightarrow> room_manager \<Rightarrow> room" where
  "hosted_room plane request mg =
     (let r = activate (host_player plane (rq_white_user_id request) White)
                (host_player plane (rq_black_user_id request) Black)
                (new_room (mg_next_id mg) (mg_default_board mg))
      in case rq_db_game_id request of None \<Rightarrow> r | Some g \<Rightarrow> set_db_game_id g r)"

lemma hosted_room_simps:
  "rm_white_player (hosted_room pl request mg) = Some (host_player pl (rq_white_user_id request) White)"
  "rm_black_player (hosted_room pl request mg) = Some (host_player pl (rq_black_user_id request) Black)"
  "rm_active (hosted_room pl request mg)"
  "rm_match (hosted_room pl request mg) = new_game (mg_default_board mg)"
  by (simp_all add: hosted_room_def activate_def set_db_game_id_def new_room_def Let_def split: option.splits)

lemma set_db_game_id_ok: "room_ok (set_db_game_id g r) = room_ok r"
  by (simp add: room_ok_def set_db_game_id_def)

lemma host_create_room_ok:
  assumes "manager_ok mg"
  obtains mg' where "host_create_room sid ep plane request mg =
      Inr (\<lparr>rp_room_id = mg_next_id mg, rp_game_server_id = sid, rp_endpoint = Some ep\<rparr>, mg')"
    "manager_ok mg'" "find_room (mg_next_id mg) mg = None" "mg_next_id mg' = mg_next_id mg + 1"
    "mg_default_board mg' = mg_default_board mg"
    "\<And>j. find_room j mg' = (if j = mg_next_id mg then Some (hosted_room plane request mg) else find_room j mg)"
proof -
  obtain i mg1 where c: "create_room mg = (i, mg1)" by force
  note cr = create_room_ok [OF assms c]
  let ?r = "hosted_room plane request mg"
  have "room_ok (new_room i (mg_default_board mg))"
    using manager_find(1) [OF cr(1,3)] .
  then have "room_ok ?r" "rm_id ?r = i"
    using cr(6)
    by (auto simp: hosted_room_def Let_def activate_ok set_db_game_id_ok host_player_def to_game_player_def
        split: option.splits)
      (auto simp: activate_def new_room_def set_db_game_id_def)
  then have "manager_ok (put_room i ?r mg1)" by (intro put_room_ok cr(1))
  moreover have "host_create_room sid ep plane request mg =
      Inr (\<lparr>rp_room_id = i, rp_game_server_id = sid, rp_endpoint = Some ep\<rparr>, put_room i ?r mg1)"
    using c cr(3,6) by (simp add: host_create_room_def hosted_room_def Let_def)
  moreover have "mg_default_board mg1 = mg_default_board mg"
    using c by (auto simp: create_room_def Let_def split: option.splits)
  ultimately show ?thesis
    using cr by (intro that [of "put_room i ?r mg1"]) (auto simp: find_put_room)
qed

lemma local_allocate_ok:
  assumes "server_ok sv"
    "find_session i (sv_plane sv) = Some s" "ps_user_id s = Some (rq_white_user_id request)"
    "find_session j (sv_plane sv) = Some t" "ps_user_id t = Some (rq_black_user_id request)"
  obtains mg' where "local_allocate_game env request sv =
      Inr (\<lparr>rp_room_id = mg_next_id (sv_rooms sv), rp_game_server_id = se_server_id env,
            rp_endpoint = Some (se_endpoint env)\<rparr>, sv\<lparr>sv_rooms := mg'\<rparr>)"
    "server_keeps sv (sv\<lparr>sv_rooms := mg'\<rparr>)"
    "find_room (mg_next_id (sv_rooms sv)) mg' = Some (hosted_room (Some (sv_plane sv)) request (sv_rooms sv))"
    "find_room (mg_next_id (sv_rooms sv)) (sv_rooms sv) = None"
proof -
  have ok: "plane_ok (sv_plane sv)" "manager_ok (sv_rooms sv)" using assms(1) by (simp_all add: server_ok_def)
  obtain mg' where mg: "host_create_room (se_server_id env) (se_endpoint env) (Some (sv_plane sv)) request (sv_rooms sv) =
      Inr (\<lparr>rp_room_id = mg_next_id (sv_rooms sv), rp_game_server_id = se_server_id env,
            rp_endpoint = Some (se_endpoint env)\<rparr>, mg')" "manager_ok mg'"
    "find_room (mg_next_id (sv_rooms sv)) (sv_rooms sv) = None"
    "\<And>j. find_room j mg' = (if j = mg_next_id (sv_rooms sv)
       then Some (hosted_room (Some (sv_plane sv)) request (sv_rooms sv)) else find_room j (sv_rooms sv))"
    using host_create_room_ok [OF ok(2), of "se_server_id env" "se_endpoint env" "Some (sv_plane sv)" request]
    by blast
  have "seats_ok (sv_plane sv) mg'"
    using assms(1) host_player_known [OF ok(1) assms(2,3), of White]
      host_player_known [OF ok(1) assms(4,5), of Black]
    by (auto simp: seats_ok_def server_ok_def mg(4) hosted_room_simps split: if_splits)
  then have "server_keeps sv (sv\<lparr>sv_rooms := mg'\<rparr>)"
    using assms(1) mg(2,4) by (simp add: server_keeps_def server_ok_def plane_keeps_refl)
  then show ?thesis using mg by (intro that [of mg']) (simp_all add: local_allocate_game_def)
qed

lemma steps_ops:
  "steps (assign_user uid u r)" "steps request_play" "steps set_playing"
  "steps (set_side c)" "steps clear_side" "steps (assign_room rid)" "steps clear_room"
  using advances_ops by (simp_all add: advances_def)

lemma seat_players_advance:
  assumes "server_ok sv"
  shows "server_keeps sv (sv\<lparr>sv_plane := seat_players w b (sv_plane sv)\<rparr>)"
proof -
  note a = server_advance [OF _ advances_ops(3)] server_advance [OF _ advances_ops(4)]
  have "server_keeps sv (on_plane (update_session b (set_side Black)) (on_plane (update_session w (set_side White))
      (on_plane (update_session b set_playing) (on_plane (update_session w set_playing) sv))))"
    using assms a by (meson server_keeps_def server_keeps_trans)
  then show ?thesis by (simp add: on_plane_def seat_players_def)
qed

lemma find_seated:
  "find_session j (seat_players w b p) =
     map_option (\<lambda>s. (if j = b then set_side Black else id) ((if j = w then set_side White else id)
        ((if j = b then set_playing else id) ((if j = w then set_playing else id) s)))) (find_session j p)"
  by (cases "find_session j p") (simp_all add: seat_players_def find_update steps_ops)

text \<open>
  \<open>match_made w b rid sv sv'\<close>: the sessions \<open>w\<close> and \<open>b\<close> play White and Black in the new room \<open>rid\<close>,
  which is active, holds their users and starts from the default board.
\<close>

definition seated :: "'s client_plane \<Rightarrow> nat \<Rightarrow> piece_color \<Rightarrow> room_id \<Rightarrow> bool" where
  "seated p i c rid \<longleftrightarrow>
     (\<exists>s. find_session i p = Some s \<and> ps_state s = Playing \<and> ps_side s = Some c \<and> ps_room_id s = Some rid)"

definition user_of :: "'s client_plane \<Rightarrow> nat \<Rightarrow> user_id option" where
  "user_of p i = (case find_session i p of None \<Rightarrow> None | Some s \<Rightarrow> ps_user_id s)"

definition match_made ::
  "nat \<Rightarrow> nat \<Rightarrow> room_id \<Rightarrow> ('s, 'r, 'd) server \<Rightarrow> ('s, 'r, 'd) server \<Rightarrow> bool" where
  "match_made w b rid sv sv' \<longleftrightarrow>
     find_room rid (sv_rooms sv) = None \<and> seated (sv_plane sv') w White rid \<and>
     seated (sv_plane sv') b Black rid \<and>
     (\<exists>r gw gb. find_room rid (sv_rooms sv') = Some r \<and> rm_active r \<and>
        rm_match r = new_game (mg_default_board (sv_rooms sv)) \<and>
        rm_white_player r = Some gw \<and> Some (gp_user_id gw) = user_of (sv_plane sv) w \<and>
        rm_black_player r = Some gb \<and> Some (gp_user_id gb) = user_of (sv_plane sv) b)"

lemma send_redirects_quiet:
  assumes "server_ok sv" "known_user (sv_plane sv) w"
  shows "ensures (send_game_redirects env w b response sv)
    (\<lambda>sv'. \<exists>p'. sv' = sv\<lparr>sv_plane := p'\<rparr> \<and> plane_quiet (sv_plane sv) p')"
proof -
  have ok: "plane_ok (sv_plane sv)" using assms(1) by (simp add: server_ok_def)
  obtain s where s: "deref_session (sv_plane sv) w = Inr s" "has_user s"
    using known_user_deref [OF ok assms(2)] by metis
  have sr: "ensures (send_game_redirect tp i info p) (plane_quiet p)" if "plane_ok p" for tp i info p
    using send_to_quiet [OF that] by (simp add: send_game_redirect_def)
  obtain uid where "session_user_id s = Inr uid"
    using s(2) by (auto simp: session_user_id_def has_user_def)
  then show ?thesis
    using s(1) ok
    by (auto simp: send_game_redirects_def Let_def intro!: ensures_mono [OF sr] dest: quiet_ok quiet_trans)
qed

lemma publish_keeps:
  assumes "server_ok sv" "known_user (sv_plane sv) w"
  shows "ensures (publish_match env w b wp bp wu response sv) (\<lambda>(rid, sv'). rid = rp_room_id response \<and>
    server_keeps sv sv' \<and> sv_queue sv' = sv_queue sv \<and> sv_rooms sv' = sv_rooms sv \<and>
    (\<forall>i. find_session i (sv_plane sv') =
       map_option (\<lambda>s. (if i = b then assign_room rid else id) ((if i = w then assign_room rid else id) s))
         (find_session i (sv_plane sv))))"
proof -
  define rid where "rid = rp_room_id response"
  let ?p = "update_session b (assign_room rid) (update_session w (assign_room rid) (sv_plane sv))"
  define st where "st = register_room rid (to_size (pl_id wp)) (to_size (pl_id bp))
      (if rp_game_server_id response = [] then se_server_id env else rp_game_server_id response)
      (rr_endpoint (resolve_routing (se_server_id env) (sv_store sv) response wu)) (sv_store sv)"
  let ?sv = "sv\<lparr>sv_plane := ?p, sv_store := st\<rparr>"
  have "server_keeps sv (on_plane (update_session b (assign_room rid)) (on_plane (update_session w (assign_room rid)) sv))"
    using assms(1) server_advance [OF _ advances_ops(6)] by (meson server_keeps_def server_keeps_trans)
  then have k: "server_keeps sv ?sv"
    by (simp add: on_plane_def server_keeps_def server_ok_def)
  then have ok: "server_ok ?sv" "known_user (sv_plane ?sv) w"
    using assms(2) keeps_known by (auto simp: server_keeps_def)
  have f: "find_session i ?p =
      map_option (\<lambda>s. (if i = b then assign_room rid else id) ((if i = w then assign_room rid else id) s))
        (find_session i (sv_plane sv))" for i
    by (cases "find_session i (sv_plane sv)") (simp_all add: find_update steps_ops)
  have "ensures (send_game_redirects env w b response ?sv) (\<lambda>sv'. server_keeps sv sv' \<and>
      sv_queue sv' = sv_queue sv \<and> sv_rooms sv' = sv_rooms sv \<and>
      (\<forall>i. find_session i (sv_plane sv') = find_session i ?p))"
    using send_redirects_quiet [OF ok, of env b response]
  proof (rule ensures_mono)
    fix sv' assume "\<exists>p'. sv' = ?sv\<lparr>sv_plane := p'\<rparr> \<and> plane_quiet (sv_plane ?sv) p'"
    then obtain p' where p': "sv' = ?sv\<lparr>sv_plane := p'\<rparr>" "plane_quiet ?p p'" by auto
    moreover have "server_keeps ?sv sv'" using server_quiet [OF ok(1)] p' by simp
    ultimately show "server_keeps sv sv' \<and> sv_queue sv' = sv_queue sv \<and> sv_rooms sv' = sv_rooms sv \<and>
      (\<forall>i. find_session i (sv_plane sv') = find_session i ?p)"
      using server_keeps_trans [OF k] quiet_find by auto
  qed
  then show ?thesis
    by (auto simp: publish_match_def Let_def rid_def [symmetric] st_def [symmetric] f elim!: ensures_mono)
qed

lemma known_session:
  assumes "plane_ok p" "known_user p i"
  obtains s uid pl where "find_session i p = Some s" "ps_user_id s = Some uid" "ps_player_profile s = Some pl"
    "pl_id pl = to_int32 (int uid)"
proof -
  obtain s where s: "find_session i p = Some s" "has_user s" using assms(2) by (auto simp: known_user_def)
  then have "session_ok s"
    using assms(1) find_session_Some [of i p s] by (simp add: plane_ok_def)
  with s show ?thesis by (auto simp: session_ok_def has_user_def intro: that split: option.splits)
qed

lemma create_match_ok:
  assumes "server_ok sv" "known_user (sv_plane sv) w" "known_user (sv_plane sv) b" "w \<noteq> b"
  shows "ensures (create_match env (local_allocate_game env) w b sv) (\<lambda>(rid, sv').
    server_keeps sv sv' \<and> sv_queue sv' = sv_queue sv \<and> match_made w b rid sv sv')"
proof -
  let ?p1 = "seat_players w b (sv_plane sv)"
  have ok: "plane_ok (sv_plane sv)" using assms(1) by (simp add: server_ok_def)
  obtain s u sp where s: "find_session w (sv_plane sv) = Some s" "ps_user_id s = Some u"
    "ps_player_profile s = Some sp"
    using known_session [OF ok assms(2)] by metis
  obtain t v tp where t: "find_session b (sv_plane sv) = Some t" "ps_user_id t = Some v"
    "ps_player_profile t = Some tp"
    using known_session [OF ok assms(3)] by metis
  let ?s = "set_side White (set_playing s)" and ?t = "set_side Black (set_playing t)"
  have seat: "find_session w ?p1 = Some ?s" "find_session b ?p1 = Some ?t"
    using s t assms(4) by (simp_all add: find_seated)
  have us: "ps_user_id ?s = Some u" "ps_player_profile ?s = Some sp" "ps_user_id ?t = Some v"
    "ps_player_profile ?t = Some tp"
    using s t by (simp_all add: set_side_def set_playing_def)
  obtain gid games where g: "gro_create_game (se_games env) (pl_id sp) (pl_id tp) (sv_games sv) = (gid, games)"
    by force
  let ?rq = "\<lparr>rq_white_user_id = u, rq_black_user_id = v, rq_db_game_id = gid\<rparr>"
  let ?sv1 = "sv\<lparr>sv_plane := ?p1, sv_games := games\<rparr>"
  have k1: "server_keeps sv ?sv1"
    using seat_players_advance [OF assms(1), of w b] by (simp add: server_keeps_def server_ok_def)
  then have ok1: "server_ok ?sv1" by (simp add: server_keeps_def)
  obtain mg' where al: "local_allocate_game env ?rq ?sv1 =
      Inr (\<lparr>rp_room_id = mg_next_id (sv_rooms sv), rp_game_server_id = se_server_id env,
            rp_endpoint = Some (se_endpoint env)\<rparr>, ?sv1\<lparr>sv_rooms := mg'\<rparr>)"
    "server_keeps ?sv1 (?sv1\<lparr>sv_rooms := mg'\<rparr>)"
    "find_room (mg_next_id (sv_rooms sv)) mg' = Some (hosted_room (Some ?p1) ?rq (sv_rooms sv))"
    "find_room (mg_next_id (sv_rooms sv)) (sv_rooms sv) = None"
    using local_allocate_ok [OF ok1, of w ?s ?rq b ?t env] seat us by auto
  let ?sv2 = "?sv1\<lparr>sv_rooms := mg'\<rparr>"
  have k2: "server_keeps sv ?sv2" using server_keeps_trans [OF k1 al(2)] .
  then have ok2: "server_ok ?sv2" by (simp add: server_keeps_def)
  have kw: "known_user (sv_plane ?sv2) w" using seat us by (simp add: known_user_def has_user_def)
  have "ensures (publish_match env w b sp tp u \<lparr>rp_room_id = mg_next_id (sv_rooms sv),
      rp_game_server_id = se_server_id env, rp_endpoint = Some (se_endpoint env)\<rparr> ?sv2) (\<lambda>(rid, sv').
    server_keeps sv sv' \<and> sv_queue sv' = sv_queue sv \<and> match_made w b rid sv sv')"
    using publish_keeps [OF ok2 kw]
  proof (rule ensures_mono)
    fix x assume "case x of (rid, sv') \<Rightarrow> rid = rp_room_id \<lparr>rp_room_id = mg_next_id (sv_rooms sv),
          rp_game_server_id = se_server_id env, rp_endpoint = Some (se_endpoint env)\<rparr> \<and>
        server_keeps ?sv2 sv' \<and> sv_queue sv' = sv_queue ?sv2 \<and> sv_rooms sv' = sv_rooms ?sv2 \<and>
        (\<forall>i. find_session i (sv_plane sv') =
           map_option (\<lambda>s. (if i = b then assign_room rid else id) ((if i = w then assign_room rid else id) s))
             (find_session i (sv_plane ?sv2)))"
    then obtain sv' where x: "x = (mg_next_id (sv_rooms sv), sv')" "server_keeps ?sv2 sv'"
      "sv_queue sv' = sv_queue sv" "sv_rooms sv' = mg'"
      "find_session w (sv_plane sv') = Some (assign_room (mg_next_id (sv_rooms sv)) ?s)"
      "find_session b (sv_plane sv') = Some (assign_room (mg_next_id (sv_rooms sv)) ?t)"
      using seat assms(4) by (cases x) auto
    have "match_made w b (mg_next_id (sv_rooms sv)) sv sv'"
      unfolding match_made_def
      using x al(3,4) s t seat us host_player_known [OF plane_keeps_ok, of "sv_plane sv" ?p1] k1
      by (auto simp: seated_def user_of_def hosted_room_simps assign_room_def set_side_def set_playing_def
          host_player_def to_game_player_def Let_def)
    then show "case x of (rid, sv') \<Rightarrow>
      server_keeps sv sv' \<and> sv_queue sv' = sv_queue sv \<and> match_made w b rid sv sv'"
      using x server_keeps_trans [OF k2 x(2)] by simp
  qed
  then show ?thesis
    using seat us g al(1)
    by (simp add: create_match_def Let_def deref_session_def session_player_def session_user_id_def)
qed

lemma notify_created_keeps:
  assumes "server_ok sv"
  shows "ensures (notify_match_created env m sv)
    (\<lambda>sv'. server_keeps sv sv' \<and> (\<exists>p'. sv' = sv\<lparr>sv_plane := p'\<rparr> \<and> plane_quiet (sv_plane sv) p'))"
proof -
  have ok: "plane_ok (sv_plane sv)" using assms by (simp add: server_ok_def)
  have q: "ensures (notify_match_found tp i j p) (plane_quiet p)"
    "ensures (notify_game_start tp i j p) (plane_quiet p)" if "plane_ok p" for tp i j p
    using send_two_quiet [OF that] by (simp_all only: notify_match_found_def notify_game_start_def)
  show ?thesis
    using ok server_quiet [OF assms]
    by (auto simp: notify_match_created_def intro!: ensures_mono [OF q(1)] ensures_mono [OF q(2)]
        dest: quiet_ok quiet_trans)
qed

subsection \<open>Searching\<close>

lemma server_queue_ok: "server_ok sv \<Longrightarrow> queue_ok (sv_plane sv) (sv_queue sv)"
  by (auto simp: server_ok_def line_ok_def queue_ok_def waiting_ids_def intro!: waiting_known)

lemma line_ok_subset:
  "line_ok p q \<Longrightarrow> distinct (map we_session ws) \<Longrightarrow> set ws \<subseteq> set (mq_waiting q) \<Longrightarrow>
   line_ok p (q\<lparr>mq_waiting := ws\<rparr>)"
  by (auto simp: line_ok_def waiting_ids_def)

definition fair_match :: "nat \<Rightarrow> match_created \<Rightarrow> ('s, 'r, 'd) server \<Rightarrow> ('s, 'r, 'd) server \<Rightarrow> bool" where
  "fair_match i m sv sv' \<longleftrightarrow>
     mc_black m = i \<and> mc_white m \<in> waiting_ids (sv_queue sv) \<and> mc_white m \<noteq> i \<and>
     \<bar>rating_id (sv_plane sv) i - rating_id (sv_plane sv) (mc_white m)\<bar> \<le> mq_max_rating_difference (sv_queue sv) \<and>
     mc_white m \<notin> waiting_ids (sv_queue sv') \<and> i \<notin> waiting_ids (sv_queue sv') \<and>
     match_made (mc_white m) i (mc_room_id m) sv sv'"

lemma mq_enqueue_ineligible:
  assumes "plane_ok p" "known_user p i" "\<not> eligible_id p i"
  shows "mq_enqueue p i now q = Inr (None, q)"
proof -
  obtain s where "deref_session p i = Inr s" "is_eligible p s = Inr (eligible_id p i)"
    using known_user_deref [OF assms(1,2)] by metis
  then show ?thesis using assms(3) by (simp add: mq_enqueue_def)
qed

lemma service_enqueue_ok:
  assumes "server_ok sv" "waiting_user (sv_plane sv) i" "i \<notin> waiting_ids (sv_queue sv)"
  shows "ensures (service_enqueue env (local_allocate_game env) i now sv) (\<lambda>(created, sv').
    server_keeps sv sv' \<and> (\<forall>m. created = Some m \<longrightarrow> fair_match i m sv sv'))"
proof -
  let ?p = "sv_plane sv" and ?q = "sv_queue sv" and ?x = "\<lparr>we_session = i, we_enqueue_time = now\<rparr>"
  have ok: "plane_ok ?p" "line_ok ?p ?q" "known_user ?p i" "queue_ok ?p ?q"
    using assms waiting_known server_queue_ok by (auto simp: server_ok_def)
  consider (out) "\<not> eligible_id ?p i"
    | (join) "eligible_id ?p i" "List.extract (mq_fits ?p (mq_max_rating_difference ?q) ?x) (mq_waiting ?q) = None"
    | (pair) ys y zs where "eligible_id ?p i"
        "List.extract (mq_fits ?p (mq_max_rating_difference ?q) ?x) (mq_waiting ?q) = Some (ys, y, zs)"
    by (metis option.exhaust prod_cases3)
  then show ?thesis
  proof cases
    case out
    then show ?thesis
      using mq_enqueue_ineligible [OF ok(1,3)] server_keeps_refl [OF assms(1)] by (simp add: service_enqueue_def)
  next
    case join
    let ?q' = "?q\<lparr>mq_waiting := mq_waiting ?q @ [?x]\<rparr>"
    have "mq_enqueue ?p i now ?q = Inr (None, ?q')"
      using mq_enqueue_spec [OF ok(4), of ?x] join by (simp add: line_spec_def)
    moreover have "line_ok ?p ?q'" using ok(2) assms(2,3) by (auto simp: line_ok_def waiting_ids_def)
    then have "server_keeps sv (sv\<lparr>sv_queue := ?q'\<rparr>)"
      using assms(1) by (simp add: server_keeps_def server_ok_def plane_keeps_refl)
    ultimately show ?thesis by (simp add: service_enqueue_def)
  next
    case pair
    let ?w = "we_session y" and ?q' = "?q\<lparr>mq_waiting := ys @ zs\<rparr>"
    have y: "mq_waiting ?q = ys @ y # zs" "mq_fits ?p (mq_max_rating_difference ?q) ?x y"
      using pair(2) by (simp_all add: extract_Some_iff)
    have en: "mq_enqueue ?p i now ?q = Inr (Some (?w, i), ?q')"
      using mq_enqueue_spec [OF ok(4), of ?x] pair by (simp add: line_spec_def)
    have d: "distinct (map we_session (ys @ zs))" "?w \<notin> we_session ` set (ys @ zs)" "?w \<in> waiting_ids ?q"
      using ok(2) y(1) by (auto simp: line_ok_def waiting_ids_def)
    have "line_ok ?p ?q'" by (rule line_ok_subset [OF ok(2) d(1)]) (auto simp: y(1))
    then have sv1: "server_ok (sv\<lparr>sv_queue := ?q'\<rparr>)" using assms(1) by (simp add: server_ok_def)
    have kw: "known_user ?p ?w" using ok(2) d(3) waiting_known by (auto simp: line_ok_def)
    have "?w \<noteq> i" using d(3) assms(3) by auto
    have nin: "?w \<notin> waiting_ids ?q'" "i \<notin> waiting_ids ?q'"
      using d(2) assms(3) y(1) by (auto simp: waiting_ids_def)
    have "ensures (create_match env (local_allocate_game env) ?w i (sv\<lparr>sv_queue := ?q'\<rparr>)) (\<lambda>(rid, sv').
        server_keeps sv sv' \<and> fair_match i \<lparr>mc_white = ?w, mc_black = i, mc_room_id = rid\<rparr> sv sv')"
      by (rule ensures_mono [OF create_match_ok [OF sv1 _ _ \<open>?w \<noteq> i\<close>]])
        (use kw ok(3) y(2) d(3) nin \<open>?w \<noteq> i\<close> in \<open>auto simp: fair_match_def mq_fits_def match_made_def server_keeps_def\<close>)
    then show ?thesis
      using en by (auto simp: service_enqueue_def elim!: ensures_mono)
  qed
qed

lemma local_join_ok:
  assumes "server_ok sv" "waiting_user (sv_plane sv) i" "i \<notin> waiting_ids (sv_queue sv)" "mr_player_id rq = i"
  shows "ensures (local_join env (local_allocate_game env) rq now sv) (\<lambda>(response, sv').
    server_keeps sv sv' \<and> (\<exists>r. response = Some r \<and> mp_status r = Queued))"
proof -
  obtain s where s: "find_session i (sv_plane sv) = Some s" "ps_id s = i"
    using assms(2) find_session_Some by (auto simp: waiting_user_def)
  have "ensures (case created of
        Some m \<Rightarrow> bindR (notify_match_created env m sv')
          (\<lambda>sv''. Inr (Some \<lparr>mp_status = Queued, mp_message = ''matched''\<rparr>, sv''))
      | None \<Rightarrow> Inr (Some \<lparr>mp_status = Queued, mp_message = ''queued''\<rparr>, sv'))
      (\<lambda>(response, sv''). server_keeps sv sv'' \<and> (\<exists>r. response = Some r \<and> mp_status r = Queued))"
    if "server_keeps sv sv'" for created sv'
  proof (cases created)
    case (Some m)
    have "server_ok sv'" using that by (simp add: server_keeps_def)
    from notify_created_keeps [OF this, of env m] Some show ?thesis
      using server_keeps_trans [OF that] by (auto elim!: ensures_mono)
  qed (use that in simp)
  then show ?thesis
    using s assms(4) service_enqueue_ok [OF assms(1-3), of env now]
    by (auto simp: local_join_def elim!: ensures_mono)
qed

subsection \<open>The lobby\<close>

lemma reply_keeps' [intro]:
  assumes "server_keeps sv sv1" "linked (sv_plane sv) s"
  shows "ensures (reply env s m sv1) (server_keeps sv)"
proof -
  have "server_ok sv1" "linked (sv_plane sv1) s"
    using assms linked_keeps by (auto simp: server_keeps_def)
  from reply_keeps [OF this, of env m] show ?thesis
    by (rule ensures_mono) (auto intro: server_keeps_trans [OF assms(1)])
qed

lemma lobby_login_keeps:
  assumes "server_ok sv" "linked (sv_plane sv) s"
  shows "ensures (lobby_login env salt s message sv) (server_keeps sv)"
proof (cases "parse_login_message message")
  case (Some rq)
  show ?thesis
  proof (cases "is_online (lr_username rq) (cp_registry (sv_plane sv))")
    case True
    then show ?thesis
      using Some assms server_keeps_refl by (auto simp: lobby_login_def)
  next
    case False
    obtain auth users where a: "authenticate (se_users env) salt (lr_username rq) (lr_password rq) (sv_users sv) =
        (auth, users)" by force
    let ?sv1 = "sv\<lparr>sv_users := users\<rparr>"
    have k1: "server_keeps sv ?sv1"
      using assms(1) server_keeps_refl [OF assms(1)] by (simp add: server_keeps_def server_ok_def)
    show ?thesis
    proof (cases "ar_success auth")
      case True
      then obtain pl where pl: "ar_player auth = Some pl"
        using a by (auto simp: authenticate_def auth_success_def auth_failure_def
            split: if_splits option.splits prod.splits)
      let ?sv2 = "on_plane (bind_authenticated_user (ps_id s) pl) ?sv1"
      let ?sv3 = "on_plane (\<lambda>p. p\<lparr>cp_registry := snd (register_session (pl_username pl) (cp_registry p))\<rparr>) ?sv2"
      have "server_keeps ?sv1 ?sv2"
        using k1 server_advance [OF _ advances_ops(1), of ?sv1]
        by (simp add: server_keeps_def bind_authenticated_user_def on_plane_def)
      moreover have "server_keeps ?sv2 ?sv3"
        unfolding on_plane_def
        by (rule server_ok_plane)
          (use calculation in \<open>auto simp: server_keeps_def on_plane_def registry_waiting plane_keeps_ok
             intro: registry_keeps\<close>)
      ultimately have "server_keeps sv ?sv3" using server_keeps_trans k1 by blast
      then have "ensures (reply env s (''login_ok '' @ show_int (pl_rating pl)) ?sv3) (server_keeps sv)"
        using assms(2) by (rule reply_keeps')
      then show ?thesis using Some False a True pl by (simp add: lobby_login_def)
    qed (use Some False a k1 assms(2) in \<open>auto simp: lobby_login_def\<close>)
  qed
qed (simp add: lobby_login_def assms server_keeps_refl)

lemma lobby_play_keeps:
  assumes "server_ok sv" "find_session i (sv_plane sv) = Some s" "ps_state s = Connected" "has_user s"
  shows "ensures (lobby_play env (local_join env (local_allocate_game env)) now i sv) (server_keeps sv)"
proof -
  let ?sv1 = "on_plane (update_session i request_play) sv" and ?s = "request_play s"
  have k1: "server_keeps sv ?sv1" by (rule server_advance [OF assms(1) advances_ops(2)])
  then have ok1: "server_ok ?sv1" "plane_ok (sv_plane ?sv1)" by (simp_all add: server_keeps_def server_ok_def)
  have f: "find_session i (sv_plane ?sv1) = Some ?s"
    using assms(2) by (simp add: on_plane_def find_update steps_ops)
  have s: "ps_state ?s = Searching" "has_user ?s" "ps_id ?s = i"
    using assms find_session_Some [OF assms(2)] by (simp_all add: request_play_def has_user_def)
  have w: "waiting_user (sv_plane ?sv1) i" using f s by (simp add: waiting_user_def)
  have nin: "i \<notin> waiting_ids (sv_queue ?sv1)"
    using assms by (auto simp: on_plane_def server_ok_def line_ok_def waiting_user_def)
  obtain uid where uid: "session_user_id ?s = Inr uid"
    using s(2) by (auto simp: session_user_id_def has_user_def)
  have rt: "session_rating ?s = Inr (rating_id (sv_plane ?sv1) i)"
    using known_user_deref [OF ok1(2) waiting_known [OF w]] f by (metis option.inject)
  let ?rq = "\<lparr>mr_player_id = i, mr_user_id = uid, mr_elo = rating_id (sv_plane ?sv1) i,
      mr_region = se_region env\<rparr>"
  have lk: "linked (sv_plane ?sv1) ?s" using found_linked [OF ok1(2) f] .
  have "ensures (local_join env (local_allocate_game env) ?rq now ?sv1) (\<lambda>(response, sv2).
      ensures (if (case response of None \<Rightarrow> True | Some r \<Rightarrow> mp_status r = JoinError)
        then reply env ?s ''search_failed'' (on_plane (update_session i cancel_search) sv2)
        else reply env ?s ''searching'' sv2) (server_keeps sv))"
    using local_join_ok [OF ok1(1) w nin, of ?rq env now]
    by (auto intro!: ensures_mono [OF reply_keeps'] lk elim!: ensures_mono intro: server_keeps_trans [OF k1])
  then show ?thesis
    using f s uid rt by (auto simp: lobby_play_def Let_def deref_session_def elim!: ensures_mono)
qed

lemma read_keeps:
  assumes "server_ok sv" "linked (sv_plane sv) s"
  shows "ensures (conn_op s (try_read (se_transport env)) (sv_plane sv))
    (\<lambda>(raw, p). server_keeps sv (sv\<lparr>sv_plane := p\<rparr>) \<and> plane_quiet (sv_plane sv) p)"
  using conn_op_quiet [OF _ assms(2), of "try_read (se_transport env)"] assms(1) server_quiet [OF assms(1)]
  by (auto simp: server_ok_def elim!: ensures_mono)

lemma lobby_session_keeps:
  assumes "server_ok sv" "find_session i (sv_plane sv) = Some s"
  shows "ensures (lobby_session env (local_join env (local_allocate_game env)) salt now i sv) (server_keeps sv)"
proof -
  have ok: "plane_ok (sv_plane sv)" using assms(1) by (simp add: server_ok_def)
  have lk: "linked (sv_plane sv) s" using found_linked [OF ok assms(2)] .
  obtain is_open where op: "session_open (sv_plane sv) s = Inr is_open" using session_open_returns [OF lk] by blast
  have step: "ensures (case raw of
        None \<Rightarrow> Inr (sv\<lparr>sv_plane := p\<rparr>)
      | Some message \<Rightarrow>
          if ps_state s = Searching then Inr (sv\<lparr>sv_plane := p\<rparr>)
          else if \<not> has_user s then lobby_login env salt s message (sv\<lparr>sv_plane := p\<rparr>)
          else if parse_play_message message
          then lobby_play env (local_join env (local_allocate_game env)) now i (sv\<lparr>sv_plane := p\<rparr>)
          else Inr (sv\<lparr>sv_plane := p\<rparr>)) (server_keeps sv)"
    if "ps_state s \<noteq> Playing" "server_keeps sv (sv\<lparr>sv_plane := p\<rparr>)" "plane_quiet (sv_plane sv) p" for raw p
  proof -
    let ?sv1 = "sv\<lparr>sv_plane := p\<rparr>"
    have k: "server_ok ?sv1" "linked (sv_plane ?sv1) s"
      using that(2) lk linked_keeps by (auto simp: server_keeps_def)
    have f: "find_session i (sv_plane ?sv1) = Some s" using quiet_find [OF that(3)] assms(2) by simp
    have "ensures (lobby_login env salt s m ?sv1) (server_keeps sv)" for m
      using lobby_login_keeps [OF k, of env salt m] server_keeps_trans [OF that(2)] by (auto elim: ensures_mono)
    moreover have "ensures (lobby_play env (local_join env (local_allocate_game env)) now i ?sv1) (server_keeps sv)"
      if "ps_state s = Connected" "has_user s"
      using lobby_play_keeps [OF k(1) f that, of env now] server_keeps_trans [OF \<open>server_keeps sv ?sv1\<close>]
      by (auto elim: ensures_mono)
    moreover have "ps_state s = Searching \<or> ps_state s = Connected"
      using that(1) by (cases "ps_state s") simp_all
    ultimately show ?thesis using that(2) by (auto split: option.splits)
  qed
  show ?thesis
  proof (cases "ps_state s = Playing \<or> \<not> is_open")
    case True
    then show ?thesis
      using assms op server_keeps_refl by (auto simp: lobby_session_def deref_session_def)
  next
    case False
    then have "ensures (conn_op s (try_read (se_transport env)) (sv_plane sv))
      (\<lambda>(raw, p). ensures (case raw of
          None \<Rightarrow> Inr (sv\<lparr>sv_plane := p\<rparr>)
        | Some message \<Rightarrow>
            if ps_state s = Searching then Inr (sv\<lparr>sv_plane := p\<rparr>)
            else if \<not> has_user s then lobby_login env salt s message (sv\<lparr>sv_plane := p\<rparr>)
            else if parse_play_message message
            then lobby_play env (local_join env (local_allocate_game env)) now i (sv\<lparr>sv_plane := p\<rparr>)
            else Inr (sv\<lparr>sv_plane := p\<rparr>)) (server_keeps sv))"
      using step by (intro ensures_mono [OF read_keeps [OF assms(1) lk, of env]]) auto
    then show ?thesis
      using False assms(2) op by (auto simp: lobby_session_def deref_session_def Let_def elim!: ensures_mono)
  qed
qed

text \<open>A loop over the sessions present at its start.\<close>

lemma session_loop_keeps:
  assumes "server_ok sv"
    and "\<And>i s t. server_ok t \<Longrightarrow> find_session i (sv_plane t) = Some s \<Longrightarrow> ensures (f i t) (server_keeps t)"
  shows "ensures (foldR f (session_ids sv) sv) (server_keeps sv)"
proof (rule ensures_foldR_inv)
  fix i t assume i: "i \<in> set (session_ids sv)" and t: "server_keeps sv t"
  then obtain s where "find_session i (sv_plane sv) = Some s"
    using find_session_self [of "sv_plane sv"] assms(1) by (auto simp: session_ids_def server_ok_def)
  then obtain s' where "find_session i (sv_plane t) = Some s'"
    using t unfolding server_keeps_def plane_keeps_def by blast
  with assms(2) [of t i s'] t show "ensures (f i t) (server_keeps sv)"
    by (auto simp: server_keeps_def elim!: ensures_mono intro: plane_keeps_trans)
qed (use server_keeps_refl assms(1) in auto)

lemma lobby_process_keeps:
  "server_ok sv \<Longrightarrow>
   ensures (lobby_process env (local_join env (local_allocate_game env)) salt now sv) (server_keeps sv)"
  unfolding lobby_process_def by (rule session_loop_keeps) (auto intro: lobby_session_keeps)

subsection \<open>Timeouts and joining\<close>

lemma cancel_keeps:
  assumes "server_ok sv" "i \<notin> waiting_ids (sv_queue sv)"
  shows "server_keeps sv (on_plane (update_session i cancel_search) sv)"
  unfolding on_plane_def
  using assms
  by (intro server_ok_plane update_keeps steps_cancel cancel_waiting) (auto simp: server_ok_def)

lemma process_timeouts_keeps:
  assumes "server_ok sv"
  shows "ensures (process_timeouts env now sv) (server_keeps sv)"
proof -
  let ?P = "overdue (sv_plane sv) now (sv_queue sv)" and ?ws = "mq_waiting (sv_queue sv)"
  let ?q = "sv_queue sv\<lparr>mq_waiting := filter (\<lambda>e. \<not> ?P e) ?ws\<rparr>" and ?ids = "map we_session (filter ?P ?ws)"
  let ?sv = "sv\<lparr>sv_queue := ?q\<rparr>"
  have l: "line_ok (sv_plane sv) (sv_queue sv)" and ok: "plane_ok (sv_plane sv)"
    using assms by (simp_all add: server_ok_def)
  have d: "distinct (map we_session ?ws)" using l by (simp add: line_ok_def)
  have "line_ok (sv_plane sv) ?q"
    using d by (intro line_ok_subset [OF l] distinct_map_filter) auto
  then have k: "server_keeps sv ?sv"
    using assms by (simp add: server_keeps_def server_ok_def plane_keeps_refl)
  have out: "i \<notin> waiting_ids ?q" if "i \<in> set ?ids" for i
    using that d by (auto simp: waiting_ids_def distinct_map inj_on_def)
  have kn: "known_user (sv_plane sv) i" if "i \<in> set ?ids" for i
    using that l waiting_known by (auto simp: line_ok_def waiting_ids_def)
  have "ensures (foldR (\<lambda>i t.
      bindR (deref_session (sv_plane t) i)
        (\<lambda>s. bindR (notify_search_timeout (se_transport env) (ps_id s) (sv_plane t))
        (\<lambda>p. Inr (t\<lparr>sv_plane := update_session i cancel_search p\<rparr>)))) ?ids ?sv)
    (\<lambda>t. server_keeps sv t \<and> sv_queue t = ?q)"
  proof (rule ensures_foldR_inv)
    fix i t assume i: "i \<in> set ?ids" and t: "server_keeps sv t \<and> sv_queue t = ?q"
    then have ok: "plane_ok (sv_plane t)" "known_user (sv_plane t) i" "server_ok t"
      using keeps_known [OF _ kn] by (auto simp: server_keeps_def server_ok_def)
    obtain s where s: "deref_session (sv_plane t) i = Inr s" using known_user_deref [OF ok(1,2)] by metis
    have "ensures (notify_search_timeout (se_transport env) (ps_id s) (sv_plane t)) (plane_quiet (sv_plane t))"
      using send_to_quiet [OF ok(1)] by (simp add: notify_search_timeout_def)
    then have "ensures (notify_search_timeout (se_transport env) (ps_id s) (sv_plane t))
        (\<lambda>p. server_keeps sv (t\<lparr>sv_plane := update_session i cancel_search p\<rparr>))"
    proof (rule ensures_mono)
      fix p assume "plane_quiet (sv_plane t) p"
      from server_quiet [OF ok(3) this] have q: "server_keeps t (t\<lparr>sv_plane := p\<rparr>)" .
      moreover have "server_keeps (t\<lparr>sv_plane := p\<rparr>) (on_plane (update_session i cancel_search) (t\<lparr>sv_plane := p\<rparr>))"
        using q t out [OF i] by (intro cancel_keeps) (auto simp: server_keeps_def)
      ultimately show "server_keeps sv (t\<lparr>sv_plane := update_session i cancel_search p\<rparr>)"
        using t server_keeps_trans by (simp add: on_plane_def) blast
    qed
    then show "ensures (bindR (deref_session (sv_plane t) i)
        (\<lambda>s. bindR (notify_search_timeout (se_transport env) (ps_id s) (sv_plane t))
        (\<lambda>p. Inr (t\<lparr>sv_plane := update_session i cancel_search p\<rparr>))))
        (\<lambda>t. server_keeps sv t \<and> sv_queue t = ?q)"
      using s t by (auto elim: ensures_mono)
  qed (use k in simp)
  then have "ensures (process_timeouts env now sv) (\<lambda>t. server_keeps sv t \<and> sv_queue t = ?q)"
    using mq_check_timeouts_spec [OF server_queue_ok [OF assms], of now] by (simp add: process_timeouts_def)
  then show ?thesis by (rule ensures_mono) simp
qed

lemma take_seat_keeps:
  assumes "server_ok sv"
  shows "server_keeps sv (on_plane (take_seat i rid c) sv)"
proof -
  note a = server_advance [OF _ advances_ops(3)] server_advance [OF _ advances_ops(4)]
    server_advance [OF _ advances_ops(6)]
  have "server_keeps sv (on_plane (update_session i (set_side c)) (on_plane (update_session i set_playing)
      (on_plane (update_session i (assign_room rid)) sv)))"
    using assms a by (meson server_keeps_def server_keeps_trans)
  then show ?thesis by (simp add: on_plane_def take_seat_def)
qed

lemma join_room_keeps:
  assumes "server_ok sv" "linked (sv_plane sv) s"
  shows "ensures (join_room env s rid sv) (server_keeps sv)"
proof -
  have "ensures (reply env s m sv) (server_keeps sv)"
    "ensures (reply env s m (on_plane (take_seat i rid c) sv)) (server_keeps sv)" for m i c
    using assms by (auto intro!: reply_keeps' server_keeps_refl take_seat_keeps)
  then show ?thesis
    by (auto simp: join_room_def session_user_id_def has_user_def split: option.splits)
qed

lemma join_session_keeps:
  assumes "server_ok sv" "find_session i (sv_plane sv) = Some s"
  shows "ensures (join_session env i sv) (server_keeps sv)"
proof -
  have lk: "linked (sv_plane sv) s" using assms by (auto simp: server_ok_def intro: found_linked)
  obtain is_open where op: "session_open (sv_plane sv) s = Inr is_open" using session_open_returns [OF lk] by blast
  have jr: "ensures (join_room env s rid (sv\<lparr>sv_plane := p\<rparr>)) (server_keeps sv)"
    if "server_keeps sv (sv\<lparr>sv_plane := p\<rparr>)" for rid p
    using join_room_keeps [of "sv\<lparr>sv_plane := p\<rparr>" s env rid] that lk linked_keeps [of "sv_plane sv" p s]
      server_keeps_trans [OF that]
    by (auto simp: server_keeps_def elim!: ensures_mono intro: plane_keeps_trans)
  show ?thesis
    using assms(2) op server_keeps_refl [OF assms(1)]
    by (auto simp: join_session_def deref_session_def Let_def intro!: ensures_mono [OF read_keeps [OF assms(1) lk]] jr
        split: option.splits)
qed

lemma join_process_keeps: "server_ok sv \<Longrightarrow> ensures (join_process env sv) (server_keeps sv)"
  unfolding join_process_def by (rule session_loop_keeps) (auto intro: join_session_keeps)

text \<open>Who is chosen: the first of the line that fits, if anybody does.\<close>

lemma service_enqueue_choice:
  assumes "server_ok sv" "eligible_id (sv_plane sv) i"
    "service_enqueue env alloc i now sv = Inr (created, sv')"
  shows "map_option mc_white created =
    map_option we_session (fst (line_spec (mq_fits (sv_plane sv) (mq_max_rating_difference (sv_queue sv)))
      \<lparr>we_session = i, we_enqueue_time = now\<rparr> (mq_waiting (sv_queue sv))))"
proof -
  let ?x = "\<lparr>we_session = i, we_enqueue_time = now\<rparr>"
  obtain r ws where l: "line_spec (mq_fits (sv_plane sv) (mq_max_rating_difference (sv_queue sv))) ?x
      (mq_waiting (sv_queue sv)) = (r, ws)" by force
  then have "mq_enqueue (sv_plane sv) i now (sv_queue sv) =
      Inr (map_option (\<lambda>y. (we_session y, i)) r, sv_queue sv\<lparr>mq_waiting := ws\<rparr>)"
    using mq_enqueue_spec [OF server_queue_ok [OF assms(1)], of ?x] assms(2) by simp
  then show ?thesis
    using assms(3) l by (auto simp: service_enqueue_def bindR_Inr_iff split: option.splits)
qed

end
