(* ===== verification/Server_Round.thy ===== *)
theory Server_Round
  imports Server_Safety
begin

section \<open>Rooms, results and a whole round keep the invariant\<close>

text \<open>
  The second half of the invariant's proof: the end of a game, the inputs and ticks of the rooms,
  pruning, and with them one round of the monolithic server. A round faults only in two ways, both
  characterised: the acceptor fails, or a client is found gone when the sessions are pruned.
\<close>

subsection \<open>The end of a game\<close>

definition plane_grows :: "'s client_plane \<Rightarrow> 's client_plane \<Rightarrow> bool" where
  "plane_grows p p' \<longleftrightarrow> plane_keeps p p' \<and> (\<forall>i. waiting_user p i \<longrightarrow> waiting_user p' i)"

lemma grows_refl: "plane_ok p \<Longrightarrow> plane_grows p p"
  by (simp add: plane_grows_def plane_keeps_refl)

lemma grows_trans: "plane_grows p q \<Longrightarrow> plane_grows q r \<Longrightarrow> plane_grows p r"
  by (auto simp: plane_grows_def intro: plane_keeps_trans)

lemma grows_ok: "plane_grows p p' \<Longrightarrow> plane_ok p'"
  using plane_keeps_ok by (auto simp: plane_grows_def)

lemma grows_known: "plane_grows p p' \<Longrightarrow> known_user p i \<Longrightarrow> known_user p' i"
  by (auto simp: plane_grows_def intro: keeps_known)

lemma quiet_grows: "plane_quiet p p' \<Longrightarrow> plane_grows p p'"
  by (simp add: plane_grows_def quiet_keeps quiet_waiting)

lemma update_grows: "plane_ok p \<Longrightarrow> advances f \<Longrightarrow> plane_grows p (update_session i f p)"
  by (auto simp: plane_grows_def advances_def intro: update_keeps advance_waiting)

lemma registry_grows: "plane_ok p \<Longrightarrow> plane_grows p (p\<lparr>cp_registry := reg\<rparr>)"
  by (auto simp: plane_grows_def registry_waiting intro: registry_keeps)

lemma server_grows:
  assumes "server_ok sv" "plane_grows (sv_plane sv) p'"
  shows "server_keeps sv (sv\<lparr>sv_plane := p'\<rparr>)"
  using assms by (intro server_ok_plane) (auto simp: plane_grows_def)

lemma cleanup_player_grows:
  assumes "plane_ok p" "known_user p (fp_player_id st)"
  shows "ensures (cleanup_finished_player st p) (plane_grows p)"
proof -
  obtain s where s: "find_session (fp_player_id st) p = Some s" "ps_id s = fp_player_id st"
    using assms(2) find_session_Some by (auto simp: known_user_def)
  let ?i = "fp_player_id st"
  let ?p1 = "update_session ?i clear_room (update_session ?i clear_side p)"
  let ?p2 = "if fp_has_user st then update_session ?i (assign_user (fp_user_id st) (fp_username st) (fp_rating st)) ?p1 else ?p1"
  have "plane_grows p ?p1"
    using assms(1) update_grows advances_ops by (meson grows_ok grows_trans)
  then have g: "plane_grows p ?p2"
    using grows_trans [OF _ update_grows [OF grows_ok advances_ops(1)], of p ?p1 p] by auto
  obtain t u pl where t: "find_session ?i ?p2 = Some t" "ps_player_profile t = Some pl"
    using known_session [OF grows_ok [OF g] grows_known [OF g assms(2)]] by metis
  have "plane_grows p (?p2\<lparr>cp_registry := reg\<rparr>)" for reg
    using g registry_grows grows_ok grows_trans by blast
  then show ?thesis
    using s t by (simp add: cleanup_finished_player_def Let_def deref_session_def session_player_def)
qed

lemma cleanup_players_grows:
  assumes "plane_ok p" "known_user p (fp_player_id w)" "known_user p (fp_player_id b)"
  shows "ensures (cleanup_finished_players w b p) (plane_grows p)"
  unfolding cleanup_finished_players_def ensures_bindR
proof (rule ensures_mono [OF cleanup_player_grows [OF assms(1,2)]])
  fix p' assume g: "plane_grows p p'"
  show "ensures (cleanup_finished_player b p') (plane_grows p)"
    using ensures_mono [OF cleanup_player_grows [OF grows_ok [OF g] grows_known [OF g assms(3)]]]
      grows_trans [OF g] by blast
qed

lemma finished_state_id [simp]:
  "fp_player_id (build_finished_player_state env users g) = gp_player_id g"
  by (simp add: build_finished_player_state_def split: option.splits)

lemma seats_put_reset:
  assumes "seats_ok p mg"
  shows "seats_ok p (put_room rid (reset_room r) mg)"
  using assms by (auto simp: seats_ok_def find_put_room reset_room_def split: if_splits)

lemma cleanup_room_keeps:
  assumes "server_ok sv" "find_room rid (sv_rooms sv) = Some r"
    "rm_white_player r = Some w" "rm_black_player r = Some b"
  shows "ensures (cleanup_finished_room env rid sv) (server_keeps sv)"
proof -
  have ok: "plane_ok (sv_plane sv)" "manager_ok (sv_rooms sv)" "seats_ok (sv_plane sv) (sv_rooms sv)"
    using assms(1) by (simp_all add: server_ok_def)
  then have kn: "known_user (sv_plane sv) (gp_player_id w)" "known_user (sv_plane sv) (gp_player_id b)"
    using assms(2-4) by (auto simp: seats_ok_def)
  let ?mg = "put_room rid (reset_room r) (sv_rooms sv)"
  have "rm_id (reset_room r) = rid" using manager_find(2) [OF ok(2) assms(2)] by (simp add: reset_room_def)
  then have mg: "manager_ok ?mg"
    using put_room_ok [OF ok(2)] reset_room_ok manager_find(1) [OF ok(2) assms(2)] by blast
  have "server_keeps sv (sv\<lparr>sv_plane := p, sv_store := st, sv_rooms := ?mg\<rparr>)"
    if "plane_grows (sv_plane sv) p" for p st
    using server_grows [OF assms(1) that] mg
    by (simp add: server_keeps_def server_ok_def seats_put_reset find_put_room)
  then show ?thesis
    using assms(2-4) cleanup_players_grows [OF ok(1), of "build_finished_player_state env (sv_users sv) w"
        "build_finished_player_state env (sv_users sv) b"] kn
    by (auto simp: cleanup_finished_room_def Let_def elim!: ensures_mono)
qed

lemma record_result_frame:
  "\<exists>u g. snd (record_result env r winner reason sv) = sv\<lparr>sv_users := u, sv_games := g\<rparr>"
proof -
  have "\<exists>u g. snd (update_ratings_for_result env r c i sv) = sv\<lparr>sv_users := u, sv_games := g\<rparr>" for c i
    by (auto simp: update_ratings_for_result_def Let_def split: option.splits intro: exI [of _ "sv_users sv"])
      (metis server.surjective server.update_convs(4,5))+
  then show ?thesis
    by (auto simp: record_result_def split: option.splits) (metis server.surjective server.update_convs(4,5))+
qed

lemma send_result_quiet:
  assumes "plane_ok p"
  shows "ensures (send_result tp pid m p) (plane_quiet p)"
  using is_player_connected_returns [OF assms, of pid] sink_send_quiet(2) [OF assms, of tp pid m] quiet_refl [OF assms]
  by (auto simp: send_result_def ensures_iff)

lemma notify_finished_quiet:
  assumes "plane_ok p"
  shows "ensures (notify_game_finished tp w b c reason ch p) (plane_quiet p)"
  unfolding notify_game_finished_def Let_def ensures_bindR
  by (rule ensures_mono [OF send_result_quiet [OF assms]])
    (auto intro!: ensures_mono [OF send_result_quiet] dest: quiet_ok quiet_trans)

lemma finish_keeps:
  assumes "server_ok sv"
  shows "ensures (finish env rid winner reason sv) (server_keeps sv)"
proof (cases "\<exists>r w b. find_room rid (sv_rooms sv) = Some r \<and> rm_white_player r = Some w \<and> rm_black_player r = Some b")
  case False
  then show ?thesis
    using server_keeps_refl [OF assms] by (auto simp: finish_def split: option.splits)
next
  case True
  then obtain r w b where r: "find_room rid (sv_rooms sv) = Some r" "rm_white_player r = Some w"
    "rm_black_player r = Some b" by blast
  obtain ch sv1 where rr: "record_result env r winner reason sv = (ch, sv1)" by force
  then obtain u g where "sv1 = sv\<lparr>sv_users := u, sv_games := g\<rparr>"
    using record_result_frame [of env r winner reason sv] by auto
  then have sv1: "sv_plane sv1 = sv_plane sv" "sv_rooms sv1 = sv_rooms sv" "server_keeps sv sv1"
    using assms server_keeps_refl [OF assms] by (simp_all add: server_keeps_def server_ok_def)
  have cl: "ensures (cleanup_finished_room env rid t) (server_keeps sv)"
    if "server_keeps sv t" "sv_rooms t = sv_rooms sv" for t
    using cleanup_room_keeps [of t rid r w b env] that r server_keeps_trans [OF that(1)]
    by (auto simp: server_keeps_def elim!: ensures_mono intro: plane_keeps_trans)
  have ok: "server_ok sv1" "plane_ok (sv_plane sv1)" using sv1(3) by (simp_all add: server_keeps_def server_ok_def)
  have "ensures (cleanup_finished_room env rid (sv1\<lparr>sv_plane := p\<rparr>)) (server_keeps sv)"
    if "plane_quiet (sv_plane sv1) p" for p
    using server_quiet [OF ok(1) that] sv1 by (intro cl) (auto intro: server_keeps_trans)
  then show ?thesis
    using r rr cl [OF sv1(3,2)]
    by (auto simp: finish_def intro!: ensures_mono [OF notify_finished_quiet [OF ok(2)]] split: option.splits)
qed

subsection \<open>Rooms\<close>

lemma probe_player_quiet:
  assumes "plane_ok p"
  shows "ensures (probe_player tp pid p) (plane_quiet p)"
proof (cases "find_session pid p")
  case (Some s)
  from conn_op_quiet [OF assms found_linked [OF assms Some], of "\<lambda>c. ((), probe_disconnect tp c)"] Some
  show ?thesis using quiet_refl [OF assms] by (auto simp: probe_player_def elim!: ensures_mono)
qed (simp add: probe_player_def quiet_refl assms)

lemma with_player_quiet:
  assumes "plane_ok p" "\<And>g q. plane_ok q \<Longrightarrow> ensures (f g q) (plane_quiet q)"
  shows "ensures (with_player gp f p) (plane_quiet p)"
  using assms quiet_refl by (auto simp: with_player_def split: option.splits)

lemma probe_room_quiet:
  assumes "plane_ok p"
  shows "ensures (probe_room tp r p) (plane_quiet p)"
  unfolding probe_room_def ensures_bindR
proof (rule ensures_mono [OF with_player_quiet [OF assms probe_player_quiet]])
  fix q assume q: "plane_quiet p q"
  show "ensures (with_player (rm_black_player r) (\<lambda>g. probe_player tp (gp_player_id g)) q) (plane_quiet p)"
    by (rule ensures_mono [OF with_player_quiet [OF quiet_ok [OF q] probe_player_quiet]])
      (auto intro: quiet_trans [OF q])
qed

lemma poll_player_quiet:
  assumes "plane_ok p"
  shows "ensures (poll_player_input tp r g (p, inputs)) (\<lambda>(p', inputs'). plane_quiet p p')"
proof (cases "find_session (gp_player_id g) p")
  case (Some s)
  have "ensures (conn_op s (try_read tp) p) (\<lambda>(x, p'). plane_quiet p p')"
    using conn_op_quiet [OF assms found_linked [OF assms Some]] .
  then show ?thesis
    using Some quiet_refl [OF assms] by (auto simp: poll_player_input_def elim!: ensures_mono)
qed (simp add: poll_player_input_def quiet_refl assms)

lemma poll_room_quiet:
  assumes "plane_ok p"
  shows "ensures (poll_room_inputs tp r p) (\<lambda>(p', inputs). plane_quiet p p')"
proof -
  have w: "ensures (with_player gp (poll_player_input tp r) (q, ins)) (\<lambda>(q', ins'). plane_quiet q q')"
    if "plane_ok q" for gp q ins
    using poll_player_quiet [OF that] quiet_refl [OF that] by (simp add: with_player_def split: option.splits)
  show ?thesis
    unfolding poll_room_inputs_def ensures_bindR
  proof (rule ensures_mono [OF w [OF assms]])
    fix x :: "'a client_plane \<times> room_player_input list"
    assume "case x of (q', ins') \<Rightarrow> plane_quiet p q'"
    then obtain q ins where x: "x = (q, ins)" "plane_quiet p q" by auto
    show "ensures (with_player (rm_black_player r) (poll_player_input tp r) x) (\<lambda>(p', inputs). plane_quiet p p')"
      unfolding x(1)
      by (rule ensures_mono [OF w [OF quiet_ok [OF x(2)]]]) (auto intro: quiet_trans [OF x(2)])
  qed
qed

lemma put_played_room:
  assumes "server_ok sv" "find_room rid (sv_rooms sv) = Some r" "room_ok r'" "rm_id r' = rm_id r"
    "rm_white_player r' = rm_white_player r" "rm_black_player r' = rm_black_player r"
  shows "server_keeps sv (sv\<lparr>sv_rooms := put_room rid r' (sv_rooms sv)\<rparr>)"
proof -
  have ok: "manager_ok (sv_rooms sv)" "seats_ok (sv_plane sv) (sv_rooms sv)" "plane_ok (sv_plane sv)"
    using assms(1) by (simp_all add: server_ok_def)
  have "manager_ok (put_room rid r' (sv_rooms sv))"
    using put_room_ok [OF ok(1) assms(3)] assms(4) manager_find(2) [OF ok(1) assms(2)] by simp
  moreover have "seats_ok (sv_plane sv) (put_room rid r' (sv_rooms sv))"
    using ok(2) assms(2,5,6) by (auto simp: seats_ok_def find_put_room split: if_splits)
  ultimately show ?thesis
    using assms(1) ok(3) by (simp add: server_keeps_def server_ok_def plane_keeps_refl find_put_room)
qed

lemma server_room:
  assumes "server_ok sv" "find_room rid (sv_rooms sv) = Some r"
  shows "room_ok r" "wf_board (gs_board (rm_match r))" "game_inv (rm_match r)"
proof -
  show "room_ok r" using assms by (auto simp: server_ok_def intro: manager_find)
  then show "game_inv (rm_match r)" by (simp add: room_ok_def)
  then show "wf_board (gs_board (rm_match r))" by (rule game_inv_wf)
qed

lemma submit_keeps:
  assumes "server_ok sv" "find_room rid (sv_rooms sv) = Some r"
  shows "ensures (bindR (room_submit_action a r) (\<lambda>r'. Inr (sv\<lparr>sv_rooms := put_room rid r' (sv_rooms sv)\<rparr>)))
    (server_keeps sv)"
  using room_submit_ok [OF server_room(1) [OF assms], of a] put_played_room [OF assms]
  by (auto elim!: ensures_mono)

lemma apply_inputs_keeps:
  assumes "server_ok sv" "find_room rid (sv_rooms sv) \<noteq> None"
  shows "ensures (apply_room_inputs env rid inputs sv) (server_keeps sv)"
  using assms
proof (induction inputs arbitrary: sv)
  case Nil
  then show ?case by (simp add: server_keeps_refl)
next
  case (Cons input inputs)
  show ?case
  proof (cases input)
    case (ResignInput side)
    then show ?thesis using finish_keeps [OF Cons.prems(1)] by simp
  next
    case (ActionInput side a)
    obtain r where r: "find_room rid (sv_rooms sv) = Some r" using Cons.prems(2) by blast
    obtain allowed where al: "is_action_allowed side (rm_match r) a = Inr allowed"
      using is_action_allowed_returns [OF server_room(2) [OF Cons.prems(1) r]] by blast
    have step: "ensures (if allowed
        then bindR (room_submit_action a r) (\<lambda>r'. Inr (sv\<lparr>sv_rooms := put_room rid r' (sv_rooms sv)\<rparr>))
        else Inr sv) (server_keeps sv)"
      using submit_keeps [OF Cons.prems(1) r] server_keeps_refl [OF Cons.prems(1)] by simp
    have rest: "ensures (apply_room_inputs env rid inputs t) (server_keeps sv)" if "server_keeps sv t" for t
      using Cons.IH [of t] that Cons.prems(2) server_keeps_trans [OF that]
      by (auto simp: server_keeps_def elim!: ensures_mono intro: plane_keeps_trans)
    show ?thesis
      using ActionInput r al ensures_mono [OF step rest] by simp
  qed
qed

lemma send_snapshot_quiet:
  assumes "plane_ok p"
  shows "ensures (send_snapshot env pid m p) (plane_quiet p)"
  using is_player_connected_returns [OF assms, of pid] send_to_quiet [OF assms] quiet_refl [OF assms]
  by (auto simp: send_snapshot_def ensures_iff)

lemma tick_room_keeps:
  assumes "server_ok sv" "find_room rid (sv_rooms sv) = Some r"
  shows "ensures (tick_room env elapsed rid w b sv) (server_keeps sv)"
proof -
  have ok: "plane_ok (sv_plane sv)" using assms(1) by (simp add: server_ok_def)
  have snd2: "ensures (send_snapshot env i m (sv_plane sv)) (\<lambda>p1. ensures (send_snapshot env j m p1) Q)"
    if "\<And>p. plane_quiet (sv_plane sv) p \<Longrightarrow> Q p" for i j m Q
    by (rule ensures_mono [OF send_snapshot_quiet [OF ok]])
      (auto intro!: ensures_mono [OF send_snapshot_quiet] that dest: quiet_ok quiet_trans)
  have "server_keeps sv (sv\<lparr>sv_plane := p, sv_rooms := put_room rid r' (sv_rooms sv)\<rparr>)"
    if "room_ok r'" "rm_id r' = rm_id r" "rm_white_player r' = rm_white_player r"
      "rm_black_player r' = rm_black_player r" "plane_quiet (sv_plane sv) p" for r' p
  proof -
    have "server_keeps sv (sv\<lparr>sv_plane := p\<rparr>)" using server_quiet [OF assms(1) that(5)] .
    moreover from this have "server_keeps (sv\<lparr>sv_plane := p\<rparr>)
        (sv\<lparr>sv_plane := p, sv_rooms := put_room rid r' (sv_rooms sv)\<rparr>)"
      using put_played_room [of "sv\<lparr>sv_plane := p\<rparr>" rid r r'] that assms(2) by (simp add: server_keeps_def)
    ultimately show ?thesis by (rule server_keeps_trans)
  qed
  then show ?thesis
    using assms(2) room_tick_ok [OF server_room(1) [OF assms], of elapsed]
    by (auto simp: tick_room_def generate_snapshot_ok intro!: snd2 elim!: ensures_mono)
qed

lemma play_room_keeps:
  assumes "server_ok sv" "find_room rid (sv_rooms sv) = Some r"
  shows "ensures (play_room env rid sv) (server_keeps sv)"
proof -
  have ok: "plane_ok (sv_plane sv)" using assms(1) by (simp add: server_ok_def)
  have inp: "ensures (apply_room_inputs env rid inputs (sv\<lparr>sv_plane := p\<rparr>)) (server_keeps sv)"
    if "plane_quiet (sv_plane sv) p" for p inputs
  proof -
    have k: "server_keeps sv (sv\<lparr>sv_plane := p\<rparr>)" using server_quiet [OF assms(1) that] .
    then have "ensures (apply_room_inputs env rid inputs (sv\<lparr>sv_plane := p\<rparr>)) (server_keeps (sv\<lparr>sv_plane := p\<rparr>))"
      using assms(2) by (intro apply_inputs_keeps) (simp_all add: server_keeps_def)
    then show ?thesis by (rule ensures_mono) (rule server_keeps_trans [OF k])
  qed
  have first: "ensures (if rm_active r \<and> \<not> room_is_game_over r
      then bindR (poll_room_inputs (se_transport env) r (sv_plane sv))
             (\<lambda>(p, inputs). apply_room_inputs env rid inputs (sv\<lparr>sv_plane := p\<rparr>))
      else Inr sv) (server_keeps sv)"
    using server_keeps_refl [OF assms(1)] inp
    by (auto intro!: ensures_mono [OF poll_room_quiet [OF ok]])
  have fin: "ensures (bindR (of_option UndefinedBehaviour (find_room rid (sv_rooms t)))
      (\<lambda>r1. if room_is_game_over r1
         then bindR (winning_color (rm_match r1)) (\<lambda>winner. finish env rid winner KingCapture t)
         else Inr t)) (server_keeps sv)" if kt: "server_keeps sv t" for t
  proof -
    have t: "server_ok t" using kt by (simp add: server_keeps_def)
    obtain r1 where r1: "find_room rid (sv_rooms t) = Some r1"
      using keeps_room [OF kt assms(2)] .
    obtain winner where "winning_color (rm_match r1) = Inr winner"
      using winning_color_ok [OF server_room(2) [OF t r1]] by blast
    moreover have "ensures (finish env rid winner KingCapture t) (server_keeps sv)"
      using keeps_then [OF kt finish_keeps [OF t]] .
    ultimately show ?thesis using r1 kt by simp
  qed
  show ?thesis using assms(2) ensures_mono [OF first fin] by (simp add: play_room_def)
qed

lemma connected_returns:
  assumes "plane_ok p"
  shows "\<exists>x. both_room_players_disconnected p r = Inr x" "\<exists>y. disconnected_player_color p r = Inr y"
proof -
  have c: "\<exists>b. is_player_connected p i = Inr b" for i
    using is_player_connected_returns [OF assms, of i] by (simp add: ensures_iff)
  obtain f where "\<And>i. is_player_connected p i = Inr (f i)" using c by metis
  then show "\<exists>x. both_room_players_disconnected p r = Inr x" "\<exists>y. disconnected_player_color p r = Inr y"
    by (auto simp: both_room_players_disconnected_def disconnected_player_color_def split: option.splits)
qed

lemma process_room_keeps:
  assumes "server_ok sv" "find_room rid (sv_rooms sv) \<noteq> None"
  shows "ensures (process_room env elapsed rid (sv, ticked)) (\<lambda>(sv', t). server_keeps sv sv')"
proof -
  obtain r where r: "find_room rid (sv_rooms sv) = Some r" using assms(2) by blast
  have ok: "plane_ok (sv_plane sv)" using assms(1) by (simp add: server_ok_def)
  have rest: "ensures (bindR (both_room_players_disconnected p r) (\<lambda>both.
      if both then bindR (finish env rid None Disconnect (sv\<lparr>sv_plane := p\<rparr>)) (\<lambda>sv2. Inr (sv2, ticked))
      else bindR (disconnected_player_color p r) (\<lambda>gone.
        case gone of
          Some c \<Rightarrow> bindR (finish env rid (Some (opponent_color c)) Disconnect (sv\<lparr>sv_plane := p\<rparr>))
                      (\<lambda>sv2. Inr (sv2, ticked))
        | None \<Rightarrow>
            if elapsed \<ge> kTargetFrameMs \<and> \<not> room_is_game_over r
            then bindR (tick_room env elapsed rid w b (sv\<lparr>sv_plane := p\<rparr>))
                   (\<lambda>sv2. bindR (play_room env rid sv2) (\<lambda>sv3. Inr (sv3, True)))
            else bindR (play_room env rid (sv\<lparr>sv_plane := p\<rparr>)) (\<lambda>sv3. Inr (sv3, ticked)))))
      (\<lambda>(sv', t). server_keeps sv sv')"
    if pq: "plane_quiet (sv_plane sv) p" for p w b
  proof -
    let ?sv1 = "sv\<lparr>sv_plane := p\<rparr>"
    have k: "server_keeps sv ?sv1" using server_quiet [OF assms(1) pq] .
    then have ok1: "server_ok ?sv1" by (simp add: server_keeps_def)
    have r1: "find_room rid (sv_rooms ?sv1) = Some r" using r by simp
    have fin: "ensures (finish env rid c reason ?sv1) (server_keeps sv)" for c reason
      using keeps_then [OF k finish_keeps [OF ok1]] .
    have play: "ensures (play_room env rid t) (server_keeps sv)" if kt: "server_keeps sv t" for t
    proof -
      obtain r' where "find_room rid (sv_rooms t) = Some r'"
        using keeps_room [OF kt r] .
      then show ?thesis
        using keeps_then [OF kt play_room_keeps [OF keeps_server_ok [OF kt]]] by blast
    qed
    have tick: "ensures (tick_room env elapsed rid w b ?sv1) (\<lambda>t. ensures (play_room env rid t) (server_keeps sv))"
      by (rule ensures_mono [OF tick_room_keeps [OF ok1 r1]]) (rule play [OF server_keeps_trans [OF k]])
    obtain both gone where "both_room_players_disconnected p r = Inr both" "disconnected_player_color p r = Inr gone"
      using connected_returns [OF quiet_ok [OF pq]] by metis
    then show ?thesis using fin tick play [OF k] by (auto split: option.splits)
  qed
  show ?thesis
  proof (cases "\<exists>w b. rm_white_player r = Some w \<and> rm_black_player r = Some b")
    case True
    then obtain w b where wb: "rm_white_player r = Some w" "rm_black_player r = Some b" by blast
    show ?thesis
      unfolding process_room_def prod.case r of_option_simps bindR_simps wb option.case Let_def
      by (rule ensures_bindR_I [OF probe_room_quiet [OF ok] rest])
  qed (use r server_keeps_refl [OF assms(1)] in \<open>auto simp: process_room_def split: option.splits\<close>)
qed

lemma active_rooms_found: "i \<in> set (active_rooms mg) \<Longrightarrow> find_room i mg \<noteq> None"
  by (auto simp: active_rooms_def find_room_def map_of_eq_None_iff rev_image_eqI)

lemma process_rooms_keeps:
  assumes "server_ok sv"
  shows "ensures (process_active_rooms env elapsed sv) (\<lambda>(sv', t). server_keeps sv sv')"
proof -
  have "ensures (foldR (process_room env elapsed) (active_rooms (sv_rooms sv)) (sv, False))
      (\<lambda>(sv', t). server_keeps sv sv')"
  proof (rule ensures_foldR_inv)
    fix rid and x :: "('a, 'b, 'c) server \<times> bool"
    assume "rid \<in> set (active_rooms (sv_rooms sv))" and x: "case x of (sv', t) \<Rightarrow> server_keeps sv sv'"
    moreover obtain sv' t where e: "x = (sv', t)" by force
    ultimately have k: "server_keeps sv sv'" "find_room rid (sv_rooms sv') \<noteq> None"
      using active_rooms_found by (auto simp: server_keeps_def)
    show "ensures (process_room env elapsed rid x) (\<lambda>(sv', t). server_keeps sv sv')"
      unfolding e
      by (rule ensures_mono [OF process_room_keeps]) (use k server_keeps_trans in \<open>auto simp: server_keeps_def\<close>)
  qed (simp add: server_keeps_refl assms)
  then show ?thesis using server_keeps_refl [OF assms] by (simp add: process_active_rooms_def)
qed

subsection \<open>Accepting, pruning, heartbeats\<close>

lemma find_append: "List.find P (xs @ ys) = (case List.find P xs of None \<Rightarrow> List.find P ys | Some x \<Rightarrow> Some x)"
  by (induction xs) auto

lemma with_client_grows: "plane_ok p \<Longrightarrow> plane_grows p (with_client ws p)"
proof -
  assume ok: "plane_ok p"
  have f: "find_session i p = Some s \<Longrightarrow> find_session i (with_client ws p) = Some s" for i s
    by (simp add: find_session_def with_client_def find_append)
  have "fst ` set (cp_clients p) \<subseteq> fst ` set (cp_clients (with_client ws p))"
    by (auto simp: with_client_def)
  with f with_client_ok [OF ok] show ?thesis
    by (auto simp: plane_grows_def plane_keeps_def waiting_user_def)
qed

lemma accept_outcome:
  assumes "plane_ok p"
  shows "(\<exists>p'. accept_new_clients res p = Inr p' \<and> plane_grows p p') \<or>
    accept_new_clients res p = Inl RuntimeError \<and> (res = AcceptFailed \<or> res = HandshakeFailed)"
  using grows_refl [OF assms] with_client_grows [OF assms]
  by (auto simp: accept_new_clients_eq split: accept_result.splits)

lemma pruned_plane:
  assumes "plane_ok p" "\<not> (\<exists>s \<in> set (cp_sessions p). found_gone tp p s)"
  shows "plane_ok (prune_disconnected tp p) \<and> cp_sessions (prune_disconnected tp p) = cp_sessions p"
proof -
  let ?cs = "map (\<lambda>(a, c). (a, probe_disconnect tp c)) (cp_clients p)"
  have d: "distinct (map fst (cp_clients p))" "map fst ?cs = map fst (cp_clients p)"
    using assms(1) by (auto simp: plane_ok_def)
  have sub: "set (map fst (filter (\<lambda>(a, c). cc_open c) ?cs)) \<subseteq> set (map fst (cp_clients p))"
    using image_mono [OF filter_is_subset, of fst "\<lambda>(a, c). cc_open c" ?cs] d(2) by (metis set_map)
  have dd: "distinct (map fst (filter (\<lambda>(a, c). cc_open c) ?cs))"
    by (rule distinct_map_filter) (simp only: d)
  have "\<exists>a \<in> set (map fst (cp_clients (prune_disconnected tp p))). ps_connection s = Some a"
    if s: "s \<in> set (cp_sessions p)" for s
  proof -
    obtain a c where a: "ps_connection s = Some a" "map_of (cp_clients p) a = Some c"
      using plane_conn [OF assms(1) s] by metis
    then have "cc_open (probe_disconnect tp c)" using assms(2) s by (auto simp: found_gone_def)
    then have "map_of (cp_clients (prune_disconnected tp p)) a = Some (probe_disconnect tp c)"
      using a(2) map_of_pruned [OF d(1), of tp a] by simp
    then have "a \<in> set (map fst (cp_clients (prune_disconnected tp p)))"
      by (metis domI dom_map_of_conv_image_fst set_map)
    with a(1) show ?thesis by blast
  qed
  moreover have "cp_sessions (prune_disconnected tp p) = cp_sessions p"
    "cp_next_session_id (prune_disconnected tp p) = cp_next_session_id p"
    "cp_next_address (prune_disconnected tp p) = cp_next_address p"
    "cp_clients (prune_disconnected tp p) = filter (\<lambda>(a, c). cc_open c) ?cs"
    by (simp_all add: prune_disconnected_def)
  moreover have "\<forall>a \<in> set (map fst (filter (\<lambda>(a, c). cc_open c) ?cs)). a < cp_next_address p"
    using sub assms(1) unfolding plane_ok_def by (meson subset_eq)
  ultimately show ?thesis
    using assms(1) dd unfolding plane_ok_def by simp
qed

lemma server_ok_sessions:
  assumes "server_ok sv" "plane_ok p" "cp_sessions p = cp_sessions (sv_plane sv)"
  shows "server_ok (sv\<lparr>sv_plane := p\<rparr>)"
proof -
  have "find_session i p = find_session i (sv_plane sv)" for i using assms(3) by (simp add: find_session_def)
  then show ?thesis
    using assms(1,2)
    by (simp add: server_ok_def line_ok_def seats_ok_def waiting_user_def known_user_def)
qed

lemma remove_inactive_server_ok:
  assumes "server_ok sv"
  shows "server_ok (sv\<lparr>sv_rooms := remove_inactive_rooms (sv_rooms sv)\<rparr>)"
proof -
  have mg: "manager_ok (sv_rooms sv)" using assms by (simp add: server_ok_def)
  then have "distinct (map fst (mg_rooms (sv_rooms sv)))" by (simp add: manager_ok_def)
  then have sub: "find_room i (remove_inactive_rooms (sv_rooms sv)) = Some r \<Longrightarrow> find_room i (sv_rooms sv) = Some r" for i r
    by (auto simp: find_room_def remove_inactive_rooms_def dest!: map_of_SomeD)
  have "seats_ok (sv_plane sv) (remove_inactive_rooms (sv_rooms sv))"
    using assms sub unfolding server_ok_def seats_ok_def by blast
  then show ?thesis using assms remove_inactive_ok [OF mg] by (simp add: server_ok_def)
qed

lemma heartbeat_frame:
  "\<exists>lp' st. maybe_publish_heartbeat cfg now epoch sid metrics (lp, sv) = (lp', sv\<lparr>sv_store := st\<rparr>)"
  by (auto simp: maybe_publish_heartbeat_def intro: exI [of _ "sv_store sv"])

lemma heartbeat_ok:
  "server_ok sv \<Longrightarrow> server_ok (snd (maybe_publish_heartbeat cfg now epoch sid metrics (lp, sv)))"
  using heartbeat_frame [of cfg now epoch sid metrics lp sv] by (auto simp: server_ok_def)

subsection \<open>One round\<close>

lemma gateway_handlers_outcome:
  assumes "server_ok sv"
  shows "(\<exists>sv'. gateway_handlers env inp sv = Inr sv' \<and> server_ok sv') \<or>
    gateway_handlers env inp sv = Inl RuntimeError \<and>
      (in_accept inp = AcceptFailed \<or> in_accept inp = HandshakeFailed)"
proof -
  have ok: "plane_ok (sv_plane sv)" using assms by (simp add: server_ok_def)
  from accept_outcome [OF ok, of "in_accept inp"] show ?thesis
  proof (elim disjE exE conjE)
    fix p assume p: "accept_new_clients (in_accept inp) (sv_plane sv) = Inr p" "plane_grows (sv_plane sv) p"
    have "server_ok (sv\<lparr>sv_plane := p\<rparr>)" using server_grows [OF assms p(2)] keeps_server_ok by blast
    then have "ensures (lobby_process env (local_join env (local_allocate_game env)) (in_salt inp)
        (in_join_time inp) (sv\<lparr>sv_plane := p\<rparr>)) server_ok"
      using ensures_mono [OF lobby_process_keeps] keeps_server_ok by blast
    then have "ensures (gateway_handlers env inp sv) server_ok"
      unfolding gateway_handlers_def p(1) bindR_simps
      by (rule ensures_bindR_I) (blast intro: ensures_mono [OF process_timeouts_keeps] keeps_server_ok)
    then show ?thesis by (auto simp: ensures_iff)
  qed (simp_all add: gateway_handlers_def)
qed

lemma runtime_tick_ok:
  assumes "server_ok sv"
  shows "ensures (runtime_tick cfg False inp (lp, sv)) (\<lambda>(lp', sv'). server_ok sv')"
proof -
  have jp: "ensures (join_process (tc_env cfg) sv) server_ok"
    using ensures_mono [OF join_process_keeps [OF assms]] keeps_server_ok by blast
  have rooms: "ensures (process_active_rooms (tc_env cfg) e t) (\<lambda>(t', b). server_ok t')" if "server_ok t" for e t
    by (rule ensures_mono [OF process_rooms_keeps [OF that]]) (auto dest: keeps_server_ok)
  have "ensures (join_process (tc_env cfg) sv) (\<lambda>t. ensures (process_active_rooms (tc_env cfg)
      (elapsed_ms (in_runtime_time inp) (lp_last_tick lp)) t) (\<lambda>(u, ticked).
        server_ok (u\<lparr>sv_rooms := remove_inactive_rooms (sv_rooms u)\<rparr>)))"
    by (rule ensures_mono [OF jp], rule ensures_mono [OF rooms]) (auto dest: remove_inactive_server_ok)
  then show ?thesis
    by (auto simp: runtime_tick_def Let_def case_prod_beta intro!: heartbeat_ok elim!: ensures_mono)
qed

text \<open>
  The outcome of a round, exactly: it fails if the acceptor fails; it runs into undefined behaviour
  if a session's client is found gone when the sessions are pruned; otherwise it completes and keeps
  the invariant.
\<close>

lemma round_outcome:
  assumes "server_ok sv"
  shows "case gateway_handlers (tc_env cfg) inp sv of
      Inl e \<Rightarrow> e = RuntimeError \<and> (in_accept inp = AcceptFailed \<or> in_accept inp = HandshakeFailed) \<and>
             monolith_tick cfg inp ((gl, rl), sv) = Inl RuntimeError
    | Inr sv1 \<Rightarrow>
        if \<exists>s \<in> set (cp_sessions (sv_plane sv1)). found_gone (se_transport (tc_env cfg)) (sv_plane sv1) s
        then monolith_tick cfg inp ((gl, rl), sv) = Inl UndefinedBehaviour
        else ensures (monolith_tick cfg inp ((gl, rl), sv)) (\<lambda>(ls, sv'). server_ok sv')"
proof (cases "gateway_handlers (tc_env cfg) inp sv")
  case (Inl e)
  then show ?thesis
    using gateway_handlers_outcome [OF assms, of "tc_env cfg" inp]
    by (simp add: monolith_tick_def gateway_tick_def)
next
  case (Inr sv1)
  let ?tp = "se_transport (tc_env cfg)" and ?p = "sv_plane sv1"
  have ok: "server_ok sv1" "plane_ok ?p"
    using gateway_handlers_outcome [OF assms, of "tc_env cfg" inp] Inr by (simp_all add: server_ok_def)
  note prune = prune_sessions_exact [OF ok(2), of ?tp on_session_disconnected "sv_queue sv1"]
  show ?thesis
  proof (cases "\<exists>s \<in> set (cp_sessions ?p). found_gone ?tp ?p s")
    case True
    then show ?thesis using Inr prune by (simp add: monolith_tick_def gateway_tick_def Let_def)
  next
    case False
    let ?sv2 = "sv1\<lparr>sv_plane := prune_disconnected ?tp ?p\<rparr>"
    have pp: "plane_ok (prune_disconnected ?tp ?p)" "cp_sessions (prune_disconnected ?tp ?p) = cp_sessions ?p"
      using pruned_plane [OF ok(2) False] by simp_all
    have sv2: "server_ok ?sv2" by (rule server_ok_sessions [OF ok(1) pp])
    have "ensures (gateway_tick cfg inp (gl, sv)) (\<lambda>(l, t). server_ok t)"
      using Inr prune False heartbeat_ok [OF sv2] by (simp add: gateway_tick_def Let_def case_prod_beta)
    then have "ensures (monolith_tick cfg inp ((gl, rl), sv)) (\<lambda>(ls, sv'). server_ok sv')"
      unfolding monolith_tick_def prod.case
      by (rule ensures_bindR_I) (auto intro!: ensures_mono [OF runtime_tick_ok])
    then show ?thesis using Inr False by simp
  qed
qed

end
