(* ===== verification/Protocol_Codec.thy ===== *)
theory Protocol_Codec
  imports Game_Service Message_Parser
begin

section \<open>The messages between the processes\<close>

text \<open>
  The bodies the gateway, the matchmaker and the game servers post to each other:
  \<^verbatim>\<open>server/game/protocol/game_creation_codec.cpp\<close> (a game to create and the room it got) and
  \<^verbatim>\<open>matchmaking/protocol/matchmaking_codec.cpp\<close> (a player to queue, the answer, a match found, a
  search timed out). Fields are separated by bars; the ids are 64-bit numbers, read either by a loop
  that wraps or by \<^verbatim>\<open>std::stoull\<close>. Both codecs repeat \<^verbatim>\<open>field_at\<close> and the loop.

  The lemmas at the end: what an encoder writes its decoder reads back, for ids below \<open>2^64\<close>,
  numbers that are an \<^verbatim>\<open>int\<close> and texts without a bar.
\<close>

subsection \<open>Fields and numbers\<close>

primrec field_at :: "nat \<Rightarrow> string \<Rightarrow> string option" where
  "field_at 0 value = Some (takeWhile (\<lambda>c. c \<noteq> CHR ''|'') value)"
| "field_at (Suc index) value =
     (case dropWhile (\<lambda>c. c \<noteq> CHR ''|'') value of
        [] \<Rightarrow> None
      | c # rest \<Rightarrow> field_at index rest)"

primrec parse_integral_loop :: "nat \<Rightarrow> string \<Rightarrow> nat option" where
  "parse_integral_loop value [] = Some value"
| "parse_integral_loop value (ch # token) =
     (if \<not> is_digit ch then None
      else parse_integral_loop ((value * 10 + digit_value ch) mod 2 ^ 64) token)"

definition parse_integral :: "string \<Rightarrow> nat option" where
  "parse_integral token = (if token = [] then None else parse_integral_loop 0 token)"

text \<open>
  \<^verbatim>\<open>std::stoull\<close>: like \<^verbatim>\<open>std::stoi\<close>, but a minus sign negates modulo \<open>2^64\<close>; \<open>None\<close> stands for both
  of its exceptions.
\<close>

definition stoull10 :: "string \<Rightarrow> nat option" where
  "stoull10 s =
     (let (sign, t) = split_sign s; ds = takeWhile is_digit t; v = digits_value ds
      in if ds = [] \<or> v \<ge> 2 ^ 64 then None else Some (to_size (sign * int v)))"

subsection \<open>Creating a game\<close>

definition encode_game_creation_request :: "game_creation_request \<Rightarrow> string" where
  "encode_game_creation_request request =
     show_nat (rq_white_user_id request) @ ''|'' @ show_nat (rq_black_user_id request) @ ''|'' @
     (case rq_db_game_id request of None \<Rightarrow> '''' | Some g \<Rightarrow> show_int g)"

definition decode_game_creation_request :: "string \<Rightarrow> game_creation_request option" where
  "decode_game_creation_request body =
     (case (field_at 0 body, field_at 1 body) of
        (Some white, Some black) \<Rightarrow>
          (case (parse_integral white, parse_integral black) of
             (Some white_user_id, Some black_user_id) \<Rightarrow>
               (let request = \<lparr>rq_white_user_id = white_user_id, rq_black_user_id = black_user_id,
                               rq_db_game_id = None\<rparr>
                in case field_at 2 body of
                     None \<Rightarrow> Some request
                   | Some db_game_id \<Rightarrow>
                       if db_game_id = [] then Some request
                       else map_option (\<lambda>g. request\<lparr>rq_db_game_id := Some g\<rparr>) (stoi10 db_game_id))
           | _ \<Rightarrow> None)
      | _ \<Rightarrow> None)"

definition encode_game_creation_response :: "game_creation_response \<Rightarrow> string" where
  "encode_game_creation_response response =
     show_nat (rp_room_id response) @ ''|'' @ rp_game_server_id response @ ''|'' @
     (case rp_endpoint response of None \<Rightarrow> '''' | Some e \<Rightarrow> e)"

definition decode_game_creation_response :: "string \<Rightarrow> game_creation_response option" where
  "decode_game_creation_response body =
     (case (field_at 0 body, field_at 1 body) of
        (Some room_id_token, Some server_id) \<Rightarrow>
          (case stoull10 room_id_token of
             None \<Rightarrow> None
           | Some room_id \<Rightarrow>
               Some \<lparr>rp_room_id = room_id, rp_game_server_id = server_id,
                     rp_endpoint = (case field_at 2 body of
                                      None \<Rightarrow> None
                                    | Some e \<Rightarrow> if e = [] then None else Some e)\<rparr>)
      | _ \<Rightarrow> None)"

subsection \<open>Matchmaking\<close>

definition encode_match_request :: "match_request \<Rightarrow> string" where
  "encode_match_request request =
     show_nat (mr_player_id request) @ ''|'' @ show_nat (mr_user_id request) @ ''|'' @
     show_int (mr_elo request) @ ''|'' @ mr_region request"

definition decode_match_request :: "string \<Rightarrow> match_request option" where
  "decode_match_request body =
     (case (field_at 0 body, field_at 1 body, field_at 2 body, field_at 3 body) of
        (Some player_id, Some user_id, Some elo, Some region) \<Rightarrow>
          (case (parse_integral player_id, parse_integral user_id) of
             (Some p, Some u) \<Rightarrow>
               map_option (\<lambda>e. \<lparr>mr_player_id = p, mr_user_id = u, mr_elo = e, mr_region = region\<rparr>) (stoi10 elo)
           | _ \<Rightarrow> None)
      | _ \<Rightarrow> None)"

definition encode_match_response :: "match_response \<Rightarrow> string" where
  "encode_match_response response =
     (if mp_status response = Queued then ''queued'' else ''error'') @ ''|'' @ mp_message response"

definition decode_match_response :: "string \<Rightarrow> match_response option" where
  "decode_match_response body =
     (case field_at 0 body of
        None \<Rightarrow> None
      | Some status \<Rightarrow>
          (let message = (case field_at 1 body of None \<Rightarrow> '''' | Some m \<Rightarrow> m)
           in if status = ''queued'' then Some \<lparr>mp_status = Queued, mp_message = message\<rparr>
              else if status = ''error'' then Some \<lparr>mp_status = JoinError, mp_message = message\<rparr>
              else None))"

definition encode_match_notification :: "match_notification \<Rightarrow> string" where
  "encode_match_notification n =
     show_nat (mn_white_player_id n) @ ''|'' @ show_nat (mn_white_user_id n) @ ''|'' @
     show_nat (mn_black_player_id n) @ ''|'' @ show_nat (mn_black_user_id n) @ ''|'' @
     show_nat (mn_room_id n) @ ''|'' @ mn_server_id n @ ''|'' @ mn_endpoint n"

definition decode_match_notification :: "string \<Rightarrow> match_notification option" where
  "decode_match_notification body =
     (case (field_at 0 body, field_at 1 body, field_at 2 body, field_at 3 body, field_at 4 body,
            field_at 5 body, field_at 6 body) of
        (Some white_player_id, Some white_user_id, Some black_player_id, Some black_user_id,
         Some room_id, Some server_id, Some endpoint) \<Rightarrow>
          (case (stoull10 white_player_id, stoull10 white_user_id, stoull10 black_player_id,
                 stoull10 black_user_id, stoull10 room_id) of
             (Some wp, Some wu, Some bp, Some bu, Some r) \<Rightarrow>
               Some \<lparr>mn_white_player_id = wp, mn_white_user_id = wu, mn_black_player_id = bp,
                     mn_black_user_id = bu, mn_room_id = r, mn_server_id = server_id,
                     mn_endpoint = endpoint\<rparr>
           | _ \<Rightarrow> None)
      | _ \<Rightarrow> None)"

definition encode_timeout_notification :: "player_id \<Rightarrow> string" where
  "encode_timeout_notification player_id = ''timeout|'' @ show_nat player_id"

definition decode_timeout_notification :: "string \<Rightarrow> player_id option" where
  "decode_timeout_notification body =
     (case (field_at 0 body, field_at 1 body) of
        (Some kind, Some player_id) \<Rightarrow> if kind \<noteq> ''timeout'' then None else parse_integral player_id
      | _ \<Rightarrow> None)"

subsection \<open>What is written is read back\<close>

text \<open>\<open>plain s\<close>: a text without a bar, which stays one field.\<close>

definition plain :: "string \<Rightarrow> bool" where
  "plain s \<longleftrightarrow> CHR ''|'' \<notin> set s"

lemma field_at_cons [simp]:
  assumes "plain s"
  shows "field_at 0 (s @ CHR ''|'' # t) = Some s" "field_at (Suc n) (s @ CHR ''|'' # t) = field_at n t"
    "field_at 0 s = Some s" "field_at (Suc n) s = None"
proof -
  have s: "\<forall>c \<in> set s. c \<noteq> CHR ''|''" using assms by (auto simp: plain_def)
  have "dropWhile (\<lambda>c. c \<noteq> CHR ''|'') (s @ CHR ''|'' # t) = CHR ''|'' # t"
    using s by (simp add: dropWhile_append3)
  then show "field_at (Suc n) (s @ CHR ''|'' # t) = field_at n t" by (simp add: field_at.simps)
  have d: "dropWhile (\<lambda>c. c \<noteq> CHR ''|'') s = []" using s by (simp add: dropWhile_eq_Nil_conv)
  show "field_at (Suc n) s = None" unfolding field_at.simps d by simp
qed (use assms in \<open>auto simp: plain_def takeWhile_append takeWhile_eq_all_conv\<close>)

declare field_at.simps [simp del]

lemma plain_Nil [simp]: "plain []"
  by (simp add: plain_def)

lemma plain_show [simp]: "plain (show_nat n)" "plain (show_int i)"
proof -
  show "plain (show_nat m)" for m
    using show_nat_digits [of m] by (auto simp: plain_def list_all_iff is_digit_def)
  then show "plain (show_int i)" by (simp add: show_int_def plain_def)
qed

lemma parse_integral_loop_digits:
  "list_all is_digit ds \<Longrightarrow>
   parse_integral_loop (a mod 2 ^ 64) ds = Some (foldl (\<lambda>v c. v * 10 + digit_value c) a ds mod 2 ^ 64)"
proof (induction ds arbitrary: a)
  case (Cons d ds)
  have "(a mod 2 ^ 64 * 10 + digit_value d) mod 2 ^ 64 = (a * 10 + digit_value d) mod 2 ^ 64"
    by (metis mod_add_left_eq mod_mult_left_eq)
  with Cons show ?case by simp
qed simp

lemma parse_integral_show [simp]: "n < 2 ^ 64 \<Longrightarrow> parse_integral (show_nat n) = Some n"
  using show_nat_digits [of n] parse_integral_loop_digits [of "show_nat n" 0]
  by (auto simp: parse_integral_def digits_value_def)

lemma stoull10_show [simp]: "n < 2 ^ 64 \<Longrightarrow> stoull10 (show_nat n) = Some n"
proof -
  assume n: "n < 2 ^ 64"
  obtain c cs where s: "show_nat n = c # cs" "is_digit c"
    using show_nat_digits [of n] by (cases "show_nat n") auto
  then have "split_sign (show_nat n) = (1, show_nat n)"
    using split_sign_unsigned [OF s(1)] digit_not_space digit_not_sign by blast
  moreover have d: "takeWhile is_digit (show_nat n) = show_nat n"
    using show_nat_digits [of n] by (simp add: takeWhile_eq_all_conv list_all_iff)
  ultimately show ?thesis
    using n show_nat_digits [of n] unfolding stoull10_def by (simp only: Let_def prod.case d) simp
qed

text \<open>An id of 64 bits.\<close>

definition id64 :: "nat \<Rightarrow> bool" where
  "id64 n \<longleftrightarrow> n < 2 ^ 64"

lemma show_int_nonempty [simp]: "show_int i \<noteq> []"
  using show_nat_digits by (simp add: show_int_def)

lemma field_at_numeral [simp]:
  "plain s \<Longrightarrow> field_at (numeral k) (s @ CHR ''|'' # t) = field_at (pred_numeral k) t"
  by (simp add: numeral_eq_Suc)

lemmas codec_simps = id64_def int32_def stoi10_show Let_def

lemma game_creation_round_trip:
  assumes "id64 (rq_white_user_id rq)" "id64 (rq_black_user_id rq)" "\<forall>g. rq_db_game_id rq = Some g \<longrightarrow> int32 g"
  shows "decode_game_creation_request (encode_game_creation_request rq) = Some rq"
  using assms
  by (cases "rq_db_game_id rq")
    (auto simp: decode_game_creation_request_def encode_game_creation_request_def codec_simps)

text \<open>An endpoint that is present but empty reads back as absent.\<close>

lemma game_response_round_trip:
  assumes "id64 (rp_room_id rp)" "plain (rp_game_server_id rp)" "\<forall>e. rp_endpoint rp = Some e \<longrightarrow> plain e \<and> e \<noteq> []"
  shows "decode_game_creation_response (encode_game_creation_response rp) = Some rp"
  using assms
  by (cases "rp_endpoint rp")
    (auto simp: decode_game_creation_response_def encode_game_creation_response_def codec_simps)

lemma match_request_round_trip:
  assumes "id64 (mr_player_id rq)" "id64 (mr_user_id rq)" "int32 (mr_elo rq)" "plain (mr_region rq)"
  shows "decode_match_request (encode_match_request rq) = Some rq"
  using assms by (auto simp: decode_match_request_def encode_match_request_def codec_simps)

lemma plain_words [simp]: "plain ''queued''" "plain ''error''" "plain ''timeout''"
  by (simp_all add: plain_def)

lemma match_response_round_trip:
  assumes "plain (mp_message rp)"
  shows "decode_match_response (encode_match_response rp) = Some rp"
proof (cases "mp_status rp")
  case Queued
  then show ?thesis
    using assms field_at_cons(1,2) [OF plain_words(1), where t = "mp_message rp"]
    by (simp add: decode_match_response_def encode_match_response_def)
next
  case JoinError
  then show ?thesis
    using assms field_at_cons(1,2) [OF plain_words(2), where t = "mp_message rp"]
    by (simp add: decode_match_response_def encode_match_response_def)
qed

lemma match_notification_round_trip:
  assumes "id64 (mn_white_player_id n)" "id64 (mn_white_user_id n)" "id64 (mn_black_player_id n)"
    "id64 (mn_black_user_id n)" "id64 (mn_room_id n)" "plain (mn_server_id n)" "plain (mn_endpoint n)"
  shows "decode_match_notification (encode_match_notification n) = Some n"
  using assms by (auto simp: decode_match_notification_def encode_match_notification_def codec_simps)

lemma timeout_round_trip:
  assumes "id64 i"
  shows "decode_timeout_notification (encode_timeout_notification i) = Some i"
  using assms field_at_cons(1,2) [OF plain_words(3), where t = "show_nat i"]
  by (simp add: decode_timeout_notification_def encode_timeout_notification_def codec_simps)

end
