(* ===== verification/Remote_Matchmaking.thy ===== *)
theory Remote_Matchmaking
  imports Protocol_Codec
begin

section \<open>The processes of the split deployment\<close>

text \<open>
  The matchmaker as a process of its own (\<^verbatim>\<open>matchmaking/remote_matchmaking_service.cpp\<close> and
  \<^verbatim>\<open>matchmaker_runtime.cpp\<close>) and the HTTP requests between gateway, matchmaker and game servers:
  \<^verbatim>\<open>matchmaking/http/*.cpp\<close>, \<^verbatim>\<open>server/game/game_allocation_http_client.cpp\<close>,
  \<^verbatim>\<open>server/game/game_creation_listener.cpp\<close> and \<^verbatim>\<open>server/gateway/gateway_notification_listener.cpp\<close>.

  HTTP itself is Boost code: a client's exchange is a function of type \<open>'n http\<close> from host, port and
  request to the response, if one came within the time limit, over the state \<open>'n\<close> of the network; a
  listener is a function from a request to a response, where no response is a connection closed
  because the handler threw. The correlation header is observability and not modelled. The store is
  the in-memory one. Both clocks are arguments. An operation that may throw returns its result beside
  the state it leaves, because what was changed before the throw stays changed.

  \<open>line s r\<close> is the abstract state, the players waiting in region \<open>r\<close>; the lemmas show that every
  operation acts on it as specified, whichever queue object holds the region, and that no two
  compatible players are ever left waiting in one region.
\<close>

subsection \<open>HTTP\<close>

record http_request =
  hq_post :: bool
  hq_target :: string
  hq_token :: "string option"
  hq_body :: string

record http_response =
  hs_status :: nat
  hs_body :: string

type_synonym 'n http = "string \<Rightarrow> string \<Rightarrow> http_request \<Rightarrow> 'n \<Rightarrow> http_response option \<times> 'n"

record parsed_endpoint =
  pe_host :: string
  pe_port :: string
  pe_target :: string

definition parse_endpoint :: "string \<Rightarrow> string \<Rightarrow> parsed_endpoint option" where
  "parse_endpoint endpoint path =
     (if take 7 endpoint \<noteq> ''http://'' then None
      else
        (let remainder = drop 7 endpoint;
             host_port = takeWhile (\<lambda>c. c \<noteq> CHR ''/'') remainder;
             rest = dropWhile (\<lambda>c. c \<noteq> CHR ''/'') remainder;
             target = (if rest = [] then path else rest);
             host = takeWhile (\<lambda>c. c \<noteq> CHR '':'') host_port
         in case dropWhile (\<lambda>c. c \<noteq> CHR '':'') host_port of
              [] \<Rightarrow> Some \<lparr>pe_host = host_port, pe_port = ''80'', pe_target = target\<rparr>
            | c # port \<Rightarrow> Some \<lparr>pe_host = host, pe_port = port, pe_target = target\<rparr>))"

definition post_text :: "'n http \<Rightarrow> string \<Rightarrow> string \<Rightarrow> string \<Rightarrow> 'n \<Rightarrow> string option \<times> 'n" where
  "post_text http endpoint path body net =
     (case parse_endpoint endpoint path of
        None \<Rightarrow> (None, net)
      | Some e \<Rightarrow>
          (case http (pe_host e) (pe_port e)
                  \<lparr>hq_post = True, hq_target = pe_target e, hq_token = None, hq_body = body\<rparr> net of
             (None, net') \<Rightarrow> (None, net')
           | (Some response, net') \<Rightarrow>
               (if hs_status response \<noteq> 200 then None else Some (hs_body response), net')))"

subsection \<open>The clients\<close>

definition matchmaking_join ::
  "'n http \<Rightarrow> string \<Rightarrow> match_request \<Rightarrow> 'n \<Rightarrow> match_response option \<times> 'n" where
  "matchmaking_join http matchmaker_endpoint request net =
     (case post_text http matchmaker_endpoint ''/matchmaking/join'' (encode_match_request request) net of
        (Some body, net') \<Rightarrow> (decode_match_response body, net')
      | (None, net') \<Rightarrow> (None, net'))"

definition matchmaking_leave :: "'n http \<Rightarrow> string \<Rightarrow> player_id \<Rightarrow> string \<Rightarrow> 'n \<Rightarrow> 'n" where
  "matchmaking_leave http matchmaker_endpoint player_id region net =
     snd (post_text http matchmaker_endpoint ''/matchmaking/leave''
            (encode_match_request \<lparr>mr_player_id = player_id, mr_user_id = 0, mr_elo = 0, mr_region = region\<rparr>)
            net)"

definition notify_match_found_http ::
  "'n http \<Rightarrow> string \<Rightarrow> match_notification \<Rightarrow> 'n \<Rightarrow> bool \<times> 'n" where
  "notify_match_found_http http endpoint notification net =
     (let (answer, net') = post_text http endpoint ''/gateway/notify/match''
                             (encode_match_notification notification) net
      in (answer \<noteq> None, net'))"

definition notify_search_timeout_http :: "'n http \<Rightarrow> string \<Rightarrow> player_id \<Rightarrow> 'n \<Rightarrow> bool \<times> 'n" where
  "notify_search_timeout_http http endpoint player_id net =
     (let (answer, net') = post_text http endpoint ''/gateway/notify/timeout''
                             (encode_timeout_notification player_id) net
      in (answer \<noteq> None, net'))"

definition allocation_post ::
  "'n http \<Rightarrow> string \<Rightarrow> string \<Rightarrow> game_creation_request \<Rightarrow> 'n \<Rightarrow> game_creation_response option \<times> 'n" where
  "allocation_post http service_token allocation_endpoint request net =
     (case parse_endpoint allocation_endpoint ''/allocate'' of
        None \<Rightarrow> (None, net)
      | Some e \<Rightarrow>
          (case http (pe_host e) (pe_port e)
                  \<lparr>hq_post = True, hq_target = pe_target e,
                   hq_token = (if service_token \<noteq> [] then Some service_token else None),
                   hq_body = encode_game_creation_request request\<rparr> net of
             (None, net') \<Rightarrow> (None, net')
           | (Some response, net') \<Rightarrow>
               (if hs_status response \<noteq> 200 then None
                else decode_game_creation_response (hs_body response), net')))"

text \<open>What the gateway does for a session that disconnects while it searches.\<close>

definition gateway_session_disconnected ::
  "'n http \<Rightarrow> string \<Rightarrow> string \<Rightarrow> player_session \<Rightarrow> 'n \<Rightarrow> 'n" where
  "gateway_session_disconnected http matchmaker_endpoint region s net =
     (if ps_state s = Searching then matchmaking_leave http matchmaker_endpoint (ps_id s) region net else net)"

subsection \<open>The matchmaker\<close>

record 'd matchmaker_env =
  me_games :: "'d game_repository_ops"
  me_max_rating_difference :: int
  me_queue_timeout :: int
  me_gateway_server_id :: string
  me_gateway_endpoint :: string
  me_service_token :: string
  me_max_retry_count :: nat
  me_game_server_ttl :: int

record ('d, 'n) matchmaker =
  mm_store :: in_memory_runtime_store
  mm_games :: 'd
  mm_net :: 'n
  mm_default_queue :: player_matchmaking_queue
  mm_region_queues :: "(string \<times> player_matchmaking_queue) list"

definition default_region :: string where
  "default_region = ''local''"

definition open_queue :: "'d matchmaker_env \<Rightarrow> string \<Rightarrow> in_memory_runtime_store \<Rightarrow> player_matchmaking_queue" where
  "open_queue env region st = new_player_queue st region (me_max_rating_difference env) (me_queue_timeout env)"

definition new_matchmaker ::
  "'d matchmaker_env \<Rightarrow> in_memory_runtime_store \<Rightarrow> 'd \<Rightarrow> 'n \<Rightarrow> ('d, 'n) matchmaker" where
  "new_matchmaker env st games net =
     \<lparr>mm_store = st, mm_games = games, mm_net = net,
      mm_default_queue = open_queue env default_region st, mm_region_queues = []\<rparr>"

text \<open>\<^verbatim>\<open>queue_for\<close> returns a reference; \<open>put_queue\<close> is the write through it.\<close>

definition queue_for ::
  "'d matchmaker_env \<Rightarrow> string \<Rightarrow> ('d, 'n) matchmaker \<Rightarrow> player_matchmaking_queue \<times> ('d, 'n) matchmaker" where
  "queue_for env region s =
     (if region = default_region then (mm_default_queue s, s)
      else case map_of (mm_region_queues s) region of
             Some q \<Rightarrow> (q, s)
           | None \<Rightarrow>
               (let q = open_queue env region (mm_store s)
                in (q, s\<lparr>mm_region_queues := (region, q) # mm_region_queues s\<rparr>)))"

definition put_queue ::
  "string \<Rightarrow> player_matchmaking_queue \<Rightarrow> in_memory_runtime_store \<Rightarrow> ('d, 'n) matchmaker \<Rightarrow> ('d, 'n) matchmaker" where
  "put_queue region q st s =
     (if region = default_region then s\<lparr>mm_default_queue := q, mm_store := st\<rparr>
      else s\<lparr>mm_region_queues := AList.update region q (mm_region_queues s), mm_store := st\<rparr>)"

definition on_queue ::
  "'d matchmaker_env \<Rightarrow> string \<Rightarrow>
   (player_matchmaking_queue \<times> in_memory_runtime_store \<Rightarrow> 'a \<times> player_matchmaking_queue \<times> in_memory_runtime_store) \<Rightarrow>
   ('d, 'n) matchmaker \<Rightarrow> 'a \<times> ('d, 'n) matchmaker" where
  "on_queue env region f s =
     (let (q, s1) = queue_for env region s; (x, q', st) = f (q, mm_store s1)
      in (x, put_queue region q' st s1))"

definition finalize_match ::
  "'d matchmaker_env \<Rightarrow> 'n http \<Rightarrow> int \<Rightarrow> queued_player \<Rightarrow> queued_player \<Rightarrow> ('d, 'n) matchmaker \<Rightarrow>
   unit result \<times> ('d, 'n) matchmaker" where
  "finalize_match env http now white black s =
     (let (db_game_id, games) = gro_create_game (me_games env) (to_int32 (int (qp_user_id white)))
                                  (to_int32 (int (qp_user_id black))) (mm_games s);
          request = \<lparr>rq_white_user_id = qp_user_id white, rq_black_user_id = qp_user_id black,
                     rq_db_game_id = db_game_id\<rparr>;
          (allocated, net) = remote_allocate_game (allocation_post http (me_service_token env))
                               (me_max_retry_count env) now (me_game_server_ttl env) (mm_store s)
                               request (mm_net s);
          s1 = s\<lparr>mm_games := games, mm_net := net\<rparr>
      in case allocated of
           Inl e \<Rightarrow> (Inl e, s1)
         | Inr response \<Rightarrow>
             (let routing_server_id = (if rp_game_server_id response = [] then me_gateway_server_id env
                                       else rp_game_server_id response);
                  endpoint = (case rp_endpoint response of None \<Rightarrow> '''' | Some e \<Rightarrow> e);
                  st = register_room (rp_room_id response) (qp_user_id white) (qp_user_id black)
                         routing_server_id endpoint (mm_store s1);
                  notification = \<lparr>mn_white_player_id = qp_player_id white, mn_white_user_id = qp_user_id white,
                                  mn_black_player_id = qp_player_id black, mn_black_user_id = qp_user_id black,
                                  mn_room_id = rp_room_id response, mn_server_id = routing_server_id,
                                  mn_endpoint = endpoint\<rparr>;
                  (ok, net') = notify_match_found_http http (me_gateway_endpoint env) notification (mm_net s1)
              in (Inr (), s1\<lparr>mm_store := st, mm_net := net'\<rparr>)))"

definition enter_queue ::
  "'d matchmaker_env \<Rightarrow> 'n http \<Rightarrow> int \<Rightarrow> int \<Rightarrow> match_request \<Rightarrow> ('d, 'n) matchmaker \<Rightarrow>
   match_response result \<times> ('d, 'n) matchmaker" where
  "enter_queue env http now allocation_now request s =
     (let region = (if mr_region request = [] then default_region else mr_region request);
          incoming = \<lparr>qp_player_id = mr_player_id request, qp_user_id = mr_user_id request,
                      qp_elo = mr_elo request, qp_enqueue_epoch_seconds = now\<rparr>;
          (pair, s1) = on_queue env region (\<lambda>qs. try_pair incoming (pq_remove (mr_player_id request) qs)) s
      in case pair of
           Some (white, black) \<Rightarrow>
             (case finalize_match env http allocation_now white black s1 of
                (Inl e, s2) \<Rightarrow> (Inl e, s2)
              | (Inr _, s2) \<Rightarrow> (Inr \<lparr>mp_status = Queued, mp_message = ''matched''\<rparr>, s2))
         | None \<Rightarrow>
             (Inr \<lparr>mp_status = Queued, mp_message = ''queued''\<rparr>,
              snd (on_queue env region (\<lambda>qs. ((), pq_enqueue incoming qs)) s1)))"

definition leave_queue ::
  "'d matchmaker_env \<Rightarrow> player_id \<Rightarrow> string \<Rightarrow> ('d, 'n) matchmaker \<Rightarrow> ('d, 'n) matchmaker" where
  "leave_queue env pid region s = snd (on_queue env region (\<lambda>qs. ((), pq_remove pid qs)) s)"

definition drain_timeouts ::
  "'d matchmaker_env \<Rightarrow> 'n http \<Rightarrow> int \<Rightarrow> string \<Rightarrow> ('d, 'n) matchmaker \<Rightarrow> player_id list \<times> ('d, 'n) matchmaker" where
  "drain_timeouts env http now region s =
     (let (timed_out, s1) = on_queue env region (pq_check_timeouts now) s
      in (timed_out,
          s1\<lparr>mm_net := fold (\<lambda>pid net. snd (notify_search_timeout_http http (me_gateway_endpoint env) pid net))
                         timed_out (mm_net s1)\<rparr>))"

definition process_queue ::
  "'d matchmaker_env \<Rightarrow> 'n http \<Rightarrow> int \<Rightarrow> string \<Rightarrow> ('d, 'n) matchmaker \<Rightarrow> ('d, 'n) matchmaker" where
  "process_queue env http now region s =
     (let (timed_out, s1) = on_queue env region (pq_check_timeouts now) s
      in s1\<lparr>mm_net := fold (\<lambda>pid net. snd (notify_search_timeout_http http (me_gateway_endpoint env) pid net))
                        timed_out (mm_net s1)\<rparr>)"

definition mm_waiting_count :: "string \<Rightarrow> ('d, 'n) matchmaker \<Rightarrow> nat" where
  "mm_waiting_count region s =
     (if region = default_region then pq_waiting_count (mm_default_queue s)
      else length (list_matchmaking_queue region (mm_store s)))"

subsection \<open>The listeners\<close>

definition bad_request :: http_response where
  "bad_request = \<lparr>hs_status = 400, hs_body = ''Bad Request''\<rparr>"

definition not_found :: http_response where
  "not_found = \<lparr>hs_status = 404, hs_body = ''Not Found''\<rparr>"

definition method_not_allowed :: http_response where
  "method_not_allowed = \<lparr>hs_status = 405, hs_body = ''Method Not Allowed''\<rparr>"

definition ok_response :: "string \<Rightarrow> http_response" where
  "ok_response body = \<lparr>hs_status = 200, hs_body = body\<rparr>"

definition matchmaking_handle ::
  "'d matchmaker_env \<Rightarrow> 'n http \<Rightarrow> int \<Rightarrow> int \<Rightarrow> http_request \<Rightarrow> ('d, 'n) matchmaker \<Rightarrow>
   http_response option \<times> ('d, 'n) matchmaker" where
  "matchmaking_handle env http now allocation_now request s =
     (if \<not> hq_post request then (Some method_not_allowed, s)
      else if hq_target request = ''/matchmaking/join''
      then (case decode_match_request (hq_body request) of
              None \<Rightarrow> (Some bad_request, s)
            | Some decoded \<Rightarrow>
                (case enter_queue env http now allocation_now decoded s of
                   (Inl e, s') \<Rightarrow> (None, s')
                 | (Inr response, s') \<Rightarrow> (Some (ok_response (encode_match_response response)), s')))
      else if hq_target request = ''/matchmaking/leave''
      then (case decode_match_request (hq_body request) of
              None \<Rightarrow> (Some bad_request, s)
            | Some decoded \<Rightarrow>
                (Some (ok_response (encode_match_response \<lparr>mp_status = Queued, mp_message = ''left''\<rparr>)),
                 leave_queue env (mr_player_id decoded) (mr_region decoded) s))
      else (Some not_found, s))"

text \<open>The gateway's listener; it works on the gateway's sessions.\<close>

definition notification_handle ::
  "'s transport \<Rightarrow> http_request \<Rightarrow> 's client_plane \<Rightarrow> (http_response \<times> 's client_plane) result" where
  "notification_handle tp request p =
     (if \<not> hq_post request then Inr (method_not_allowed, p)
      else if hq_target request = ''/gateway/notify/match''
      then (case decode_match_notification (hq_body request) of
              None \<Rightarrow> Inr (bad_request, p)
            | Some notification \<Rightarrow>
                bindR (handler_match_found tp notification p) (\<lambda>p'. Inr (ok_response ''OK'', p')))
      else if hq_target request = ''/gateway/notify/timeout''
      then (case decode_timeout_notification (hq_body request) of
              None \<Rightarrow> Inr (bad_request, p)
            | Some pid \<Rightarrow> bindR (handler_search_timeout tp pid p) (\<lambda>p'. Inr (ok_response ''OK'', p')))
      else Inr (not_found, p))"

text \<open>The game server's listener; the record is what its allocation handler was built with.\<close>

record creation_config =
  cf_host_id :: string
  cf_host_endpoint :: string
  cf_server_id :: string
  cf_endpoint :: string
  cf_service_token :: string

definition service_token_is_valid :: "http_request \<Rightarrow> string \<Rightarrow> bool" where
  "service_token_is_valid request expected = (if expected = [] then True else hq_token request = Some expected)"

definition creation_handle ::
  "creation_config \<Rightarrow> 's client_plane option \<Rightarrow> http_request \<Rightarrow> room_manager \<times> in_memory_runtime_store \<Rightarrow>
   (http_response \<times> room_manager \<times> in_memory_runtime_store) result" where
  "creation_handle cf plane request ms =
     (if \<not> hq_post request \<or> hq_target request \<noteq> ''/allocate'' then Inr (not_found, ms)
      else if \<not> service_token_is_valid request (cf_service_token cf)
      then Inr (\<lparr>hs_status = 401, hs_body = ''Unauthorized''\<rparr>, ms)
      else case decode_game_creation_request (hq_body request) of
             Some decoded \<Rightarrow>
               bindR (allocation_allocate (cf_host_id cf) (cf_host_endpoint cf) (cf_server_id cf)
                        (cf_endpoint cf) plane decoded ms)
                 (\<lambda>(created, ms'). Inr (ok_response (encode_game_creation_response created), ms'))
           | None \<Rightarrow> Inr (bad_request, ms))"

subsection \<open>The matchmaker's loop\<close>

record matchmaker_loop =
  ml_started_at :: int
  ml_last_tick :: int
  ml_last_queue_process :: int
  ml_last_heartbeat_at :: int
  ml_last_tick_duration_ms :: int

record matchmaker_config =
  mc_server_id :: string
  mc_region :: string
  mc_redis_enabled :: bool
  mc_heartbeat_interval :: int

definition matchmaker_metrics ::
  "matchmaker_config \<Rightarrow> int \<Rightarrow> matchmaker_loop \<Rightarrow> ('d, 'n) matchmaker \<Rightarrow> server_metrics" where
  "matchmaker_metrics cfg now ml s =
     \<lparr>sm_active_rooms = 0, sm_connected_sessions = 0, sm_matchmaking_queue = mm_waiting_count (mc_region cfg) s,
      sm_server_uptime_seconds =
        (if ml_started_at ml \<noteq> 0
         then sgn (now - ml_started_at ml) * (\<bar>now - ml_started_at ml\<bar> div 1000000000) else 0),
      sm_last_tick_duration_ms = ml_last_tick_duration_ms ml,
      sm_server_id = mc_server_id cfg, sm_region = mc_region cfg, sm_endpoint = '''',
      sm_allocation_endpoint = '''', sm_redis_enabled = mc_redis_enabled cfg,
      sm_redis_connected = (mc_redis_enabled cfg \<and> store_is_available (mm_store s))\<rparr>"

definition matchmaker_is_ready :: "matchmaker_config \<Rightarrow> ('d, 'n) matchmaker \<Rightarrow> bool" where
  "matchmaker_is_ready cfg s =
     (if mc_redis_enabled cfg \<and> \<not> store_is_available (mm_store s) then False
      else list_game_servers (mm_store s) \<noteq> [])"

definition active_game_server_count :: "('d, 'n) matchmaker \<Rightarrow> nat" where
  "active_game_server_count s = length (list_game_servers (mm_store s))"

definition matchmaker_heartbeat ::
  "matchmaker_config \<Rightarrow> int \<Rightarrow> int \<Rightarrow> matchmaker_loop \<times> ('d, 'n) matchmaker \<Rightarrow> matchmaker_loop \<times> ('d, 'n) matchmaker" where
  "matchmaker_heartbeat cfg now epoch = (\<lambda>(ml, s).
     if ml_last_heartbeat_at ml \<noteq> 0 \<and> now - ml_last_heartbeat_at ml < mc_heartbeat_interval cfg * 1000000000
     then (ml, s)
     else (ml\<lparr>ml_last_heartbeat_at := now\<rparr>,
           s\<lparr>mm_store := publish_server_heartbeat epoch (mc_server_id cfg) (mc_region cfg)
                          (matchmaker_metrics cfg now ml s) (mm_store s)\<rparr>))"

definition matchmaker_tick ::
  "'d matchmaker_env \<Rightarrow> 'n http \<Rightarrow> matchmaker_config \<Rightarrow> int \<Rightarrow> int \<Rightarrow>
   matchmaker_loop \<times> ('d, 'n) matchmaker \<Rightarrow> matchmaker_loop \<times> ('d, 'n) matchmaker" where
  "matchmaker_tick env http cfg now epoch = (\<lambda>(ml, s).
     let (ml1, s1) = (if now - ml_last_queue_process ml \<ge> 1000000000
                      then (ml\<lparr>ml_last_queue_process := now\<rparr>, process_queue env http epoch (mc_region cfg) s)
                      else (ml, s));
         elapsed = sgn (now - ml_last_tick ml1) * (\<bar>now - ml_last_tick ml1\<bar> div 1000000)
     in matchmaker_heartbeat cfg now epoch
          (ml1\<lparr>ml_last_tick_duration_ms := elapsed, ml_last_tick := now\<rparr>, s1))"

subsection \<open>The lines of the regions\<close>

text \<open>
  \<open>mm_ok\<close>: the queue object of a region, if there is one, is what opening it from the store gives.
\<close>

definition queue_at :: "string \<Rightarrow> ('d, 'n) matchmaker \<Rightarrow> player_matchmaking_queue option" where
  "queue_at r s = (if r = default_region then Some (mm_default_queue s) else map_of (mm_region_queues s) r)"

definition mm_ok :: "'d matchmaker_env \<Rightarrow> ('d, 'n) matchmaker \<Rightarrow> bool" where
  "mm_ok env s \<longleftrightarrow> (\<forall>r q. queue_at r s = Some q \<longrightarrow> q = open_queue env r (mm_store s))"

definition line :: "('d, 'n) matchmaker \<Rightarrow> string \<Rightarrow> queued_player list" where
  "line s r = list_matchmaking_queue r (mm_store s)"

lemma new_matchmaker_ok: "mm_ok env (new_matchmaker env st games net)"
  by (simp add: mm_ok_def queue_at_def new_matchmaker_def)

lemma open_queue_cong:
  "list_matchmaking_queue r st = list_matchmaking_queue r st' \<Longrightarrow> open_queue env r st = open_queue env r st'"
  by (simp add: open_queue_def new_player_queue_def)

lemma mm_ok_cong:
  assumes "mm_ok env s" "mm_default_queue s' = mm_default_queue s" "mm_region_queues s' = mm_region_queues s"
    "line s' = line s"
  shows "mm_ok env s'"
proof -
  have "open_queue env r (mm_store s') = open_queue env r (mm_store s)" for r
    using assms(4) by (intro open_queue_cong) (metis line_def)
  then show ?thesis using assms(1-3) by (simp add: mm_ok_def queue_at_def)
qed

lemma on_queue_line:
  assumes "mm_ok env s" "f (open_queue env r (mm_store s), mm_store s) = (x, open_queue env r st, st)"
    and "\<And>r'. r' \<noteq> r \<Longrightarrow> list_matchmaking_queue r' st = list_matchmaking_queue r' (mm_store s)"
  obtains s' where "on_queue env r f s = (x, s')" "mm_ok env s'" "mm_store s' = st"
    "mm_games s' = mm_games s" "mm_net s' = mm_net s"
proof -
  obtain q s1 where q: "queue_for env r s = (q, s1)" by force
  let ?s = "put_queue r (open_queue env r st) st s1"
  have s1: "q = open_queue env r (mm_store s)" "mm_store s1 = mm_store s" "mm_games s1 = mm_games s"
      "mm_net s1 = mm_net s" "\<And>r'. r' \<noteq> r \<Longrightarrow> queue_at r' s1 = queue_at r' s"
    using q assms(1)
    by (auto simp: queue_for_def mm_ok_def queue_at_def Let_def split: if_splits option.splits)
  have fields: "mm_store ?s = st" "mm_games ?s = mm_games s" "mm_net ?s = mm_net s"
    using s1 by (simp_all add: put_queue_def)
  have put: "queue_at r' ?s = (if r' = r then Some (open_queue env r st) else queue_at r' s1)" for r'
    by (simp add: put_queue_def queue_at_def update_conv')
  have "q' = open_queue env r' st" if q': "queue_at r' ?s = Some q'" for r' q'
  proof (cases "r' = r")
    case False
    then have "q' = open_queue env r' (mm_store s)"
      using q' put s1(5) assms(1) by (simp add: mm_ok_def)
    then show ?thesis using open_queue_cong [OF assms(3) [OF False], of env] by simp
  qed (use q' put in simp)
  then have "mm_ok env ?s" using fields(1) by (simp add: mm_ok_def)
  moreover have "on_queue env r f s = (x, ?s)" using q s1 assms(2) by (simp add: on_queue_def)
  ultimately show ?thesis using fields that by blast
qed

text \<open>What the operations of a queue do to the store it was opened from.\<close>

lemma pq_on_store:
  "pq_remove pid (open_queue env r st, st) =
     (let st' = set_matchmaking_queue r (filter (\<lambda>e. qp_player_id e \<noteq> pid) (list_matchmaking_queue r st)) st
      in (open_queue env r st', st'))"
  "pq_enqueue x (open_queue env r st, st) =
     (let st' = set_matchmaking_queue r (list_matchmaking_queue r st @ [x]) st in (open_queue env r st', st'))"
  "try_pair x (open_queue env r st, st) =
     (case line_spec (pq_are_compatible (me_max_rating_difference env)) x (list_matchmaking_queue r st) of
        (None, ws) \<Rightarrow> (None, open_queue env r st, st)
      | (Some y, ws) \<Rightarrow>
          (let st' = set_matchmaking_queue r ws st in (Some (y, x), open_queue env r st', st')))"
  by (simp_all add: pq_remove_def pq_enqueue_def try_pair_def try_pair_loop_extract line_spec_def
      open_queue_def new_player_queue_def persist_queue_def queue_set_list Let_def split: option.splits)

lemma pq_check_on_store:
  assumes "\<And>e. P e \<longleftrightarrow> now - qp_enqueue_epoch_seconds e \<ge> sgn (me_queue_timeout env) * (\<bar>me_queue_timeout env\<bar> div 1000)"
  shows "\<exists>st'. pq_check_timeouts now (open_queue env r st, st) =
      (map qp_player_id (filter P (list_matchmaking_queue r st)), open_queue env r st', st') \<and>
    (\<forall>r'. list_matchmaking_queue r' st' =
       (if r' = r then filter (\<lambda>e. \<not> P e) (list_matchmaking_queue r st) else list_matchmaking_queue r' st))"
proof -
  let ?ws = "list_matchmaking_queue r st"
  have e: "pq_expired now (open_queue env r st) = P"
    using assms by (simp add: fun_eq_iff pq_expired_def open_queue_def new_player_queue_def)
  show ?thesis
  proof (cases "filter P ?ws = []")
    case True
    then have "filter (\<lambda>e. \<not> P e) ?ws = ?ws" by (simp add: filter_empty_conv)
    then show ?thesis
      using True e
      by (intro exI [of _ st]) (simp add: pq_check_timeouts_def Let_def open_queue_def new_player_queue_def)
  next
    case False
    then show ?thesis
      using e
      by (intro exI [of _ "set_matchmaking_queue r (filter (\<lambda>e. \<not> P e) ?ws) st"])
        (simp add: pq_check_timeouts_def Let_def open_queue_def new_player_queue_def persist_queue_def queue_set_list)
  qed
qed

subsection \<open>Entering and leaving\<close>

text \<open>
  The specification of a request: the player is dropped from the region's line and then treated as a
  newcomer. \<open>allocation\<close> is the answer of the game servers to the match of the request with \<open>y\<close>.
\<close>

definition region_of :: "match_request \<Rightarrow> string" where
  "region_of rq = (if mr_region rq = [] then default_region else mr_region rq)"

definition newcomer :: "int \<Rightarrow> match_request \<Rightarrow> queued_player" where
  "newcomer now rq = \<lparr>qp_player_id = mr_player_id rq, qp_user_id = mr_user_id rq, qp_elo = mr_elo rq,
                      qp_enqueue_epoch_seconds = now\<rparr>"

definition entry_spec ::
  "'d matchmaker_env \<Rightarrow> int \<Rightarrow> match_request \<Rightarrow> (string \<Rightarrow> queued_player list) \<Rightarrow>
   queued_player option \<times> queued_player list" where
  "entry_spec env now rq lines =
     line_spec (pq_are_compatible (me_max_rating_difference env)) (newcomer now rq)
       (filter (\<lambda>e. qp_player_id e \<noteq> mr_player_id rq) (lines (region_of rq)))"

definition allocation ::
  "'d matchmaker_env \<Rightarrow> 'n http \<Rightarrow> int \<Rightarrow> queued_player \<Rightarrow> match_request \<Rightarrow> ('d, 'n) matchmaker \<Rightarrow>
   game_creation_response result" where
  "allocation env http now y rq s =
     fst (remote_allocate_game (allocation_post http (me_service_token env)) (me_max_retry_count env) now
       (me_game_server_ttl env) (mm_store s)
       \<lparr>rq_white_user_id = qp_user_id y, rq_black_user_id = mr_user_id rq,
        rq_db_game_id = fst (gro_create_game (me_games env) (to_int32 (int (qp_user_id y)))
                          (to_int32 (int (mr_user_id rq))) (mm_games s))\<rparr> (mm_net s))"

lemma remote_allocate_servers:
  "rs_game_servers st = rs_game_servers st' \<Longrightarrow>
   remote_allocate_game post m now ttl st = remote_allocate_game post m now ttl st'"
  by (simp add: fun_eq_iff remote_allocate_game_def list_available_servers_def list_game_servers_def)

lemma set_queue_servers [simp]: "rs_game_servers (set_matchmaking_queue r q st) = rs_game_servers st"
  by (simp add: set_matchmaking_queue_def)

lemma register_room_lines [simp]:
  "list_matchmaking_queue r (register_room i w b sid ep st) = list_matchmaking_queue r st"
  by (simp add: list_matchmaking_queue_def register_room_def Let_def)

lemma heartbeat_lines [simp]:
  "list_matchmaking_queue r (publish_server_heartbeat now sid reg m st) = list_matchmaking_queue r st"
  by (simp add: list_matchmaking_queue_def publish_server_heartbeat_def Let_def)

text \<open>The end of a match: the lines stay, and on success both users are located in the new room.\<close>

lemma finalize_match_line:
  assumes "mm_ok env s" "qp_user_id x = mr_user_id rq"
  shows "\<exists>r s'. finalize_match env http now y x s = (r, s') \<and> mm_ok env s' \<and> line s' = line s \<and>
    (case allocation env http now y rq s of
       Inl e \<Rightarrow> r = Inl e \<and> mm_store s' = mm_store s
     | Inr response \<Rightarrow> r = Inr () \<and>
         (\<forall>u \<in> {qp_user_id y, mr_user_id rq}. map_option loc_room_id (find_player_location u (mm_store s')) =
            Some (rp_room_id response)))"
proof -
  obtain db games where g: "gro_create_game (me_games env) (to_int32 (int (qp_user_id y)))
      (to_int32 (int (mr_user_id rq))) (mm_games s) = (db, games)" by force
  let ?rq = "\<lparr>rq_white_user_id = qp_user_id y, rq_black_user_id = mr_user_id rq, rq_db_game_id = db\<rparr>"
  obtain a net where a: "remote_allocate_game (allocation_post http (me_service_token env))
      (me_max_retry_count env) now (me_game_server_ttl env) (mm_store s) ?rq (mm_net s) = (a, net)" by force
  then have alloc: "allocation env http now y rq s = a" using g by (simp add: allocation_def)
  show ?thesis
  proof (cases a)
    case (Inl e)
    have "mm_ok env (s\<lparr>mm_games := games, mm_net := net\<rparr>)"
      by (rule mm_ok_cong [OF assms(1)]) (simp_all add: line_def fun_eq_iff)
    then show ?thesis using g a alloc Inl assms(2) by (simp add: finalize_match_def line_def fun_eq_iff)
  next
    case (Inr response)
    have "mm_ok env (s\<lparr>mm_games := games, mm_store := register_room i w b sid ep (mm_store s), mm_net := n\<rparr>)"
      for n i w b sid ep
      by (rule mm_ok_cong [OF assms(1)]) (simp_all add: line_def fun_eq_iff)
    then show ?thesis
      using g a alloc Inr assms(2)
      by (simp add: finalize_match_def line_def fun_eq_iff find_location_register Let_def case_prod_beta)
  qed
qed

lemma entry_on_store:
  "try_pair (newcomer now rq) (pq_remove (mr_player_id rq) (open_queue env r st, st)) =
     (let st1 = set_matchmaking_queue r (filter (\<lambda>e. qp_player_id e \<noteq> mr_player_id rq) (list_matchmaking_queue r st)) st
      in case line_spec (pq_are_compatible (me_max_rating_difference env)) (newcomer now rq)
             (filter (\<lambda>e. qp_player_id e \<noteq> mr_player_id rq) (list_matchmaking_queue r st)) of
           (None, ws) \<Rightarrow> (None, open_queue env r st1, st1)
         | (Some y, ws) \<Rightarrow> (let st2 = set_matchmaking_queue r ws st1
                          in (Some (y, newcomer now rq), open_queue env r st2, st2)))"
  by (simp add: pq_on_store Let_def queue_set_list)

text \<open>
  A request on the lines: the region's line changes as specified and no other line does, whether or
  not the allocation succeeds.
\<close>

lemma enter_queue_line:
  assumes "mm_ok env s" "entry_spec env now rq (line s) = (partner, ws)"
  shows "\<exists>r s'. enter_queue env http now anow rq s = (r, s') \<and> mm_ok env s' \<and>
    line s' = (line s)(region_of rq := ws) \<and>
    (case partner of
       None \<Rightarrow> r = Inr \<lparr>mp_status = Queued, mp_message = ''queued''\<rparr> \<and> mm_net s' = mm_net s
     | Some y \<Rightarrow>
         (case allocation env http anow y rq s of
            Inl e \<Rightarrow> r = Inl e
          | Inr response \<Rightarrow> r = Inr \<lparr>mp_status = Queued, mp_message = ''matched''\<rparr> \<and>
              (\<forall>u \<in> {qp_user_id y, mr_user_id rq}.
                 map_option loc_room_id (find_player_location u (mm_store s')) = Some (rp_room_id response))))"
proof -
  let ?R = "region_of rq" and ?x = "newcomer now rq" and ?st = "mm_store s"
  let ?ws = "filter (\<lambda>e. qp_player_id e \<noteq> mr_player_id rq) (list_matchmaking_queue ?R ?st)"
  let ?st1 = "set_matchmaking_queue ?R ?ws ?st"
  let ?f = "\<lambda>qs. try_pair ?x (pq_remove (mr_player_id rq) qs)"
  have spec: "line_spec (pq_are_compatible (me_max_rating_difference env)) ?x ?ws = (partner, ws)"
    using assms(2) by (simp add: entry_spec_def line_def)
  have unfold: "enter_queue env http now anow rq s =
      (let (pair, s1) = on_queue env ?R ?f s
       in case pair of
            Some (white, black) \<Rightarrow>
              (case finalize_match env http anow white black s1 of
                 (Inl e, s2) \<Rightarrow> (Inl e, s2)
               | (Inr _, s2) \<Rightarrow> (Inr \<lparr>mp_status = Queued, mp_message = ''matched''\<rparr>, s2))
          | None \<Rightarrow> (Inr \<lparr>mp_status = Queued, mp_message = ''queued''\<rparr>,
                     snd (on_queue env ?R (\<lambda>qs. ((), pq_enqueue ?x qs)) s1)))"
    unfolding enter_queue_def region_of_def newcomer_def Let_def by (rule refl)
  show ?thesis
  proof (cases partner)
    case None
    have f: "?f (open_queue env ?R ?st, ?st) = (None, open_queue env ?R ?st1, ?st1)"
      using spec None by (simp add: entry_on_store Let_def)
    obtain s1 where s1: "on_queue env ?R ?f s = (None, s1)" "mm_ok env s1" "mm_store s1 = ?st1"
        "mm_net s1 = mm_net s"
      by (rule on_queue_line [where f = ?f, OF assms(1) f]) (simp_all add: queue_set_list)
    have ws: "ws = ?ws @ [?x]" using spec None by (auto simp: line_spec_def split: option.splits)
    let ?st2 = "set_matchmaking_queue ?R ws ?st1"
    have g: "(\<lambda>qs. ((), pq_enqueue ?x qs)) (open_queue env ?R (mm_store s1), mm_store s1) =
        ((), open_queue env ?R ?st2, ?st2)"
      using s1(3) ws by (simp add: pq_on_store Let_def queue_set_list)
    obtain s2 where s2: "on_queue env ?R (\<lambda>qs. ((), pq_enqueue ?x qs)) s1 = ((), s2)" "mm_ok env s2"
        "mm_store s2 = ?st2" "mm_net s2 = mm_net s1"
      by (rule on_queue_line [where f = "\<lambda>qs. ((), pq_enqueue ?x qs)", OF s1(2) g]) (simp_all add: s1(3) queue_set_list)
    show ?thesis
      using None s1 s2 unfold by (auto simp: line_def fun_eq_iff queue_set_list)
  next
    case (Some y)
    let ?st2 = "set_matchmaking_queue ?R ws ?st1"
    have f: "?f (open_queue env ?R ?st, ?st) = (Some (y, ?x), open_queue env ?R ?st2, ?st2)"
      using spec Some by (simp add: entry_on_store Let_def)
    obtain s1 where s1: "on_queue env ?R ?f s = (Some (y, ?x), s1)" "mm_ok env s1" "mm_store s1 = ?st2"
        "mm_net s1 = mm_net s" "mm_games s1 = mm_games s"
      by (rule on_queue_line [where f = ?f, OF assms(1) f]) (simp_all add: queue_set_list)
    have a: "allocation env http anow y rq s1 = allocation env http anow y rq s"
      using s1 remote_allocate_servers [of ?st2 ?st "allocation_post http (me_service_token env)"]
      by (simp add: allocation_def)
    obtain r s2 where s2: "finalize_match env http anow y ?x s1 = (r, s2)" "mm_ok env s2" "line s2 = line s1"
        "case allocation env http anow y rq s of
           Inl e \<Rightarrow> r = Inl e \<and> mm_store s2 = mm_store s1
         | Inr response \<Rightarrow> r = Inr () \<and>
             (\<forall>u \<in> {qp_user_id y, mr_user_id rq}. map_option loc_room_id (find_player_location u (mm_store s2)) =
                Some (rp_room_id response))"
      using finalize_match_line [OF s1(2), of ?x rq http anow y] a by (auto simp: newcomer_def)
    have "line s1 = (line s)(?R := ws)" using s1(3) by (simp add: line_def fun_eq_iff queue_set_list)
    then show ?thesis
      using Some s1(1) s2 unfold by (cases "allocation env http anow y rq s") auto
  qed
qed

lemma leave_queue_line:
  assumes "mm_ok env s"
  shows "mm_ok env (leave_queue env pid r s) \<and>
    line (leave_queue env pid r s) = (line s)(r := filter (\<lambda>e. qp_player_id e \<noteq> pid) (line s r))"
proof -
  let ?f = "\<lambda>qs. ((), pq_remove pid qs)"
  let ?st = "set_matchmaking_queue r (filter (\<lambda>e. qp_player_id e \<noteq> pid) (line s r)) (mm_store s)"
  have f: "?f (open_queue env r (mm_store s), mm_store s) = ((), open_queue env r ?st, ?st)"
    by (simp add: pq_on_store Let_def line_def)
  obtain s' where "on_queue env r ?f s = ((), s')" "mm_ok env s'" "mm_store s' = ?st"
    by (rule on_queue_line [where f = ?f, OF assms f]) (simp_all add: queue_set_list)
  then show ?thesis by (simp add: leave_queue_def line_def fun_eq_iff queue_set_list)
qed

text \<open>Timeouts: the overdue players of the region leave its line and are notified in order.\<close>

definition mm_overdue :: "'d matchmaker_env \<Rightarrow> int \<Rightarrow> queued_player \<Rightarrow> bool" where
  "mm_overdue env now e \<longleftrightarrow>
     now - qp_enqueue_epoch_seconds e \<ge> sgn (me_queue_timeout env) * (\<bar>me_queue_timeout env\<bar> div 1000)"

lemma timeouts_line:
  assumes "mm_ok env s"
  shows "\<exists>s'. drain_timeouts env http now r s = (map qp_player_id (filter (mm_overdue env now) (line s r)), s') \<and>
    process_queue env http now r s = s' \<and> mm_ok env s' \<and>
    line s' = (line s)(r := filter (\<lambda>e. \<not> mm_overdue env now e) (line s r)) \<and>
    mm_net s' = fold (\<lambda>pid net. snd (notify_search_timeout_http http (me_gateway_endpoint env) pid net))
      (map qp_player_id (filter (mm_overdue env now) (line s r))) (mm_net s)"
proof -
  obtain st where st: "pq_check_timeouts now (open_queue env r (mm_store s), mm_store s) =
        (map qp_player_id (filter (mm_overdue env now) (line s r)), open_queue env r st, st)"
      "\<forall>r'. list_matchmaking_queue r' st =
         (if r' = r then filter (\<lambda>e. \<not> mm_overdue env now e) (line s r) else line s r')"
    using pq_check_on_store [where P = "mm_overdue env now" and env = env and now = now and r = r and st = "mm_store s"]
    unfolding line_def mm_overdue_def by blast
  obtain s' where s': "on_queue env r (pq_check_timeouts now) s =
        (map qp_player_id (filter (mm_overdue env now) (line s r)), s')"
      "mm_ok env s'" "mm_store s' = st" "mm_net s' = mm_net s"
    by (rule on_queue_line [where f = "pq_check_timeouts now", OF assms st(1)]) (use st(2) in \<open>simp_all add: line_def\<close>)
  have ok: "mm_ok env (s'\<lparr>mm_net := n\<rparr>)" for n
    by (rule mm_ok_cong [OF s'(2)]) (simp_all add: line_def fun_eq_iff)
  show ?thesis
    using s' st(2) ok by (simp add: drain_timeouts_def process_queue_def line_def fun_eq_iff)
qed

subsection \<open>Runs of the matchmaker\<close>

datatype matchmaker_event =
    Request http_request int int
  | Round matchmaker_config int int

fun matchmaker_step ::
  "'d matchmaker_env \<Rightarrow> 'n http \<Rightarrow> matchmaker_event \<Rightarrow>
   matchmaker_loop \<times> ('d, 'n) matchmaker \<Rightarrow> matchmaker_loop \<times> ('d, 'n) matchmaker" where
  "matchmaker_step env http (Request request now anow) (ml, s) =
     (ml, snd (matchmaking_handle env http now anow request s))"

| "matchmaker_step env http (Round cfg now epoch) (ml, s) = matchmaker_tick env http cfg now epoch (ml, s)"

text \<open>
  \<open>lines_ok\<close>: in every region no player is queued twice and no two players could be matched.
\<close>

definition lines_ok :: "'d matchmaker_env \<Rightarrow> (string \<Rightarrow> queued_player list) \<Rightarrow> bool" where
  "lines_ok env lines \<longleftrightarrow>
     (\<forall>r. distinct (map qp_player_id (lines r)) \<and>
          settled (pq_are_compatible (me_max_rating_difference env)) (lines r))"

lemma lines_ok_filter: "lines_ok env lines \<Longrightarrow> lines_ok env (lines(r := filter P (lines r)))"
  by (auto simp: lines_ok_def settled_def sorted_wrt_filter distinct_map_filter)

lemma settled_filter: "settled fits ws \<Longrightarrow> settled fits (filter P ws)"
  by (simp add: settled_def sorted_wrt_filter)

text \<open>Only requests and rounds change the lines.\<close>

lemma lines_ok_entry:
  assumes "lines_ok env lines"
  shows "lines_ok env (lines(region_of rq := snd (entry_spec env now rq lines)))"
proof -
  let ?fits = "pq_are_compatible (me_max_rating_difference env)"
  let ?ws = "filter (\<lambda>e. qp_player_id e \<noteq> mr_player_id rq) (lines (region_of rq))"
  have s: "settled ?fits ?ws" "distinct (map qp_player_id ?ws)"
    using assms by (simp_all add: lines_ok_def settled_filter distinct_map_filter)
  have "settled ?fits (snd (line_spec ?fits (newcomer now rq) ?ws))"
    using line_spec_settled [OF s(1), of "newcomer now rq"] by (simp add: pq_are_compatible_def abs_minus_commute)
  moreover have "distinct (map qp_player_id (snd (line_spec ?fits (newcomer now rq) ?ws)))"
    using s(2)
    by (auto simp: line_spec_def newcomer_def extract_Some_iff disjoint_iff_not_equal split: option.splits)
  ultimately show ?thesis using assms by (simp add: lines_ok_def entry_spec_def)
qed

lemma matchmaking_handle_ok:
  assumes "mm_ok env s" "lines_ok env (line s)"
  shows "mm_ok env (snd (matchmaking_handle env http now anow request s)) \<and>
    lines_ok env (line (snd (matchmaking_handle env http now anow request s)))"
proof -
  have "mm_ok env (snd (enter_queue env http now anow rq s)) \<and>
      lines_ok env (line (snd (enter_queue env http now anow rq s)))" for rq
    using enter_queue_line [OF assms(1) surjective_pairing, where now = now and rq = rq and http = http and anow = anow]
      lines_ok_entry [OF assms(2), of rq now] by auto
  moreover have "mm_ok env (leave_queue env pid r s) \<and> lines_ok env (line (leave_queue env pid r s))" for pid r
    using leave_queue_line [OF assms(1), of pid r] lines_ok_filter [OF assms(2)] by simp
  ultimately show ?thesis
    using assms by (simp add: matchmaking_handle_def case_prod_beta split: option.splits sum.splits)
qed

lemma heartbeat_line:
  "line (snd (matchmaker_heartbeat cfg now epoch (ml, s))) = line s"
  "mm_ok env s \<Longrightarrow> mm_ok env (snd (matchmaker_heartbeat cfg now epoch (ml, s)))"
  by (auto simp: matchmaker_heartbeat_def line_def fun_eq_iff intro: mm_ok_cong)

lemma matchmaker_step_ok:
  assumes "mm_ok env (snd t)" "lines_ok env (line (snd t))"
  shows "mm_ok env (snd (matchmaker_step env http ev t)) \<and> lines_ok env (line (snd (matchmaker_step env http ev t)))"
proof (cases ev)
  case (Round cfg now epoch)
  obtain ml s where t: "t = (ml, s)" by force
  have "mm_ok env (process_queue env http epoch r s) \<and> lines_ok env (line (process_queue env http epoch r s))" for r
    using timeouts_line [of env s http epoch r] assms lines_ok_filter [of env "line s"] t by auto
  then show ?thesis
    using Round t assms by (auto simp: matchmaker_tick_def Let_def heartbeat_line)
next
  case (Request request now anow)
  then show ?thesis
    using matchmaking_handle_ok [OF assms, of http now anow request] by (cases t) simp
qed

lemma matchmaker_run_ok:
  assumes "mm_ok env (snd t)" "lines_ok env (line (snd t))"
  shows "mm_ok env (snd (fold (matchmaker_step env http) evs t)) \<and>
    lines_ok env (line (snd (fold (matchmaker_step env http) evs t)))"
  using assms
proof (induction evs arbitrary: t)
  case (Cons ev evs)
  then show ?case using matchmaker_step_ok [OF Cons.prems, of http ev] by (simp del: matchmaker_step.simps)
qed simp

subsection \<open>Calls across processes\<close>

text \<open>
  When the network delivers a client's request to the listener it is meant for, the remote call is
  the local one. \<open>delivers\<close> says so of an endpoint and a path; the listener's state is the state of
  the network.
\<close>

definition delivers ::
  "'n http \<Rightarrow> string \<Rightarrow> string \<Rightarrow> (http_request \<Rightarrow> 'n \<Rightarrow> http_response option \<times> 'n) \<Rightarrow> bool" where
  "delivers http endpoint path handle \<longleftrightarrow>
     (\<exists>e. parse_endpoint endpoint path = Some e \<and> pe_target e = path \<and>
        (\<forall>request net. http (pe_host e) (pe_port e) request net = handle request net))"

definition request_fits :: "match_request \<Rightarrow> bool" where
  "request_fits rq \<longleftrightarrow> id64 (mr_player_id rq) \<and> id64 (mr_user_id rq) \<and> int32 (mr_elo rq) \<and> plain (mr_region rq)"

lemma post_text_delivered:
  "delivers http endpoint path handle \<Longrightarrow>
   post_text http endpoint path body net =
     (case handle \<lparr>hq_post = True, hq_target = path, hq_token = None, hq_body = body\<rparr> net of
        (None, net') \<Rightarrow> (None, net')
      | (Some response, net') \<Rightarrow> (if hs_status response \<noteq> 200 then None else Some (hs_body response), net'))"
  by (auto simp: delivers_def post_text_def)

lemma enter_queue_response:
  "enter_queue env http now anow rq s = (Inr r, s') \<Longrightarrow> plain (mp_message r)"
  by (auto simp: enter_queue_def Let_def plain_def split: prod.splits option.splits sum.splits if_splits)

lemma join_delivered:
  assumes "delivers http endpoint ''/matchmaking/join'' (matchmaking_handle env h now anow)" "request_fits rq"
  shows "matchmaking_join http endpoint rq s =
    (case enter_queue env h now anow rq s of (Inl e, s') \<Rightarrow> (None, s') | (Inr r, s') \<Rightarrow> (Some r, s'))"
proof -
  have d: "decode_match_request (encode_match_request rq) = Some rq"
    using assms(2) by (auto simp: request_fits_def intro: match_request_round_trip)
  obtain res s' where e: "enter_queue env h now anow rq s = (res, s')" by force
  show ?thesis
  proof (cases res)
    case (Inr r)
    then have "decode_match_response (encode_match_response r) = Some r"
      using enter_queue_response e by (intro match_response_round_trip) blast
    then show ?thesis
      using Inr e d post_text_delivered [OF assms(1)]
      by (simp add: matchmaking_join_def matchmaking_handle_def ok_response_def)
  qed (use e d post_text_delivered [OF assms(1)] in \<open>simp add: matchmaking_join_def matchmaking_handle_def\<close>)
qed

lemma leave_delivered:
  assumes "delivers http endpoint ''/matchmaking/leave'' (matchmaking_handle env h now anow)"
    "id64 pid" "plain region"
  shows "matchmaking_leave http endpoint pid region s = leave_queue env pid region s"
proof -
  let ?rq = "\<lparr>mr_player_id = pid, mr_user_id = 0, mr_elo = 0, mr_region = region\<rparr>"
  have "decode_match_request (encode_match_request ?rq) = Some ?rq"
    using assms(2,3) by (intro match_request_round_trip) (simp_all add: id64_def int32_def)
  then show ?thesis
    using post_text_delivered [OF assms(1)] by (simp add: matchmaking_leave_def matchmaking_handle_def ok_response_def)
qed

text \<open>The game server's and the gateway's listeners, run over their state; a throw closes the connection.\<close>

definition served :: "(http_request \<Rightarrow> 'm \<Rightarrow> (http_response \<times> 'm) result) \<Rightarrow> http_request \<Rightarrow> 'm \<Rightarrow> http_response option \<times> 'm" where
  "served handle request m = (case handle request m of Inl e \<Rightarrow> (None, m) | Inr (response, m') \<Rightarrow> (Some response, m'))"

definition creation_fits :: "creation_config \<Rightarrow> bool" where
  "creation_fits cf \<longleftrightarrow> plain (cf_host_id cf) \<and> plain (cf_host_endpoint cf) \<and> plain (cf_server_id cf) \<and>
     plain (cf_endpoint cf) \<and> cf_host_endpoint cf \<noteq> []"

lemma allocated_fits:
  assumes "allocation_allocate hid hep sid ep plane rq (mg, st) = Inr (rp, mg', st')"
    "plain hid" "plain hep" "plain sid" "plain ep" "hep \<noteq> []" "id64 (mg_next_id mg)"
  shows "decode_game_creation_response (encode_game_creation_response rp) = Some rp"
proof -
  obtain r mg1 where h: "host_create_room hid hep plane rq mg = Inr (r, mg1)"
    using assms(1) by (auto simp: allocation_allocate_def bindR_Inr_iff)
  then have "rp_room_id r = mg_next_id mg" "rp_game_server_id r = hid" "rp_endpoint r = Some hep"
    by (auto simp: host_create_room_def create_room_def Let_def bindR_Inr_iff split: option.splits)
  then have "rp_room_id rp = mg_next_id mg" "rp_game_server_id rp = (if hid = [] then sid else hid)"
    "rp_endpoint rp = Some hep"
    using assms(1,6) h by (auto simp: allocation_allocate_def Let_def bindR_Inr_iff)
  then show ?thesis using assms(2-7) by (intro game_response_round_trip) auto
qed

lemma allocation_delivered:
  assumes "delivers http endpoint ''/allocate'' (served (creation_handle cf plane))" "creation_fits cf"
    "cf_service_token cf = token"
    "id64 (rq_white_user_id rq)" "id64 (rq_black_user_id rq)" "\<forall>g. rq_db_game_id rq = Some g \<longrightarrow> int32 g"
    "id64 (mg_next_id (fst ms))"
  shows "allocation_post http token endpoint rq ms =
    (case allocation_allocate (cf_host_id cf) (cf_host_endpoint cf) (cf_server_id cf) (cf_endpoint cf) plane rq ms of
       Inl e \<Rightarrow> (None, ms) | Inr (response, ms') \<Rightarrow> (Some response, ms'))"
proof -
  obtain e where e: "parse_endpoint endpoint ''/allocate'' = Some e" "pe_target e = ''/allocate''"
    "\<And>request net. http (pe_host e) (pe_port e) request net = served (creation_handle cf plane) request net"
    using assms(1) by (auto simp: delivers_def)
  have d: "decode_game_creation_request (encode_game_creation_request rq) = Some rq"
    using assms by (intro game_creation_round_trip) auto
  let ?a = "allocation_allocate (cf_host_id cf) (cf_host_endpoint cf) (cf_server_id cf) (cf_endpoint cf) plane rq ms"
  have c: "creation_handle cf plane \<lparr>hq_post = True, hq_target = ''/allocate'',
        hq_token = (if token \<noteq> [] then Some token else None), hq_body = encode_game_creation_request rq\<rparr> ms =
      bindR ?a (\<lambda>(created, ms'). Inr (ok_response (encode_game_creation_response created), ms'))"
    using d assms(3) by (simp add: creation_handle_def service_token_is_valid_def)
  show ?thesis
  proof (cases ?a)
    case (Inr x)
    obtain rp ms' where x: "x = (rp, ms')" by (cases x)
    have "decode_game_creation_response (encode_game_creation_response rp) = Some rp"
      using Inr x assms(2,7) by (cases ms; cases ms') (auto simp: creation_fits_def intro: allocated_fits)
    then show ?thesis
      using Inr x c e by (simp add: allocation_post_def served_def ok_response_def)
  qed (use c e in \<open>simp add: allocation_post_def served_def\<close>)
qed

lemma notification_delivered:
  assumes "delivers http endpoint ''/gateway/notify/match'' (served (notification_handle tp))"
    "id64 (mn_white_player_id n)" "id64 (mn_white_user_id n)" "id64 (mn_black_player_id n)"
    "id64 (mn_black_user_id n)" "id64 (mn_room_id n)" "plain (mn_server_id n)" "plain (mn_endpoint n)"
  shows "notify_match_found_http http endpoint n p =
    (case handler_match_found tp n p of Inl e \<Rightarrow> (False, p) | Inr p' \<Rightarrow> (True, p'))"
proof -
  have "decode_match_notification (encode_match_notification n) = Some n"
    using assms by (intro match_notification_round_trip)
  then show ?thesis
    using post_text_delivered [OF assms(1)]
    by (cases "handler_match_found tp n p")
      (simp_all add: notify_match_found_http_def notification_handle_def served_def ok_response_def)
qed

lemma timeout_delivered:
  assumes "delivers http endpoint ''/gateway/notify/timeout'' (served (notification_handle tp))" "id64 pid"
  shows "notify_search_timeout_http http endpoint pid p =
    (case handler_search_timeout tp pid p of Inl e \<Rightarrow> (False, p) | Inr p' \<Rightarrow> (True, p'))"
  using post_text_delivered [OF assms(1)] timeout_round_trip [OF assms(2)]
  by (cases "handler_search_timeout tp pid p")
    (simp_all add: notify_search_timeout_http_def notification_handle_def served_def ok_response_def)

end
