(* ===== verification/Service_Theorems.thy ===== *)
theory Service_Theorems
  imports Server_Theorems Server_Round Remote_Matchmaking
begin

section \<open>Theorems about the running server\<close>

text \<open>
  The properties of the composed server: a whole round of the monolithic server, the matches it
  makes, the matchmaker's line and the choice of a game server. Each is followed by a witness that
  applies it to a concrete server.
\<close>

subsection \<open>A small server\<close>

text \<open>
  Two logged-in clients with ratings 1200 and 1250 on a line that delivers nothing, the first of
  them waiting for an opponent since time 0; a game repository that numbers every game 7.
\<close>

definition silent_transport :: "unit transport" where
  "silent_transport =
     \<lparr>tp_available = (\<lambda>s. (Inr 0, s)), tp_non_blocking = (\<lambda>s. False),
      tp_set_non_blocking = (\<lambda>b s. (None, s)), tp_peek = (\<lambda>s. ((Some WouldBlock, 0), s)),
      tp_read = (\<lambda>s. (Inl WouldBlock, s)), tp_write = (\<lambda>m s. (None, s)), tp_close = (\<lambda>s. s)\<rparr>"

definition demo_env :: "(unit, in_memory_user_repository, unit) server_env" where
  "demo_env =
     \<lparr>se_transport = silent_transport, se_users = in_memory_ops,
      se_games = \<lparr>gro_create_game = (\<lambda>w b d. (Some 7, d)), gro_finish_game = (\<lambda>g w d. (True, d)),
                  gro_finish_game_without_winner = (\<lambda>g d. (True, d))\<rparr>,
      se_pow10 = (\<lambda>d. if d < 0 then 1 / 10 else 10), se_server_id = ''s1'', se_endpoint = ''ws://s1'',
      se_region = ''eu''\<rparr>"

definition demo_plane :: "unit client_plane" where
  "demo_plane =
     update_session 1 request_play (update_session 0 request_play
       (update_session 1 (assign_user 2 ''gili'' 1250) (update_session 0 (assign_user 1 ''ana'' 1200)
         (with_client () (with_client () empty_plane)))))"

definition demo_server :: "(unit, in_memory_user_repository, unit) server" where
  "demo_server =
     \<lparr>sv_plane = demo_plane,
      sv_queue = \<lparr>mq_max_rating_difference = 100, mq_queue_timeout = 60000,
                  mq_waiting = [\<lparr>we_session = 0, we_enqueue_time = 0\<rparr>]\<rparr>,
      sv_rooms = new_manager demo_board, sv_users = empty_user_repository, sv_games = (),
      sv_store = empty_runtime_store\<rparr>"

lemma empty_plane_ok: "plane_ok empty_plane"
  by (simp add: plane_ok_def empty_plane_def)

lemma demo_plane_ok: "plane_ok demo_plane"
  unfolding demo_plane_def by (intro update_ok steps_ops with_client_ok empty_plane_ok)

lemma demo_sessions:
  "find_session 0 demo_plane =
     Some \<lparr>ps_id = 0, ps_state = Searching, ps_user_id = Some 1,
           ps_player_profile = Some \<lparr>pl_id = 1, pl_username = ''ana'', pl_rating = 1200\<rparr>,
           ps_side = None, ps_room_id = None, ps_connection = Some 0\<rparr>"
  "find_session 1 demo_plane =
     Some \<lparr>ps_id = 1, ps_state = Searching, ps_user_id = Some 2,
           ps_player_profile = Some \<lparr>pl_id = 2, pl_username = ''gili'', pl_rating = 1250\<rparr>,
           ps_side = None, ps_room_id = None, ps_connection = Some 1\<rparr>"
  by code_simp+

lemma demo_waiting: "waiting_user demo_plane 0" "waiting_user demo_plane 1"
  using demo_sessions by (simp_all add: waiting_user_def has_user_def)

lemma demo_server_ok: "server_ok demo_server"
  using demo_plane_ok demo_waiting new_manager_ok [OF demo_flight]
  by (simp add: server_ok_def demo_server_def line_ok_def waiting_ids_def seats_ok_def find_room_def new_manager_def)

subsection \<open>A round of the server\<close>

text \<open>
  C25. A round of the monolithic server (accept, lobby, timeouts, pruning, heartbeat, joins, every
  active room, cleanup) from a consistent server, whatever the clients send and whatever the
  transport, the repositories and the clocks answer, ends in one of three ways: the acceptor throws
  and the round with it; a session's client is found gone and pruning reads its freed connection;
  or the round completes and the server is consistent again. No other error, no invalid access and
  no missing value occurs anywhere in it.
\<close>

theorem server_round_outcome:
  assumes "server_ok sv"
  shows "case gateway_handlers (tc_env cfg) inp sv of
      Inl e \<Rightarrow> e = RuntimeError \<and> (in_accept inp = AcceptFailed \<or> in_accept inp = HandshakeFailed) \<and>
             monolith_tick cfg inp ((gl, rl), sv) = Inl RuntimeError
    | Inr sv1 \<Rightarrow>
        if \<exists>s \<in> set (cp_sessions (sv_plane sv1)). found_gone (se_transport (tc_env cfg)) (sv_plane sv1) s
        then monolith_tick cfg inp ((gl, rl), sv) = Inl UndefinedBehaviour
        else ensures (monolith_tick cfg inp ((gl, rl), sv)) (\<lambda>(ls, sv'). server_ok sv')"
  using assms by (rule round_outcome)

definition idle_input :: "unit tick_input" where
  "idle_input =
     \<lparr>in_accept = NoClient, in_salt = (\<lambda>i. [1]), in_join_time = (\<lambda>i. 0), in_timeout_time = 1,
      in_gateway_time = 2, in_runtime_time = 3, in_rooms_done_time = 4, in_epoch = 5\<rparr>"

definition demo_config :: "(unit, in_memory_user_repository, unit) tick_config" where
  "demo_config =
     \<lparr>tc_env = demo_env, tc_gateway_server_id = ''g1'', tc_allocation_endpoint = ''http://s1'',
      tc_heartbeat_interval = 5, tc_redis_enabled = False\<rparr>"

definition fresh_loop :: loop_state where
  "fresh_loop =
     \<lparr>lp_started_at = 0, lp_last_tick = 0, lp_last_heartbeat_at = 0, lp_last_tick_duration_ms = 0\<rparr>"

lemma idle_handlers:
  "case gateway_handlers demo_env idle_input demo_server of
     Inl e \<Rightarrow> False | Inr sv1 \<Rightarrow> sv_plane sv1 = demo_plane"
  by code_simp

theorem server_round_outcome_witness:
  "\<exists>ls sv'. monolith_tick demo_config idle_input ((fresh_loop, fresh_loop), demo_server) = Inr (ls, sv') \<and>
     server_ok sv'"
proof -
  have env: "tc_env demo_config = demo_env" by (simp add: demo_config_def)
  obtain sv1 where sv1: "gateway_handlers demo_env idle_input demo_server = Inr sv1" "sv_plane sv1 = demo_plane"
    using idle_handlers by (auto split: sum.splits)
  have gone: "\<not> (\<exists>s \<in> set (cp_sessions demo_plane). found_gone (se_transport demo_env) demo_plane s)"
    by code_simp
  from server_round_outcome [OF demo_server_ok, where cfg = demo_config and inp = idle_input
      and gl = fresh_loop and rl = fresh_loop] gone
  show ?thesis by (auto simp: env sv1 ensures_iff)
qed

subsection \<open>Matches\<close>



subsection \<open>The matchmaker\<close>

text \<open>
  C27. A request to the matchmaker, on every branch, as a change of the abstract state that gives
  each region its line of waiting players. Whatever queue object holds the region, an earlier entry
  of the same player is dropped, then the newcomer takes the first compatible player off the line or
  joins its end, and no other region changes. Without a partner the answer is \<open>queued\<close>. With one, the
  answer is the allocator's failure, in which case the partner has left the line all the same and
  both players are in no queue and no room, or \<open>matched\<close>, and the runtime store locates both users in
  the allocated room.
\<close>

theorem matchmaker_request_refines:
  assumes "mm_ok env s" "entry_spec env now rq (line s) = (partner, ws)"
  shows "\<exists>r s'. enter_queue env http now anow rq s = (r, s') \<and> mm_ok env s' \<and>
    line s' = (line s)(region_of rq := ws) \<and>
    (case partner of
       None \<Rightarrow> r = Inr \<lparr>mp_status = Queued, mp_message = ''queued''\<rparr> \<and> mm_net s' = mm_net s
     | Some y \<Rightarrow>
         (case allocation env http anow y rq s of
            Inl e \<Rightarrow> r = Inl e
          | Inr response \<Rightarrow> r = Inr \<lparr>mp_status = Queued, mp_message = ''matched''\<rparr> \<and>
              (\<forall>u \<in> {qp_user_id y, mr_user_id rq}.
                 map_option loc_room_id (find_player_location u (mm_store s')) = Some (rp_room_id response))))"
  using assms by (rule enter_queue_line)

text \<open>A matchmaker with one player waiting in the default region and no game server.\<close>

definition demo_matchmaker_env :: "unit matchmaker_env" where
  "demo_matchmaker_env =
     \<lparr>me_games = se_games demo_env, me_max_rating_difference = 100, me_queue_timeout = 60000,
      me_gateway_server_id = ''g1'', me_gateway_endpoint = ''http://g1:9100'', me_service_token = '''',
      me_max_retry_count = 3, me_game_server_ttl = 15\<rparr>"

definition lone_player :: queued_player where
  "lone_player = \<lparr>qp_player_id = 0, qp_user_id = 1, qp_elo = 1200, qp_enqueue_epoch_seconds = 10\<rparr>"

definition demo_matchmaker :: "(unit, unit) matchmaker" where
  "demo_matchmaker =
     new_matchmaker demo_matchmaker_env
       (set_matchmaking_queue default_region [lone_player] empty_runtime_store) () ()"

definition demo_request :: match_request where
  "demo_request = \<lparr>mr_player_id = 1, mr_user_id = 2, mr_elo = 1250, mr_region = ''''\<rparr>"

definition dead_network :: "unit http" where
  "dead_network host port request net = (None, net)"

text \<open>The failed allocation: both players are gone.\<close>

theorem matchmaker_request_refines_witness:
  "\<exists>s'. enter_queue demo_matchmaker_env dead_network 12 12 demo_request demo_matchmaker = (Inl RuntimeError, s') \<and>
     line s' default_region = []"
proof -
  have ok: "mm_ok demo_matchmaker_env demo_matchmaker"
    by (simp add: demo_matchmaker_def new_matchmaker_ok)
  have "entry_spec demo_matchmaker_env 12 demo_request (line demo_matchmaker) = (Some lone_player, [])"
    by code_simp
  moreover have "allocation demo_matchmaker_env dead_network 12 lone_player demo_request demo_matchmaker = Inl RuntimeError"
    by code_simp
  moreover have "region_of demo_request = default_region" by code_simp
  ultimately show ?thesis
    using matchmaker_request_refines [OF ok, of 12 demo_request "Some lone_player" "[]" dead_network 12] by auto
qed

text \<open>
  C28. Over every sequence of HTTP requests and rounds, with any network and any game servers, the
  matchmaker's lines stay in order: in each region nobody is queued twice and no two waiting players
  could have been matched with each other; and each queue object agrees with the store, so a
  matchmaker restarted from that store continues with the same lines.
\<close>

theorem matchmaker_lines_settled:
  assumes "lines_ok env (\<lambda>r. list_matchmaking_queue r st)"
    "snd (fold (matchmaker_step env http) evs (ml, new_matchmaker env st games net)) = s"
  shows "lines_ok env (line s) \<and> mm_ok env s \<and>
    line (new_matchmaker env (mm_store s) (mm_games s) (mm_net s)) = line s"
proof -
  let ?t = "(ml, new_matchmaker env st games net)"
  have "mm_ok env (snd ?t)" "lines_ok env (line (snd ?t))"
    using assms(1) by (simp_all add: new_matchmaker_ok) (simp add: line_def [abs_def] new_matchmaker_def)
  from matchmaker_run_ok [OF this, of http evs] show ?thesis
    using assms(2) by (simp add: line_def new_matchmaker_def fun_eq_iff)
qed

theorem matchmaker_lines_settled_witness:
  "lines_ok demo_matchmaker_env
     (line (snd (fold (matchmaker_step demo_matchmaker_env dead_network)
       [Request \<lparr>hq_post = True, hq_target = ''/matchmaking/join'', hq_token = None,
                 hq_body = encode_match_request demo_request\<rparr> 12 12]
       (\<lparr>ml_started_at = 1, ml_last_tick = 1, ml_last_queue_process = 1, ml_last_heartbeat_at = 1,
         ml_last_tick_duration_ms = 0\<rparr>,
        new_matchmaker demo_matchmaker_env empty_runtime_store () ()))))"
proof -
  have "lines_ok demo_matchmaker_env (\<lambda>r. list_matchmaking_queue r empty_runtime_store)"
    by (simp add: lines_ok_def list_matchmaking_queue_def empty_runtime_store_def settled_def)
  then show ?thesis by (rule matchmaker_lines_settled [OF _ refl, THEN conjunct1])
qed

subsection \<open>The choice of a game server\<close>

text \<open>
  Which server gets a game. The candidates are exactly the registered servers that are healthy,
  can be asked and have sent a heartbeat within the time to live, ordered by their number of rooms
  and then by id, whatever order the hash map gives. They are asked in this order, at most
  \<open>max_retry_count\<close> of them; the first that answers gets the game, with its own id and endpoint
  filled in where the answer leaves them out; if nobody answers the allocation fails.
\<close>

theorem allocator_asks_in_order:
  assumes "candidates = list_available_servers now ttl st"
  shows "set candidates = {s \<in> set (list_game_servers st). is_live_server now ttl s} \<and>
    sorted (map load_key candidates) \<and>
    (\<forall>st'. store_ok st \<and> store_ok st' \<and> set (rs_game_servers st) = set (rs_game_servers st') \<longrightarrow>
       candidates = list_available_servers now ttl st') \<and>
    (\<forall>k response. k < m \<and> k < length candidates \<and> answer post request candidates net k = Some response \<and>
         (\<forall>j < k. answer post request candidates net j = None) \<longrightarrow>
       remote_allocate_game post m now ttl st request net =
         (Inr (filled_response (candidates ! k) response), asked post request (take (Suc k) candidates) net)) \<and>
    ((\<forall>k < min m (length candidates). answer post request candidates net k = None) \<longrightarrow>
       remote_allocate_game post m now ttl st request net =
         (Inl RuntimeError, asked post request (take m candidates) net))"
proof (intro conjI allI impI)
  show "set candidates = {s \<in> set (list_game_servers st). is_live_server now ttl s}"
    "sorted (map load_key candidates)"
    using assms set_available sorted_available by simp_all
  show "candidates = list_available_servers now ttl st'"
    if "store_ok st \<and> store_ok st' \<and> set (rs_game_servers st) = set (rs_game_servers st')" for st'
    using that assms available_order_independent by blast
  show "remote_allocate_game post m now ttl st request net =
      (Inr (filled_response (candidates ! k) response), asked post request (take (Suc k) candidates) net)"
    if "k < m \<and> k < length candidates \<and> answer post request candidates net k = Some response \<and>
      (\<forall>j < k. answer post request candidates net j = None)" for k response
    using that allocate_loop_first [of k m 0 candidates post request net response] assms
    by (auto simp: remote_allocate_game_def Let_def)
  show "remote_allocate_game post m now ttl st request net =
      (Inl RuntimeError, asked post request (take m candidates) net)"
    if "\<forall>k < min m (length candidates). answer post request candidates net k = None"
    using that allocate_loop_refused [of m 0 candidates post request net] assms
    by (simp add: remote_allocate_game_def Let_def)
qed

text \<open>Two live servers, the emptier of which does not answer.\<close>

definition two_servers :: in_memory_runtime_store where
  "two_servers =
     publish_server_heartbeat 100 ''b'' ''eu'' ((gateway_metrics demo_config 1 fresh_loop demo_server)
         \<lparr>sm_active_rooms := 1, sm_endpoint := ''ws://b'', sm_allocation_endpoint := ''http://b''\<rparr>)
       (publish_server_heartbeat 100 ''a'' ''eu'' ((gateway_metrics demo_config 1 fresh_loop demo_server)
         \<lparr>sm_active_rooms := 0, sm_endpoint := ''ws://a'', sm_allocation_endpoint := ''http://a''\<rparr>)
         empty_runtime_store)"

definition only_b_answers :: "string \<Rightarrow> game_creation_request \<Rightarrow> nat \<Rightarrow> game_creation_response option \<times> nat" where
  "only_b_answers endpoint request n =
     (if endpoint = ''http://b'' then Some \<lparr>rp_room_id = 4, rp_game_server_id = '''', rp_endpoint = None\<rparr> else None, n + 1)"

theorem allocator_asks_in_order_witness:
  "remote_allocate_game only_b_answers 3 105 15 two_servers
     \<lparr>rq_white_user_id = 1, rq_black_user_id = 2, rq_db_game_id = None\<rparr> 0 =
     (Inr \<lparr>rp_room_id = 4, rp_game_server_id = ''b'', rp_endpoint = Some ''ws://b''\<rparr>, 2)"
proof -
  let ?rq = "\<lparr>rq_white_user_id = 1, rq_black_user_id = 2, rq_db_game_id = None\<rparr>"
  let ?c = "list_available_servers 105 15 two_servers"
  have "length ?c = 2" "answer only_b_answers ?rq ?c 0 0 = None"
    "answer only_b_answers ?rq ?c 0 1 = Some \<lparr>rp_room_id = 4, rp_game_server_id = '''', rp_endpoint = None\<rparr>"
    "(Inr (filled_response (?c ! 1) \<lparr>rp_room_id = 4, rp_game_server_id = '''', rp_endpoint = None\<rparr>),
       asked only_b_answers ?rq (take (Suc 1) ?c) 0) =
     ((Inr \<lparr>rp_room_id = 4, rp_game_server_id = ''b'', rp_endpoint = Some ''ws://b''\<rparr>, 2) :: game_creation_response result \<times> nat)"
    by code_simp+
  moreover have "\<forall>k response. k < 3 \<and> k < length ?c \<and> answer only_b_answers ?rq ?c 0 k = Some response \<and>
         (\<forall>j < k. answer only_b_answers ?rq ?c 0 j = None) \<longrightarrow>
       remote_allocate_game only_b_answers 3 105 15 two_servers ?rq 0 =
         (Inr (filled_response (?c ! k) response), asked only_b_answers ?rq (take (Suc k) ?c) 0)"
    using allocator_asks_in_order [OF refl, of 105 15 two_servers 3 only_b_answers ?rq 0] by blast
  ultimately show ?thesis by (metis (no_types, lifting) less_one one_less_numeral_iff semiring_norm(76) semiring_norm(77))
qed

subsection \<open>Calls between the processes\<close>

text \<open>
  C29. Joining through the network is joining. If the network takes what is posted to the
  matchmaker's endpoint to the matchmaker's listener, then the gateway's \<^verbatim>\<open>MatchmakingHttpClient::join\<close>
  returns exactly the answer of the service's \<^verbatim>\<open>enter_queue\<close> on the same request and leaves the
  matchmaker in the same state, and no answer exactly if the service throws: nothing is lost or
  altered by encoding, routing, decoding and the status codes on the way there and back.
\<close>

theorem remote_join_is_local:
  assumes "delivers http endpoint ''/matchmaking/join'' (matchmaking_handle env h now anow)" "request_fits rq"
  shows "matchmaking_join http endpoint rq s =
    (case enter_queue env h now anow rq s of (Inl e, s') \<Rightarrow> (None, s') | (Inr r, s') \<Rightarrow> (Some r, s'))"
  using assms by (rule join_delivered)

text \<open>A network that leads to one matchmaker.\<close>

definition wired :: "(unit, unit) matchmaker http" where
  "wired host port = matchmaking_handle demo_matchmaker_env dead_network 12 12"

theorem remote_join_is_local_witness:
  "fst (matchmaking_join wired ''http://mm:9000'' (demo_request\<lparr>mr_elo := 1500\<rparr>) demo_matchmaker) =
     Some \<lparr>mp_status = Queued, mp_message = ''queued''\<rparr>"
proof -
  have "parse_endpoint ''http://mm:9000'' ''/matchmaking/join'' =
      Some \<lparr>pe_host = ''mm'', pe_port = ''9000'', pe_target = ''/matchmaking/join''\<rparr>" by code_simp
  then have "delivers wired ''http://mm:9000'' ''/matchmaking/join''
      (matchmaking_handle demo_matchmaker_env dead_network 12 12)"
    by (simp add: delivers_def wired_def)
  moreover have "request_fits (demo_request\<lparr>mr_elo := 1500\<rparr>)"
    by (simp add: request_fits_def demo_request_def id64_def int32_def)
  moreover have "fst (enter_queue demo_matchmaker_env dead_network 12 12 (demo_request\<lparr>mr_elo := 1500\<rparr>) demo_matchmaker) =
      Inr \<lparr>mp_status = Queued, mp_message = ''queued''\<rparr>" by code_simp
  ultimately show ?thesis
    using remote_join_is_local [of wired "''http://mm:9000''" demo_matchmaker_env dead_network 12 12
        "demo_request\<lparr>mr_elo := 1500\<rparr>" demo_matchmaker]
    by (auto simp: case_prod_beta split: sum.splits)
qed

text \<open>
  Creating a game through the network is creating it: with the same service token on both
  sides, \<^verbatim>\<open>GameAllocationHttpClient::allocate\<close> returns what the game server's allocation handler
  returns and leaves its rooms and its store as the handler does, and no answer exactly if the
  handler throws.
\<close>

theorem remote_allocation_is_local:
  assumes "delivers http endpoint ''/allocate'' (served (creation_handle cf plane))" "creation_fits cf"
    "id64 (rq_white_user_id rq)" "id64 (rq_black_user_id rq)" "\<forall>g. rq_db_game_id rq = Some g \<longrightarrow> int32 g"
    "id64 (mg_next_id (fst ms))"
  shows "allocation_post http (cf_service_token cf) endpoint rq ms =
    (case allocation_allocate (cf_host_id cf) (cf_host_endpoint cf) (cf_server_id cf) (cf_endpoint cf) plane rq ms of
       Inl e \<Rightarrow> (None, ms) | Inr (response, ms') \<Rightarrow> (Some response, ms'))"
  using assms by (intro allocation_delivered refl)

definition demo_creation :: creation_config where
  "demo_creation = \<lparr>cf_host_id = ''s1'', cf_host_endpoint = ''ws://s1'', cf_server_id = ''s1'',
                    cf_endpoint = ''ws://s1'', cf_service_token = ''secret''\<rparr>"

definition wired_server :: "(room_manager \<times> in_memory_runtime_store) http" where
  "wired_server host port = served (creation_handle demo_creation (Some demo_plane))"

theorem remote_allocation_is_local_witness:
  "fst (allocation_post wired_server ''secret'' ''http://s1:9200''
     \<lparr>rq_white_user_id = 1, rq_black_user_id = 2, rq_db_game_id = Some 7\<rparr>
     (new_manager demo_board, empty_runtime_store)) =
   Some \<lparr>rp_room_id = 1, rp_game_server_id = ''s1'', rp_endpoint = Some ''ws://s1''\<rparr>"
proof -
  let ?rq = "\<lparr>rq_white_user_id = 1, rq_black_user_id = 2, rq_db_game_id = Some 7\<rparr>"
  let ?ms = "(new_manager demo_board, empty_runtime_store)"
  have "parse_endpoint ''http://s1:9200'' ''/allocate'' =
      Some \<lparr>pe_host = ''s1'', pe_port = ''9200'', pe_target = ''/allocate''\<rparr>" by code_simp
  then have "delivers wired_server ''http://s1:9200'' ''/allocate''
      (served (creation_handle demo_creation (Some demo_plane)))"
    by (simp add: delivers_def wired_server_def)
  moreover have "creation_fits demo_creation" by (simp add: creation_fits_def demo_creation_def plain_def)
  ultimately have "allocation_post wired_server (cf_service_token demo_creation) ''http://s1:9200'' ?rq ?ms =
      (case allocation_allocate (cf_host_id demo_creation) (cf_host_endpoint demo_creation)
         (cf_server_id demo_creation) (cf_endpoint demo_creation) (Some demo_plane) ?rq ?ms of
       Inl e \<Rightarrow> (None, ?ms) | Inr (response, ms') \<Rightarrow> (Some response, ms'))"
    by (intro remote_allocation_is_local) (simp_all add: id64_def int32_def new_manager_def)
  moreover have "case allocation_allocate (cf_host_id demo_creation) (cf_host_endpoint demo_creation)
         (cf_server_id demo_creation) (cf_endpoint demo_creation) (Some demo_plane) ?rq ?ms of
       Inl e \<Rightarrow> False
     | Inr (response, ms') \<Rightarrow> response = \<lparr>rp_room_id = 1, rp_game_server_id = ''s1'', rp_endpoint = Some ''ws://s1''\<rparr>"
    by code_simp
  ultimately show ?thesis by (auto simp: demo_creation_def split: sum.splits)
qed

end
