(* ===== verification/Client_Theorems.thy ===== *)
theory Client_Theorems
  imports Client_Play Service_Theorems
begin

section \<open>Theorems about the client\<close>

text \<open>
  The properties of the client and of its conversation with the server: the snapshot of every
  reachable game arrives, a click over the network is a click, what the server says is understood,
  and a player gets from the lobby to the game. Each is followed by a witness where it has
  hypotheses.
\<close>

subsection \<open>Snapshots\<close>

text \<open>The state of a game of a room: reachable from the start position by actions and time.\<close>

definition in_play :: "string list list \<Rightarrow> game_state \<Rightarrow> bool" where
  "in_play ts g \<longleftrightarrow> (\<exists>b. from_token_grid ts = Inr b \<and> reachable (new_game b) g)"

lemma in_play_inv:
  assumes "list_all (list_all is_valid_token) ts" "\<forall>row \<in> set ts. length row = w" "in_play ts g"
  shows "game_inv g" "view_inv g" "gs_rules g = standard"
proof -
  obtain b where b: "from_token_grid ts = Inr b" "reachable (new_game b) g"
    using assms(3) by (auto simp: in_play_def)
  have f: "flight_inv b []" using from_token_grid_ok [OF assms(1,2)] b(1) by simp
  have start: "game_inv (new_game b)" "gs_rules (new_game b) = standard" "view_inv (new_game b)"
    using new_game_inv [OF f] new_game_view_inv [OF from_token_grid_playable [OF b(1)]]
    by (simp_all add: new_game_def new_game_with_def)
  show "game_inv g" "gs_rules g = standard"
    using std_policy.reachable_ok [OF b(2) start(1,2)] start(2) by (simp_all add: game_step_ok_def)
  show "view_inv g" using std_policy.reachable_view_inv [OF b(2) start] .
qed

text \<open>
  C30. Every snapshot arrives. In every state a game on valid tokens can reach, as long as its clock
  and sizes fit 63 bits and its board has a row, the server builds a view, and the text it sends is
  read by the client to a view of the same size, clock, verdict, selection and cells, with the same
  moves, jumps and rests; only their progress is rounded, by at most one millionth.
\<close>

theorem snapshot_reaches_client:
  assumes "list_all (list_all is_valid_token) ts" "\<forall>row \<in> set ts. length row = w" "in_play ts g"
    and "fits_wire g" "rows (gs_board g) * cols (gs_board g) \<le> capacity"
  shows "\<exists>v v'. build g = Inr v \<and> read_snapshot capacity (write_snapshot v) = Inr (Some v') \<and>
    v' = v\<lparr>bv_animations := bv_animations v'\<rparr> \<and>
    list_all2 (\<lambda>m m'. m' = m\<lparr>ams_progress := ams_progress m'\<rparr> \<and> \<bar>ams_progress m' - ams_progress m\<bar> \<le> 1 / 1000000)
      (as_moves (bv_animations v)) (as_moves (bv_animations v')) \<and>
    list_all2 (\<lambda>j j'. j' = j\<lparr>ajs_progress := ajs_progress j'\<rparr> \<and> \<bar>ajs_progress j' - ajs_progress j\<bar> \<le> 1 / 1000000)
      (as_jumps (bv_animations v)) (as_jumps (bv_animations v')) \<and>
    list_all2 (\<lambda>r r'. r' = r\<lparr>ars_progress := ars_progress r'\<rparr> \<and> \<bar>ars_progress r' - ars_progress r\<bar> \<le> 1 / 1000000)
      (as_rests (bv_animations v)) (as_rests (bv_animations v'))"
proof (intro exI conjI)
  note inv = in_play_inv [OF assms(1-3)]
  let ?v = "view_model g" and ?w = "received (view_model g)"
  show "build g = Inr ?v" "read_snapshot capacity (write_snapshot ?v) = Inr (Some ?w)"
    using snapshot_received [OF inv(1,2) assms(4,5)] by simp_all
  show "?w = ?v\<lparr>bv_animations := bv_animations ?w\<rparr>" by (simp add: received_def)
  have fit: "animations_fit (bv_animations ?v)"
    using view_animations_fit [OF inv(1,2) assms(4)] by (simp add: view_model_def)
  show "list_all2 (\<lambda>m m'. m' = m\<lparr>ams_progress := ams_progress m'\<rparr> \<and> \<bar>ams_progress m' - ams_progress m\<bar> \<le> 1 / 1000000)
      (as_moves (bv_animations ?v)) (as_moves (bv_animations ?w))"
    using fit quantised_error
    by (auto simp: received_def received_animations_def list_all2_map2 animations_fit_def list_all_iff move_fits_def
        intro!: list.rel_refl_strong)
  show "list_all2 (\<lambda>j j'. j' = j\<lparr>ajs_progress := ajs_progress j'\<rparr> \<and> \<bar>ajs_progress j' - ajs_progress j\<bar> \<le> 1 / 1000000)
      (as_jumps (bv_animations ?v)) (as_jumps (bv_animations ?w))"
    using fit quantised_error
    by (auto simp: received_def received_animations_def list_all2_map2 animations_fit_def list_all_iff jump_fits_def
        intro!: list.rel_refl_strong)
  show "list_all2 (\<lambda>r r'. r' = r\<lparr>ars_progress := ars_progress r'\<rparr> \<and> \<bar>ars_progress r' - ars_progress r\<bar> \<le> 1 / 1000000)
      (as_rests (bv_animations ?v)) (as_rests (bv_animations ?w))"
    using fit quantised_error
    by (auto simp: received_def received_animations_def list_all2_map2 animations_fit_def list_all_iff rest_fits_def
        intro!: list.rel_refl_strong)
qed

lemma demo_in_play: "in_play demo_tokens (new_game demo_board)"
  using demo_from_tokens reachable.start by (auto simp: in_play_def)

lemma demo_width: "\<forall>row \<in> set demo_tokens. length row = 3"
  by (simp add: demo_tokens_def)

lemma demo_fits_wire: "fits_wire (new_game demo_board)"
  by (simp add: fits_wire_def new_game_def new_game_with_def new_arbiter_def demo_board_def rows_def cols_def)

theorem snapshot_reaches_client_witness:
  "\<exists>v v'. build (new_game demo_board) = Inr v \<and> read_snapshot 9 (write_snapshot v) = Inr (Some v')"
proof -
  have "rows (gs_board (new_game demo_board)) * cols (gs_board (new_game demo_board)) \<le> 9"
    by (simp add: new_game_def new_game_with_def demo_board_def rows_def cols_def)
  from snapshot_reaches_client [OF demo_valid demo_width demo_in_play demo_fits_wire this] show ?thesis by blast
qed

subsection \<open>Clicks\<close>






text \<open>
  The client can refuse a piece that the server would let move. A rook jumps, its own king steps
  onto the cell below and rests there; the landing rook captures the king but the king's rest stays
  in the table. Once the rook's own short rest is over the server accepts the rook, while the cell
  still looks resting in the client's view, so the client cannot select, move or jump it.
\<close>

theorem stale_rest_blocks_client:
  "\<exists>b g. from_token_grid [[''wK'', ''wR''], [''.'', ''bK'']] = Inr b \<and>
     foldR apply_action [JumpAt 0 1, Select 0 0, MoveSelected 0 1, AdvanceClock 1000, AdvanceClock 2500]
       (new_game b) = Inr g \<and>
     is_selectable_piece g 0 1 = Inr True \<and> view_is_selectable_piece (received (view_model g)) 0 1 = False"
proof -
  have "case bindR (from_token_grid [[''wK'', ''wR''], [''.'', ''bK'']])
      (\<lambda>b. foldR apply_action [JumpAt 0 1, Select 0 0, MoveSelected 0 1, AdvanceClock 1000, AdvanceClock 2500]
        (new_game b)) of
        Inl _ \<Rightarrow> False
      | Inr g \<Rightarrow> (case is_selectable_piece g 0 1 of Inr x \<Rightarrow> x | _ \<Rightarrow> False) \<and>
          \<not> view_is_selectable_piece (received (view_model g)) 0 1"
    by code_simp
  then show ?thesis
    by (auto simp: bindR_Inr_iff split: sum.splits dest!: bindR_Inr_iff [THEN iffD1, OF sym])
qed

subsection \<open>The messages of the server\<close>



subsection \<open>Polling\<close>

text \<open>A connection that hands out the given messages one by one, and then none.\<close>

fun incoming :: "'s transport \<Rightarrow> 's websocket_client \<Rightarrow> string list \<Rightarrow> 's websocket_client \<Rightarrow> bool" where
  "incoming tp c [] c' \<longleftrightarrow> try_receive_snapshot tp c = Inr (None, c')"
| "incoming tp c (m # ms) c' \<longleftrightarrow>
     (case try_receive_snapshot tp c of Inr (Some m', c1) \<Rightarrow> m' = m \<and> incoming tp c1 ms c' | _ \<Rightarrow> False)"

lemma drain_incoming:
  "incoming tp c ms c' \<Longrightarrow> drain_network_messages tp capacity c ui =
     Some (bindR (foldR (handle_network_message capacity) ms ui) (\<lambda>ui'. Inr (c', ui')))"
proof (induction ms arbitrary: c ui)
  case Nil
  then show ?case by (simp add: drain_network_messages.simps [of tp capacity c ui])
next
  case (Cons m ms)
  obtain c1 where c1: "try_receive_snapshot tp c = Inr (Some m, c1)" "incoming tp c1 ms c'"
    using Cons.prems
    by (cases "try_receive_snapshot tp c"; cases "projr (try_receive_snapshot tp c)";
        cases "fst (projr (try_receive_snapshot tp c))") auto
  note unfold = drain_network_messages.simps [of tp capacity c ui]
  show ?case
  proof (cases "handle_network_message capacity m ui")
    case (Inl e)
    then show ?thesis by (simp add: unfold c1(1))
  next
    case (Inr ui')
    then show ?thesis using Cons.IH [OF c1(2), of ui'] by (simp add: unfold c1(1))
  qed
qed

text \<open>A stream that is a queue of messages: each read takes one frame.\<close>

definition queue_transport :: "string list transport" where
  "queue_transport =
     \<lparr>tp_available = (\<lambda>q. (Inr (sum_list (map (\<lambda>m. unmasked_frame_size (length m)) q)), q)),
      tp_non_blocking = (\<lambda>q. False), tp_set_non_blocking = (\<lambda>b q. (None, q)),
      tp_peek = (\<lambda>q. ((Some WouldBlock, 0), q)),
      tp_read = (\<lambda>q. case q of [] \<Rightarrow> (Inl WouldBlock, []) | m # ms \<Rightarrow> (Inr m, ms)),
      tp_write = (\<lambda>m q. (None, q)), tp_close = (\<lambda>q. [])\<rparr>"

definition queue_client :: "string list \<Rightarrow> string list websocket_client" where
  "queue_client q = \<lparr>wc_host = ''h'', wc_port = 1, wc_ws = Some q, wc_buffered_bytes = 0, wc_connected = True\<rparr>"

lemma queue_incoming: "incoming queue_transport (queue_client q) q (queue_client [])"
proof (induction q)
  case Nil
  show ?case by (simp add: queue_client_def queue_transport_def try_receive_snapshot_def peek_pending_def peek_byte_def Let_def)
next
  case (Cons m ms)
  have "unmasked_frame_size n \<noteq> 0" for n by (simp add: unmasked_frame_size_def)
  then have "try_receive_snapshot queue_transport (queue_client (m # ms)) = Inr (Some m, queue_client ms)"
    by (auto simp: queue_client_def queue_transport_def try_receive_snapshot_def client_read_def
        client_update_buffered_def Let_def unmasked_frame_size_def)
  then show ?case using Cons by simp
qed

text \<open>
  Polling a connection ends and loses nothing: on a connection that hands out finitely many
  messages the loop returns, having handled each of them once and in order, or with the first fault;
  after the last one the client is where the connection left it.
\<close>

theorem drain_handles_all:
  assumes "incoming tp c ms c'"
  shows "drain_network_messages tp capacity c ui =
     Some (bindR (foldR (handle_network_message capacity) ms ui) (\<lambda>ui'. Inr (c', ui')))"
  using assms by (rule drain_incoming)

theorem drain_handles_all_witness:
  "drain_network_messages queue_transport 64 (queue_client [''searching'', ''game_start black'']) (None, new_gui_state) =
     Some (Inr (queue_client [], None, new_gui_state\<lparr>ng_matchmaking := GameStartingBlack, ng_local_side := Some Black\<rparr>))"
proof -
  have "handle_network_message 64 ''game_start black'' (None, st) =
      Inr (None, st\<lparr>ng_matchmaking := GameStartingBlack, ng_local_side := Some Black\<rparr>)" for st
    using lobby_messages_handled(4) [of 64 Black None st] by (simp add: side_token_def)
  then show ?thesis
    using drain_handles_all [OF queue_incoming [of "[''searching'', ''game_start black'']"], of 64 "(None, new_gui_state)"]
    by (simp add: lobby_messages_handled(1))
qed

subsection \<open>From the login to the game\<close>

text \<open>The messages a client receives by polling a connection until it is in a later state.\<close>

inductive polled :: "'s transport \<Rightarrow> 's websocket_client \<Rightarrow> string list \<Rightarrow> 's websocket_client \<Rightarrow> bool"
  for tp where
  stop: "polled tp c [] c"
| quiet: "try_receive_snapshot tp c = Inr (None, c1) \<Longrightarrow> polled tp c1 ms c' \<Longrightarrow> polled tp c ms c'"
| got: "try_receive_snapshot tp c = Inr (Some m, c1) \<Longrightarrow> polled tp c1 ms c' \<Longrightarrow> polled tp c (m # ms) c'"

lemma settled_plays:
  assumes "login_settled tp (ls, c) = Inr (Some True, ls', c')"
  shows "nls_phase ls = LoginOk" "ls' = ls\<lparr>nls_phase := PlayRequested\<rparr>"
    "client_try_send tp send_play c = Inr (True, c')"
  using assms
  by (auto simp: login_settled_def try_send_play_def bindR_Inr_iff split: if_splits)

lemma handshake_plays:
  assumes "nls_phase ls = LoginSent"
    and "wait_for_login_handshake tp frames (ls, c) = Inr (Some True, ls', c')"
  shows "\<exists>ms m res c1. polled tp c (ms @ [m]) c1 \<and> (\<forall>k \<in> set ms. read_login_message k = None) \<and>
    read_login_message m = Some res \<and> lres_status res = StatusOk \<and>
    ls' = ls\<lparr>nls_rating := lres_rating res, nls_phase := PlayRequested\<rparr> \<and>
    client_try_send tp send_play c1 = Inr (True, c')"
  using assms(2)
proof (induction frames arbitrary: c)
  case Nil
  then show ?case using assms(1) by simp
next
  case (Cons frame frames)
  obtain message c1 where r: "try_receive_snapshot tp c = Inr (message, c1)"
    using Cons.prems assms(1) by (auto simp: bindR_Inr_iff)
  let ?ls = "case message of None \<Rightarrow> ls | Some m \<Rightarrow> session_handle_message m ls"
  have w: "wait_for_login_handshake tp frames (?ls, c1) = Inr (Some True, ls', c')"
    using Cons.prems assms(1) r by (auto simp: Let_def split: if_splits)
  show ?case
  proof (cases message)
    case None
    then show ?thesis using Cons.IH [of c1] w polled.quiet [OF r [unfolded None]] by simp blast
  next
    case (Some m)
    note got = polled.got [OF r [unfolded Some]]
    show ?thesis
    proof (cases "read_login_message m")
      case None
      then have "?ls = ls" using Some by (simp add: session_handle_message_def)
      with Cons.IH [of c1] w obtain ms m' res c2 where
        "polled tp c1 (ms @ [m']) c2" "\<forall>k \<in> set ms. read_login_message k = None"
        "read_login_message m' = Some res" "lres_status res = StatusOk"
        "ls' = ls\<lparr>nls_rating := lres_rating res, nls_phase := PlayRequested\<rparr>"
        "client_try_send tp send_play c2 = Inr (True, c')" by auto
      then show ?thesis using None got [of "ms @ [m']" c2] by (intro exI [of _ "m # ms"]) auto
    next
      case (Some res)
      then have ph: "nls_phase ?ls \<noteq> LoginSent" using \<open>message = Some m\<close> assms(1)
        by (simp add: session_handle_message_def)
      then have "login_settled tp (?ls, c1) = Inr (Some True, ls', c')" using w by (cases frames) simp_all
      note fin = settled_plays [OF this]
      have ok: "lres_status res = StatusOk" "?ls = ls\<lparr>nls_rating := lres_rating res, nls_phase := LoginOk\<rparr>"
        using fin(1) Some \<open>message = Some m\<close> assms(1) by (auto simp: session_handle_message_def split: if_splits)
      have "polled tp c ([] @ [m]) c1" using got [OF polled.stop] by simp
      then show ?thesis using Some ok fin(2,3)
        by (intro exI [of _ "[]"] exI [of _ m] exI [of _ res] exI [of _ c1]) (auto simp: ok(2))
    qed
  qed
qed

text \<open>
  C33. The login handshake. The client asks for a game only after the server accepted the login:
  whenever waiting for the answer succeeds, the messages polled from the connection end with a
  \<^verbatim>\<open>login_ok\<close> that is the first answer to the login among them, its rating is the one kept, and
  \<^verbatim>\<open>play\<close> was sent on the connection at that point. And an acceptance is not missed: when the next
  message is \<^verbatim>\<open>login_ok\<close>, the window stays open and the stream takes the message, waiting succeeds.
\<close>

theorem login_handshake:
  assumes "nls_phase ls = LoginSent"
  shows "(wait_for_login_handshake tp frames (ls, c) = Inr (Some True, ls', c') \<longrightarrow>
      (\<exists>ms m res c1. polled tp c (ms @ [m]) c1 \<and> (\<forall>k \<in> set ms. read_login_message k = None) \<and>
         read_login_message m = Some res \<and> lres_status res = StatusOk \<and>
         ls' = ls\<lparr>nls_rating := lres_rating res, nls_phase := PlayRequested\<rparr> \<and>
         client_try_send tp send_play c1 = Inr (True, c'))) \<and>
    (- (2 ^ 31) \<le> rating \<and> rating < 2 ^ 31 \<and> frame \<noteq> Some False \<and>
     try_receive_snapshot tp c = Inr (Some (''login_ok '' @ show_int rating), c1) \<and>
     client_try_send tp send_play c1 = Inr (True, c2) \<longrightarrow>
     wait_for_login_handshake tp (frame # frames) (ls, c) =
       Inr (Some True, ls\<lparr>nls_rating := rating, nls_phase := PlayRequested\<rparr>, c2))"
proof (intro conjI impI; (elim conjE)?)
  assume w: "wait_for_login_handshake tp frames (ls, c) = Inr (Some True, ls', c')"
  show "\<exists>ms m res c1. polled tp c (ms @ [m]) c1 \<and> (\<forall>k \<in> set ms. read_login_message k = None) \<and>
         read_login_message m = Some res \<and> lres_status res = StatusOk \<and>
         ls' = ls\<lparr>nls_rating := lres_rating res, nls_phase := PlayRequested\<rparr> \<and>
         client_try_send tp send_play c1 = Inr (True, c')"
    by (rule handshake_plays [OF assms w])
next
  assume r: "- (2 ^ 31) \<le> rating" "rating < 2 ^ 31" and f: "frame \<noteq> Some False"
    and t: "try_receive_snapshot tp c = Inr (Some (''login_ok '' @ show_int rating), c1)"
    and s: "client_try_send tp send_play c1 = Inr (True, c2)"
  let ?ls = "ls\<lparr>nls_rating := rating, nls_phase := LoginOk\<rparr>"
  have "read_login_message (''login_ok '' @ show_int rating) =
      Some \<lparr>lres_status = StatusOk, lres_rating = rating, lres_failure_reason = ''''\<rparr>"
    using login_messages_read(1) [OF r, of "''x''"] by (simp add: is_word_def is_space_def)
  then have h: "session_handle_message (''login_ok '' @ show_int rating) ls = ?ls"
    using assms by (simp add: session_handle_message_def)
  have "wait_for_login_handshake tp (frame # frames) (ls, c) = wait_for_login_handshake tp frames (?ls, c1)"
    using assms t f h by (subst wait_for_login_handshake.simps) (simp add: Let_def del: wait_for_login_handshake.simps)
  also have "\<dots> = login_settled tp (?ls, c1)" by simp
  finally show "wait_for_login_handshake tp (frame # frames) (ls, c) =
       Inr (Some True, ls\<lparr>nls_rating := rating, nls_phase := PlayRequested\<rparr>, c2)"
    using s by (simp add: login_settled_def try_send_play_def)
qed

theorem login_handshake_witness:
  "wait_for_login_handshake queue_transport [None]
     (new_login_session\<lparr>nls_phase := LoginSent\<rparr>, queue_client [''login_ok '' @ show_int 1200]) =
     Inr (Some True, new_login_session\<lparr>nls_rating := 1200, nls_phase := PlayRequested\<rparr>, queue_client [])"
proof -
  let ?ls = "new_login_session\<lparr>nls_phase := LoginSent\<rparr>" and ?m = "''login_ok '' @ show_int 1200"
  have "incoming queue_transport (queue_client [?m]) [?m] (queue_client [])" by (rule queue_incoming)
  then have "try_receive_snapshot queue_transport (queue_client [?m]) = Inr (Some ?m, queue_client [])"
    by (simp add: queue_client_def queue_transport_def try_receive_snapshot_def client_read_def
        client_update_buffered_def Let_def unmasked_frame_size_def)
  moreover have "client_try_send queue_transport send_play (queue_client []) = Inr (True, queue_client [])"
    by (simp add: client_try_send_def queue_client_def queue_transport_def)
  moreover have "nls_phase ?ls = LoginSent" by simp
  ultimately have "wait_for_login_handshake queue_transport [None] (?ls, queue_client [?m]) =
      Inr (Some True, ?ls\<lparr>nls_rating := 1200, nls_phase := PlayRequested\<rparr>, queue_client [])"
    by (intro login_handshake [THEN conjunct2, THEN mp]) auto
  then show ?thesis by (simp del: wait_for_login_handshake.simps)
qed

definition dialled :: "string \<Rightarrow> nat \<Rightarrow> 's \<Rightarrow> 's websocket_client" where
  "dialled host port ws =
     \<lparr>wc_host = host, wc_port = port, wc_ws = Some ws, wc_buffered_bytes = 0, wc_connected = True\<rparr>"

lemma redirect_executed:
  assumes "parse_websocket_endpoint (gr_endpoint info) = Some \<lparr>we_host = host, we_port = port\<rparr>"
    and "dial host port net = (Inr ws, net')" "tp_write tp (send_join_game (gr_room_id info)) ws = (None, ws')"
  shows "\<exists>lobby'. redirect_execute tp dial info (lobby, game, net) =
      Inr (\<lparr>rf_lobby_closed = True, rf_game_connected = True, rf_join_game_sent = True\<rparr>,
           lobby', dialled host port ws', net') \<and> \<not> wc_connected lobby'"
proof -
  have "connect_to_game_server dial (gr_endpoint info) (game, net) = Inr (dialled host port ws, net')"
    using assms(1,2)
    by (cases game) (auto simp: connect_to_game_server_def client_connect_def client_disconnect_def dialled_def
        split: option.splits)
  moreover have "client_try_send tp (send_join_game (gr_room_id info)) (dialled host port ws) =
      Inr (True, dialled host port ws')"
    using assms(3) by (simp add: client_try_send_def dialled_def)
  moreover have "wc_connected (dialled host port ws)" by (simp add: dialled_def)
  ultimately show ?thesis
    by (auto simp: redirect_execute_def Let_def client_disconnect_def split: option.splits)
qed

text \<open>
  C34. A matched player reaches the game. When the lobby says that a match was found and starts, and
  redirects to a well-formed endpoint that answers, one round of the waiting loop closes the lobby,
  dials that endpoint, sends the join message of that room there, and from then on listens to the
  game server; the client knows its side. The server reads the join message back to that room.
\<close>

theorem client_follows_redirect:
  assumes "incoming tp (ga_lobby app)
      [''match_found '' @ side_token side, ''game_start '' @ side_token side, redirect_message info] lobby'"
    and "ng_using_game_connection (snd (ga_gui app)) = False" "gi_room_id info < 2 ^ 64" "gi_side info = side"
    and "gi_endpoint info = ''ws://'' @ host @ '':'' @ show_nat port" "is_word host" "0 < port" "port \<le> 65535"
    and "dial host port (ga_net app) = (Inr ws, net')"
    and "tp_write tp (send_join_game (gi_room_id info)) ws = (None, ws')"
    and "incoming tp (dialled host port ws') [] game'"
  shows "\<exists>app'. waiting_round tp dial capacity app = Some (Inr app') \<and>
      ng_using_game_connection (snd (ga_gui app')) \<and> ng_local_side (snd (ga_gui app')) = Some side \<and>
      ng_matchmaking (snd (ga_gui app')) = starting side \<and>
      \<not> wc_connected (ga_lobby app') \<and> ga_game app' = game' \<and> ga_net app' = net' \<and>
      parse_join_game_message (send_join_game (gi_room_id info)) = Some (gi_room_id info)"
proof -
  obtain v st where g: "ga_gui app = (v, st)" by force
  have w: "is_word (gi_endpoint info)"
    using assms(6) show_nat_word [of port] unfolding assms(5) by (auto simp: is_word_def is_space_def)
  let ?rd = "\<lparr>gr_endpoint = gi_endpoint info, gr_room_id = gi_room_id info, gr_side = gi_side info\<rparr>"
  let ?st = "st\<lparr>ng_matchmaking := starting side, ng_local_side := Some side, ng_redirect := Some ?rd\<rparr>"
  have "foldR (handle_network_message capacity)
      [''match_found '' @ side_token side, ''game_start '' @ side_token side, redirect_message info] (v, st) = Inr (v, ?st)"
    using redirect_handled [OF w assms(3)] lobby_messages_handled(3,4) [of capacity side] by simp
  then have d: "drain_lobby tp capacity app = Some (Inr (app\<lparr>ga_lobby := lobby', ga_gui := (v, ?st)\<rparr>))"
    using drain_incoming [OF assms(1), of capacity "ga_gui app"] by (simp add: drain_lobby_def g del: foldR.simps)
  have e: "parse_websocket_endpoint (gr_endpoint ?rd) = Some \<lparr>we_host = host, we_port = port\<rparr>"
    using endpoint_read_back [OF _ assms(7,8), of host "''ws://''"] assms(5,6) by (simp add: is_word_def)
  obtain lobby2 where x: "redirect_execute tp dial ?rd (lobby', ga_game app, ga_net app) =
      Inr (\<lparr>rf_lobby_closed = True, rf_game_connected = True, rf_join_game_sent = True\<rparr>,
           lobby2, dialled host port ws', net')" "\<not> wc_connected lobby2"
    using redirect_executed [where dial = dial and tp = tp, OF e assms(9), of ws'] assms(10) by auto
  let ?app = "app\<lparr>ga_lobby := lobby2, ga_game := dialled host port ws', ga_net := net',
      ga_gui := (v, ?st\<lparr>ng_using_game_connection := True\<rparr>)\<rparr>"
  have m: "maybe_switch_to_game_connection tp dial (app\<lparr>ga_lobby := lobby', ga_gui := (v, ?st)\<rparr>) = Inr (True, ?app)"
    using x(1) assms(2) by (simp add: maybe_switch_to_game_connection_def g Let_def)
  have "drain_game tp capacity ?app = Some (Inr (?app\<lparr>ga_game := game'\<rparr>))"
    using drain_incoming [OF assms(11), of capacity "ga_gui ?app"] by (simp add: drain_game_def)
  then show ?thesis using d m x(2) join_round_trip [OF assms(3)] by (simp add: waiting_round_def)
qed

definition demo_redirect :: gateway_game_redirect_info where
  "demo_redirect = \<lparr>gi_room_id = 3, gi_server_id = ''s1'', gi_endpoint = ''ws://s1:80'', gi_side = Black\<rparr>"

definition demo_app :: "(string list, unit) gui_app" where
  "demo_app =
     \<lparr>ga_lobby = queue_client [''match_found black'', ''game_start black'', redirect_message demo_redirect],
      ga_game = new_client ''127.0.0.1'' 8765, ga_net = (), ga_gui = (None, new_gui_state)\<rparr>"

theorem client_follows_redirect_witness:
  "\<exists>app'. waiting_round queue_transport (\<lambda>host port net. (Inr [], net)) 64 demo_app = Some (Inr app') \<and>
     ng_using_game_connection (snd (ga_gui app')) \<and> \<not> wc_connected (ga_lobby app')"
proof -
  let ?ms = "[''match_found '' @ side_token Black, ''game_start '' @ side_token Black, redirect_message demo_redirect]"
  have l: "incoming queue_transport (ga_lobby demo_app) ?ms (queue_client [])"
    using queue_incoming [of ?ms] by (simp add: demo_app_def side_token_def del: incoming.simps)
  have n: "show_nat 80 = ''80''" by code_simp
  have w: "is_word ''s1''" by code_simp
  have g: "incoming queue_transport (dialled ''s1'' 80 []) [] (dialled ''s1'' 80 [])"
    by (simp add: dialled_def queue_transport_def try_receive_snapshot_def peek_pending_def peek_byte_def Let_def)
  have i: "ng_using_game_connection (snd (ga_gui demo_app)) = False" "gi_room_id demo_redirect < 2 ^ 64"
    "gi_side demo_redirect = Black" "gi_endpoint demo_redirect = ''ws://'' @ ''s1'' @ '':'' @ show_nat 80"
    "0 < (80 :: nat)" "(80 :: nat) \<le> 65535"
    by (simp_all add: demo_app_def demo_redirect_def new_gui_state_def n)
  let ?dial = "(\<lambda>host port net. (Inr [], net)) :: (string list, unit) dial"
  have d: "?dial ''s1'' 80 (ga_net demo_app) = (Inr [], ())"
    "tp_write queue_transport (send_join_game (gi_room_id demo_redirect)) [] = (None, [])"
    by (simp_all add: demo_app_def queue_transport_def)
  show ?thesis
    using client_follows_redirect [where dial = ?dial and capacity = 64, OF l i(1-4) w i(5,6) d g] by blast
qed

end
