(* ===== verification/Config_Loader.thy ===== *)
theory Config_Loader
  imports Text_Utils
begin

section \<open>The configuration of the processes\<close>

text \<open>
  \<^verbatim>\<open>app/config_loader.cpp\<close> with the structures of \<^verbatim>\<open>app/*_config.h\<close> and the endpoints of
  \<^verbatim>\<open>app/runtime_endpoint.h\<close>. The environment is a map from names to values. \<^verbatim>\<open>unsigned long\<close> has 64
  bits; a duration is built from it by a conversion to a signed 64-bit count. Every variable is read
  into its own field, so the overrides of a structure are one simultaneous update.

  The lemmas: the overflow check of \<^verbatim>\<open>parse_unsigned\<close> misses some overflows, but a result below ten
  times the range of ports is always the number written, so a port is either exactly the number in
  the environment or the default.
\<close>

type_synonym environment = "string \<rightharpoonup> string"

definition read_environment :: "environment \<Rightarrow> string \<Rightarrow> string option" where
  "read_environment env name =
     (case env name of None \<Rightarrow> None | Some value \<Rightarrow> if value = [] then None else Some value)"

subsection \<open>Reading values\<close>

primrec parse_unsigned_loop :: "nat \<Rightarrow> string \<Rightarrow> nat option" where
  "parse_unsigned_loop r [] = Some r"
| "parse_unsigned_loop r (c # value) =
     (if \<not> is_digit c then None
      else
        (let next_value = (r * 10 + digit_value c) mod 2 ^ 64
         in if next_value < r then None else parse_unsigned_loop next_value value))"

definition parse_unsigned :: "string \<Rightarrow> nat option" where
  "parse_unsigned value = (if value = [] then None else parse_unsigned_loop 0 value)"

definition lower_char :: "char \<Rightarrow> char" where
  "lower_char c =
     (if 65 \<le> (of_char c :: nat) \<and> (of_char c :: nat) \<le> 90 then char_of ((of_char c :: nat) + 32) else c)"

definition equals_ignore_case :: "string \<Rightarrow> string \<Rightarrow> bool" where
  "equals_ignore_case lhs rhs =
     (if length lhs \<noteq> length rhs then False else list_all2 (\<lambda>a b. lower_char a = lower_char b) lhs rhs)"

datatype database_backend = SQLite | PostgreSQL

definition parse_database_backend :: "string \<Rightarrow> database_backend option" where
  "parse_database_backend value =
     (if equals_ignore_case value ''sqlite'' then Some SQLite
      else if equals_ignore_case value ''postgres'' then Some PostgreSQL
      else None)"

definition config_parse_bool :: "string \<Rightarrow> bool option" where
  "config_parse_bool value =
     (if equals_ignore_case value ''true'' \<or> equals_ignore_case value ''1'' \<or>
         equals_ignore_case value ''yes'' \<or> equals_ignore_case value ''on'' then Some True
      else if equals_ignore_case value ''false'' \<or> equals_ignore_case value ''0'' \<or>
         equals_ignore_case value ''no'' \<or> equals_ignore_case value ''off'' then Some False
      else None)"

subsection \<open>The structures and their defaults\<close>

record server_config =
  cfs_port :: nat
  cfs_game_port :: nat
  cfs_health_port :: nat
  cfs_game_health_port :: nat
  cfs_game_internal_port :: nat
  cfs_matchmaker_port :: nat
  cfs_matchmaker_health_port :: nat
  cfs_gateway_internal_port :: nat
  cfs_bind_address :: string
  cfs_server_id :: string
  cfs_gateway_server_id :: string
  cfs_region :: string
  cfs_endpoint :: string
  cfs_allocation_endpoint :: string
  cfs_matchmaker_endpoint :: string
  cfs_gateway_notification_endpoint :: string
  cfs_max_clients :: nat
  cfs_game_max_clients :: nat

record database_config =
  cfd_backend :: database_backend
  cfd_path :: string
  cfd_host :: string
  cfd_port :: nat
  cfd_database :: string
  cfd_username :: string
  cfd_password :: string

record redis_config =
  cfr_enabled :: bool
  cfr_host :: string
  cfr_port :: nat
  cfr_password :: string
  cfr_database :: int
  cfr_heartbeat_interval :: int

record matchmaking_config =
  cfm_max_rating_difference :: int
  cfm_queue_timeout :: int

record logging_config =
  cfl_diagnostics_enabled :: bool

record allocation_config =
  cfa_internal_service_token :: string
  cfa_allocation_timeout :: int
  cfa_allocation_retry_count :: nat
  cfa_game_server_ttl :: int

record app_config =
  cfg_server :: server_config
  cfg_database :: database_config
  cfg_redis :: redis_config
  cfg_matchmaking :: matchmaking_config
  cfg_logging :: logging_config
  cfg_allocation :: allocation_config

definition default_server_config :: server_config where
  "default_server_config =
     \<lparr>cfs_port = 8765, cfs_game_port = 8766, cfs_health_port = 8080, cfs_game_health_port = 8081,
      cfs_game_internal_port = 8767, cfs_matchmaker_port = 8770, cfs_matchmaker_health_port = 8772,
      cfs_gateway_internal_port = 8771, cfs_bind_address = ''127.0.0.1'', cfs_server_id = ''local'',
      cfs_gateway_server_id = ''gateway-local'', cfs_region = ''local'', cfs_endpoint = '''',
      cfs_allocation_endpoint = '''', cfs_matchmaker_endpoint = ''http://127.0.0.1:8770'',
      cfs_gateway_notification_endpoint = ''http://127.0.0.1:8771'', cfs_max_clients = 8,
      cfs_game_max_clients = 8\<rparr>"

definition default_database_config :: database_config where
  "default_database_config =
     \<lparr>cfd_backend = SQLite, cfd_path = ''kfc.db'', cfd_host = ''localhost'', cfd_port = 5432,
      cfd_database = ''kfc'', cfd_username = '''', cfd_password = ''''\<rparr>"

definition default_redis_config :: redis_config where
  "default_redis_config =
     \<lparr>cfr_enabled = False, cfr_host = ''127.0.0.1'', cfr_port = 6379, cfr_password = '''',
      cfr_database = 0, cfr_heartbeat_interval = 1\<rparr>"

definition default_matchmaking_config :: matchmaking_config where
  "default_matchmaking_config = \<lparr>cfm_max_rating_difference = 100, cfm_queue_timeout = 60\<rparr>"

definition default_logging_config :: logging_config where
  "default_logging_config = \<lparr>cfl_diagnostics_enabled = True\<rparr>"

definition default_allocation_config :: allocation_config where
  "default_allocation_config =
     \<lparr>cfa_internal_service_token = '''', cfa_allocation_timeout = 1000, cfa_allocation_retry_count = 3,
      cfa_game_server_ttl = 10\<rparr>"

definition make_default_config :: app_config where
  "make_default_config =
     \<lparr>cfg_server = default_server_config, cfg_database = default_database_config,
      cfg_redis = default_redis_config, cfg_matchmaking = default_matchmaking_config,
      cfg_logging = default_logging_config, cfg_allocation = default_allocation_config\<rparr>"

subsection \<open>Overrides\<close>

text \<open>
  What a variable is read to, \<open>None\<close> where the code leaves the field alone: a text, a port, a
  positive number; and the field after it.
\<close>

definition or_keep :: "'a \<Rightarrow> 'a option \<Rightarrow> 'a" where
  "or_keep old new = (case new of None \<Rightarrow> old | Some v \<Rightarrow> v)"

definition env_port :: "environment \<Rightarrow> string \<Rightarrow> nat option" where
  "env_port env name =
     (case read_environment env name of
        None \<Rightarrow> None
      | Some value \<Rightarrow>
          (case parse_unsigned value of
             None \<Rightarrow> None
           | Some port \<Rightarrow> if port \<ge> 1 \<and> port \<le> 65535 then Some port else None))"

definition env_positive :: "environment \<Rightarrow> string \<Rightarrow> nat option" where
  "env_positive env name =
     (case read_environment env name of
        None \<Rightarrow> None
      | Some value \<Rightarrow>
          (case parse_unsigned value of None \<Rightarrow> None | Some n \<Rightarrow> if n > 0 then Some n else None))"

definition env_bool :: "environment \<Rightarrow> string \<Rightarrow> bool option" where
  "env_bool env name = Option.bind (read_environment env name) config_parse_bool"

text \<open>The first of two names that is set.\<close>

definition env_either :: "environment \<Rightarrow> string \<Rightarrow> string \<Rightarrow> string option" where
  "env_either env name fallback =
     (case read_environment env name of None \<Rightarrow> read_environment env fallback | Some v \<Rightarrow> Some v)"

definition override_server_config :: "environment \<Rightarrow> server_config \<Rightarrow> server_config" where
  "override_server_config env s =
     s\<lparr>cfs_port := or_keep (cfs_port s) (env_port env ''KFC_PORT''),
       cfs_bind_address := or_keep (cfs_bind_address s) (read_environment env ''KFC_BIND_ADDRESS''),
       cfs_max_clients := or_keep (cfs_max_clients s) (env_positive env ''KFC_MAX_CLIENTS''),
       cfs_health_port := or_keep (cfs_health_port s) (env_port env ''KFC_HEALTH_PORT''),
       cfs_server_id := or_keep (cfs_server_id s) (read_environment env ''KFC_SERVER_ID''),
       cfs_region := or_keep (cfs_region s) (read_environment env ''KFC_REGION''),
       cfs_endpoint := or_keep (cfs_endpoint s) (read_environment env ''KFC_GAME_ENDPOINT''),
       cfs_allocation_endpoint :=
         or_keep (cfs_allocation_endpoint s) (read_environment env ''KFC_ALLOCATION_ENDPOINT''),
       cfs_game_port := or_keep (cfs_game_port s) (env_port env ''KFC_GAME_PORT''),
       cfs_game_health_port := or_keep (cfs_game_health_port s) (env_port env ''KFC_GAME_HEALTH_PORT''),
       cfs_game_internal_port := or_keep (cfs_game_internal_port s) (env_port env ''KFC_GAME_INTERNAL_PORT''),
       cfs_gateway_server_id :=
         or_keep (cfs_gateway_server_id s) (read_environment env ''KFC_GATEWAY_SERVER_ID''),
       cfs_game_max_clients := or_keep (cfs_game_max_clients s) (env_positive env ''KFC_GAME_MAX_CLIENTS''),
       cfs_matchmaker_port := or_keep (cfs_matchmaker_port s) (env_port env ''KFC_MATCHMAKER_PORT''),
       cfs_matchmaker_health_port :=
         or_keep (cfs_matchmaker_health_port s) (env_port env ''KFC_MATCHMAKER_HEALTH_PORT''),
       cfs_gateway_internal_port :=
         or_keep (cfs_gateway_internal_port s) (env_port env ''KFC_GATEWAY_INTERNAL_PORT''),
       cfs_matchmaker_endpoint :=
         or_keep (cfs_matchmaker_endpoint s) (read_environment env ''KFC_MATCHMAKER_ENDPOINT''),
       cfs_gateway_notification_endpoint :=
         or_keep (cfs_gateway_notification_endpoint s)
           (read_environment env ''KFC_GATEWAY_NOTIFICATION_ENDPOINT'')\<rparr>"

text \<open>A name that is set hides its fallback even when its value is not accepted.\<close>

definition override_database_config :: "environment \<Rightarrow> database_config \<Rightarrow> database_config" where
  "override_database_config env d =
     d\<lparr>cfd_backend := or_keep (cfd_backend d)
         (Option.bind (env_either env ''KFC_DATABASE_TYPE'' ''KFC_DB_BACKEND'') parse_database_backend),
       cfd_path := or_keep (cfd_path d) (read_environment env ''KFC_DB_PATH''),
       cfd_host := or_keep (cfd_host d) (env_either env ''KFC_POSTGRES_HOST'' ''KFC_DB_HOST''),
       cfd_port := or_keep (cfd_port d)
         (if read_environment env ''KFC_POSTGRES_PORT'' \<noteq> None then env_port env ''KFC_POSTGRES_PORT''
          else env_port env ''KFC_DB_PORT''),
       cfd_database := or_keep (cfd_database d) (env_either env ''KFC_POSTGRES_DB'' ''KFC_DB_NAME''),
       cfd_username := or_keep (cfd_username d) (env_either env ''KFC_POSTGRES_USER'' ''KFC_DB_USER''),
       cfd_password := or_keep (cfd_password d) (env_either env ''KFC_POSTGRES_PASSWORD'' ''KFC_DB_PASSWORD'')\<rparr>"

definition to_int64 :: "int \<Rightarrow> int" where
  "to_int64 i = (i + 2 ^ 63) mod 2 ^ 64 - 2 ^ 63"

definition env_duration :: "environment \<Rightarrow> string \<Rightarrow> int option" where
  "env_duration env name = map_option (\<lambda>n. to_int64 (int n)) (env_positive env name)"

definition override_matchmaking_config :: "environment \<Rightarrow> matchmaking_config \<Rightarrow> matchmaking_config" where
  "override_matchmaking_config env m =
     m\<lparr>cfm_max_rating_difference := or_keep (cfm_max_rating_difference m)
         (map_option (\<lambda>n. to_int32 (int n)) (env_positive env ''KFC_MATCH_MAX_RATING_DIFF'')),
       cfm_queue_timeout := or_keep (cfm_queue_timeout m) (env_duration env ''KFC_MATCH_QUEUE_TIMEOUT_SEC'')\<rparr>"

definition override_logging_config :: "environment \<Rightarrow> logging_config \<Rightarrow> logging_config" where
  "override_logging_config env l =
     l\<lparr>cfl_diagnostics_enabled := or_keep (cfl_diagnostics_enabled l) (env_bool env ''KFC_DIAGNOSTICS'')\<rparr>"

definition override_redis_config :: "environment \<Rightarrow> redis_config \<Rightarrow> redis_config" where
  "override_redis_config env r =
     r\<lparr>cfr_enabled := or_keep (cfr_enabled r) (env_bool env ''KFC_REDIS_ENABLED''),
       cfr_host := or_keep (cfr_host r) (read_environment env ''KFC_REDIS_HOST''),
       cfr_port := or_keep (cfr_port r) (env_port env ''KFC_REDIS_PORT''),
       cfr_password := or_keep (cfr_password r) (read_environment env ''KFC_REDIS_PASSWORD''),
       cfr_database := or_keep (cfr_database r)
         (map_option (\<lambda>n. to_int32 (int n)) (Option.bind (read_environment env ''KFC_REDIS_DATABASE'') parse_unsigned))\<rparr>"

definition override_allocation_config :: "environment \<Rightarrow> allocation_config \<Rightarrow> allocation_config" where
  "override_allocation_config env a =
     a\<lparr>cfa_internal_service_token := or_keep (cfa_internal_service_token a)
         (read_environment env ''KFC_INTERNAL_SERVICE_TOKEN''),
       cfa_allocation_timeout := or_keep (cfa_allocation_timeout a) (env_duration env ''KFC_ALLOCATION_TIMEOUT_MS''),
       cfa_allocation_retry_count := or_keep (cfa_allocation_retry_count a)
         (env_positive env ''KFC_ALLOCATION_RETRY_COUNT''),
       cfa_game_server_ttl := or_keep (cfa_game_server_ttl a) (env_duration env ''KFC_GAME_SERVER_TTL_SECONDS'')\<rparr>"

definition load_config_from_environment :: "environment \<Rightarrow> app_config" where
  "load_config_from_environment env =
     (let config = make_default_config
      in \<lparr>cfg_server = override_server_config env (cfg_server config),
          cfg_database = override_database_config env (cfg_database config),
          cfg_redis = override_redis_config env (cfg_redis config),
          cfg_matchmaking = override_matchmaking_config env (cfg_matchmaking config),
          cfg_logging = override_logging_config env (cfg_logging config),
          cfg_allocation = override_allocation_config env (cfg_allocation config)\<rparr>)"

subsection \<open>Endpoints\<close>

definition resolve_game_endpoint :: "server_config \<Rightarrow> string" where
  "resolve_game_endpoint server =
     (if cfs_endpoint server \<noteq> [] then cfs_endpoint server
      else ''ws://'' @ cfs_bind_address server @ '':'' @ show_nat (cfs_game_port server))"

definition resolve_allocation_endpoint :: "server_config \<Rightarrow> string" where
  "resolve_allocation_endpoint server =
     (if cfs_allocation_endpoint server \<noteq> [] then cfs_allocation_endpoint server
      else ''http://'' @ cfs_bind_address server @ '':'' @ show_nat (cfs_game_internal_port server) @ ''/allocate'')"

definition resolve_matchmaker_health_endpoint :: "server_config \<Rightarrow> string" where
  "resolve_matchmaker_health_endpoint server =
     (let endpoint = cfs_matchmaker_endpoint server
      in if take 7 endpoint = ''http://''
         then
           (let host_port = takeWhile (\<lambda>c. c \<noteq> CHR ''/'') (drop 7 endpoint);
                host = takeWhile (\<lambda>c. c \<noteq> CHR '':'') host_port
            in ''http://'' @ host @ '':'' @ show_nat (cfs_matchmaker_health_port server))
         else ''http://'' @ cfs_bind_address server @ '':'' @ show_nat (cfs_matchmaker_health_port server))"

subsection \<open>Small results are exact\<close>

lemma parse_unsigned_loop_le: "parse_unsigned_loop r ds = Some n \<Longrightarrow> r \<le> n"
proof (induction ds arbitrary: r)
  case (Cons c ds)
  define k where "k = (r * 10 + digit_value c) mod 2 ^ 64"
  have "parse_unsigned_loop r (c # ds) = (if \<not> is_digit c then None else if k < r then None else parse_unsigned_loop k ds)"
    by (simp only: parse_unsigned_loop.simps Let_def k_def)
  with Cons.prems have "r \<le> k" "parse_unsigned_loop k ds = Some n" by (auto split: if_splits)
  with Cons.IH [OF this(2)] show ?case by simp
qed simp

lemma digit_value_le: "is_digit c \<Longrightarrow> digit_value c \<le> 9"
  by (auto simp: is_digit_def digit_value_def)

lemma parse_unsigned_loop_exact:
  assumes "n \<le> 65535"
  shows "parse_unsigned_loop r ds = Some n \<longleftrightarrow>
    list_all is_digit ds \<and> foldl (\<lambda>v c. v * 10 + digit_value c) r ds = n"
proof (induction ds arbitrary: r)
  case (Cons c ds)
  let ?next = "r * 10 + digit_value c"
  show ?case
  proof (cases "is_digit c \<and> r \<le> 65535")
    case True
    then have small: "?next < 2 ^ 64" using digit_value_le [of c] by simp
    then show ?thesis using True Cons.IH [of ?next] by (simp add: Let_def)
  next
    case False
    have "parse_unsigned_loop r (c # ds) \<noteq> Some n" if "is_digit c"
      using parse_unsigned_loop_le [of r "c # ds" n] False that assms by auto
    moreover have "foldl (\<lambda>v c. v * 10 + digit_value c) ?next ds \<noteq> n" if "\<not> r \<le> 65535"
      using digits_mono [of ?next ds] that assms by linarith
    ultimately show ?thesis using False by auto
  qed
qed simp

text \<open>What a port should be: the number in the environment when it is one, else the default.\<close>

definition port_setting :: "environment \<Rightarrow> string \<Rightarrow> nat \<Rightarrow> nat" where
  "port_setting env name dflt =
     (case env name of
        None \<Rightarrow> dflt
      | Some v \<Rightarrow> if v \<noteq> [] \<and> list_all is_digit v \<and> 1 \<le> digits_value v \<and> digits_value v \<le> 65535
                  then digits_value v else dflt)"

lemma env_port_exact: "or_keep dflt (env_port env name) = port_setting env name dflt"
proof -
  have exact: "parse_unsigned v = Some n \<longleftrightarrow> v \<noteq> [] \<and> list_all is_digit v \<and> digits_value v = n" if "n \<le> 65535" for v n
    using parse_unsigned_loop_exact [OF that, of 0 v] by (simp add: parse_unsigned_def digits_value_def)
  have "(case parse_unsigned v of None \<Rightarrow> None | Some port \<Rightarrow> if port \<ge> 1 \<and> port \<le> 65535 then Some port else None) =
      (if v \<noteq> [] \<and> list_all is_digit v \<and> 1 \<le> digits_value v \<and> digits_value v \<le> 65535
       then Some (digits_value v) else None)" for v
    using exact [of "digits_value v" v] exact [of "the (parse_unsigned v)" v] by (auto split: option.splits)
  then show ?thesis
    by (simp add: or_keep_def env_port_def port_setting_def read_environment_def split: option.splits)
qed

lemma port_setting_range: "1 \<le> dflt \<and> dflt \<le> 65535 \<Longrightarrow> 1 \<le> port_setting env name dflt \<and> port_setting env name dflt \<le> 65535"
  by (auto simp: port_setting_def split: option.splits)

end
