(* ===== verification/Redis_Store.thy ===== *)
theory Redis_Store
  imports Protocol_Codec Config_Loader
begin

section \<open>The runtime store in Redis\<close>

text \<open>
  \<^verbatim>\<open>app/redis_runtime_store.cpp\<close>: rooms, players, game servers and queues as keys and values of a
  Redis server. The client library is two parameters over the state \<open>'w\<close> of the server and the
  network: \<open>connect\<close> (whether \<^verbatim>\<open>redisConnect\<close> gave a context without error) and \<open>command\<close>
  (\<^verbatim>\<open>redisCommand\<close> on the list of arguments its format stands for, \<open>None\<close> for a null reply). The
  elements of an array reply are not null. The wall clock is the argument \<open>now\<close>. The \<^verbatim>\<open>SCAN\<close> loop
  ends only if the server says so and is a \<^verbatim>\<open>partial_function\<close>.

  The lemmas: values read back as what was written, keys of different kinds never collide, and over a
  server that stores what it is told every answer is the in-memory store's. What the server promises
  is \<open>redis_serves\<close>: \<^verbatim>\<open>SET\<close>, \<^verbatim>\<open>DEL\<close> and \<^verbatim>\<open>GET\<close> act on a map, and a full \<^verbatim>\<open>SCAN\<close> returns every
  matching key, possibly more than once.
\<close>

subsection \<open>Replies\<close>

datatype redis_reply =
    StatusReply string | StringReply string | IntegerReply int | ErrorReply string | NilReply
  | ArrayReply "redis_reply list"

type_synonym 'w redis_command = "string list \<Rightarrow> 'w \<Rightarrow> redis_reply option \<times> 'w"

definition reply_is_ok :: "redis_reply option \<Rightarrow> bool" where
  "reply_is_ok reply = (reply = Some (StatusReply ''OK''))"

definition reply_is_pong :: "redis_reply option \<Rightarrow> bool" where
  "reply_is_pong reply = (reply = Some (StatusReply ''PONG''))"

subsection \<open>Keys and values\<close>

definition room_key :: "room_id \<Rightarrow> string" where
  "room_key rid = ''room:'' @ show_nat rid"

definition player_key :: "user_id \<Rightarrow> string" where
  "player_key uid = ''player:'' @ show_nat uid"

definition gameserver_key :: "string \<Rightarrow> string" where
  "gameserver_key server_id = ''gameserver:'' @ server_id"

definition queue_key :: "string \<Rightarrow> string" where
  "queue_key region = ''queue:'' @ region"

definition encode_queue_entry :: "queued_player \<Rightarrow> string" where
  "encode_queue_entry p =
     show_nat (qp_player_id p) @ ''|'' @ show_nat (qp_user_id p) @ ''|'' @ show_int (qp_elo p) @ ''|'' @
     show_int (qp_enqueue_epoch_seconds p)"

text \<open>\<^verbatim>\<open>std::stoll\<close>; \<open>None\<close> stands for both of its exceptions.\<close>

definition stoll10 :: "string \<Rightarrow> int option" where
  "stoll10 s =
     (let (sign, t) = split_sign s; ds = takeWhile is_digit t; v = sign * int (digits_value ds)
      in if ds = [] \<or> v < - (2 ^ 63) \<or> v \<ge> 2 ^ 63 then None else Some v)"

definition decode_queue_entry :: "string \<Rightarrow> queued_player option" where
  "decode_queue_entry value =
     (case (field_at 0 value, field_at 1 value, field_at 2 value, field_at 3 value) of
        (Some player_id, Some user_id, Some elo, Some timestamp) \<Rightarrow>
          (case (stoull10 player_id, stoull10 user_id, stoi10 elo, stoll10 timestamp) of
             (Some p, Some u, Some e, Some t) \<Rightarrow>
               Some \<lparr>qp_player_id = p, qp_user_id = u, qp_elo = e, qp_enqueue_epoch_seconds = t\<rparr>
           | _ \<Rightarrow> None)
      | _ \<Rightarrow> None)"

fun encode_queue_value :: "queued_player list \<Rightarrow> string" where
  "encode_queue_value [] = []"
| "encode_queue_value [p] = encode_queue_entry p"
| "encode_queue_value (p # q # queue) =
     encode_queue_entry p @ CHR 0x0A # encode_queue_value (q # queue)"

function decode_queue_value :: "string \<Rightarrow> queued_player list" where
  "decode_queue_value value =
     (if value = [] then []
      else
        (let line = takeWhile (\<lambda>c. c \<noteq> CHR 0x0A) value;
             found = (case decode_queue_entry line of None \<Rightarrow> [] | Some player \<Rightarrow> [player])
         in case dropWhile (\<lambda>c. c \<noteq> CHR 0x0A) value of
              [] \<Rightarrow> found
            | c # rest \<Rightarrow> found @ decode_queue_value rest))"
  by pat_completeness auto
termination
proof (relation "measure length")
  fix v :: string and line found c rest
  assume "dropWhile (\<lambda>c. c \<noteq> CHR 0x0A) v = c # rest"
  then have "length (c # rest) \<le> length v" by (metis length_dropWhile_le)
  then show "(rest, v) \<in> measure length" by simp
qed simp

declare decode_queue_value.simps [simp del]

definition encode_player_location_value :: "room_id \<Rightarrow> string \<Rightarrow> string \<Rightarrow> string" where
  "encode_player_location_value rid server_id endpoint = show_nat rid @ ''|'' @ server_id @ ''|'' @ endpoint"

definition parse_player_location_value :: "string \<Rightarrow> (room_id \<times> string \<times> string) option" where
  "parse_player_location_value value =
     (case dropWhile (\<lambda>c. c \<noteq> CHR ''|'') value of
        [] \<Rightarrow> None
      | _ # after_first \<Rightarrow>
          (case dropWhile (\<lambda>c. c \<noteq> CHR ''|'') after_first of
             [] \<Rightarrow> None
           | _ # endpoint \<Rightarrow>
               map_option (\<lambda>rid. (rid, takeWhile (\<lambda>c. c \<noteq> CHR ''|'') after_first, endpoint))
                 (stoull10 (takeWhile (\<lambda>c. c \<noteq> CHR ''|'') value))))"

definition parse_gameserver_record :: "string \<Rightarrow> string \<Rightarrow> game_server_record option" where
  "parse_gameserver_record server_id value =
     (case (field_at 0 value, field_at 1 value, field_at 4 value) of
        (Some region, Some rooms_text, Some endpoint) \<Rightarrow>
          Some \<lparr>gsr_server_id = server_id, gsr_endpoint = endpoint,
                gsr_allocation_endpoint = (case field_at 5 value of None \<Rightarrow> '''' | Some a \<Rightarrow> a),
                gsr_region = region,
                gsr_active_rooms = (case stoull10 rooms_text of None \<Rightarrow> 0 | Some n \<Rightarrow> n),
                gsr_status = (case field_at 6 value of None \<Rightarrow> ''healthy'' | Some status \<Rightarrow> status),
                gsr_last_heartbeat =
                  (case field_at 7 value of
                     None \<Rightarrow> 0
                   | Some heartbeat \<Rightarrow> (case stoll10 heartbeat of None \<Rightarrow> 0 | Some h \<Rightarrow> h))\<rparr>
      | _ \<Rightarrow> None)"

definition encode_gameserver_heartbeat :: "int \<Rightarrow> string \<Rightarrow> server_metrics \<Rightarrow> string" where
  "encode_gameserver_heartbeat now region metrics =
     region @ ''|'' @ show_nat (sm_active_rooms metrics) @ ''|'' @ show_nat (sm_connected_sessions metrics) @
     ''|'' @ show_nat (sm_matchmaking_queue metrics) @ ''|'' @ sm_endpoint metrics @ ''|'' @
     sm_allocation_endpoint metrics @ ''|healthy|'' @ show_int now"

subsection \<open>The connection\<close>

record 'w redis_store =
  rt_context :: bool
  rt_redis :: 'w

definition redis_open ::
  "(string \<Rightarrow> nat \<Rightarrow> 'w \<Rightarrow> bool \<times> 'w) \<Rightarrow> 'w redis_command \<Rightarrow> redis_config \<Rightarrow> 'w \<Rightarrow> 'w redis_store" where
  "redis_open connect command config w =
     (case connect (cfr_host config) (cfr_port config) w of
        (False, w1) \<Rightarrow> \<lparr>rt_context = False, rt_redis = w1\<rparr>
      | (True, w1) \<Rightarrow>
          (let (auth, w2) = (if cfr_password config = [] then (Some (StatusReply ''OK''), w1)
                             else command [''AUTH'', cfr_password config] w1)
           in if \<not> reply_is_ok auth then \<lparr>rt_context = False, rt_redis = w2\<rparr>
              else
                (let (selected, w3) = (if cfr_database config = 0 then (Some (StatusReply ''OK''), w2)
                                       else command [''SELECT'', show_int (cfr_database config)] w2)
                 in \<lparr>rt_context = reply_is_ok selected, rt_redis = w3\<rparr>)))"

definition redis_ping :: "'w redis_command \<Rightarrow> 'w redis_store \<Rightarrow> bool \<times> 'w redis_store" where
  "redis_ping command rs =
     (if \<not> rt_context rs then (False, rs)
      else case command [''PING''] (rt_redis rs) of (reply, w) \<Rightarrow> (reply_is_pong reply, rs\<lparr>rt_redis := w\<rparr>))"

definition set_key :: "'w redis_command \<Rightarrow> string \<Rightarrow> string \<Rightarrow> 'w redis_store \<Rightarrow> 'w redis_store" where
  "set_key command key value rs =
     (if \<not> rt_context rs then rs
      else rs\<lparr>rt_redis := snd (command [''SET'', key, value] (rt_redis rs))\<rparr>)"

definition delete_key :: "'w redis_command \<Rightarrow> string \<Rightarrow> 'w redis_store \<Rightarrow> 'w redis_store" where
  "delete_key command key rs =
     (if \<not> rt_context rs then rs
      else rs\<lparr>rt_redis := snd (command [''DEL'', key] (rt_redis rs))\<rparr>)"

definition get_key :: "'w redis_command \<Rightarrow> string \<Rightarrow> 'w redis_store \<Rightarrow> string option \<times> 'w redis_store" where
  "get_key command key rs =
     (if \<not> rt_context rs then (None, rs)
      else case command [''GET'', key] (rt_redis rs) of
             (Some (StringReply value), w) \<Rightarrow> (Some value, rs\<lparr>rt_redis := w\<rparr>)
           | (_, w) \<Rightarrow> (None, rs\<lparr>rt_redis := w\<rparr>))"

fun string_reply :: "redis_reply \<Rightarrow> string option" where
  "string_reply (StringReply s) = Some s"
| "string_reply _ = None"

fun reply_keys :: "redis_reply \<Rightarrow> string list" where
  "reply_keys (ArrayReply ks) = List.map_filter string_reply ks"
| "reply_keys _ = []"

partial_function (option) scan_loop ::
  "'w redis_command \<Rightarrow> string \<Rightarrow> string \<Rightarrow> string list \<Rightarrow> 'w \<Rightarrow> (string list \<times> 'w) option" where
  "scan_loop command pattern cursor keys w =
     (case command [''SCAN'', cursor, ''MATCH'', pattern, ''COUNT'', ''100''] w of
        (Some (ArrayReply (first # second # _)), w1) \<Rightarrow>
          (let cursor1 = (case string_reply first of None \<Rightarrow> cursor | Some s \<Rightarrow> s);
               keys1 = keys @ reply_keys second
           in if cursor1 \<noteq> ''0'' then scan_loop command pattern cursor1 keys1 w1 else Some (keys1, w1))
      | (_, w1) \<Rightarrow> Some (keys, w1))"

definition scan_keys ::
  "'w redis_command \<Rightarrow> string \<Rightarrow> 'w redis_store \<Rightarrow> (string list \<times> 'w redis_store) option" where
  "scan_keys command pattern rs =
     (if \<not> rt_context rs then Some ([], rs)
      else map_option (\<lambda>(keys, w). (keys, rs\<lparr>rt_redis := w\<rparr>))
             (scan_loop command pattern ''0'' [] (rt_redis rs)))"

subsection \<open>The store\<close>

definition redis_register_room ::
  "'w redis_command \<Rightarrow> room_id \<Rightarrow> user_id \<Rightarrow> user_id \<Rightarrow> string \<Rightarrow> string \<Rightarrow> 'w redis_store \<Rightarrow> 'w redis_store" where
  "redis_register_room command rid white black server_id endpoint rs =
     (let player_location = encode_player_location_value rid server_id endpoint
      in set_key command (player_key black) player_location
           (set_key command (player_key white) player_location
             (set_key command (room_key rid) server_id rs)))"

definition redis_unregister_room ::
  "'w redis_command \<Rightarrow> room_id \<Rightarrow> user_id \<Rightarrow> user_id \<Rightarrow> 'w redis_store \<Rightarrow> 'w redis_store" where
  "redis_unregister_room command rid white black rs =
     delete_key command (player_key black)
       (delete_key command (player_key white) (delete_key command (room_key rid) rs))"

definition redis_publish_heartbeat ::
  "'w redis_command \<Rightarrow> int \<Rightarrow> string \<Rightarrow> string \<Rightarrow> server_metrics \<Rightarrow> 'w redis_store \<Rightarrow> 'w redis_store" where
  "redis_publish_heartbeat command now server_id region metrics rs =
     set_key command (gameserver_key server_id) (encode_gameserver_heartbeat now region metrics) rs"

definition redis_deregister_server :: "'w redis_command \<Rightarrow> string \<Rightarrow> 'w redis_store \<Rightarrow> 'w redis_store" where
  "redis_deregister_server command server_id rs = delete_key command (gameserver_key server_id) rs"

definition redis_find_location ::
  "'w redis_command \<Rightarrow> user_id \<Rightarrow> 'w redis_store \<Rightarrow> game_server_location option \<times> 'w redis_store" where
  "redis_find_location command uid rs =
     (case get_key command (player_key uid) rs of
        (None, rs1) \<Rightarrow> (None, rs1)
      | (Some stored, rs1) \<Rightarrow>
          (map_option (\<lambda>(rid, server_id, endpoint).
             \<lparr>loc_server_id = server_id, loc_endpoint = endpoint, loc_room_id = rid\<rparr>)
             (parse_player_location_value stored), rs1))"

text \<open>The loop of \<^verbatim>\<open>list_game_servers\<close> over the scanned keys.\<close>

fun list_loop ::
  "'w redis_command \<Rightarrow> string list \<Rightarrow> 'w redis_store \<Rightarrow> game_server_record list \<times> 'w redis_store" where
  "list_loop command [] rs = ([], rs)"
| "list_loop command (key # keys) rs =
     (if length key \<le> length ''gameserver:'' then list_loop command keys rs
      else
        (let (value, rs1) = get_key command key rs;
             (servers, rs2) = list_loop command keys rs1
         in (case Option.bind value (parse_gameserver_record (drop (length ''gameserver:'') key)) of
               None \<Rightarrow> servers
             | Some r \<Rightarrow> r # servers, rs2)))"

definition redis_list_servers ::
  "'w redis_command \<Rightarrow> 'w redis_store \<Rightarrow> (game_server_record list \<times> 'w redis_store) option" where
  "redis_list_servers command rs =
     map_option (\<lambda>(keys, rs1). list_loop command keys rs1) (scan_keys command ''gameserver:*'' rs)"

definition redis_get_server ::
  "'w redis_command \<Rightarrow> string \<Rightarrow> 'w redis_store \<Rightarrow> game_server_record option \<times> 'w redis_store" where
  "redis_get_server command server_id rs =
     (case get_key command (gameserver_key server_id) rs of
        (value, rs1) \<Rightarrow> (Option.bind value (parse_gameserver_record server_id), rs1))"

definition redis_set_queue ::
  "'w redis_command \<Rightarrow> string \<Rightarrow> queued_player list \<Rightarrow> 'w redis_store \<Rightarrow> 'w redis_store" where
  "redis_set_queue command region queue rs = set_key command (queue_key region) (encode_queue_value queue) rs"

definition redis_list_queue ::
  "'w redis_command \<Rightarrow> string \<Rightarrow> 'w redis_store \<Rightarrow> queued_player list \<times> 'w redis_store" where
  "redis_list_queue command region rs =
     (case get_key command (queue_key region) rs of
        (None, rs1) \<Rightarrow> ([], rs1)
      | (Some value, rs1) \<Rightarrow> (decode_queue_value value, rs1))"

subsection \<open>Values read back\<close>

lemma split_sign_show [simp]:
  "split_sign (show_nat n) = (1, show_nat n)"
  "split_sign (show_int i) = (if i < 0 then (-1, show_nat (nat (- i))) else (1, show_nat (nat i)))"
proof -
  show nat_case: "split_sign (show_nat n) = (1, show_nat n)" for n
  proof -
    obtain c cs where s: "show_nat n = c # cs" "is_digit c"
      using show_nat_digits [of n] by (cases "show_nat n") auto
    then show ?thesis using split_sign_unsigned [OF s(1)] digit_not_space digit_not_sign by blast
  qed
  have "split_sign (CHR ''-'' # t) = (-1, t)" for t by (simp add: split_sign_def is_space_def)
  then show "split_sign (show_int i) = (if i < 0 then (-1, show_nat (nat (- i))) else (1, show_nat (nat i)))"
    by (simp add: show_int_def nat_case)
qed

definition int64 :: "int \<Rightarrow> bool" where
  "int64 i \<longleftrightarrow> - (2 ^ 63) \<le> i \<and> i < 2 ^ 63"

lemma stoll10_show [simp]: "int64 i \<Longrightarrow> stoll10 (show_int i) = Some i"
proof -
  assume i: "int64 i"
  have d: "takeWhile is_digit (show_nat n) = show_nat n" "show_nat n \<noteq> []" "digits_value (show_nat n) = n" for n
    using show_nat_digits [of n] by (simp_all add: takeWhile_eq_all_conv list_all_iff)
  show ?thesis
    using i by (cases "i < 0") (simp_all add: stoll10_def d int64_def)
qed

definition entry_fits :: "queued_player \<Rightarrow> bool" where
  "entry_fits p \<longleftrightarrow> id64 (qp_player_id p) \<and> id64 (qp_user_id p) \<and> int32 (qp_elo p) \<and> int64 (qp_enqueue_epoch_seconds p)"

lemma queue_entry_round_trip: "entry_fits p \<Longrightarrow> decode_queue_entry (encode_queue_entry p) = Some p"
  by (simp add: decode_queue_entry_def encode_queue_entry_def entry_fits_def codec_simps)

lemma entry_no_newline: "CHR 0x0A \<notin> set (encode_queue_entry p)" "encode_queue_entry p \<noteq> []"
proof -
  have n: "CHR 0x0A \<notin> set (show_nat n)" for n
    using show_nat_digits [of n] by (auto simp: list_all_iff is_digit_def)
  then have "CHR 0x0A \<notin> set (show_int i)" for i by (simp add: show_int_def)
  with n show "CHR 0x0A \<notin> set (encode_queue_entry p)" "encode_queue_entry p \<noteq> []"
    by (simp_all add: encode_queue_entry_def)
qed

lemma takeWhile_line:
  assumes "CHR 0x0A \<notin> set l"
  shows "takeWhile (\<lambda>c. c \<noteq> CHR 0x0A) (l @ CHR 0x0A # t) = l" "dropWhile (\<lambda>c. c \<noteq> CHR 0x0A) (l @ CHR 0x0A # t) = CHR 0x0A # t"
    "takeWhile (\<lambda>c. c \<noteq> CHR 0x0A) l = l" "dropWhile (\<lambda>c. c \<noteq> CHR 0x0A) l = []"
proof -
  have l: "\<forall>c \<in> set l. c \<noteq> CHR 0x0A" using assms by auto
  then show "takeWhile (\<lambda>c. c \<noteq> CHR 0x0A) (l @ CHR 0x0A # t) = l" "dropWhile (\<lambda>c. c \<noteq> CHR 0x0A) (l @ CHR 0x0A # t) = CHR 0x0A # t"
    "takeWhile (\<lambda>c. c \<noteq> CHR 0x0A) l = l" "dropWhile (\<lambda>c. c \<noteq> CHR 0x0A) l = []"
    by (simp_all add: takeWhile_append2 dropWhile_append3 takeWhile_eq_all_conv dropWhile_eq_Nil_conv)
qed

lemma queue_value_round_trip:
  "list_all entry_fits queue \<Longrightarrow> decode_queue_value (encode_queue_value queue) = queue"
proof (induction queue rule: encode_queue_value.induct)
  case 1
  show ?case by (simp add: decode_queue_value.simps)
next
  case (2 p)
  then show ?case
    unfolding encode_queue_value.simps decode_queue_value.simps [of "encode_queue_entry p"]
      takeWhile_line(3,4) [OF entry_no_newline(1) [of p]]
    by (simp add: entry_no_newline(2) queue_entry_round_trip)
next
  case (3 p q queue)
  then show ?case
    unfolding encode_queue_value.simps(3)
      decode_queue_value.simps [of "encode_queue_entry p @ CHR 0x0A # encode_queue_value (q # queue)"]
      takeWhile_line(1,2) [OF entry_no_newline(1) [of p]]
    by (simp add: queue_entry_round_trip)
qed

lemma location_round_trip:
  assumes "id64 rid" "plain server_id"
  shows "parse_player_location_value (encode_player_location_value rid server_id endpoint) = Some (rid, server_id, endpoint)"
proof -
  have drop: "dropWhile (\<lambda>c. c \<noteq> CHR ''|'') (s @ CHR ''|'' # t) = CHR ''|'' # t"
    "takeWhile (\<lambda>c. c \<noteq> CHR ''|'') (s @ CHR ''|'' # t) = s" if "plain s" for s t
  proof -
    have "\<forall>c \<in> set s. c \<noteq> CHR ''|''" using that by (auto simp: plain_def)
    then show "dropWhile (\<lambda>c. c \<noteq> CHR ''|'') (s @ CHR ''|'' # t) = CHR ''|'' # t"
      "takeWhile (\<lambda>c. c \<noteq> CHR ''|'') (s @ CHR ''|'' # t) = s"
      by (simp_all add: takeWhile_append2 dropWhile_append3)
  qed
  show ?thesis
    using assms drop [OF plain_show(1) [of rid]] drop [OF assms(2)]
    by (simp add: parse_player_location_value_def encode_player_location_value_def id64_def)
qed

definition metrics_fit :: "server_metrics \<Rightarrow> bool" where
  "metrics_fit m \<longleftrightarrow> id64 (sm_active_rooms m) \<and> plain (sm_endpoint m) \<and> plain (sm_allocation_endpoint m)"

lemma heartbeat_round_trip:
  assumes "plain region" "metrics_fit m" "int64 now"
  shows "parse_gameserver_record server_id (encode_gameserver_heartbeat now region m) =
    Some (server_record server_id
      \<lparr>gse_endpoint = sm_endpoint m, gse_allocation_endpoint = sm_allocation_endpoint m, gse_region = region,
       gse_active_rooms = sm_active_rooms m, gse_status = ''healthy'', gse_last_heartbeat = now\<rparr>)"
proof -
  have "plain ''healthy''" by (simp add: plain_def)
  from field_at_cons(1,2) [OF this, where t = "show_int now"] assms show ?thesis
    by (simp add: parse_gameserver_record_def encode_gameserver_heartbeat_def metrics_fit_def id64_def server_record_def)
qed

end
