(* ===== verification/Redis_Refinement.thy ===== *)
theory Redis_Refinement
  imports Redis_Store
begin

section \<open>Both runtime stores keep the same contract\<close>

text \<open>
  The operations of \<^verbatim>\<open>app/i_runtime_store.h\<close> as data, the contract of a runtime store as a locale over
  the in-memory store, and its two providers: the in-memory store itself and the store in Redis over
  a server that keeps \<open>redis_serves\<close>.
\<close>

subsection \<open>Operations\<close>

datatype store_op =
    RegisterRoom room_id user_id user_id string string
  | UnregisterRoom room_id user_id user_id
  | Heartbeat int string string server_metrics
  | Deregister string
  | SetQueue string "queued_player list"

fun memory_op :: "store_op \<Rightarrow> in_memory_runtime_store \<Rightarrow> in_memory_runtime_store" where
  "memory_op (RegisterRoom rid white black server_id endpoint) st = register_room rid white black server_id endpoint st"
| "memory_op (UnregisterRoom rid white black) st = unregister_room rid white black st"
| "memory_op (Heartbeat now server_id region metrics) st = publish_server_heartbeat now server_id region metrics st"
| "memory_op (Deregister server_id) st = deregister_server server_id st"
| "memory_op (SetQueue region queue) st = set_matchmaking_queue region queue st"

fun redis_op :: "'w redis_command \<Rightarrow> store_op \<Rightarrow> 'w redis_store \<Rightarrow> 'w redis_store" where
  "redis_op command (RegisterRoom rid white black server_id endpoint) rs =
     redis_register_room command rid white black server_id endpoint rs"
| "redis_op command (UnregisterRoom rid white black) rs = redis_unregister_room command rid white black rs"
| "redis_op command (Heartbeat now server_id region metrics) rs =
     redis_publish_heartbeat command now server_id region metrics rs"
| "redis_op command (Deregister server_id) rs = redis_deregister_server command server_id rs"
| "redis_op command (SetQueue region queue) rs = redis_set_queue command region queue rs"

text \<open>
  What a text format with bars can carry: numbers of their width, names without a bar. A game server
  needs a name, because a listing skips the key without one.
\<close>

fun op_fits :: "store_op \<Rightarrow> bool" where
  "op_fits (RegisterRoom rid white black server_id endpoint) = (id64 rid \<and> plain server_id)"
| "op_fits (Heartbeat now server_id region metrics) =
     (server_id \<noteq> [] \<and> plain region \<and> metrics_fit metrics \<and> int64 now)"
| "op_fits (SetQueue region queue) = list_all entry_fits queue"
| "op_fits _ = True"

subsection \<open>The contract\<close>

text \<open>
  \<open>mirrors s st\<close>: the store \<open>s\<close> holds what the in-memory store \<open>st\<close> holds. A listing may repeat a
  server, so it is compared as a set.
\<close>

locale runtime_store_contract =
  fixes step :: "store_op \<Rightarrow> 's \<Rightarrow> 's"
    and locate :: "user_id \<Rightarrow> 's \<Rightarrow> game_server_location option \<times> 's"
    and server :: "string \<Rightarrow> 's \<Rightarrow> game_server_record option \<times> 's"
    and servers :: "'s \<Rightarrow> (game_server_record list \<times> 's) option"
    and queue :: "string \<Rightarrow> 's \<Rightarrow> queued_player list \<times> 's"
    and mirrors :: "'s \<Rightarrow> in_memory_runtime_store \<Rightarrow> bool"
  assumes step_mirrors: "mirrors s st \<Longrightarrow> op_fits op \<Longrightarrow> mirrors (step op s) (memory_op op st)"
    and locate_mirrors: "mirrors s st \<Longrightarrow>
      fst (locate uid s) = find_player_location uid st \<and> mirrors (snd (locate uid s)) st"
    and server_mirrors: "mirrors s st \<Longrightarrow>
      fst (server sid s) = get_game_server sid st \<and> mirrors (snd (server sid s)) st"
    and servers_mirrors: "mirrors s st \<Longrightarrow>
      \<exists>rs s'. servers s = Some (rs, s') \<and> set rs = set (list_game_servers st) \<and> mirrors s' st"
    and queue_mirrors: "mirrors s st \<Longrightarrow>
      fst (queue region s) = list_matchmaking_queue region st \<and> mirrors (snd (queue region s)) st"
begin

lemma run_mirrors: "mirrors s st \<Longrightarrow> list_all op_fits ops \<Longrightarrow> mirrors (fold step ops s) (fold memory_op ops st)"
  by (induction ops arbitrary: s st) (auto intro: step_mirrors)

lemma run_answers:
  assumes "mirrors s st" "list_all op_fits ops"
  shows "fst (locate uid (fold step ops s)) = find_player_location uid (fold memory_op ops st) \<and>
    fst (server sid (fold step ops s)) = get_game_server sid (fold memory_op ops st) \<and>
    (\<exists>rs s'. servers (fold step ops s) = Some (rs, s') \<and> set rs = set (list_game_servers (fold memory_op ops st))) \<and>
    fst (queue region (fold step ops s)) = list_matchmaking_queue region (fold memory_op ops st)"
  using locate_mirrors [OF run_mirrors [OF assms]] server_mirrors [OF run_mirrors [OF assms]]
    servers_mirrors [OF run_mirrors [OF assms]] queue_mirrors [OF run_mirrors [OF assms]] by blast

end

interpretation in_memory_store: runtime_store_contract memory_op "\<lambda>uid st. (find_player_location uid st, st)"
  "\<lambda>sid st. (get_game_server sid st, st)" "\<lambda>st. Some (list_game_servers st, st)"
  "\<lambda>region st. (list_matchmaking_queue region st, st)" "\<lambda>s st. s = st"
  by unfold_locales auto

subsection \<open>What a Redis server promises\<close>

fun scan_pages :: "'w redis_command \<Rightarrow> string \<Rightarrow> string \<Rightarrow> 'w \<Rightarrow> string list list \<Rightarrow> 'w \<Rightarrow> bool" where
  "scan_pages command pattern cursor w [] w' \<longleftrightarrow> False"
| "scan_pages command pattern cursor w (page # pages) w' \<longleftrightarrow>
     (\<exists>c w1. command [''SCAN'', cursor, ''MATCH'', pattern, ''COUNT'', ''100''] w =
          (Some (ArrayReply [StringReply c, ArrayReply (map StringReply page)]), w1) \<and>
        (if c = ''0'' then pages = [] \<and> w' = w1 else scan_pages command pattern c w1 pages w'))"

definition redis_serves :: "'w redis_command \<Rightarrow> ('w \<Rightarrow> string \<rightharpoonup> string) \<Rightarrow> bool" where
  "redis_serves command kv \<longleftrightarrow>
     (\<forall>k v w. kv (snd (command [''SET'', k, v] w)) = (kv w)(k \<mapsto> v)) \<and>
     (\<forall>k w. kv (snd (command [''DEL'', k] w)) = (kv w)(k := None)) \<and>
     (\<forall>k w. fst (command [''GET'', k] w) = Some (case kv w k of None \<Rightarrow> NilReply | Some v \<Rightarrow> StringReply v) \<and>
            kv (snd (command [''GET'', k] w)) = kv w) \<and>
     (\<forall>w. \<exists>pages w'. scan_pages command ''gameserver:*'' ''0'' w pages w' \<and> kv w' = kv w \<and>
            set (concat pages) = {k \<in> dom (kv w). take 11 k = ''gameserver:''})"

lemma map_filter_string [simp]: "List.map_filter string_reply (map StringReply ks) = ks"
  by (induction ks) (simp_all add: List.map_filter_simps)

lemma scan_loop_pages:
  "scan_pages command pattern cursor w pages w' \<Longrightarrow>
   scan_loop command pattern cursor keys w = Some (keys @ concat pages, w')"
proof (induction pages arbitrary: cursor w keys)
  case (Cons page pages)
  then obtain c w1 where
    r: "command [''SCAN'', cursor, ''MATCH'', pattern, ''COUNT'', ''100''] w =
      (Some (ArrayReply [StringReply c, ArrayReply (map StringReply page)]), w1)" and
    n: "if c = ''0'' then pages = [] \<and> w' = w1 else scan_pages command pattern c w1 pages w'"
    by auto
  have "scan_loop command pattern cursor keys w =
      (if c \<noteq> ''0'' then scan_loop command pattern c (keys @ page) w1 else Some (keys @ page, w1))"
    by (subst scan_loop.simps) (simp add: r)
  then show ?case using Cons.IH [of c w1 "keys @ page"] n by (auto split: if_splits)
qed simp

subsection \<open>The store in Redis keeps the contract\<close>

lemma show_nat_inj [simp]: "show_nat m = show_nat n \<longleftrightarrow> m = n"
  by (metis show_nat_digits)

lemma keys_apart [simp]:
  "player_key u = player_key u' \<longleftrightarrow> u = u'" "gameserver_key s = gameserver_key s' \<longleftrightarrow> s = s'"
  "queue_key r = queue_key r' \<longleftrightarrow> r = r'"
  "player_key u \<noteq> gameserver_key s" "gameserver_key s \<noteq> player_key u" "player_key u \<noteq> queue_key r"
  "queue_key r \<noteq> player_key u" "gameserver_key s \<noteq> queue_key r" "queue_key r \<noteq> gameserver_key s"
  "room_key i \<noteq> player_key u" "room_key i \<noteq> gameserver_key s" "room_key i \<noteq> queue_key r"
  "player_key u \<noteq> room_key i" "gameserver_key s \<noteq> room_key i" "queue_key r \<noteq> room_key i"
  by (simp_all add: player_key_def gameserver_key_def queue_key_def room_key_def)

text \<open>The stored values of a map of keys, decoded.\<close>

definition decoded :: "(string \<rightharpoonup> string) \<Rightarrow> in_memory_runtime_store \<Rightarrow> bool" where
  "decoded m st \<longleftrightarrow>
     (\<forall>u. Option.bind (m (player_key u)) parse_player_location_value =
        map_option (\<lambda>e. (ple_room_id e, ple_server_id e, ple_endpoint e)) (map_of (rs_player_locations st) u)) \<and>
     (\<forall>s. Option.bind (m (gameserver_key s)) (parse_gameserver_record s) =
        map_option (server_record s) (map_of (rs_game_servers st) s)) \<and>
     (\<forall>r. map_option decode_queue_value (m (queue_key r)) = map_of (rs_matchmaking_queues st) r) \<and>
     store_ok st \<and> [] \<notin> set (map fst (rs_game_servers st))"

definition redis_mirrors :: "('w \<Rightarrow> string \<rightharpoonup> string) \<Rightarrow> 'w redis_store \<Rightarrow> in_memory_runtime_store \<Rightarrow> bool" where
  "redis_mirrors kv rs st \<longleftrightarrow> rt_context rs \<and> decoded (kv (rt_redis rs)) st"

lemma key_ops:
  assumes "redis_serves command kv" "rt_context rs"
  shows "rt_context (set_key command k v rs) \<and> kv (rt_redis (set_key command k v rs)) = (kv (rt_redis rs))(k \<mapsto> v)"
    "rt_context (delete_key command k rs) \<and> kv (rt_redis (delete_key command k rs)) = (kv (rt_redis rs))(k := None)"
    "fst (get_key command k rs) = kv (rt_redis rs) k"
    "rt_context (snd (get_key command k rs)) \<and> kv (rt_redis (snd (get_key command k rs))) = kv (rt_redis rs)"
proof -
  obtain r w where c: "command [''GET'', k] (rt_redis rs) = (r, w)" by fastforce
  have g: "r = Some (case kv (rt_redis rs) k of None \<Rightarrow> NilReply | Some v \<Rightarrow> StringReply v)" "kv w = kv (rt_redis rs)"
    using assms(1) c unfolding redis_serves_def by (metis fst_conv snd_conv)+
  show "rt_context (set_key command k v rs) \<and> kv (rt_redis (set_key command k v rs)) = (kv (rt_redis rs))(k \<mapsto> v)"
    "rt_context (delete_key command k rs) \<and> kv (rt_redis (delete_key command k rs)) = (kv (rt_redis rs))(k := None)"
    using assms by (simp_all add: set_key_def delete_key_def redis_serves_def)
  show "fst (get_key command k rs) = kv (rt_redis rs) k"
    "rt_context (snd (get_key command k rs)) \<and> kv (rt_redis (snd (get_key command k rs))) = kv (rt_redis rs)"
    using assms(2) c g by (simp_all add: get_key_def split: option.splits)
qed

lemma decoded_register:
  assumes "decoded m st" "id64 rid" "plain server_id"
  shows "decoded (m(room_key rid \<mapsto> v, player_key white \<mapsto> encode_player_location_value rid server_id endpoint,
      player_key black \<mapsto> encode_player_location_value rid server_id endpoint))
    (register_room rid white black server_id endpoint st)"
  using assms
  by (simp add: decoded_def register_room_def Let_def update_conv' location_round_trip store_ok_def)

lemma decoded_unregister:
  assumes "decoded m st"
  shows "decoded (m(room_key rid := None, player_key white := None, player_key black := None))
    (unregister_room rid white black st)"
  using assms
  by (simp add: decoded_def unregister_room_def delete_conv' store_ok_def)

lemma decoded_heartbeat:
  assumes "decoded m st" "server_id \<noteq> []" "plain region" "metrics_fit metrics" "int64 now"
  shows "decoded (m(gameserver_key server_id \<mapsto> encode_gameserver_heartbeat now region metrics))
    (publish_server_heartbeat now server_id region metrics st)"
proof -
  have "store_ok (publish_server_heartbeat now server_id region metrics st)"
    using assms(1) by (intro store_ok_ops) (simp add: decoded_def)
  then show ?thesis
    using assms
    by (simp add: decoded_def publish_server_heartbeat_def Let_def update_conv' heartbeat_round_trip dom_update
        flip: dom_map_of_conv_image_fst)
qed

lemma decoded_deregister:
  assumes "decoded m st"
  shows "decoded (m(gameserver_key server_id := None)) (deregister_server server_id st)"
proof -
  have "store_ok (deregister_server server_id st)" using assms by (intro store_ok_ops) (simp add: decoded_def)
  then show ?thesis
    using assms
    by (simp add: decoded_def deregister_server_def delete_conv' flip: dom_map_of_conv_image_fst)
qed

lemma decoded_queue:
  assumes "decoded m st" "list_all entry_fits queue"
  shows "decoded (m(queue_key region \<mapsto> encode_queue_value queue)) (set_matchmaking_queue region queue st)"
  using assms
  by (simp add: decoded_def set_matchmaking_queue_def update_conv' queue_value_round_trip store_ok_def)

lemma redis_step:
  assumes "redis_serves command kv" "redis_mirrors kv rs st" "op_fits op"
  shows "redis_mirrors kv (redis_op command op rs) (memory_op op st)"
proof -
  note ops = key_ops [OF assms(1)]
  have r: "rt_context rs" "decoded (kv (rt_redis rs)) st" using assms(2) by (simp_all add: redis_mirrors_def)
  show ?thesis
  proof (cases op)
    case (RegisterRoom rid white black server_id endpoint)
    then show ?thesis
      using ops(1) r decoded_register [OF r(2), of rid server_id server_id white endpoint black] assms(3)
      by (simp add: redis_mirrors_def redis_register_room_def Let_def)
  next
    case (UnregisterRoom rid white black)
    then show ?thesis
      using ops(2) r decoded_unregister [OF r(2), of rid white black]
      by (simp add: redis_mirrors_def redis_unregister_room_def)
  next
    case (Heartbeat now server_id region metrics)
    then show ?thesis
      using ops(1) r decoded_heartbeat [OF r(2), of server_id region metrics now] assms(3)
      by (simp add: redis_mirrors_def redis_publish_heartbeat_def)
  next
    case (Deregister server_id)
    then show ?thesis
      using ops(2) r decoded_deregister [OF r(2), of server_id]
      by (simp add: redis_mirrors_def redis_deregister_server_def)
  next
    case (SetQueue region queue)
    then show ?thesis
      using ops(1) r decoded_queue [OF r(2), of queue region] assms(3)
      by (simp add: redis_mirrors_def redis_set_queue_def)
  qed
qed

lemma redis_locate:
  assumes "redis_serves command kv" "redis_mirrors kv rs st"
  shows "fst (redis_find_location command uid rs) = find_player_location uid st \<and>
    redis_mirrors kv (snd (redis_find_location command uid rs)) st"
proof -
  have r: "rt_context rs" "decoded (kv (rt_redis rs)) st" using assms(2) by (simp_all add: redis_mirrors_def)
  obtain v rs1 where g: "get_key command (player_key uid) rs = (v, rs1)" by fastforce
  note got = key_ops(3,4) [OF assms(1) r(1), of "player_key uid", unfolded g, simplified]
  have "Option.bind v parse_player_location_value =
      map_option (\<lambda>e. (ple_room_id e, ple_server_id e, ple_endpoint e)) (map_of (rs_player_locations st) uid)"
    using r(2) got(1) by (simp add: decoded_def)
  then show ?thesis
    using got(2) r g
    by (cases v; cases "map_of (rs_player_locations st) uid")
       (auto simp: redis_find_location_def find_player_location_def redis_mirrors_def)
qed

lemma redis_server:
  assumes "redis_serves command kv" "redis_mirrors kv rs st"
  shows "fst (redis_get_server command sid rs) = get_game_server sid st \<and>
    redis_mirrors kv (snd (redis_get_server command sid rs)) st"
proof -
  have r: "rt_context rs" "decoded (kv (rt_redis rs)) st" using assms(2) by (simp_all add: redis_mirrors_def)
  obtain v rs1 where g: "get_key command (gameserver_key sid) rs = (v, rs1)" by fastforce
  note got = key_ops(3,4) [OF assms(1) r(1), of "gameserver_key sid", unfolded g, simplified]
  have "Option.bind v (parse_gameserver_record sid) = map_option (server_record sid) (map_of (rs_game_servers st) sid)"
    using r(2) got(1) by (simp add: decoded_def)
  then show ?thesis
    using got(2) r g by (simp add: redis_get_server_def get_game_server_def redis_mirrors_def map_option_case)
qed

lemma redis_queue:
  assumes "redis_serves command kv" "redis_mirrors kv rs st"
  shows "fst (redis_list_queue command region rs) = list_matchmaking_queue region st \<and>
    redis_mirrors kv (snd (redis_list_queue command region rs)) st"
proof -
  have r: "rt_context rs" "decoded (kv (rt_redis rs)) st" using assms(2) by (simp_all add: redis_mirrors_def)
  obtain v rs1 where g: "get_key command (queue_key region) rs = (v, rs1)" by fastforce
  note got = key_ops(3,4) [OF assms(1) r(1), of "queue_key region", unfolded g, simplified]
  have "map_option decode_queue_value v = map_of (rs_matchmaking_queues st) region"
    using r(2) got(1) by (simp add: decoded_def)
  from this [symmetric] show ?thesis
    using got(2) r g by (cases v) (simp_all add: redis_list_queue_def list_matchmaking_queue_def redis_mirrors_def)
qed

definition listed :: "(string \<rightharpoonup> string) \<Rightarrow> string \<Rightarrow> game_server_record option" where
  "listed m key =
     (if length key \<le> 11 then None else Option.bind (m key) (parse_gameserver_record (drop 11 key)))"

lemma list_loop_listed:
  assumes "redis_serves command kv" "rt_context rs"
  shows "\<exists>rs'. list_loop command keys rs = (List.map_filter (listed (kv (rt_redis rs))) keys, rs') \<and>
    rt_context rs' \<and> kv (rt_redis rs') = kv (rt_redis rs)"
  using assms(2)
proof (induction keys arbitrary: rs)
  case (Cons key keys)
  obtain v rs1 where g: "get_key command key rs = (v, rs1)" by fastforce
  note got = key_ops(3,4) [OF assms(1) Cons.prems, of key, unfolded g, simplified]
  have len: "length ''gameserver:'' = 11" by simp
  note unfold = list_loop.simps(2) [of command key keys rs, unfolded len]
  show ?case
  proof (cases "length key \<le> 11")
    case True
    then show ?thesis using Cons.IH [OF Cons.prems] by (simp add: List.map_filter_simps listed_def unfold del: list_loop.simps)
  next
    case False
    then have l: "listed (kv (rt_redis rs)) key = Option.bind v (parse_gameserver_record (drop 11 key))"
      using got(1) by (simp add: listed_def)
    from Cons.IH [of rs1] got(2) obtain rs' where
      "list_loop command keys rs1 = (List.map_filter (listed (kv (rt_redis rs))) keys, rs')"
      "rt_context rs'" "kv (rt_redis rs') = kv (rt_redis rs)" by auto
    then show ?thesis using False g l by (simp add: List.map_filter_simps unfold del: list_loop.simps split: option.splits)
  qed
qed (simp add: List.map_filter_simps)

lemma set_map_filter: "set (List.map_filter f xs) = {y. \<exists>x \<in> set xs. f x = Some y}"
  by (induction xs) (auto simp: List.map_filter_simps split: option.splits)

lemma listed_servers:
  assumes "decoded m st" "set keys = {k \<in> dom m. take 11 k = ''gameserver:''}"
  shows "set (List.map_filter (listed m) keys) = set (list_game_servers st)"
proof -
  have listed_iff: "listed m (gameserver_key s) = (if s = [] then None else map_option (server_record s) (map_of (rs_game_servers st) s))" for s
    using assms(1) by (simp add: listed_def gameserver_key_def decoded_def)
  have key: "gameserver_key (drop 11 k) = k" if "take 11 k = ''gameserver:''" for k
    using append_take_drop_id [of 11 k] that by (simp add: gameserver_key_def)
  have dom: "gameserver_key s \<in> dom m" if "map_of (rs_game_servers st) s \<noteq> None" for s
    using assms(1) that unfolding decoded_def by (metis bind.bind_lzero domIff option.map_disc_iff)
  have keys: "set keys = gameserver_key ` {s. gameserver_key s \<in> dom m}"
  proof (intro set_eqI iffI)
    fix k
    show "k \<in> gameserver_key ` {s. gameserver_key s \<in> dom m}" if "k \<in> set keys"
      using that assms(2) key [of k] by (intro image_eqI [of _ _ "drop 11 k"]) auto
    show "k \<in> set keys" if "k \<in> gameserver_key ` {s. gameserver_key s \<in> dom m}"
    proof -
      have "take 11 (gameserver_key s) = ''gameserver:''" for s by (simp add: gameserver_key_def)
      then show ?thesis unfolding assms(2) using that by (elim imageE) simp
    qed
  qed
  have named: "map_of (rs_game_servers st) [] = None"
    using assms(1) by (simp add: decoded_def map_of_eq_None_iff)
  have "set (List.map_filter (listed m) keys) = {r. \<exists>s. listed m (gameserver_key s) = Some r \<and> gameserver_key s \<in> dom m}"
    unfolding set_map_filter keys by blast
  also have "\<dots> = {r. \<exists>s e. map_of (rs_game_servers st) s = Some e \<and> r = server_record s e}"
  proof (intro Collect_cong iffI; elim exE conjE)
    fix r s e
    assume e: "map_of (rs_game_servers st) s = Some e" "r = server_record s e"
    then have "s \<noteq> []" using named by auto
    then show "\<exists>s. listed m (gameserver_key s) = Some r \<and> gameserver_key s \<in> dom m"
      using e dom [of s] by (intro exI [of _ s]) (simp add: listed_iff)
  qed (auto simp: listed_iff split: if_splits)
  also have "\<dots> = set (list_game_servers st)"
    using assms(1) by (auto simp: list_game_servers_def decoded_def store_ok_def image_iff)
  finally show ?thesis .
qed

lemma redis_servers:
  assumes "redis_serves command kv" "redis_mirrors kv rs st"
  shows "\<exists>found rs'. redis_list_servers command rs = Some (found, rs') \<and> set found = set (list_game_servers st) \<and>
    redis_mirrors kv rs' st"
proof -
  have r: "rt_context rs" "decoded (kv (rt_redis rs)) st" using assms(2) by (simp_all add: redis_mirrors_def)
  obtain pages w where p: "scan_pages command ''gameserver:*'' ''0'' (rt_redis rs) pages w" "kv w = kv (rt_redis rs)"
    "set (concat pages) = {k \<in> dom (kv (rt_redis rs)). take 11 k = ''gameserver:''}"
    using assms(1) unfolding redis_serves_def by blast
  let ?rs = "rs\<lparr>rt_redis := w\<rparr>"
  have s: "scan_keys command ''gameserver:*'' rs = Some (concat pages, ?rs)"
    using scan_loop_pages [OF p(1), of "[]"] r(1) by (simp add: scan_keys_def)
  obtain rs' where l: "list_loop command (concat pages) ?rs = (List.map_filter (listed (kv w)) (concat pages), rs')"
    "rt_context rs'" "kv (rt_redis rs') = kv w"
    using list_loop_listed [OF assms(1), of ?rs "concat pages"] r(1) by auto
  have "redis_list_servers command rs = Some (List.map_filter (listed (kv w)) (concat pages), rs')"
    by (simp add: redis_list_servers_def s l(1))
  moreover have "set (List.map_filter (listed (kv w)) (concat pages)) = set (list_game_servers st)"
    using listed_servers [OF r(2) p(3)] unfolding p(2) .
  moreover have "redis_mirrors kv rs' st" using l(2,3) p(2) r(2) by (simp add: redis_mirrors_def)
  ultimately show ?thesis by blast
qed

lemma redis_contract:
  assumes "redis_serves command kv"
  shows "runtime_store_contract (redis_op command) (redis_find_location command) (redis_get_server command)
    (redis_list_servers command) (redis_list_queue command) (redis_mirrors kv)"
  by unfold_locales
    (rule redis_step [OF assms] redis_locate [OF assms] redis_server [OF assms] redis_servers [OF assms]
      redis_queue [OF assms]; assumption)+

lemma redis_mirrors_empty: "kv w = Map.empty \<Longrightarrow> redis_mirrors kv \<lparr>rt_context = True, rt_redis = w\<rparr> empty_runtime_store"
  by (simp add: redis_mirrors_def decoded_def empty_runtime_store_def store_ok_def)

text \<open>Without a connection the store forgets everything and finds nothing.\<close>

lemma redis_offline:
  assumes "\<not> rt_context rs"
  shows "fold (redis_op command) ops rs = rs" "redis_find_location command uid rs = (None, rs)"
    "redis_get_server command sid rs = (None, rs)" "redis_list_servers command rs = Some ([], rs)"
    "redis_list_queue command region rs = ([], rs)" "redis_ping command rs = (False, rs)"
proof -
  have "redis_op command op rs = rs" for op
    using assms
    by (cases op) (simp_all add: redis_register_room_def redis_unregister_room_def redis_publish_heartbeat_def
      redis_deregister_server_def redis_set_queue_def set_key_def delete_key_def Let_def)
  then show "fold (redis_op command) ops rs = rs" by (induction ops) simp_all
qed (use assms in \<open>simp_all add: redis_find_location_def redis_get_server_def redis_list_servers_def redis_list_queue_def
    redis_ping_def get_key_def scan_keys_def\<close>)

end
