(* ===== verification/Board_Renderer.thy ===== *)
theory Board_Renderer
  imports Client_Gui
begin

section \<open>The renderer\<close>

text \<open>
  \<^verbatim>\<open>ui/rendering/ctd26_renderer.cpp\<close>, \<^verbatim>\<open>ui/view/piece_sprite_selector.cpp\<close>, \<^verbatim>\<open>ui/assets\<close>, the font
  and border sizes of \<^verbatim>\<open>ui/layout/board_layout.h\<close> and \<^verbatim>\<open>ui/controller/ui_controller.cpp\<close>. What is
  drawn is a list of calls to the image library, in order. The library (\<^verbatim>\<open>Img\<close>, OpenCV) is parameters:
  \<open>load\<close> reads an image file at a size or throws, \<open>is_loaded\<close> asks an image, the key pressed is an
  argument of a frame; \<open>sine\<close> is \<^verbatim>\<open>std::sin\<close> on \<^verbatim>\<open>float\<close>. The window, its callback and the diagnostic
  output are left out. Sizes that are divided are not negative unless \<open>trunc_div\<close> is written.
\<close>

subsection \<open>Theme, paths and fonts\<close>

record ui_color =
  col_b :: int
  col_g :: int
  col_r :: int

definition rgb :: "int \<Rightarrow> int \<Rightarrow> int \<Rightarrow> ui_color" where
  "rgb b g r = \<lparr>col_b = b, col_g = g, col_r = r\<rparr>"

record ui_theme =
  th_frame_background :: ui_color
  th_selection_border :: ui_color
  th_jump_border :: ui_color
  th_white_token :: ui_color
  th_black_token :: ui_color
  th_game_over_text :: ui_color
  th_jump_lift_ratio :: rat

definition kDefaultUiTheme :: ui_theme where
  "kDefaultUiTheme =
     \<lparr>th_frame_background = rgb 30 30 30, th_selection_border = rgb 255 220 0, th_jump_border = rgb 255 180 0,
      th_white_token = rgb 20 20 20, th_black_token = rgb 240 240 240, th_game_over_text = rgb 255 0 0,
      th_jump_lift_ratio = 1 / 4\<rparr>"

record theme_config =
  tc_board_image :: string
  tc_pieces_directory :: string

definition kDefaultCtd26ThemeConfig :: theme_config where
  "kDefaultCtd26ThemeConfig =
     \<lparr>tc_board_image = ''third_party/CTD26/board_classic.png'',
      tc_pieces_directory = ''third_party/CTD26/pieces3''\<rparr>"

definition piece_directory :: "theme_config \<Rightarrow> piece_color \<Rightarrow> piece_kind \<Rightarrow> string" where
  "piece_directory theme color kind =
     tc_pieces_directory theme @ ''/'' @ [color_to_char color, kind_to_char kind] @ ''/states''"

definition piece_sprite :: "theme_config \<Rightarrow> piece_color \<Rightarrow> piece_kind \<Rightarrow> string \<Rightarrow> int \<Rightarrow> string" where
  "piece_sprite theme color kind state frame =
     piece_directory theme color kind @ ''/'' @ state @ ''/sprites/'' @ show_int frame @ ''.png''"

definition scaled_font_size :: "board_layout \<Rightarrow> rat \<Rightarrow> rat" where
  "scaled_font_size l reference_scale =
     (if bl_cell_size l \<le> 0 then reference_scale
      else f64 (f64 (reference_scale * of_int (bl_cell_size l)) / of_int kReferenceCellSizePixels))"

definition scaled_size :: "board_layout \<Rightarrow> int \<Rightarrow> int" where
  "scaled_size l reference_pixels =
     (if bl_cell_size l \<le> 0 then reference_pixels
      else max 1 (reference_pixels * bl_cell_size l div kReferenceCellSizePixels))"

definition piece_text_x :: "board_layout \<Rightarrow> int \<Rightarrow> int" where
  "piece_text_x l cell_x = cell_x + bl_cell_size l div 6"

definition piece_text_y :: "board_layout \<Rightarrow> int \<Rightarrow> int" where
  "piece_text_y l cell_y = cell_y + (bl_cell_size l * 2) div 3"

definition piece_font_scale :: "board_layout \<Rightarrow> rat" where
  "piece_font_scale l = scaled_font_size l (f64 (12 / 10))"

definition piece_font_thickness :: "board_layout \<Rightarrow> int" where
  "piece_font_thickness l = scaled_size l 2"

definition selection_border_thickness :: "board_layout \<Rightarrow> int" where
  "selection_border_thickness l = scaled_size l 3"

definition jump_border_thickness :: "board_layout \<Rightarrow> int" where
  "jump_border_thickness l = scaled_size l 2"

definition game_over_text_x :: "board_layout \<Rightarrow> int" where
  "game_over_text_x l = scaled_size l 20"

definition game_over_text_y :: "board_layout \<Rightarrow> int" where
  "game_over_text_y l = scaled_size l 40"

definition game_over_font_scale :: "board_layout \<Rightarrow> rat" where
  "game_over_font_scale l = scaled_font_size l 1"

definition game_over_font_thickness :: "board_layout \<Rightarrow> int" where
  "game_over_font_thickness l = scaled_size l 2"

subsection \<open>Choosing a sprite\<close>

text \<open>\<^verbatim>\<open>static_cast<int>\<close> of a \<^verbatim>\<open>float\<close> and division of \<^verbatim>\<open>int\<close>: both round towards zero.\<close>

definition trunc_rat :: "rat \<Rightarrow> int" where
  "trunc_rat q = (if q < 0 then - \<lfloor>- q\<rfloor> else \<lfloor>q\<rfloor>)"

definition trunc_div :: "int \<Rightarrow> int \<Rightarrow> int" where
  "trunc_div a b = (if a < 0 then - ((- a) div b) else a div b)"

definition clamp_unit :: "rat \<Rightarrow> rat" where
  "clamp_unit p = (if p < 0 then 0 else if 1 < p then 1 else p)"

definition kSpriteAnimationFrameCount :: int where "kSpriteAnimationFrameCount = 5"
definition kSpriteIdleFrame :: int where "kSpriteIdleFrame = 1"

definition frame_from_progress :: "rat \<Rightarrow> int" where
  "frame_from_progress progress =
     (let frame_index = min (trunc_rat (f32 (clamp_unit progress * of_int kSpriteAnimationFrameCount)))
                          (kSpriteAnimationFrameCount - 1)
      in frame_index + 1)"

record piece_sprite_context =
  px_piece :: piece_view
  px_moving :: bool
  px_jumping :: bool
  px_resting :: bool
  px_rest_kind :: rest_kind
  px_progress :: rat

definition idle_context :: "piece_view \<Rightarrow> piece_sprite_context" where
  "idle_context p =
     \<lparr>px_piece = p, px_moving = False, px_jumping = False, px_resting = False, px_rest_kind = Short, px_progress = 0\<rparr>"

definition select_sprite :: "piece_sprite_context \<Rightarrow> string \<times> int" where
  "select_sprite context =
     (if px_moving context then (''move'', frame_from_progress (px_progress context))
      else if px_jumping context then (''jump'', frame_from_progress (px_progress context))
      else if px_resting context
      then (if px_rest_kind context = Long then ''long_rest'' else ''short_rest'',
            frame_from_progress (px_progress context))
      else (''idle'', kSpriteIdleFrame))"

subsection \<open>The renderer and its sprites\<close>

record sprite_key =
  sk_color :: piece_color
  sk_kind :: piece_kind
  sk_state :: string
  sk_frame :: int

record ('i, 'k) renderer =
  rr_theme_config :: theme_config
  rr_theme :: ui_theme
  rr_layout :: board_layout
  rr_window_width :: int
  rr_window_height :: int
  rr_board_width_cells :: int
  rr_board_height_cells :: int
  rr_initialized :: bool
  rr_input_sink :: "'k option"
  rr_overlay_text :: "string option"
  rr_board_background :: "'i option"
  rr_piece_sprites :: "(sprite_key \<times> 'i option) list"

definition new_renderer :: "('i, 'k) renderer" where
  "new_renderer =
     \<lparr>rr_theme_config = kDefaultCtd26ThemeConfig, rr_theme = kDefaultUiTheme, rr_layout = empty_layout,
      rr_window_width = 0, rr_window_height = 0, rr_board_width_cells = 0, rr_board_height_cells = 0,
      rr_initialized = False, rr_input_sink = None, rr_overlay_text = None, rr_board_background = None,
      rr_piece_sprites = []\<rparr>"

type_synonym 'i image_loader = "string \<Rightarrow> int \<times> int \<Rightarrow> 'i result"

text \<open>The states and frames of one piece, and the keys of all pieces, in the order the loops fill them.\<close>

definition sprite_frames :: "(string \<times> int) list" where
  "sprite_frames =
     (''idle'', kSpriteIdleFrame) #
     concat (map (\<lambda>frame. [(''move'', frame), (''jump'', frame), (''short_rest'', frame), (''long_rest'', frame)])
               [1..kSpriteAnimationFrameCount])"

definition sprite_keys :: "sprite_key list" where
  "sprite_keys =
     concat (map (\<lambda>color. concat (map (\<lambda>kind.
       map (\<lambda>(state, frame). \<lparr>sk_color = color, sk_kind = kind, sk_state = state, sk_frame = frame\<rparr>) sprite_frames)
       [King, Queen, Rook, Bishop, Knight, Pawn])) [White, Black])"

definition load_sprite :: "'i image_loader \<Rightarrow> theme_config \<Rightarrow> int \<Rightarrow> sprite_key \<Rightarrow> 'i option" where
  "load_sprite load theme cell_size key =
     (case load (piece_sprite theme (sk_color key) (sk_kind key) (sk_state key) (sk_frame key)) (cell_size, cell_size) of
        Inl _ \<Rightarrow> None
      | Inr img \<Rightarrow> Some img)"

definition reload_piece_sprites :: "'i image_loader \<Rightarrow> ('i, 'k) renderer \<Rightarrow> ('i, 'k) renderer" where
  "reload_piece_sprites load r =
     r\<lparr>rr_piece_sprites :=
         (if bl_cell_size (rr_layout r) \<le> 0 then []
          else map (\<lambda>key. (key, load_sprite load (rr_theme_config r) (bl_cell_size (rr_layout r)) key)) sprite_keys)\<rparr>"

definition recalculate_layout :: "'i image_loader \<Rightarrow> ('i, 'k) renderer \<Rightarrow> ('i, 'k) renderer" where
  "recalculate_layout load r =
     (let previous_cell_size = bl_cell_size (rr_layout r);
          r1 = r\<lparr>rr_layout := calculate_layout (rr_window_width r) (rr_window_height r)
                                (rr_board_width_cells r) (rr_board_height_cells r)\<rparr>
      in if rr_initialized r1 \<and> bl_cell_size (rr_layout r1) \<noteq> previous_cell_size
         then reload_piece_sprites load r1 else r1)"

definition reload_board_background :: "'i image_loader \<Rightarrow> ('i, 'k) renderer \<Rightarrow> ('i, 'k) renderer result" where
  "reload_board_background load r =
     bindR (load (tc_board_image (rr_theme_config r))
             (bl_board_width_pixels (rr_layout r), bl_board_height_pixels (rr_layout r)))
       (\<lambda>img. Inr (r\<lparr>rr_board_background := Some img\<rparr>))"

definition renderer_init ::
  "'i image_loader \<Rightarrow> int \<Rightarrow> int \<Rightarrow> nat \<Rightarrow> nat \<Rightarrow> ('i, 'k) renderer \<Rightarrow> ('i, 'k) renderer result" where
  "renderer_init load window_width window_height rs cs r =
     (let r1 = recalculate_layout load
                 (r\<lparr>rr_window_width := window_width, rr_window_height := window_height,
                    rr_board_width_cells := int cs, rr_board_height_cells := int rs\<rparr>)
      in bindR (reload_board_background load r1)
           (\<lambda>r2. Inr ((reload_piece_sprites load r2)\<lparr>rr_initialized := True\<rparr>)))"

definition attach_input_sink :: "'k option \<Rightarrow> ('i, 'k) renderer \<Rightarrow> ('i, 'k) renderer" where
  "attach_input_sink sink r = r\<lparr>rr_input_sink := sink\<rparr>"

definition set_overlay_text :: "string option \<Rightarrow> ('i, 'k) renderer \<Rightarrow> ('i, 'k) renderer" where
  "set_overlay_text s r = r\<lparr>rr_overlay_text := s\<rparr>"

definition renderer_shutdown :: "('i, 'k) renderer \<Rightarrow> ('i, 'k) renderer" where
  "renderer_shutdown r = (if rr_initialized r then r\<lparr>rr_initialized := False\<rparr> else r)"

text \<open>\<^verbatim>\<open>on_mouse\<close>: the sink's handler for the event, if any.\<close>

datatype mouse_event = LButtonDown | RButtonDown | OtherMouse

definition on_mouse :: "mouse_event \<Rightarrow> ('s \<Rightarrow> 's) \<Rightarrow> ('s \<Rightarrow> 's) \<Rightarrow> 's option \<Rightarrow> 's option" where
  "on_mouse event click jump sink =
     (case sink of
        None \<Rightarrow> None
      | Some s \<Rightarrow> Some (if event = LButtonDown then click s else if event = RButtonDown then jump s else s))"

subsection \<open>Drawing\<close>

datatype draw_op =
    CreateFrame int int ui_color
  | DrawBackground int int
  | Rectangle int int int int ui_color int
  | DrawSprite sprite_key int int
  | PutText string int int rat ui_color int

definition draw_board_background :: "('i, 'k) renderer \<Rightarrow> draw_op list" where
  "draw_board_background r = [DrawBackground (bl_board_x (rr_layout r)) (bl_board_y (rr_layout r))]"

definition draw_selection_highlight :: "('i, 'k) renderer \<Rightarrow> int \<Rightarrow> int \<Rightarrow> draw_op list" where
  "draw_selection_highlight r x y =
     [Rectangle x y (bl_cell_size (rr_layout r)) (bl_cell_size (rr_layout r)) (th_selection_border (rr_theme r))
        (selection_border_thickness (rr_layout r))]"

definition kPi :: rat where "kPi = f32 (314159265 / 100000000)"

definition jump_lift_pixels :: "board_layout \<Rightarrow> rat \<Rightarrow> int" where
  "jump_lift_pixels l lift_ratio = trunc_rat (f32 (f32 (of_int (bl_cell_size l)) * lift_ratio))"

definition draw_jump_effect :: "(rat \<Rightarrow> rat) \<Rightarrow> ('i, 'k) renderer \<Rightarrow> int \<Rightarrow> int \<Rightarrow> rat \<Rightarrow> draw_op list" where
  "draw_jump_effect sine r x y jump_progress =
     (let lift = trunc_rat (f32 (sine (f32 (jump_progress * kPi)) *
                   f32 (of_int (jump_lift_pixels (rr_layout r) (th_jump_lift_ratio (rr_theme r))))))
      in [Rectangle x (y - lift) (bl_cell_size (rr_layout r)) (bl_cell_size (rr_layout r)) (th_jump_border (rr_theme r))
            (jump_border_thickness (rr_layout r))])"

definition draw_rest_cooldown_overlay ::
  "('i, 'k) renderer \<Rightarrow> int \<Rightarrow> int \<Rightarrow> rat \<Rightarrow> rest_kind \<Rightarrow> draw_op list" where
  "draw_rest_cooldown_overlay r x y progress rest_kind =
     (let remaining = f32 (1 - clamp_unit progress)
      in if remaining \<le> 0 then []
         else
           (let inset = max 1 (bl_cell_size (rr_layout r) div 16);
                inner_size = bl_cell_size (rr_layout r) - 2 * inset
            in if inner_size \<le> 0 then []
               else
                 (let overlay_height = max 1 \<lceil>f32 (f32 (of_int inner_size) * remaining)\<rceil>;
                      overlay_x = x + inset;
                      overlay_y = y + bl_cell_size (rr_layout r) - inset - overlay_height;
                      intensity = trunc_rat (f32 (40 + f32 (70 * remaining)));
                      color = (if rest_kind = Long then rgb (intensity + 15) (intensity - 10) (intensity - 30)
                               else rgb (intensity + 25) (intensity + 8) (intensity - 15))
                  in [Rectangle overlay_x overlay_y inner_size overlay_height color (-1)])))"

definition sprite_key_of :: "piece_sprite_context \<Rightarrow> sprite_key" where
  "sprite_key_of context =
     (let (state, frame) = select_sprite context; piece = px_piece context
      in \<lparr>sk_color = pv_color piece, sk_kind = pv_kind piece, sk_state = state, sk_frame = frame\<rparr>)"

definition draw_piece ::
  "('i \<Rightarrow> bool) \<Rightarrow> ('i, 'k) renderer \<Rightarrow> piece_sprite_context \<Rightarrow> int \<Rightarrow> int \<Rightarrow> draw_op list" where
  "draw_piece is_loaded r context x y =
     (let piece = px_piece context; key = sprite_key_of context;
          label = PutText [color_to_char (pv_color piece), kind_to_char (pv_kind piece)]
                    (piece_text_x (rr_layout r) x) (piece_text_y (rr_layout r) y) (piece_font_scale (rr_layout r))
                    (if pv_color piece = White then th_white_token (rr_theme r) else th_black_token (rr_theme r))
                    (piece_font_thickness (rr_layout r))
      in case map_of (rr_piece_sprites r) key of
           Some (Some img) \<Rightarrow> if is_loaded img then [DrawSprite key x y] else [label]
         | _ \<Rightarrow> [label])"

definition draw_static_cell ::
  "('i \<Rightarrow> bool) \<Rightarrow> ('i, 'k) renderer \<Rightarrow> board_view_model \<Rightarrow> nat \<times> nat \<Rightarrow> draw_op list" where
  "draw_static_cell is_loaded r view = (\<lambda>(row, col).
     let x = cell_origin_x (rr_layout r) col; y = cell_origin_y (rr_layout r) row;
         resting = board_view_is_resting_cell view row col;
         progress = board_view_rest_progress_at view row col;
         rest_kind = board_view_rest_kind_at view row col
     in (if bv_selection view = Some (row, col) then draw_selection_highlight r x y else []) @
        (if resting then draw_rest_cooldown_overlay r x y progress rest_kind else []) @
        (if board_view_is_move_origin view row col \<or> board_view_is_jump_origin view row col then []
         else case board_view_piece_at view row col of
                None \<Rightarrow> []
              | Some piece \<Rightarrow>
                  if resting
                  then draw_piece is_loaded r
                         \<lparr>px_piece = piece, px_moving = False, px_jumping = False, px_resting = True,
                          px_rest_kind = rest_kind, px_progress = progress\<rparr> x y
                  else draw_piece is_loaded r (idle_context piece) x y))"

definition draw_static_board ::
  "('i \<Rightarrow> bool) \<Rightarrow> ('i, 'k) renderer \<Rightarrow> board_view_model \<Rightarrow> draw_op list" where
  "draw_static_board is_loaded r view =
     draw_board_background r @
     concat (map (draw_static_cell is_loaded r view) (board_cells (bv_height view) (bv_width view)))"

definition draw_jumping_pieces ::
  "('i \<Rightarrow> bool) \<Rightarrow> (rat \<Rightarrow> rat) \<Rightarrow> ('i, 'k) renderer \<Rightarrow> board_view_model \<Rightarrow> draw_op list" where
  "draw_jumping_pieces is_loaded sine r view =
     concat (map (\<lambda>jump.
       let progress = clamp_unit (ajs_progress jump);
           x = cell_origin_x (rr_layout r) (ajs_col jump); y = cell_origin_y (rr_layout r) (ajs_row jump)
       in draw_jump_effect sine r x y progress @
          draw_piece is_loaded r
            \<lparr>px_piece = \<lparr>pv_kind = ajs_kind jump, pv_color = ajs_color jump\<rparr>, px_moving = False, px_jumping = True,
             px_resting = False, px_rest_kind = Short, px_progress = progress\<rparr> x y)
       (as_jumps (bv_animations view)))"

definition between_pixels :: "int \<Rightarrow> int \<Rightarrow> rat \<Rightarrow> int" where
  "between_pixels a b progress =
     (let from_f = f32 (of_int a); to_f = f32 (of_int b)
      in trunc_rat (f32 (from_f + f32 (f32 (to_f - from_f) * progress))))"

definition draw_moving_pieces ::
  "('i \<Rightarrow> bool) \<Rightarrow> ('i, 'k) renderer \<Rightarrow> board_view_model \<Rightarrow> draw_op list" where
  "draw_moving_pieces is_loaded r view =
     concat (map (\<lambda>move.
       let progress = clamp_unit (ams_progress move);
           draw_x = between_pixels (cell_origin_x (rr_layout r) (ams_from_col move))
                      (cell_origin_x (rr_layout r) (ams_to_col move)) progress;
           draw_y = between_pixels (cell_origin_y (rr_layout r) (ams_from_row move))
                      (cell_origin_y (rr_layout r) (ams_to_row move)) progress
       in draw_piece is_loaded r
            \<lparr>px_piece = \<lparr>pv_kind = ams_kind move, pv_color = ams_color move\<rparr>, px_moving = True, px_jumping = False,
             px_resting = False, px_rest_kind = Short, px_progress = progress\<rparr> draw_x draw_y)
       (as_moves (bv_animations view)))"

definition draw_game_over_banner :: "('i, 'k) renderer \<Rightarrow> bool \<Rightarrow> draw_op list" where
  "draw_game_over_banner r game_over =
     (if \<not> game_over then []
      else [PutText ''GAME OVER'' (game_over_text_x (rr_layout r)) (game_over_text_y (rr_layout r))
              (game_over_font_scale (rr_layout r)) (th_game_over_text (rr_theme r))
              (game_over_font_thickness (rr_layout r))])"

definition draw_status_overlay :: "('i, 'k) renderer \<Rightarrow> draw_op list" where
  "draw_status_overlay r =
     (case rr_overlay_text r of
        None \<Rightarrow> []
      | Some s \<Rightarrow> [PutText s (game_over_text_x (rr_layout r)) (game_over_text_y (rr_layout r))
                      (game_over_font_scale (rr_layout r)) (th_black_token (rr_theme r))
                      (game_over_font_thickness (rr_layout r))])"

definition kEscape :: int where "kEscape = 27"

text \<open>A frame: what is drawn and shown, and whether to continue; \<open>key\<close> is the key polled after it.\<close>

definition present ::
  "('i \<Rightarrow> bool) \<Rightarrow> (rat \<Rightarrow> rat) \<Rightarrow> int \<Rightarrow> ('i, 'k) renderer \<Rightarrow> board_view_model \<Rightarrow> draw_op list \<times> bool" where
  "present is_loaded sine key r view =
     (if \<not> rr_initialized r \<or> rr_board_background r = None then ([], True)
      else (CreateFrame (rr_window_width r) (rr_window_height r) (th_frame_background (rr_theme r)) #
              draw_static_board is_loaded r view @ draw_moving_pieces is_loaded r view @
              draw_jumping_pieces is_loaded sine r view @ draw_game_over_banner r (bv_game_over view) @
              draw_status_overlay r,
            key \<noteq> kEscape))"

subsection \<open>The login screen\<close>

definition compute_login_screen_layout :: "('i, 'k) renderer \<Rightarrow> login_screen_layout" where
  "compute_login_screen_layout r =
     (let w = rr_window_width r; h = rr_window_height r;
          input_w = max 200 (trunc_div w 2); input_h = max 28 (trunc_div h 20); input_y = trunc_div h 2;
          button_w = max 100 (trunc_div w 6)
      in \<lparr>ll_input_x = trunc_div (w - input_w) 2, ll_input_y = input_y, ll_input_w = input_w, ll_input_h = input_h,
          ll_button_x = trunc_div (w - button_w) 2, ll_button_y = input_y + input_h + max 20 (trunc_div h 15),
          ll_button_w = button_w, ll_button_h = input_h\<rparr>)"

text \<open>The low byte of the key: \<^verbatim>\<open>key & 0xFF\<close> of a key that is not negative.\<close>

definition handle_login_key :: "int \<Rightarrow> string \<Rightarrow> string" where
  "handle_login_key key username =
     (if key < 0 then username
      else
        (let ascii_key = key mod 256
         in if ascii_key = 8 \<or> ascii_key = 127 then butlast username
            else if ascii_key \<ge> 32 \<and> ascii_key \<le> 126 \<and> length username < 32
            then username @ [char_of (nat ascii_key)] else username))"

definition draw_login_screen :: "('i, 'k) renderer \<Rightarrow> string \<Rightarrow> draw_op list" where
  "draw_login_screen r username =
     (let l = compute_login_screen_layout r; label_scale = game_over_font_scale (rr_layout r);
          label_thickness = game_over_font_thickness (rr_layout r); label_color = th_black_token (rr_theme r);
          text_x = ll_input_x l + max 8 (ll_input_w l div 30);
          text_y = ll_input_y l + ll_input_h l - max 8 (ll_input_h l div 5)
      in [PutText ''Kung Fu Chess'' (game_over_text_x (rr_layout r)) (max 40 (trunc_div (rr_window_height r) 6))
            (f64 (label_scale * f64 (14 / 10))) label_color label_thickness,
          PutText ''Username:'' (ll_input_x l) (ll_input_y l - max 8 (ll_input_h l div 4)) label_scale label_color
            label_thickness,
          Rectangle (ll_input_x l) (ll_input_y l) (ll_input_w l) (ll_input_h l) label_color 2,
          (if username = [] then PutText ''Player1'' text_x text_y label_scale (rgb 140 140 140) label_thickness
           else PutText username text_x text_y label_scale label_color label_thickness),
          Rectangle (ll_button_x l) (ll_button_y l) (ll_button_w l) (ll_button_h l) (rgb 70 130 70) (-1),
          Rectangle (ll_button_x l) (ll_button_y l) (ll_button_w l) (ll_button_h l) label_color 2,
          PutText ''PLAY'' (ll_button_x l + ll_button_w l div 4)
            (ll_button_y l + ll_button_h l - max 8 (ll_button_h l div 5)) label_scale label_color label_thickness])"

definition present_login_screen :: "int \<Rightarrow> ('i, 'k) renderer \<Rightarrow> string \<Rightarrow> draw_op list \<times> bool \<times> string" where
  "present_login_screen key r username =
     (if \<not> rr_initialized r then ([], True, username)
      else (CreateFrame (rr_window_width r) (rr_window_height r) (th_frame_background (rr_theme r)) #
              draw_login_screen r username,
            if key = kEscape then (False, username) else (True, handle_login_key key username)))"

subsection \<open>The controller of the offline game\<close>

record 'i ui_controller =
  uc_state :: game_state
  uc_layout :: board_layout
  uc_renderer :: "('i, unit) renderer"

definition sync_input_layout :: "'i ui_controller \<Rightarrow> 'i ui_controller" where
  "sync_input_layout uc = uc\<lparr>uc_layout := rr_layout (uc_renderer uc)\<rparr>"

definition new_controller :: "'i image_loader \<Rightarrow> game_state \<Rightarrow> 'i ui_controller result" where
  "new_controller load g =
     (let rs = rows (gs_board g); cs = cols (gs_board g); (w, h) = default_initial_window_size rs cs
      in bindR (renderer_init load w h rs cs (attach_input_sink (Some ()) new_renderer))
           (\<lambda>r. Inr (sync_input_layout \<lparr>uc_state = g, uc_layout = bootstrap_default_layout g, uc_renderer = r\<rparr>)))"

definition controller_frame ::
  "('i \<Rightarrow> bool) \<Rightarrow> (rat \<Rightarrow> rat) \<Rightarrow> int \<Rightarrow> int \<Rightarrow> 'i ui_controller \<Rightarrow> ((draw_op list \<times> bool) \<times> 'i ui_controller) result" where
  "controller_frame is_loaded sine delta_ms key uc =
     (let uc1 = sync_input_layout uc
      in bindR (add_clock delta_ms (uc_state uc1))
           (\<lambda>g. bindR (build g) (\<lambda>view. Inr (present is_loaded sine key (uc_renderer uc1) view, uc1\<lparr>uc_state := g\<rparr>))))"

definition controller_click :: "int \<Rightarrow> int \<Rightarrow> 'i ui_controller \<Rightarrow> 'i ui_controller result" where
  "controller_click x y uc =
     bindR (handle_click (uc_layout uc) x y (uc_state uc)) (\<lambda>g. Inr (uc\<lparr>uc_state := g\<rparr>))"

definition controller_jump :: "int \<Rightarrow> int \<Rightarrow> 'i ui_controller \<Rightarrow> 'i ui_controller result" where
  "controller_jump x y uc =
     bindR (handle_jump (uc_layout uc) x y (uc_state uc)) (\<lambda>g. Inr (uc\<lparr>uc_state := g\<rparr>))"

definition controller_shutdown :: "'i ui_controller \<Rightarrow> 'i ui_controller" where
  "controller_shutdown uc = uc\<lparr>uc_renderer := renderer_shutdown (uc_renderer uc)\<rparr>"

end
