(* ===== verification/Renderer_Facts.thy ===== *)
theory Renderer_Facts
  imports Board_Renderer
begin

section \<open>What a frame shows\<close>

text \<open>
  The frame number of a sprite is in range, so every sprite asked for was loaded with the cache; a
  moving piece is drawn between the cells it moves between, in spite of the rounding; and the list of
  a frame contains each piece of the view whose cell is not the start of a move or jump.
\<close>

subsection \<open>Rounding\<close>

lemma clamp_unit_range: "0 \<le> clamp_unit p \<and> clamp_unit p \<le> 1"
  by (simp add: clamp_unit_def)

lemma f32_minus: "f32 (- x) = - f32 x"
  by (simp add: f32_def fround_minus)

lemma f32_of_int: "\<bar>n\<bar> < 2 ^ 24 \<Longrightarrow> f32 (of_int n) = of_int n"
proof (cases "0 \<le> n")
  case True
  assume "\<bar>n\<bar> < 2 ^ 24"
  then have "fround 23 (of_nat (nat n)) = of_nat (nat n)" using True by (intro fround_of_nat) simp
  then show ?thesis using True by (simp add: f32_def)
next
  case False
  assume "\<bar>n\<bar> < 2 ^ 24"
  then have "fround 23 (of_nat (nat (- n))) = of_nat (nat (- n))" using False by (intro fround_of_nat) simp
  then show ?thesis using False f32_minus [of "of_int (- n)"] by (simp add: f32_def)
qed

lemma trunc_rat_between: "0 \<le> a \<Longrightarrow> of_int a \<le> q \<Longrightarrow> q \<le> of_int b \<Longrightarrow> a \<le> trunc_rat q \<and> trunc_rat q \<le> b"
  by (auto simp: trunc_rat_def le_floor_iff floor_le_iff)

lemma frame_in_range: "1 \<le> frame_from_progress p \<and> frame_from_progress p \<le> 5"
proof -
  have "f32 (clamp_unit p * 5) \<le> f32 5" using clamp_unit_range [of p] by (intro f32_mono) auto
  also have "f32 5 = 5" using f32_of_int [of 5] by simp
  finally have "0 \<le> f32 (clamp_unit p * 5)" "f32 (clamp_unit p * 5) \<le> 5"
    using clamp_unit_range [of p] by (auto intro: f32_nonneg)
  then have "0 \<le> trunc_rat (f32 (clamp_unit p * 5))" using trunc_rat_between [of 0 _ 5] by simp
  then show ?thesis by (simp add: frame_from_progress_def kSpriteAnimationFrameCount_def Let_def)
qed

lemma between_up:
  assumes "0 \<le> a" "a \<le> b" "b < 2 ^ 23" "0 \<le> p" "p \<le> 1"
  shows "a \<le> between_pixels a b p \<and> between_pixels a b p \<le> b"
proof -
  have fl: "f32 (of_int a) = of_int a" "f32 (of_int b) = of_int b" "f32 (of_int b - of_int a) = of_int b - of_int a"
    using assms f32_of_int [of a] f32_of_int [of b] f32_of_int [of "b - a"] by auto
  let ?d = "(of_int b - of_int a) * p" and ?w = "of_int b - of_int a :: rat"
  have d: "0 \<le> ?d" "?d \<le> ?w" using assms mult_left_mono [of p 1 ?w] by (simp_all add: mult_nonneg_nonneg)
  then have e: "0 \<le> f32 ?d" "f32 ?d \<le> ?w" using f32_mono [OF d] fl(3) by (auto intro: f32_nonneg)
  have lo: "f32 (of_int a) \<le> f32 (of_int a + f32 ?d)" using assms e by (intro f32_mono) auto
  have hi: "f32 (of_int a + f32 ?d) \<le> f32 (of_int b)" using assms e by (intro f32_mono) auto
  have "a \<le> trunc_rat (f32 (of_int a + f32 ?d)) \<and> trunc_rat (f32 (of_int a + f32 ?d)) \<le> b"
    using trunc_rat_between [OF assms(1) lo [unfolded fl] hi [unfolded fl]] .
  then show ?thesis by (simp add: between_pixels_def fl Let_def)
qed

lemma between_down:
  assumes "0 \<le> b" "b \<le> a" "a < 2 ^ 23" "0 \<le> p" "p \<le> 1"
  shows "b \<le> between_pixels a b p \<and> between_pixels a b p \<le> a"
proof -
  have fl: "f32 (of_int a) = of_int a" "f32 (of_int b) = of_int b" "f32 (of_int a - of_int b) = of_int a - of_int b"
    using assms f32_of_int [of a] f32_of_int [of b] f32_of_int [of "a - b"] by auto
  let ?d = "(of_int a - of_int b) * p" and ?w = "of_int a - of_int b :: rat"
  have d: "0 \<le> ?d" "?d \<le> ?w" using assms mult_left_mono [of p 1 ?w] by (simp_all add: mult_nonneg_nonneg)
  then have e: "0 \<le> f32 ?d" "f32 ?d \<le> ?w" using f32_mono [OF d] fl(3) by (auto intro: f32_nonneg)
  have neg: "f32 (of_int b - of_int a) = - ?w" using f32_minus [of ?w] fl(3) by simp
  have "- ?w * p = - ?d" by (simp add: algebra_simps)
  then have step: "f32 (f32 (of_int b - of_int a) * p) = - f32 ?d" using neg f32_minus [of ?d] by simp
  have nn: "0 \<le> of_int a - f32 ?d" using e assms by (auto simp: algebra_simps intro: order_trans)
  have lo: "f32 (of_int b) \<le> f32 (of_int a - f32 ?d)" using assms e by (intro f32_mono) auto
  have hi: "f32 (of_int a - f32 ?d) \<le> f32 (of_int a)" using nn e by (intro f32_mono) auto
  have "b \<le> trunc_rat (f32 (of_int a - f32 ?d)) \<and> trunc_rat (f32 (of_int a - f32 ?d)) \<le> a"
    using trunc_rat_between [OF assms(1) lo [unfolded fl] hi [unfolded fl]] .
  then show ?thesis by (simp add: between_pixels_def fl step Let_def)
qed

lemma between_pixels_range:
  assumes "0 \<le> a" "0 \<le> b" "a < 2 ^ 23" "b < 2 ^ 23" "0 \<le> p" "p \<le> 1"
  shows "min a b \<le> between_pixels a b p \<and> between_pixels a b p \<le> max a b"
  using between_up [of a b p] between_down [of b a p] assms by (cases "a \<le> b") auto

subsection \<open>Sprites\<close>

lemma in_concat_map: "x \<in> set xs \<Longrightarrow> y \<in> set (f x) \<Longrightarrow> y \<in> set (concat (map f xs))"
  by auto

lemma sprite_key_cached:
  assumes "pv_kind (px_piece ctx) \<noteq> Count"
  shows "sprite_key_of ctx \<in> set sprite_keys"
proof -
  let ?c = "pv_color (px_piece ctx)" and ?k = "pv_kind (px_piece ctx)"
  have "\<exists>frame \<in> set [1..5]. frame = frame_from_progress (px_progress ctx)"
    using frame_in_range [of "px_progress ctx"] by simp
  then have s: "select_sprite ctx \<in> set sprite_frames"
    by (auto simp: select_sprite_def sprite_frames_def kSpriteAnimationFrameCount_def)
  have c: "?c \<in> set [White, Black]" by (cases ?c) auto
  have k: "?k \<in> set [King, Queen, Rook, Bishop, Knight, Pawn]" using assms by (cases ?k) auto
  have key: "sprite_key_of ctx =
      (\<lambda>(state, frame). \<lparr>sk_color = ?c, sk_kind = ?k, sk_state = state, sk_frame = frame\<rparr>) (select_sprite ctx)"
    by (simp add: sprite_key_of_def split_beta Let_def)
  show ?thesis unfolding sprite_keys_def key
    by (rule in_concat_map [OF c], rule in_concat_map [OF k]) (simp only: set_map imageI [OF s])
qed

lemma map_of_map_keys: "k \<in> set ks \<Longrightarrow> map_of (map (\<lambda>k. (k, f k)) ks) k = Some (f k)"
  by (induction ks) auto

subsection \<open>Pieces in a frame\<close>

text \<open>
  \<open>drawn r ops p x y\<close>: among the calls \<open>ops\<close> is one that draws the piece \<open>p\<close> at the pixel \<open>(x, y)\<close>, as
  a sprite or as its two letters where the letters of a piece there belong.
\<close>

definition drawn :: "('i, 'k) renderer \<Rightarrow> draw_op list \<Rightarrow> piece_view \<Rightarrow> int \<Rightarrow> int \<Rightarrow> bool" where
  "drawn r ops p x y \<longleftrightarrow>
     (\<exists>key. DrawSprite key x y \<in> set ops \<and> sk_color key = pv_color p \<and> sk_kind key = pv_kind p) \<or>
     (\<exists>scale color thickness.
        PutText (to_token (pv_color p) (pv_kind p)) (piece_text_x (rr_layout r) x) (piece_text_y (rr_layout r) y)
          scale color thickness \<in> set ops)"

lemma drawn_mono: "drawn r ops p x y \<Longrightarrow> set ops \<subseteq> set ops' \<Longrightarrow> drawn r ops' p x y"
  unfolding drawn_def by blast

lemma draw_piece_drawn: "drawn r (draw_piece is_loaded r ctx x y) (px_piece ctx) x y"
proof -
  have key: "sk_color (sprite_key_of ctx) = pv_color (px_piece ctx)" "sk_kind (sprite_key_of ctx) = pv_kind (px_piece ctx)"
    by (simp_all add: sprite_key_of_def split_beta Let_def)
  show ?thesis
    by (auto simp: draw_piece_def drawn_def Let_def to_token_def key split: option.splits)
qed

lemma static_drawn:
  assumes "row < bv_height view" "col < bv_width view" "board_view_piece_at view row col = Some p"
    and "\<not> board_view_is_move_origin view row col" "\<not> board_view_is_jump_origin view row col"
  shows "drawn r (draw_static_board is_loaded r view) p (cell_origin_x (rr_layout r) col) (cell_origin_y (rr_layout r) row)"
proof -
  let ?x = "cell_origin_x (rr_layout r) col" and ?y = "cell_origin_y (rr_layout r) row"
  obtain ctx where c: "px_piece ctx = p"
    "set (draw_piece is_loaded r ctx ?x ?y) \<subseteq> set (draw_static_cell is_loaded r view (row, col))"
  proof (cases "board_view_is_resting_cell view row col")
    case True
    show ?thesis
      by (rule that [of "\<lparr>px_piece = p, px_moving = False, px_jumping = False, px_resting = True,
          px_rest_kind = board_view_rest_kind_at view row col, px_progress = board_view_rest_progress_at view row col\<rparr>"])
         (use True assms(3-5) in \<open>auto simp: draw_static_cell_def Let_def\<close>)
  next
    case False
    show ?thesis
      by (rule that [of "idle_context p"])
         (use False assms(3-5) in \<open>auto simp: draw_static_cell_def Let_def idle_context_def\<close>)
  qed
  have "(row, col) \<in> set (board_cells (bv_height view) (bv_width view))"
    using assms(1,2) by (auto simp: board_cells_def)
  then have "set (draw_static_cell is_loaded r view (row, col)) \<subseteq> set (draw_static_board is_loaded r view)"
    by (auto simp: draw_static_board_def)
  with c draw_piece_drawn [of r is_loaded ctx ?x ?y] show ?thesis by (auto intro: drawn_mono)
qed

lemma moving_drawn:
  assumes "m \<in> set (as_moves (bv_animations view))"
  shows "drawn r (draw_moving_pieces is_loaded r view) \<lparr>pv_kind = ams_kind m, pv_color = ams_color m\<rparr>
    (between_pixels (cell_origin_x (rr_layout r) (ams_from_col m)) (cell_origin_x (rr_layout r) (ams_to_col m))
       (clamp_unit (ams_progress m)))
    (between_pixels (cell_origin_y (rr_layout r) (ams_from_row m)) (cell_origin_y (rr_layout r) (ams_to_row m))
       (clamp_unit (ams_progress m)))"
proof -
  let ?ctx = "\<lparr>px_piece = \<lparr>pv_kind = ams_kind m, pv_color = ams_color m\<rparr>, px_moving = True, px_jumping = False,
             px_resting = False, px_rest_kind = Short, px_progress = clamp_unit (ams_progress m)\<rparr>"
  show ?thesis
    using assms by (intro drawn_mono [OF draw_piece_drawn [of r is_loaded ?ctx, simplified]])
      (auto simp: draw_moving_pieces_def Let_def)
qed

lemma jumping_drawn:
  assumes "j \<in> set (as_jumps (bv_animations view))"
  shows "drawn r (draw_jumping_pieces is_loaded sine r view) \<lparr>pv_kind = ajs_kind j, pv_color = ajs_color j\<rparr>
    (cell_origin_x (rr_layout r) (ajs_col j)) (cell_origin_y (rr_layout r) (ajs_row j))"
proof -
  let ?ctx = "\<lparr>px_piece = \<lparr>pv_kind = ajs_kind j, pv_color = ajs_color j\<rparr>, px_moving = False, px_jumping = True,
             px_resting = False, px_rest_kind = Short, px_progress = clamp_unit (ajs_progress j)\<rparr>"
  show ?thesis
    using assms by (intro drawn_mono [OF draw_piece_drawn [of r is_loaded ?ctx, simplified]])
      (auto simp: draw_jumping_pieces_def Let_def)
qed

subsection \<open>The view of a game in a frame\<close>

lemma view_of_piece:
  assumes "view_inv g" "game_inv g" "is_in_bounds (gs_board g) row col" "cell_at (gs_board g) row col = Some i"
  shows "board_view_piece_at (view_model g) row col =
    Some \<lparr>pv_kind = pc_kind (piece_of (gs_board g) i), pv_color = pc_color (piece_of (gs_board g) i)\<rparr>"
proof -
  note f = game_inv_flight [OF assms(2)]
  have "pc_state (piece_of (gs_board g) i) = Idle" using flight_cell [OF f assms(3,4)] by simp
  moreover have "valid_id (gs_board g) i" using wf_cell_valid [OF game_inv_wf [OF assms(2)] assms(3,4)] .
  ultimately have "pc_kind (piece_of (gs_board g) i) \<noteq> Count" using assms(1) by (auto simp: view_inv_def Let_def)
  then show ?thesis
    using assms(3,4) by (simp add: view_piece view_of_def token_of_def descriptor_to_token)
qed

lemma view_model_origins:
  "board_view_is_move_origin (view_model g) r c = is_piece_moving g r c"
  "board_view_is_jump_origin (view_model g) r c = is_piece_jumping g r c"
  using view_origins [of g r c]
  by (simp_all add: board_view_is_move_origin_def board_view_is_jump_origin_def received_def received_animations_def
      list_ex_iff)

text \<open>The pixels of the cells of a board of the given size are exact as \<^verbatim>\<open>float\<close>.\<close>

definition pixels_fit :: "board_layout \<Rightarrow> nat \<Rightarrow> nat \<Rightarrow> bool" where
  "pixels_fit l rs cs \<longleftrightarrow> 0 \<le> bl_board_x l \<and> 0 \<le> bl_board_y l \<and> 0 \<le> bl_cell_size l \<and>
     cell_origin_x l cs < 2 ^ 23 \<and> cell_origin_y l rs < 2 ^ 23"

lemma pixels_fit_cell:
  assumes "pixels_fit l rs cs" "row < rs" "col < cs"
  shows "0 \<le> cell_origin_x l col" "cell_origin_x l col < 2 ^ 23" "0 \<le> cell_origin_y l row" "cell_origin_y l row < 2 ^ 23"
proof -
  have "int col * bl_cell_size l \<le> int cs * bl_cell_size l" "int row * bl_cell_size l \<le> int rs * bl_cell_size l"
    using assms by (auto simp: pixels_fit_def intro!: mult_right_mono)
  then show "0 \<le> cell_origin_x l col" "cell_origin_x l col < 2 ^ 23" "0 \<le> cell_origin_y l row" "cell_origin_y l row < 2 ^ 23"
    using assms(1) by (auto simp: pixels_fit_def cell_origin_x_def cell_origin_y_def)
qed

end
