(* ===== verification/Login_Screen.thy ===== *)
theory Login_Screen
  imports Board_Renderer
begin

section \<open>The name typed at the login screen\<close>

text \<open>
  What the keys of \<^verbatim>\<open>Ctd26Renderer::handle_login_key\<close> can build, and what
  \<^verbatim>\<open>parse_login_message\<close> of the server makes of the message the client sends for it. On printable text
  the parser's tokens are the words of the text, so a login is understood exactly when the typed name
  is one word.
\<close>

subsection \<open>Words\<close>

lemma words_dropWhile: "words (dropWhile is_space s) = words s"
  by (induction s) auto

lemma split_word:
  assumes "dropWhile is_space s \<noteq> []"
  obtains w r where "dropWhile is_space s = w @ r" "is_word w" "r = [] \<or> is_space (hd r)" "words s = w # words r"
    "length r < length s"
proof
  let ?d = "dropWhile is_space s"
  let ?w = "takeWhile (\<lambda>c. \<not> is_space c) ?d" and ?r = "dropWhile (\<lambda>c. \<not> is_space c) ?d"
  show e: "?d = ?w @ ?r" by simp
  have "\<not> is_space (hd ?d)" using assms by (rule hd_dropWhile)
  then have ne: "?w \<noteq> []" using assms by (cases ?d) auto
  moreover have "\<forall>c \<in> set ?w. \<not> is_space c" using set_takeWhileD by fast
  ultimately show w: "is_word ?w" unfolding is_word_def by blast
  show r: "?r = [] \<or> is_space (hd ?r)"
  proof (cases "?r = []")
    case False
    from hd_dropWhile [OF this] show ?thesis by simp
  qed simp
  have "words s = words ?d" by (simp add: words_dropWhile)
  also have "\<dots> = words (?w @ ?r)" by simp
  also have "\<dots> = ?w # words ?r" by (rule words_append [OF w r])
  finally show "words s = ?w # words ?r" .
  have "length ?d = length ?w + length ?r" by (metis e length_append)
  then show "length ?r < length s" using ne length_dropWhile_le [of is_space s] by (cases ?w) simp_all
qed

lemma words_all_space: "dropWhile is_space s = [] \<Longrightarrow> words s = []"
  by (metis words_dropWhile words_Nil)

lemma words_two:
  assumes "is_space c"
  shows "words (a @ c # b) = words a @ words b"
proof (induction "length a" arbitrary: a rule: less_induct)
  case less
  show ?case
  proof (cases "dropWhile is_space a = []")
    case True
    then have "dropWhile is_space (a @ c # b) = dropWhile is_space b"
      using assms by (simp add: dropWhile_append dropWhile_eq_Nil_conv)
    then show ?thesis using True words_all_space by (metis append_Nil words_dropWhile)
  next
    case False
    then obtain w r where w: "dropWhile is_space a = w @ r" "is_word w" "r = [] \<or> is_space (hd r)" "words a = w # words r"
      "length r < length a" by (rule split_word)
    have "dropWhile is_space (a @ c # b) = w @ r @ c # b"
    proof -
      obtain x where "x \<in> set a" "\<not> is_space x" using False by (auto simp: dropWhile_eq_Nil_conv)
      from dropWhile_append1 [of x a is_space "c # b", OF this] show ?thesis by (simp add: w(1))
    qed
    then have "words (a @ c # b) = words (w @ r @ c # b)" by (metis words_dropWhile)
    also have "\<dots> = w # words (r @ c # b)" using w(2,3) assms by (intro words_append) (cases r; simp)+
    finally show ?thesis using less [OF w(5)] w(4) by simp
  qed
qed

subsection \<open>Tokens of printable text\<close>

definition printable :: "string \<Rightarrow> bool" where
  "printable s \<longleftrightarrow> (\<forall>c \<in> set s. 32 \<le> (of_char c :: nat) \<and> (of_char c :: nat) \<le> 126)"

lemma printable_simps [simp]:
  "printable []" "printable (c # s) \<longleftrightarrow> 32 \<le> (of_char c :: nat) \<and> (of_char c :: nat) \<le> 126 \<and> printable s"
  "printable (s @ t) \<longleftrightarrow> printable s \<and> printable t"
  by (auto simp: printable_def)

lemma printable_drop: "printable s \<Longrightarrow> printable (dropWhile P s)"
  by (auto simp: printable_def dest: set_dropWhileD)

lemma printable_end: "32 \<le> (of_char c :: nat) \<Longrightarrow> is_token_end c = is_space c"
  by (auto simp: is_token_end_def is_space_def)

lemma next_token_words:
  assumes "printable s"
  shows "words s = [] \<Longrightarrow> next_token s = (None, [])"
    "words s = w # ws \<Longrightarrow> \<exists>r. next_token s = (Some w, r) \<and> words r = ws \<and> printable r"
proof -
  let ?d = "dropWhile is_space s"
  have d: "printable ?d" by (rule printable_drop [OF assms])
  have ends: "is_token_end c = is_space c" if "c \<in> set ?d" for c using d that by (simp add: printable_def printable_end)
  show "next_token s = (None, [])" if "words s = []"
  proof -
    have "?d = []" using split_word [of s] that by (metis list.distinct(1))
    then show ?thesis by (simp only: next_token_def Let_def) simp
  qed
  show "\<exists>r. next_token s = (Some w, r) \<and> words r = ws \<and> printable r" if ws: "words s = w # ws"
  proof -
    have "?d \<noteq> []" using ws words_all_space [of s] by (metis list.distinct(1))
    then obtain v r where v: "?d = v @ r" "is_word v" "r = [] \<or> is_space (hd r)" "words s = v # words r"
      using split_word by metis
    have "is_token_end (hd r)" if "r \<noteq> []" using v(1,3) that ends [of "hd r"] by auto
    then have "next_token (v @ r) = (Some v, r)" using v(2) by (intro next_token_word(1)) auto
    moreover have "next_token s = next_token ?d"
      by (simp add: next_token_def Let_def dropWhile_idem)
    ultimately show ?thesis using v ws d by auto
  qed
qed

lemma words_rstrip: "words (rev (dropWhile is_space (rev s))) = words s"
proof (induction s rule: rev_induct)
  case (snoc c s)
  then show ?case using words_two [of c s "[]"] by simp
qed simp

lemma trim_printable:
  assumes "printable s"
  shows "words (trim s) = words s" "printable (trim s)" "trim s = [] \<longleftrightarrow> words s = []"
proof -
  show w: "words (trim s) = words s" by (simp add: trim_def words_rstrip words_dropWhile)
  show "printable (trim s)"
    using assms by (auto simp: trim_def printable_def dest!: set_dropWhileD)
  show "trim s = [] \<longleftrightarrow> words s = []"
  proof
    assume "words s = []"
    then have d: "dropWhile is_space s = []" using split_word [of s] by (metis list.distinct(1))
    show "trim s = []" unfolding trim_def d by simp
  qed (use w in auto)
qed

definition login_words :: "string list \<Rightarrow> login_request option" where
  "login_words ws =
     (case ws of
        [c, u] \<Rightarrow> if c = ''login'' then Some \<lparr>lr_username = u, lr_password = []\<rparr> else None
      | [c, u, p] \<Rightarrow> if c = ''login'' then Some \<lparr>lr_username = u, lr_password = p\<rparr> else None
      | _ \<Rightarrow> None)"

lemma words_nonempty: "w \<in> set (words s) \<Longrightarrow> w \<noteq> []"
  by (auto dest: words_are_words simp: is_word_def)

lemma parse_login_words:
  assumes "printable m"
  shows "parse_login_message m = login_words (words m)"
proof (cases "words m")
  case Nil
  then show ?thesis using trim_printable(3) [OF assms] by (simp add: parse_login_message_def login_words_def)
next
  case (Cons c ws)
  note t = trim_printable [OF assms]
  obtain m1 where m1: "next_token (trim m) = (Some c, m1)" "words m1 = ws" "printable m1"
    using next_token_words(2) [OF t(2)] t(1) Cons by auto
  show ?thesis
  proof (cases ws)
    case Nil
    then have "next_token m1 = (None, [])" using next_token_words(1) [OF m1(3)] m1(2) by simp
    then show ?thesis using m1(1) t(3) Cons Nil by (simp add: parse_login_message_def login_words_def)
  next
    case (Cons u vs)
    obtain m2 where m2: "next_token m1 = (Some u, m2)" "words m2 = vs" "printable m2"
      using next_token_words(2) [OF m1(3)] m1(2) Cons by auto
    have u: "u \<noteq> []" using words_nonempty [of u m1] m1(2) Cons by simp
    show ?thesis
    proof (cases vs)
      case Nil
      then have "next_token m2 = (None, [])" using next_token_words(1) [OF m2(3)] m2(2) by simp
      then show ?thesis
        using m1(1) m2(1) t(3) u \<open>words m = c # ws\<close> Cons Nil by (simp add: parse_login_message_def login_words_def)
    next
      case (Cons p rest)
      obtain m3 where m3: "next_token m2 = (Some p, m3)" "words m3 = rest" "printable m3"
        using next_token_words(2) [OF m2(3)] m2(2) Cons by auto
      have "fst (next_token m3) = None \<longleftrightarrow> rest = []"
        using next_token_words [OF m3(3)] m3(2) by (cases rest) auto
      then show ?thesis
        using m1(1) m2(1) m3(1) t(3) u \<open>words m = c # ws\<close> \<open>ws = u # vs\<close> Cons
        by (cases rest) (simp_all add: parse_login_message_def login_words_def)
    qed
  qed
qed

subsection \<open>Typing\<close>

lemma typed_key:
  assumes "length u \<le> 32" "printable u"
  shows "length (handle_login_key key u) \<le> 32 \<and> printable (handle_login_key key u)"
proof -
  have "printable (butlast u)" using assms(2) by (auto simp: printable_def dest: in_set_butlastD)
  moreover have "32 \<le> (of_char (char_of (nat (key mod 256))) :: nat) \<and> (of_char (char_of (nat (key mod 256))) :: nat) \<le> 126"
    if "32 \<le> key mod 256" "key mod 256 \<le> 126"
    using that by (simp add: le_nat_iff nat_le_iff)
  ultimately show ?thesis using assms by (auto simp: handle_login_key_def Let_def)
qed

definition typed :: "int list \<Rightarrow> string" where
  "typed keys = foldl (\<lambda>u key. handle_login_key key u) [] keys"

lemma typed_printable: "length (typed keys) \<le> 32 \<and> printable (typed keys)"
  by (induction keys rule: rev_induct) (simp_all add: typed_def typed_key)

lemma login_of_name:
  assumes "printable u" "u \<noteq> []"
  shows "parse_login_message (send_login u u) =
    (case words u of [w] \<Rightarrow> Some \<lparr>lr_username = w, lr_password = w\<rparr> | _ \<Rightarrow> None)"
proof -
  have m: "send_login u u = ''login'' @ CHR '' '' # u @ CHR '' '' # u" using assms(2) by (simp add: send_login_def)
  have p: "printable (send_login u u)" using assms(1) by (simp add: m)
  have "words ''login'' = [''login'']" by code_simp
  then have "words (send_login u u) = ''login'' # words u @ words u"
    unfolding m by (simp add: words_two [of "CHR '' ''"] is_space_def del: append_Cons)
  then show ?thesis
    unfolding parse_login_words [OF p] by (cases "words u"; cases "tl (words u)") (auto simp: login_words_def split: list.splits)
qed

end
