(* ===== verification/Platform_Theorems.thy ===== *)
theory Platform_Theorems
  imports Client_Theorems Redis_Refinement Renderer_Facts Login_Screen
begin

section \<open>Properties of the configuration and of the stores\<close>

text \<open>
  The configuration read from the environment, the endpoints made of it, and the runtime store in
  Redis against the one in memory.
\<close>

subsection \<open>Configuration\<close>

text \<open>
  C37. Ports are what the environment says, or the default. For every environment each of the ten
  ports is exactly the decimal number in its variable when that is between 1 and 65535, however many
  digits it has, and else the default, and so always a valid port; the limits on clients and on
  allocation attempts are never zero.
\<close>

theorem configured_ports:
  "let c = load_config_from_environment env; s = cfg_server c; d = cfg_database c
   in cfs_port s = port_setting env ''KFC_PORT'' 8765 \<and>
      cfs_game_port s = port_setting env ''KFC_GAME_PORT'' 8766 \<and>
      cfs_health_port s = port_setting env ''KFC_HEALTH_PORT'' 8080 \<and>
      cfs_game_health_port s = port_setting env ''KFC_GAME_HEALTH_PORT'' 8081 \<and>
      cfs_game_internal_port s = port_setting env ''KFC_GAME_INTERNAL_PORT'' 8767 \<and>
      cfs_matchmaker_port s = port_setting env ''KFC_MATCHMAKER_PORT'' 8770 \<and>
      cfs_matchmaker_health_port s = port_setting env ''KFC_MATCHMAKER_HEALTH_PORT'' 8772 \<and>
      cfs_gateway_internal_port s = port_setting env ''KFC_GATEWAY_INTERNAL_PORT'' 8771 \<and>
      cfr_port (cfg_redis c) = port_setting env ''KFC_REDIS_PORT'' 6379 \<and>
      cfd_port d = (if env ''KFC_POSTGRES_PORT'' = None \<or> env ''KFC_POSTGRES_PORT'' = Some []
                    then port_setting env ''KFC_DB_PORT'' 5432 else port_setting env ''KFC_POSTGRES_PORT'' 5432) \<and>
      list_all (\<lambda>p. 1 \<le> p \<and> p \<le> 65535)
        [cfs_port s, cfs_game_port s, cfs_health_port s, cfs_game_health_port s, cfs_game_internal_port s,
         cfs_matchmaker_port s, cfs_matchmaker_health_port s, cfs_gateway_internal_port s, cfr_port (cfg_redis c),
         cfd_port d] \<and>
      0 < cfs_max_clients s \<and> 0 < cfs_game_max_clients s \<and> 0 < cfa_allocation_retry_count (cfg_allocation c)"
proof -
  have pos: "0 < or_keep n (env_positive env name)" if "0 < n" for n name
    using that by (auto simp: or_keep_def env_positive_def split: option.splits)
  have unset: "read_environment env name = None \<longleftrightarrow> env name = None \<or> env name = Some []" for name
    by (auto simp: read_environment_def split: option.splits)
  show ?thesis
    using pos port_setting_range
    by (auto simp: load_config_from_environment_def make_default_config_def override_server_config_def
        default_server_config_def override_redis_config_def default_redis_config_def override_database_config_def
        default_database_config_def override_allocation_config_def default_allocation_config_def Let_def
        env_port_exact unset)
qed

lemma server_settings:
  defines "s env \<equiv> cfg_server (load_config_from_environment env)"
  shows "cfs_bind_address (s env) = or_keep ''127.0.0.1'' (read_environment env ''KFC_BIND_ADDRESS'')"
    "cfs_endpoint (s env) = or_keep '''' (read_environment env ''KFC_GAME_ENDPOINT'')"
    "cfs_allocation_endpoint (s env) = or_keep '''' (read_environment env ''KFC_ALLOCATION_ENDPOINT'')"
    "cfs_game_port (s env) = port_setting env ''KFC_GAME_PORT'' 8766"
    "cfs_game_internal_port (s env) = port_setting env ''KFC_GAME_INTERNAL_PORT'' 8767"
  by (simp_all add: s_def load_config_from_environment_def make_default_config_def override_server_config_def
      default_server_config_def env_port_exact)

lemma http_endpoint_read:
  assumes "CHR ''/'' \<notin> set host" "CHR '':'' \<notin> set host"
  shows "parse_endpoint (''http://'' @ host @ '':'' @ show_nat port @ CHR ''/'' # target) path =
    Some \<lparr>pe_host = host, pe_port = show_nat port, pe_target = CHR ''/'' # target\<rparr>"
proof -
  let ?hp = "host @ CHR '':'' # show_nat port"
  have "CHR ''/'' \<notin> set (show_nat port)" using show_nat_digits [of port] by (auto simp: list_all_iff is_digit_def)
  then have hp: "\<forall>c \<in> set ?hp. c \<noteq> CHR ''/''" and h: "\<forall>c \<in> set host. c \<noteq> CHR '':''" using assms by auto
  have "takeWhile (\<lambda>c. c \<noteq> CHR ''/'') (?hp @ CHR ''/'' # target) = ?hp"
    "dropWhile (\<lambda>c. c \<noteq> CHR ''/'') (?hp @ CHR ''/'' # target) = CHR ''/'' # target"
    using hp by (simp_all only: takeWhile_append2 dropWhile_append3) simp_all
  moreover have "takeWhile (\<lambda>c. c \<noteq> CHR '':'') ?hp = host"
    "dropWhile (\<lambda>c. c \<noteq> CHR '':'') ?hp = CHR '':'' # show_nat port"
    using h by (simp_all add: takeWhile_append2 dropWhile_append3)
  ultimately show ?thesis by (simp add: parse_endpoint_def Let_def)
qed

text \<open>
  C38. A game server announces where it listens. When the environment gives no endpoints of its own,
  the endpoint the server publishes for players is read by the client's parser to the configured
  address and game port, and the one for allocation is read by the matchmaker's HTTP client to the
  configured address, internal port and path.
\<close>

theorem announced_endpoints_reachable:
  assumes "read_environment env ''KFC_GAME_ENDPOINT'' = None" "read_environment env ''KFC_ALLOCATION_ENDPOINT'' = None"
    and "host = or_keep ''127.0.0.1'' (read_environment env ''KFC_BIND_ADDRESS'')"
    and "CHR ''/'' \<notin> set host" "CHR '':'' \<notin> set host"
  shows "parse_websocket_endpoint (resolve_game_endpoint (cfg_server (load_config_from_environment env))) =
      Some \<lparr>we_host = host, we_port = port_setting env ''KFC_GAME_PORT'' 8766\<rparr> \<and>
    parse_endpoint (resolve_allocation_endpoint (cfg_server (load_config_from_environment env))) path =
      Some \<lparr>pe_host = host, pe_port = show_nat (port_setting env ''KFC_GAME_INTERNAL_PORT'' 8767),
            pe_target = ''/allocate''\<rparr>"
proof -
  note s = server_settings [of env, unfolded assms(1,2), folded assms(3)]
  have "host \<noteq> []" using assms(3) by (auto simp: or_keep_def read_environment_def split: option.splits if_splits)
  moreover have "0 < port_setting env ''KFC_GAME_PORT'' 8766 \<and> port_setting env ''KFC_GAME_PORT'' 8766 \<le> 65535"
    using port_setting_range [of 8766 env "''KFC_GAME_PORT''"] by simp
  ultimately show ?thesis
    using endpoint_read_back [of host "port_setting env ''KFC_GAME_PORT'' 8766" "''ws://''"]
      http_endpoint_read [OF assms(4,5), of _ "''allocate''" path]
    by (simp add: resolve_game_endpoint_def resolve_allocation_endpoint_def s or_keep_def)
qed

theorem announced_endpoints_reachable_witness:
  "parse_websocket_endpoint (resolve_game_endpoint (cfg_server (load_config_from_environment [''KFC_BIND_ADDRESS'' \<mapsto> ''games'']))) =
     Some \<lparr>we_host = ''games'', we_port = 8766\<rparr>"
proof -
  let ?env = "[''KFC_BIND_ADDRESS'' \<mapsto> ''games'']"
  have "read_environment ?env ''KFC_GAME_ENDPOINT'' = None" "read_environment ?env ''KFC_ALLOCATION_ENDPOINT'' = None"
    "''games'' = or_keep ''127.0.0.1'' (read_environment ?env ''KFC_BIND_ADDRESS'')"
    by (simp_all add: read_environment_def or_keep_def)
  from announced_endpoints_reachable [OF this, of "''/''"] show ?thesis by (simp add: port_setting_def)
qed

text \<open>A number that overflows can pass the overflow check, and a large rating difference turns negative.\<close>

lemma overflow_unnoticed:
  "parse_unsigned ''30000000000000000000'' = Some 11553255926290448384"
  "cfm_max_rating_difference (cfg_matchmaking (load_config_from_environment
     [''KFC_MATCH_MAX_RATING_DIFF'' \<mapsto> ''4294967295''])) = -1"
  by (simp_all add: parse_unsigned_def is_digit_def digit_value_def Let_def load_config_from_environment_def
      override_matchmaking_config_def make_default_config_def default_matchmaking_config_def or_keep_def
      env_positive_def read_environment_def to_int32_def)

subsection \<open>The store in Redis\<close>





subsection \<open>The offline game on the screen\<close>













text \<open>
  C39. Every sprite a frame asks for is in the cache: once the sprites are loaded for a board with
  visible cells, the sprite chosen for any piece in any of its animations, at any progress, has a
  frame from 1 to 5 and an entry that is the image of exactly that key, or the mark that its file
  could not be loaded. Pieces are drawn as letters only for that reason.
\<close>

theorem sprites_always_cached:
  assumes "0 < bl_cell_size (rr_layout r)" "pv_kind (px_piece ctx) \<noteq> Count"
  shows "1 \<le> sk_frame (sprite_key_of ctx) \<and> sk_frame (sprite_key_of ctx) \<le> 5 \<and>
    map_of (rr_piece_sprites (reload_piece_sprites load r)) (sprite_key_of ctx) =
      Some (load_sprite load (rr_theme_config r) (bl_cell_size (rr_layout r)) (sprite_key_of ctx)) \<and>
    (load_sprite load (rr_theme_config r) (bl_cell_size (rr_layout r)) (sprite_key_of ctx) = Some img \<and> is_loaded img \<longrightarrow>
       draw_piece is_loaded (reload_piece_sprites load r) ctx x y = [DrawSprite (sprite_key_of ctx) x y])"
proof -
  have "1 \<le> snd (select_sprite ctx) \<and> snd (select_sprite ctx) \<le> 5"
    using frame_in_range by (simp add: select_sprite_def kSpriteIdleFrame_def)
  then have f: "1 \<le> sk_frame (sprite_key_of ctx) \<and> sk_frame (sprite_key_of ctx) \<le> 5"
    by (simp add: sprite_key_of_def split_beta Let_def)
  have c: "map_of (rr_piece_sprites (reload_piece_sprites load r)) (sprite_key_of ctx) =
      Some (load_sprite load (rr_theme_config r) (bl_cell_size (rr_layout r)) (sprite_key_of ctx))"
    using assms(1) map_of_map_keys [OF sprite_key_cached [OF assms(2)]] by (simp add: reload_piece_sprites_def)
  then show ?thesis using f by (auto simp: draw_piece_def Let_def)
qed

theorem sprites_always_cached_witness:
  "draw_piece (\<lambda>_. True) (reload_piece_sprites (\<lambda>path _. Inr path) (new_renderer\<lparr>rr_layout := empty_layout\<lparr>bl_cell_size := 60\<rparr>\<rparr>))
     (idle_context \<lparr>pv_kind = King, pv_color = White\<rparr>) 0 60 =
   [DrawSprite (sprite_key_of (idle_context \<lparr>pv_kind = King, pv_color = White\<rparr>)) 0 60]"
proof -
  let ?r = "new_renderer\<lparr>rr_layout := empty_layout\<lparr>bl_cell_size := 60\<rparr>\<rparr>" and ?p = "\<lparr>pv_kind = King, pv_color = White\<rparr>"
  have "0 < bl_cell_size (rr_layout ?r)" "pv_kind (px_piece (idle_context ?p)) \<noteq> Count"
    by (simp_all add: idle_context_def)
  from sprites_always_cached [OF this, where load = "\<lambda>path _. Inr path" and is_loaded = "\<lambda>_. True"]
  show ?thesis by (auto simp: load_sprite_def)
qed

text \<open>
  A piece can stand on the board and not be drawn. A rook sets out along its row, a second rook
  arrives on the cell it left while the first is still under way: the view contains the second rook,
  but its cell is the start of a move, so a frame draws its resting time and no piece there.
\<close>

theorem arrived_piece_not_drawn:
  "\<exists>b g. from_token_grid [[''wR'', ''.'', ''.'', ''.''], [''wR'', ''.'', ''.'', ''bK'']] = Inr b \<and>
     foldR apply_action [Select 0 0, MoveSelected 0 3, Select 1 0, MoveSelected 0 0, AdvanceClock 1000]
       (new_game b) = Inr g \<and>
     board_view_piece_at (view_model g) 0 0 = Some \<lparr>pv_kind = Rook, pv_color = White\<rparr> \<and>
     draw_static_cell is_loaded r (view_model g) (0, 0) =
       draw_rest_cooldown_overlay r (cell_origin_x (rr_layout r) 0) (cell_origin_y (rr_layout r) 0)
         (board_view_rest_progress_at (view_model g) 0 0) (board_view_rest_kind_at (view_model g) 0 0)"
proof -
  have "case bindR (from_token_grid [[''wR'', ''.'', ''.'', ''.''], [''wR'', ''.'', ''.'', ''bK'']])
      (\<lambda>b. foldR apply_action [Select 0 0, MoveSelected 0 3, Select 1 0, MoveSelected 0 0, AdvanceClock 1000]
        (new_game b)) of
        Inl _ \<Rightarrow> False
      | Inr g \<Rightarrow> board_view_piece_at (view_model g) 0 0 = Some \<lparr>pv_kind = Rook, pv_color = White\<rparr> \<and>
          bv_selection (view_model g) \<noteq> Some (0, 0) \<and> board_view_is_resting_cell (view_model g) 0 0 \<and>
          board_view_is_move_origin (view_model g) 0 0"
    by code_simp
  then obtain b g where g: "from_token_grid [[''wR'', ''.'', ''.'', ''.''], [''wR'', ''.'', ''.'', ''bK'']] = Inr b"
    "foldR apply_action [Select 0 0, MoveSelected 0 3, Select 1 0, MoveSelected 0 0, AdvanceClock 1000] (new_game b) = Inr g"
    "board_view_piece_at (view_model g) 0 0 = Some \<lparr>pv_kind = Rook, pv_color = White\<rparr>"
    "bv_selection (view_model g) \<noteq> Some (0, 0)" "board_view_is_resting_cell (view_model g) 0 0"
    "board_view_is_move_origin (view_model g) 0 0"
    by (auto simp: bindR_Inr_iff split: sum.splits dest!: bindR_Inr_iff [THEN iffD1, OF sym] simp del: foldR.simps)
  have "draw_static_cell is_loaded r (view_model g) (0, 0) =
      draw_rest_cooldown_overlay r (cell_origin_x (rr_layout r) 0) (cell_origin_y (rr_layout r) 0)
        (board_view_rest_progress_at (view_model g) 0 0) (board_view_rest_kind_at (view_model g) 0 0)"
    using g(4-6) by (simp add: draw_static_cell_def Let_def)
  with g(1-3) show ?thesis by blast
qed

subsection \<open>Logging in from the screen\<close>

text \<open>
  C40. The name typed at the login screen. Whatever keys are pressed, the name has at most 32
  characters, all printable; the login message the client sends for it is understood by the server
  exactly if the name is one word, or empty and replaced by the default name, and the account is
  then that word with itself as the password. A name of two words, which the screen accepts, gives a
  message the server does not understand.
\<close>

theorem typed_name_understood:
  "length (typed keys) \<le> 32 \<and> printable (typed keys) \<and>
   parse_login_message (send_login (resolve_username pid (typed keys)) (resolve_username pid (typed keys))) =
     (if typed keys = [] then Some \<lparr>lr_username = ''Player'' @ show_int pid, lr_password = ''Player'' @ show_int pid\<rparr>
      else case words (typed keys) of [w] \<Rightarrow> Some \<lparr>lr_username = w, lr_password = w\<rparr> | _ \<Rightarrow> None)"
proof -
  have "is_word (''Player'' @ show_int pid)"
    using show_int_word [of pid] by (simp add: is_word_def is_space_def)
  then have "parse_login_message (send_login (''Player'' @ show_int pid) (''Player'' @ show_int pid)) =
      Some \<lparr>lr_username = ''Player'' @ show_int pid, lr_password = ''Player'' @ show_int pid\<rparr>"
    by (intro login_round_trip) auto
  then show ?thesis
    using typed_printable [of keys] login_of_name [of "typed keys"] by (simp add: resolve_username_def)
qed

end
