(* ===== verification/Spec2Isabelle.thy ===== *)
theory Spec2Isabelle
  imports Platform_Theorems
begin

text \<open>
  \<^bold>\<open>Kung Fu Chess: a verification development.\<close>

  The program (sources under \<^verbatim>\<open>src/src\<close>) is a chess game without turns: both players move whenever
  they like, a piece travels for a while, then rests, and jumps in place to dodge. It runs as a
  command-line program over a board file and a list of commands, as a server for many games, split
  into gateway, matchmaker and game servers or as one process, and as a graphical client that plays
  alone or over a network.

  \<^bold>\<open>The parts and their theories, in the order they build on each other.\<close>

  \<^descr>[The game.] \<open>Piece_Token\<close> (\<^verbatim>\<open>model/piece*\<close>), \<open>Board_Model\<close> (\<^verbatim>\<open>model/board_model.cpp\<close>: cells that
  hold piece ids, and the pieces), \<open>Path_Utils\<close> and \<open>Piece_Rules\<close> (\<^verbatim>\<open>rules\<close>: geometry and the legal
  moves of each kind), \<open>Float32\<close> and \<open>Render_Snapshot\<close> (\<^verbatim>\<open>realtime/render_snapshot.h\<close>: the progress of
  an animation in single precision), \<open>Collision_Resolver\<close>, \<open>Move_Scheduler\<close>, \<open>Real_Time_Arbiter\<close>
  (\<^verbatim>\<open>realtime\<close>: moves in flight, jumps, rests and what happens when they end) and \<open>Game_State\<close>
  (\<^verbatim>\<open>logic/game_state.cpp\<close>: select, move, jump, clock). \<open>Game_Theorems\<close> has C1 to C13.

  \<^descr>[Input and output.] \<open>Text_Utils\<close> (words, lines and numbers of the standard streams), \<open>Board_IO\<close>
  (\<^verbatim>\<open>io\<close>: board reader and writer, command file, main program), \<open>Game_Input\<close> (\<^verbatim>\<open>ui/layout\<close>, \<^verbatim>\<open>io\<close>,
  \<^verbatim>\<open>engine\<close>: clicks to actions), \<open>Message_Parser\<close> (\<^verbatim>\<open>server/game_message_parser.cpp\<close> and
  \<^verbatim>\<open>network/network_input_handler.cpp\<close>). \<open>IO_Theorems\<close> has C14 to C18.

  \<^descr>[The server's parts.] \<open>Password_Hasher\<close> (SHA-256, HMAC, PBKDF2), \<open>User_Service\<close> (accounts and
  ratings), \<open>Player_Session\<close>, \<open>Client_Connection\<close> and \<open>Session_Manager\<close> (sessions and sockets),
  \<open>Snapshot_Writer\<close> (\<^verbatim>\<open>ui/view\<close>, \<^verbatim>\<open>server/snapshot_writer.cpp\<close>), \<open>Room\<close>. \<open>Server_Theorems\<close> has C19 to C24.

  \<^descr>[The running server.] \<open>Runtime_Store\<close> (\<^verbatim>\<open>app/in_memory_runtime_store.cpp\<close>, the registry of game
  servers and the allocator), \<open>Matchmaking\<close> (both queues), \<open>Game_Service\<close> (gateways, match creation,
  game results), \<open>Server_Loop\<close> (lobby, joins, input dispatch, rooms and one round of each process),
  \<open>Server_Safety\<close> and \<open>Server_Round\<close> (the invariant of the server and that every part of a round keeps
  it), \<open>Protocol_Codec\<close> and \<open>Remote_Matchmaking\<close> (the matchmaker process and the HTTP calls between the
  processes). \<open>Service_Theorems\<close> has C25 to C29.

  \<^descr>[The client.] \<open>Snapshot_Reader\<close> (\<^verbatim>\<open>network/snapshot_reader.cpp\<close>), \<open>Game_View\<close> (the view as writer and
  reader share it), \<open>Client_Readers\<close> (the other message readers and the endpoints),
  \<open>Websocket_Client\<close> (\<^verbatim>\<open>network/websocket_client.cpp\<close> and the login session), \<open>Client_Gui\<close> and
  \<open>Client_Play\<close> (\<^verbatim>\<open>main_gui.cpp\<close>: input sinks and the rounds of its loops). \<open>Client_Theorems\<close> has C30
  to C34.

  \<^descr>[The platform.] \<open>Config_Loader\<close> (\<^verbatim>\<open>app/config_loader.cpp\<close> and the configuration structs),
  \<open>Redis_Store\<close> (\<^verbatim>\<open>app/redis_runtime_store.cpp\<close>) and \<open>Redis_Refinement\<close>, \<open>Board_Renderer\<close>
  (\<^verbatim>\<open>ui/rendering/ctd26_renderer.cpp\<close>, sprites, assets, fonts and the controller) with \<open>Renderer_Facts\<close>
  and \<open>Login_Screen\<close>. \<open>Platform_Theorems\<close> has C35 to C40.

  \<^bold>\<open>How the code is represented.\<close> A class is a record of its fields, with the fields' names behind a
  short prefix; an enum is a datatype; a member function takes the record and returns it updated.
  What the source would do wrong at run time is a value: \<open>'a result\<close> is \<open>fault + 'a\<close>, where a fault is
  an exception or undefined behaviour (an index out of range, an empty optional that is read, a
  pointer to a freed object); \<open>bindR\<close> and \<open>foldR\<close> sequence such steps and \<open>ensures m Q\<close> says that \<open>m\<close>
  returns and its value satisfies \<open>Q\<close> (all in \<open>Prelude\<close>). Loops are structural recursion or folds.
  Three kinds of loop may run on and are a \<^verbatim>\<open>partial_function\<close> in the option type: the walks along a
  path (C13 proves that the walk returns), the draining of network messages (as long as a peer sends)
  and the SCAN of Redis keys (it returns when the server's cursor comes back to 0, which \<open>redis_serves\<close>
  says). No fuel is used. Hash maps are association lists. Pointers to sessions, rooms and connections
  are ids or addresses, so a dangling pointer is an id that is not found. Sizes and ids
  are natural numbers and wrap where a parser or a cast makes them (\<open>to_size\<close>, \<open>to_int32\<close>, the digit
  loops modulo \<open>2^64\<close>); the 64-bit clock is unbounded; ratings are integers. \<^verbatim>\<open>float\<close> and \<^verbatim>\<open>double\<close>
  are rationals rounded by \<open>f32\<close> and \<open>f64\<close> after every operation.

  \<^bold>\<open>Interfaces.\<close> Contracts between components are locales, each interpreted on the model's own
  definitions: \<open>game_policy\<close> (the \<^verbatim>\<open>GameRules\<close> record of functions that the arbiter calls) and its
  extension \<open>timed_policy\<close> (with durations), \<open>piece_validator\<close> (one per kind of piece),
  \<open>user_repository\<close> (the interface \<^verbatim>\<open>IUserRepository\<close> as authentication uses it), \<open>waiting_line\<close> (both
  matchmaking queues) and \<open>runtime_store_contract\<close> (\<^verbatim>\<open>IRuntimeStore\<close>). Where a provider rests on a
  server outside the sources, a lemma shows that it keeps the contract when that server keeps its
  own promises. Code outside the sources is a parameter: Boost's sockets (\<open>transport\<close>,
  \<open>accept_result\<close>, dialling) and HTTP (\<open>'n http\<close>), the Redis client (\<open>'w redis_command\<close>), the SQL repository of games,
  the image library, \<^verbatim>\<open>std::pow\<close> and \<^verbatim>\<open>std::sin\<close>, the random salt, the environment and the clocks.

  \<^bold>\<open>What the theorems show.\<close> Games (C1 to C13): every sequence of actions is free of faults, conserves
  the pieces, never un-ends a game, settles what is due, implements the specification of an arrival
  and accepts exactly the legal moves. Text (C14 to C18): the readers accept exactly the intended
  inputs and read back what the writers print, and an action the server allows a player spares the
  opponent's pieces. Server parts (C19 to C24): hashing agrees with the standard, accounts and
  sessions behave on every branch, and pruning reads freed memory exactly when a client has gone.
  Running server (C25 to C29): a whole round completes and keeps the invariant unless the acceptor
  throws or a freed connection is read, matches are fair, the matchmaker implements its specification
  and keeps its lines settled, and a call through the network is the local call. Client (C30 to C34):
  what the server writes the client reads back, a click in a network game is the click in a local
  one, the login handshake asks for a game only after it is accepted and a redirect is followed.
  Platform (C35 to C40): the Redis store answers as the one in memory, a local game is drawn without
  fault, configured ports and announced endpoints are usable, every sprite a frame asks for is
  loaded, and a typed name reaches the server.

  \<^bold>\<open>Not modelled.\<close> The SQL and PostgreSQL repositories (sequences of statements given to a
  database; the in-memory implementation behind the same interface is modelled), health, logging and
  metrics, Boost networking itself, threads and sleeping (each process is a sequence of rounds and
  requests), the construction and wiring of the objects in the mains and builders, the window and the
  pixels of the images (a frame is the list of what is drawn), and the recording doubles the tests
  use.
\<close>

end
